(* ===== verification/Prelude.thy ===== *)
theory Prelude
  imports Complex_Main "HOL-Library.AList" "HOL-Library.Sublist"
begin

text \<open>
  Shared vocabulary of the development: Python exceptions as values of a sum type, the
  values that travel through the server as JSON (event payloads, request parameters), the
  dictionary and string operations the source applies to them, and the lemma collections
  the component theories rewrite with.

  Strings are character lists that hold the UTF-8 encoding of the Python string.  Equality,
  concatenation and prefix tests agree with Python's on such lists; \<open>py_len\<close> counts code
  points; \<open>lower\<close> and \<open>strip\<close> treat the ASCII letters and the ASCII white space
  and leave every other character alone.  Python's unbounded integers are \<open>int\<close> and its
  floats are idealised as \<open>real\<close>.
\<close>

named_theorems res_simps \<open>evaluation of the exception monad\<close>
named_theorems dict_simps \<open>lookup after update and delete on dictionaries\<close>

section \<open>Exceptions and results\<close>

text \<open>The exceptions the modelled code raises, with the message where it has one.\<close>

datatype exn =
    KeyError string
  | IndexError
  | TypeError
  | AttributeError
  | DoesNotExist
  | UnboundLocalError
  | ValueError string
  | AssertionError
  | ZeroDivisionError
  | ValidationError string
  | JsonableError string
  | BadEventQueueIdError string
  | RateLimitedError "real option"
  | RateLimiterLockingError
  | HTTPError
  | IncompatibleParametersError "string list"
  | OrganizationAdministratorRequiredError
  | MissingAuthenticationError
  | BadNarrowOperatorError string
  | InvalidOperatorCombinationError string
  | ProgrammingError string
  | IntegrityError
  | RestrictedError
  | ZephyrMessageAlreadySentError int

type_synonym 'a res = "exn + 'a"

fun ebind :: "'a res \<Rightarrow> ('a \<Rightarrow> 'b res) \<Rightarrow> 'b res" where
  "ebind (Inl e) f = Inl e"
| "ebind (Inr x) f = f x"

declare ebind.simps [res_simps]

lemma ebind_Inr_iff [res_simps]:
  "ebind m f = Inr y \<longleftrightarrow> (\<exists>x. m = Inr x \<and> f x = Inr y)"
  by (cases m) auto

lemma ebind_Inl_iff [res_simps]:
  "ebind m f = Inl e \<longleftrightarrow> m = Inl e \<or> (\<exists>x. m = Inr x \<and> f x = Inl e)"
  by (cases m) auto

lemma ebind_cong [fundef_cong]:
  assumes "m = m'" and "\<And>x. m' = Inr x \<Longrightarrow> f x = f' x"
  shows "ebind m f = ebind m' f'"
  using assms by (cases m') auto

text \<open>A Python \<open>assert\<close>.\<close>

definition py_assert :: "bool \<Rightarrow> unit res" where
  "py_assert b = (if b then Inr () else Inl AssertionError)"

lemma assert_simps [simp, res_simps]:
  "py_assert True = Inr ()" "py_assert False = Inl AssertionError"
  by (simp_all add: py_assert_def)

lemma assert_Inr_iff [simp, res_simps]: "py_assert b = Inr u \<longleftrightarrow> b"
  by (cases b) (simp_all add: py_assert_def)

text \<open>A \<open>for\<close> loop whose body may raise, collecting results or folding a state.\<close>

fun emap :: "('a \<Rightarrow> 'b res) \<Rightarrow> 'a list \<Rightarrow> 'b list res" where
  "emap f [] = Inr []"
| "emap f (x # xs) = ebind (f x) (\<lambda>y. ebind (emap f xs) (\<lambda>ys. Inr (y # ys)))"

fun eiter :: "('a \<Rightarrow> unit res) \<Rightarrow> 'a list \<Rightarrow> unit res" where
  "eiter f [] = Inr ()"
| "eiter f (x # xs) = ebind (f x) (\<lambda>_. eiter f xs)"

fun efold :: "('a \<Rightarrow> 's \<Rightarrow> 's res) \<Rightarrow> 'a list \<Rightarrow> 's \<Rightarrow> 's res" where
  "efold f [] s = Inr s"
| "efold f (x # xs) s = ebind (f x s) (efold f xs)"

lemma eiter_Inr_iff [res_simps]: "eiter f xs = Inr u \<longleftrightarrow> (\<forall>x\<in>set xs. f x = Inr ())"
  by (induction xs) (auto simp: res_simps)

lemma eiter_cong [fundef_cong]:
  assumes "xs = ys" and "\<And>x. x \<in> set ys \<Longrightarrow> f x = g x"
  shows "eiter f xs = eiter g ys"
proof -
  have "(\<forall>x\<in>set ys. f x = g x) \<Longrightarrow> eiter f ys = eiter g ys"
    by (induction ys) simp_all
  with assms show ?thesis by simp
qed

lemma emap_Inr_length: "emap f xs = Inr ys \<Longrightarrow> length ys = length xs"
  by (induction xs arbitrary: ys) (auto simp: res_simps)

lemma emap_ok: "(\<And>x. x \<in> set xs \<Longrightarrow> f x = Inr (g x)) \<Longrightarrow> emap f xs = Inr (map g xs)"
  by (induction xs) auto

lemma efold_append [res_simps]: "efold f (xs @ ys) s = ebind (efold f xs s) (efold f ys)"
proof (induction xs arbitrary: s)
  case Nil
  show ?case by simp
next
  case (Cons x xs)
  then show ?case by (cases "f x s") auto
qed

lemma efold_invariant:
  assumes "efold f xs s = Inr s'" and "P s"
    and "\<And>x s s'. x \<in> set xs \<Longrightarrow> P s \<Longrightarrow> f x s = Inr s' \<Longrightarrow> P s'"
  shows "P s'"
  using assms
proof (induction xs arbitrary: s)
  case Nil
  then show ?case by simp
next
  case (Cons x xs)
  from Cons.prems(1) obtain t where t: "f x s = Inr t" "efold f xs t = Inr s'"
    by (auto simp: res_simps)
  from t(1) Cons.prems(2) have "P t" by (auto intro: Cons.prems(3))
  from t(2) this show ?case by (rule Cons.IH) (auto intro: Cons.prems(3))
qed

lemma efold_ok:
  assumes "P s"
    and "\<And>x s. x \<in> set xs \<Longrightarrow> P s \<Longrightarrow> \<exists>s'. f x s = Inr s' \<and> P s'"
  shows "\<exists>s'. efold f xs s = Inr s' \<and> P s'"
  using assms
proof (induction xs arbitrary: s)
  case Nil
  then show ?case by simp
next
  case (Cons x xs)
  from Cons.prems obtain t where "f x s = Inr t" "P t" by (meson list.set_intros(1))
  moreover have "\<exists>s'. efold f xs t = Inr s' \<and> P s'"
    using \<open>P t\<close> by (rule Cons.IH) (auto intro: Cons.prems(2))
  ultimately show ?case by simp
qed

section \<open>Logs\<close>

text \<open>A log that has only grown, by entries that satisfy \<open>P\<close>.\<close>

definition appended :: "('a \<Rightarrow> bool) \<Rightarrow> 'a list \<Rightarrow> 'a list \<Rightarrow> bool" where
  "appended P xs ys \<longleftrightarrow> (\<exists>zs. ys = xs @ zs \<and> (\<forall>z\<in>set zs. P z))"

lemma appended_refl [simp]: "appended P xs xs"
  by (simp add: appended_def)

lemma appended_append [simp]: "appended P xs (xs @ zs) \<longleftrightarrow> (\<forall>z\<in>set zs. P z)"
  by (simp add: appended_def)

lemma appended_trans: "appended P xs ys \<Longrightarrow> appended P ys zs \<Longrightarrow> appended P xs zs"
  unfolding appended_def by (elim exE conjE) auto

lemma appended_mono: "appended P xs ys \<Longrightarrow> (\<And>z. P z \<Longrightarrow> Q z) \<Longrightarrow> appended Q xs ys"
  unfolding appended_def by blast

section \<open>JSON values and dictionaries\<close>

datatype py =
    PNone
  | PBool bool
  | PInt int
  | PFloat real
  | PStr string
  | PList "py list"
  | PDict "(string \<times> py) list"

type_synonym dict = "(string \<times> py) list"

text \<open>
  A Python dictionary keeps its insertion order: an assignment to a present key keeps the
  key's place, to a new key appends it.  That is what \<open>AList.update\<close> does.
\<close>

abbreviation dget :: "(string \<times> 'v) list \<Rightarrow> string \<Rightarrow> 'v option" where
  "dget d k \<equiv> map_of d k"

abbreviation dset :: "string \<Rightarrow> 'v \<Rightarrow> (string \<times> 'v) list \<Rightarrow> (string \<times> 'v) list" where
  "dset k v d \<equiv> AList.update k v d"

abbreviation ddel :: "string \<Rightarrow> (string \<times> 'v) list \<Rightarrow> (string \<times> 'v) list" where
  "ddel k d \<equiv> AList.delete k d"

definition has_key :: "('k \<times> 'v) list \<Rightarrow> 'k \<Rightarrow> bool" where
  "has_key d k \<longleftrightarrow> map_of d k \<noteq> None"

definition getk :: "(string \<times> 'v) list \<Rightarrow> string \<Rightarrow> 'v res" where
  "getk d k = (case map_of d k of None \<Rightarrow> Inl (KeyError k) | Some v \<Rightarrow> Inr v)"

definition get_or :: "('k \<times> 'v) list \<Rightarrow> 'k \<Rightarrow> 'v \<Rightarrow> 'v" where
  "get_or d k dflt = (case map_of d k of None \<Rightarrow> dflt | Some v \<Rightarrow> v)"

lemma has_key_set: "has_key d k \<longleftrightarrow> k \<in> fst ` set d"
  by (simp add: has_key_def map_of_eq_None_iff)

lemma dget_dset [simp, dict_simps]:
  "map_of (AList.update k v d) k' = (if k = k' then Some v else map_of d k')"
  by (simp add: update_conv)

lemma dget_ddel [simp, dict_simps]:
  "map_of (AList.delete k d) k' = (if k = k' then None else map_of d k')"
  by (simp add: delete_conv)

lemma has_key_dset [simp, dict_simps]: "has_key (AList.update k v d) k' \<longleftrightarrow> k = k' \<or> has_key d k'"
  by (simp add: has_key_def)

lemma has_key_ddel [simp, dict_simps]: "has_key (AList.delete k d) k' \<longleftrightarrow> k \<noteq> k' \<and> has_key d k'"
  by (simp add: has_key_def)

lemma getk_dset [simp, dict_simps]:
  "getk (AList.update k v d) k' = (if k = k' then Inr v else getk d k')"
  by (simp add: getk_def)

lemma getk_Inr_iff [res_simps]: "getk d k = Inr v \<longleftrightarrow> map_of d k = Some v"
  by (simp add: getk_def split: option.splits)

lemma getk_Inl_iff [res_simps]: "getk d k = Inl e \<longleftrightarrow> map_of d k = None \<and> e = KeyError k"
  by (auto simp add: getk_def split: option.splits)

text \<open>Python truth of a value.\<close>

fun truthy :: "py \<Rightarrow> bool" where
  "truthy PNone = False"
| "truthy (PBool b) = b"
| "truthy (PInt n) = (n \<noteq> 0)"
| "truthy (PFloat r) = (r \<noteq> 0)"
| "truthy (PStr s) = (s \<noteq> [])"
| "truthy (PList xs) = (xs \<noteq> [])"
| "truthy (PDict d) = (d \<noteq> [])"

text \<open>
  Python equality: booleans and numbers compare by numeric value, dictionaries
  without regard to order.
\<close>

fun py_num :: "py \<Rightarrow> real option" where
  "py_num (PBool b) = Some (if b then 1 else 0)"
| "py_num (PInt n) = Some (of_int n)"
| "py_num (PFloat r) = Some r"
| "py_num _ = None"

fun py_eq :: "py \<Rightarrow> py \<Rightarrow> bool" where
  "py_eq PNone v = (v = PNone)"
| "py_eq (PStr s) v = (v = PStr s)"
| "py_eq (PList xs) v =
     (case v of PList ys \<Rightarrow> list_all2 py_eq xs ys | _ \<Rightarrow> False)"
| "py_eq (PDict d) v =
     (case v of
        PDict d' \<Rightarrow> length d = length d' \<and>
          list_all (\<lambda>kv. case map_of d' (fst kv) of None \<Rightarrow> False | Some w \<Rightarrow> py_eq (snd kv) w) d
      | _ \<Rightarrow> False)"
| "py_eq v w = (py_num w = py_num v)"

text \<open>Entries of a known type: lists, dictionaries, integers, truth values.\<close>

definition list_at :: "dict \<Rightarrow> string \<Rightarrow> py list res" where
  "list_at d k = ebind (getk d k) (\<lambda>v. case v of PList xs \<Rightarrow> Inr xs | _ \<Rightarrow> Inl TypeError)"

lemma list_at_Inr: "map_of d k = Some (PList xs) \<Longrightarrow> list_at d k = Inr xs"
  by (simp add: list_at_def getk_def)

definition dict_at :: "dict \<Rightarrow> string \<Rightarrow> dict res" where
  "dict_at d k = ebind (getk d k) (\<lambda>v. case v of PDict m \<Rightarrow> Inr m | _ \<Rightarrow> Inl TypeError)"

definition int_at :: "dict \<Rightarrow> string \<Rightarrow> int res" where
  "int_at d k = ebind (getk d k) (\<lambda>v. case v of PInt n \<Rightarrow> Inr n | _ \<Rightarrow> Inl TypeError)"

definition text_at :: "dict \<Rightarrow> string \<Rightarrow> string res" where
  "text_at d k = ebind (getk d k) (\<lambda>v. case v of PStr s \<Rightarrow> Inr s | _ \<Rightarrow> Inl TypeError)"

definition as_py_int :: "py \<Rightarrow> int res" where
  "as_py_int v = (case v of PInt n \<Rightarrow> Inr n | _ \<Rightarrow> Inl TypeError)"

definition int_list_at :: "dict \<Rightarrow> string \<Rightarrow> int list res" where
  "int_list_at d k = ebind (list_at d k) (emap as_py_int)"

definition truthy_at :: "dict \<Rightarrow> string \<Rightarrow> bool" where
  "truthy_at d k = truthy (get_or d k (PBool False))"

lemma int_at_Inr [res_simps]: "int_at d k = Inr n \<longleftrightarrow> map_of d k = Some (PInt n)"
proof -
  have "(case v of PInt n \<Rightarrow> Inr n | _ \<Rightarrow> Inl TypeError) = Inr n \<longleftrightarrow> v = PInt n" for v
    by (cases v) simp_all
  then show ?thesis by (simp add: int_at_def res_simps)
qed

lemma text_at_Inr: "text_at d k = Inr t \<longleftrightarrow> map_of d k = Some (PStr t)"
proof -
  have "(case v of PStr s \<Rightarrow> Inr s | _ \<Rightarrow> Inl TypeError) = Inr t \<longleftrightarrow> v = PStr t" for v
    by (cases v) simp_all
  then show ?thesis by (simp add: text_at_def res_simps)
qed

definition as_dict :: "py \<Rightarrow> dict res" where
  "as_dict v = (case v of PDict d \<Rightarrow> Inr d | _ \<Rightarrow> Inl TypeError)"

lemma as_dict_Inr: "as_dict v = Inr d \<longleftrightarrow> v = PDict d"
  by (cases v) (simp_all add: as_dict_def)

lemma emap_Inr_mem: "emap f xs = Inr ys \<Longrightarrow> y \<in> set ys \<Longrightarrow> \<exists>x\<in>set xs. f x = Inr y"
  by (induction xs arbitrary: ys) (auto simp: res_simps)

section \<open>Strings\<close>

definition lower_char :: "char \<Rightarrow> char" where
  "lower_char c =
     (let n = of_char c :: nat in if 65 \<le> n \<and> n \<le> 90 then char_of (n + 32) else c)"

definition lower :: "string \<Rightarrow> string" where
  "lower s = map lower_char s"

definition startswith :: "string \<Rightarrow> string \<Rightarrow> bool" where
  "startswith s p \<longleftrightarrow> take (length p) s = p"

lemma startswith_append [simp]: "startswith (p @ s) p"
  by (simp add: startswith_def)

lemma startswith_iff: "startswith s p \<longleftrightarrow> (\<exists>t. s = p @ t)"
  by (metis append_eq_conv_conj append_take_drop_id startswith_def)

definition is_space :: "char \<Rightarrow> bool" where
  "is_space c \<longleftrightarrow>
     (let n = of_char c :: nat in n = 32 \<or> (9 \<le> n \<and> n \<le> 13) \<or> (28 \<le> n \<and> n \<le> 31))"

definition strip :: "string \<Rightarrow> string" where
  "strip s = rev (dropWhile is_space (rev (dropWhile is_space s)))"

lemma strip_empty_iff: "strip s = [] \<longleftrightarrow> (\<forall>c\<in>set s. is_space c)"
proof -
  have "strip s = [] \<longleftrightarrow> (\<forall>c\<in>set (dropWhile is_space s). is_space c)"
    by (simp add: strip_def dropWhile_eq_Nil_conv)
  also have "\<dots> \<longleftrightarrow> (\<forall>c\<in>set s. is_space c)"
    by (induction s) auto
  finally show ?thesis .
qed

text \<open>Code points of a UTF-8 string: the bytes that are not continuation bytes.\<close>

definition py_len :: "string \<Rightarrow> nat" where
  "py_len s = length (filter (\<lambda>c. let n = of_char c :: nat in \<not> (128 \<le> n \<and> n < 192)) s)"

lemma py_len_le: "py_len s \<le> length s"
  by (simp add: py_len_def)

definition is_digit :: "char \<Rightarrow> bool" where
  "is_digit c \<longleftrightarrow> (let n = of_char c :: nat in 48 \<le> n \<and> n \<le> 57)"

definition digit_val :: "char \<Rightarrow> int" where
  "digit_val c = int (of_char c) - 48"

lemma digit_val_range: "is_digit c \<Longrightarrow> 0 \<le> digit_val c \<and> digit_val c \<le> 9"
  by (auto simp: is_digit_def digit_val_def Let_def)

text \<open>\<open>s.split(c)\<close>\<close>

fun split_on :: "char \<Rightarrow> string \<Rightarrow> string list" where
  "split_on c [] = [[]]"
| "split_on c (x # xs) = (if x = c then [] # split_on c xs
     else (case split_on c xs of w # ws \<Rightarrow> (x # w) # ws | [] \<Rightarrow> [[x]]))"

text \<open>
  \<open>int(s)\<close> on a string: surrounding white space, an optional sign, and digits
  with single underscores between them.
\<close>

fun int_digits :: "int \<Rightarrow> string \<Rightarrow> int option" where
  "int_digits acc [] = None"
| "int_digits acc [c] = (if is_digit c then Some (10 * acc + digit_val c) else None)"
| "int_digits acc (c # c' # cs) =
     (if is_digit c
      then if c' = CHR ''_'' then int_digits (10 * acc + digit_val c) cs
           else int_digits (10 * acc + digit_val c) (c' # cs)
      else None)"

definition py_int :: "string \<Rightarrow> int option" where
  "py_int s =
     (case strip s of
        [] \<Rightarrow> None
      | c # cs \<Rightarrow>
          if c = CHR ''-'' then map_option uminus (int_digits 0 cs)
          else if c = CHR ''+'' then int_digits 0 cs
          else int_digits 0 (c # cs))"

text \<open>Decimal printing, as \<open>str\<close> of an integer and f-strings do.\<close>

fun str_of_nat :: "nat \<Rightarrow> string" where
  "str_of_nat n = (if n < 10 then [char_of (48 + n)]
     else str_of_nat (n div 10) @ [char_of (48 + n mod 10)])"

declare str_of_nat.simps [simp del]

definition str_of_int :: "int \<Rightarrow> string" where
  "str_of_int i = (if i < 0 then ''-'' @ str_of_nat (nat (- i)) else str_of_nat (nat i))"

fun join :: "string \<Rightarrow> string list \<Rightarrow> string" where
  "join sep [] = []"
| "join sep [s] = s"
| "join sep (s # ss) = s @ sep @ join sep ss"

end
