(* ===== verification/Validators.thy ===== *)
theory Validators
  imports Prelude
begin

text \<open>
  The request validators of \<^verbatim>\<open>zerver/lib/validator.py\<close>.  A validator takes the name
  used in messages and a value; it returns the value or raises.  \<open>check_list\<close>,
  \<open>check_dict\<close>, \<open>check_union\<close> and \<open>check_none_or\<close> build validators from
  validators.  The locale \<open>validator\<close> is the contract the module's header states for all
  of them: a validator that returns hands back its input, and one that refuses raises
  \<open>ValidationError\<close>.  Every combinator is shown to keep the contract, and the locale is
  interpreted on the primitive validators and on the composed ones the server uses.

  Django's \<open>URLValidator\<close>, the time zone database, \<open>strptime\<close> and the JSON parser
  are parameters of the definitions that call them.
\<close>

type_synonym 'a check = "string \<Rightarrow> py \<Rightarrow> 'a res"

abbreviation dq :: string where "dq \<equiv> [CHR 0x22]"
abbreviation invalid :: "string \<Rightarrow> 'a res" where "invalid m \<equiv> Inl (ValidationError m)"

section \<open>Primitive validators\<close>

definition check_anything :: "py check" where
  "check_anything var_name val = Inr val"

definition check_string :: "py check" where
  "check_string var_name val =
     (case val of PStr s \<Rightarrow> Inr val | _ \<Rightarrow> invalid (var_name @ '' is not a string''))"

text \<open>The continuation of \<open>s = check_string(var_name, val)\<close>.\<close>

definition on_string :: "string \<Rightarrow> py \<Rightarrow> (string \<Rightarrow> py res) \<Rightarrow> py res" where
  "on_string var_name val f =
     ebind (check_string var_name val) (\<lambda>s. case s of PStr t \<Rightarrow> f t | _ \<Rightarrow> Inl TypeError)"

definition check_required_string :: "py check" where
  "check_required_string var_name val = on_string var_name val (\<lambda>s.
     if strip s = [] then invalid (var_name @ '' cannot be blank.'') else Inr val)"

definition check_string_in :: "string list \<Rightarrow> py check" where
  "check_string_in possible_values var_name val = on_string var_name val (\<lambda>s.
     if s \<notin> set possible_values then invalid (''Invalid '' @ var_name) else Inr val)"

definition check_capped_string :: "nat \<Rightarrow> py check" where
  "check_capped_string max_length var_name val = on_string var_name val (\<lambda>s.
     if py_len s > max_length
     then invalid (var_name @ '' is too long (limit: '' @ str_of_nat max_length @ '' characters)'')
     else Inr val)"

definition check_short_string :: "py check" where
  "check_short_string = check_capped_string 50"

definition check_string_fixed_length :: "nat \<Rightarrow> py check" where
  "check_string_fixed_length len var_name val = on_string var_name val (\<lambda>s.
     if py_len s \<noteq> len
     then invalid (var_name @ '' has incorrect length '' @ str_of_nat (py_len s)
       @ ''; should be '' @ str_of_nat len)
     else Inr val)"

definition check_long_string :: "py check" where
  "check_long_string = check_capped_string 500"

definition check_timezone :: "(string \<Rightarrow> bool) \<Rightarrow> py check" where
  \<comment> \<open>\<open>known_zone s\<close>: \<open>zoneinfo.ZoneInfo(canonicalize_timezone(s))\<close> does not raise\<close>
  "check_timezone known_zone var_name val = on_string var_name val (\<lambda>s.
     if known_zone s then Inr val
     else invalid (var_name @ '' is not a recognized time zone''))"

definition check_date :: "(string \<Rightarrow> string option) \<Rightarrow> py check" where
  \<comment> \<open>\<open>reformat s\<close>: \<open>strptime\<close> then \<open>strftime\<close> with \<open>%Y-%m-%d\<close>,
      \<open>None\<close> where \<open>strptime\<close> raises \<open>ValueError\<close>\<close>
  "check_date reformat var_name val =
     (case val of
        PStr s \<Rightarrow>
          (case reformat s of
             None \<Rightarrow> invalid (var_name @ '' is not a date'')
           | Some s' \<Rightarrow> if s' \<noteq> s then invalid (var_name @ '' is not a date'') else Inr val)
      | _ \<Rightarrow> invalid (var_name @ '' is not a string''))"

text \<open>
  \<open>isinstance(val, int)\<close> holds for booleans too: \<open>bool\<close> is a subclass of
  \<open>int\<close>, and \<open>True\<close> compares as 1.
\<close>

fun as_int :: "py \<Rightarrow> int option" where
  "as_int (PInt n) = Some n"
| "as_int (PBool b) = Some (if b then 1 else 0)"
| "as_int _ = None"

definition check_int :: "py check" where
  "check_int var_name val =
     (case as_int val of None \<Rightarrow> invalid (var_name @ '' is not an integer'') | Some _ \<Rightarrow> Inr val)"

definition on_int :: "string \<Rightarrow> py \<Rightarrow> (int \<Rightarrow> py res) \<Rightarrow> py res" where
  "on_int var_name val f =
     ebind (check_int var_name val) (\<lambda>n. case as_int n of Some i \<Rightarrow> f i | None \<Rightarrow> Inl TypeError)"

definition check_int_in :: "int list \<Rightarrow> py check" where
  "check_int_in possible_values var_name val = on_int var_name val (\<lambda>n.
     if n \<notin> set possible_values then invalid (''Invalid '' @ var_name) else Inr val)"

definition check_int_range :: "int \<Rightarrow> int \<Rightarrow> py check" where
  "check_int_range low high var_name val = on_int var_name val (\<lambda>n.
     if n < low then invalid (var_name @ '' is too small'')
     else if n > high then invalid (var_name @ '' is too large'')
     else Inr val)"

definition check_float :: "py check" where
  "check_float var_name val =
     (case val of PFloat _ \<Rightarrow> Inr val | _ \<Rightarrow> invalid (var_name @ '' is not a float''))"

definition check_bool :: "py check" where
  "check_bool var_name val =
     (case val of PBool _ \<Rightarrow> Inr val | _ \<Rightarrow> invalid (var_name @ '' is not a boolean''))"

definition is_hex :: "char \<Rightarrow> bool" where
  "is_hex c \<longleftrightarrow> is_digit c \<or>
     (let n = of_char c :: nat in (65 \<le> n \<and> n \<le> 70) \<or> (97 \<le> n \<and> n \<le> 102))"

text \<open>
  \<open>re.match\<close> of \<^verbatim>\<open>^#([a-fA-F0-9]{3,6})$\<close>: \<open>$\<close> matches at the end and also
  before a newline that ends the string.
\<close>

definition chop_newline :: "string \<Rightarrow> string" where
  "chop_newline s = (if s \<noteq> [] \<and> last s = CHR 0x0A then butlast s else s)"

definition color_match :: "string \<Rightarrow> bool" where
  "color_match s =
     (case chop_newline s of
        [] \<Rightarrow> False
      | c # hs \<Rightarrow> c = CHR ''#'' \<and> list_all is_hex hs \<and> 3 \<le> length hs \<and> length hs \<le> 6)"

definition check_color :: "py check" where
  "check_color var_name val = on_string var_name val (\<lambda>s.
     if \<not> color_match s then invalid (var_name @ '' is not a valid hex color code'') else Inr val)"

definition check_none_or :: "py check \<Rightarrow> py check" where
  "check_none_or sub_validator var_name val =
     (if val = PNone then Inr val else sub_validator var_name val)"

section \<open>Combinators\<close>

fun check_items :: "py check \<Rightarrow> string \<Rightarrow> nat \<Rightarrow> py list \<Rightarrow> unit res" where
  "check_items sub_validator var_name i [] = Inr ()"
| "check_items sub_validator var_name i (item # items) =
     ebind (sub_validator (var_name @ ''['' @ str_of_nat i @ '']'') item) (\<lambda>valid_item.
     ebind (py_assert (valid_item = item)) (\<lambda>_.
     check_items sub_validator var_name (Suc i) items))"

definition check_list :: "py check \<Rightarrow> nat option \<Rightarrow> py check" where
  "check_list sub_validator len var_name val =
     (case val of
        PList xs \<Rightarrow>
          (case len of
             Some n \<Rightarrow>
               if n \<noteq> length xs
               then invalid (var_name @ '' should have exactly '' @ str_of_nat n @ '' items'')
               else ebind (check_items sub_validator var_name 0 xs) (\<lambda>_. Inr val)
           | None \<Rightarrow> ebind (check_items sub_validator var_name 0 xs) (\<lambda>_. Inr val))
      | _ \<Rightarrow> invalid (var_name @ '' is not a list''))"

type_synonym key_checks = "(string \<times> py check) list"

definition key_var :: "string \<Rightarrow> string \<Rightarrow> string" where
  "key_var var_name k = var_name @ ''['' @ dq @ k @ dq @ '']''"

definition check_required_key :: "string \<Rightarrow> dict \<Rightarrow> string \<times> py check \<Rightarrow> unit res" where
  "check_required_key var_name d kv =
     (case map_of d (fst kv) of
        None \<Rightarrow> invalid (fst kv @ '' key is missing from '' @ var_name)
      | Some x \<Rightarrow> ebind (snd kv (key_var var_name (fst kv)) x) (\<lambda>_. Inr ()))"

definition check_optional_key :: "string \<Rightarrow> dict \<Rightarrow> string \<times> py check \<Rightarrow> unit res" where
  "check_optional_key var_name d kv =
     (case map_of d (fst kv) of
        None \<Rightarrow> Inr ()
      | Some x \<Rightarrow> ebind (snd kv (key_var var_name (fst kv)) x) (\<lambda>_. Inr ()))"

definition check_value :: "py check \<Rightarrow> string \<Rightarrow> dict \<Rightarrow> string \<Rightarrow> unit res" where
  "check_value value_validator var_name d k =
     ebind (getk d k) (\<lambda>x.
     ebind (value_validator (var_name @ '' contains a value that'') x) (\<lambda>valid_value.
     py_assert (x = valid_value)))"

definition check_dict :: "key_checks \<Rightarrow> key_checks \<Rightarrow> py check option \<Rightarrow> bool \<Rightarrow> py check" where
  "check_dict required_keys optional_keys value_validator allow_only_listed_keys var_name val =
     (case val of
        PDict d \<Rightarrow>
          ebind (eiter (\<lambda>k. ebind (check_string (var_name @ '' key'') (PStr k)) (\<lambda>_. Inr ()))
                  (map fst d)) (\<lambda>_.
          ebind (eiter (check_required_key var_name d) required_keys) (\<lambda>_.
          ebind (eiter (check_optional_key var_name d) optional_keys) (\<lambda>_.
          ebind (case value_validator of
                   None \<Rightarrow> Inr ()
                 | Some vv \<Rightarrow> eiter (check_value vv var_name d) (map fst d)) (\<lambda>_.
          let delta_keys = filter (\<lambda>k. k \<notin> set (map fst required_keys)
                                      \<and> k \<notin> set (map fst optional_keys)) (map fst d)
          in if allow_only_listed_keys \<and> delta_keys \<noteq> []
             then invalid (''Unexpected arguments: '' @ join '', '' (remdups delta_keys))
             else Inr val))))
      | _ \<Rightarrow> invalid (var_name @ '' is not a dict''))"

definition check_dict_only :: "key_checks \<Rightarrow> key_checks \<Rightarrow> py check" where
  "check_dict_only required_keys optional_keys = check_dict required_keys optional_keys None True"

fun check_union :: "py check list \<Rightarrow> py check" where
  "check_union [] var_name val = invalid (var_name @ '' is not an allowed_type'')"
| "check_union (func # funcs) var_name val =
     (case func var_name val of
        Inr x \<Rightarrow> Inr x
      | Inl (ValidationError _) \<Rightarrow> check_union funcs var_name val
      | Inl e \<Rightarrow> Inl e)"

definition equals :: "(py \<Rightarrow> string) \<Rightarrow> py \<Rightarrow> py check" where
  \<comment> \<open>\<open>fmt\<close>: \<open>str.format\<close> of a value, used in the message only\<close>
  "equals fmt expected_val var_name val =
     (if \<not> py_eq val expected_val
      then invalid (var_name @ '' != '' @ fmt expected_val @ '' ('' @ fmt val @ '' is wrong)'')
      else Inr val)"


section \<open>URLs and profile fields\<close>

text \<open>\<open>str.count\<close> and \<open>str.replace\<close>: non-overlapping occurrences from the left.\<close>

function count_sub :: "string \<Rightarrow> string \<Rightarrow> nat" where
  "count_sub p s =
     (if p = [] \<or> s = [] then 0
      else if startswith s p then Suc (count_sub p (drop (length p) s))
      else count_sub p (tl s))"
  by pat_completeness auto
termination
  by (relation "measure (\<lambda>(p, s). length s)") auto

function replace_sub :: "string \<Rightarrow> string \<Rightarrow> string \<Rightarrow> string" where
  "replace_sub p r s =
     (if p = [] \<or> s = [] then s
      else if startswith s p then r @ replace_sub p r (drop (length p) s)
      else hd s # replace_sub p r (tl s))"
  by pat_completeness auto
termination
  by (relation "measure (\<lambda>(p, r, s). length s)") auto

declare count_sub.simps [simp del] replace_sub.simps [simp del]

definition check_url :: "(string \<Rightarrow> bool) \<Rightarrow> py check" where
  "check_url url_ok var_name val = on_string var_name val (\<lambda>s.
     if url_ok s then Inr val else invalid (var_name @ '' is not a URL''))"

definition check_capped_url :: "(string \<Rightarrow> bool) \<Rightarrow> nat \<Rightarrow> py check" where
  "check_capped_url url_ok max_length var_name val =
     ebind (check_capped_string max_length var_name val) (\<lambda>v.
     on_string var_name v (\<lambda>s.
       if url_ok s then Inr v else invalid (var_name @ '' is not a URL'')))"

definition check_external_account_url_pattern :: "(string \<Rightarrow> bool) \<Rightarrow> py check" where
  "check_external_account_url_pattern url_ok var_name val = on_string var_name val (\<lambda>s.
     if count_sub ''%(username)s'' s \<noteq> 1
     then invalid (''URL pattern must contain '' @ [CHR 0x27] @ ''%(username)s'' @ [CHR 0x27] @ ''.'')
     else ebind (check_url url_ok var_name (PStr (replace_sub ''%(username)s'' ''username'' s)))
            (\<lambda>_. Inr val))"

definition select_option_checker :: "py check" where
  "select_option_checker =
     check_dict_only [(''text'', check_required_string), (''order'', check_required_string)] []"

fun check_select_options :: "dict \<Rightarrow> py list \<Rightarrow> py list res" where
  "check_select_options [] distinct_field_names = Inr distinct_field_names"
| "check_select_options ((key, value) # rest) distinct_field_names =
     (if strip key = []
      then invalid ([CHR 0x27] @ ''value'' @ [CHR 0x27] @ '' cannot be blank.'')
      else ebind (select_option_checker ''field_data'' value) (\<lambda>valid_value.
           ebind (py_assert (value = valid_value)) (\<lambda>_.
           ebind (case valid_value of PDict d \<Rightarrow> getk d ''text'' | _ \<Rightarrow> Inl TypeError) (\<lambda>text.
           check_select_options rest (List.insert text distinct_field_names)))))"

definition validate_select_field_data :: "dict \<Rightarrow> dict res" where
  "validate_select_field_data field_data =
     ebind (check_select_options field_data []) (\<lambda>distinct_field_names.
     if length field_data \<noteq> length distinct_field_names
     then invalid ''Field must not have duplicate choices.''
     else Inr field_data)"

text \<open>\<open>s in container\<close> for the values a JSON document can be.\<close>

fun py_contains :: "py \<Rightarrow> string \<Rightarrow> bool res" where
  "py_contains (PDict d) s = Inr (has_key d s)"
| "py_contains (PList xs) s = Inr (PStr s \<in> set xs)"
| "py_contains (PStr t) s = Inr (sublist s t)"
| "py_contains _ s = Inl TypeError"

definition validate_select_field :: "(string \<Rightarrow> py res) \<Rightarrow> string \<Rightarrow> string \<Rightarrow> py \<Rightarrow> py res" where
  \<comment> \<open>\<open>loads\<close>: \<open>orjson.loads\<close>\<close>
  "validate_select_field loads var_name field_data val = on_string var_name val (\<lambda>s.
     ebind (loads field_data) (\<lambda>field_data_dict.
     ebind (py_contains field_data_dict s) (\<lambda>present.
     if \<not> present
     then invalid ([CHR 0x27] @ s @ [CHR 0x27] @ '' is not a valid choice for '' @ [CHR 0x27]
       @ var_name @ [CHR 0x27] @ ''.'')
     else Inr val)))"

section \<open>Widgets\<close>

definition zform_choices_checker :: "(py \<Rightarrow> string) \<Rightarrow> py check" where
  "zform_choices_checker fmt =
     check_dict
       [(''type'', equals fmt (PStr ''choices'')),
        (''heading'', check_string),
        (''choices'', check_list (check_dict
           [(''short_name'', check_string), (''long_name'', check_string), (''reply'', check_string)]
           [] None False) None)]
       [] None False"

text \<open>\<open>"..." + v\<close>: concatenation raises \<open>TypeError\<close> unless the value is a string.\<close>

fun str_concat :: "string \<Rightarrow> py \<Rightarrow> string res" where
  "str_concat s (PStr t) = Inr (s @ t)"
| "str_concat s _ = Inl TypeError"

definition check_widget_content :: "(py \<Rightarrow> string) \<Rightarrow> py \<Rightarrow> py res" where
  "check_widget_content fmt widget_content =
     (case widget_content of
        PDict w \<Rightarrow>
          (case map_of w ''widget_type'' of
             None \<Rightarrow> invalid ''widget_type is not in widget_content''
           | Some widget_type \<Rightarrow>
          (case map_of w ''extra_data'' of
             None \<Rightarrow> invalid ''extra_data is not in widget_content''
           | Some extra_data \<Rightarrow>
          (case extra_data of
             PDict x \<Rightarrow>
               (if widget_type = PStr ''zform''
                then (case map_of x ''type'' of
                        None \<Rightarrow> invalid ''zform is missing type field''
                      | Some t \<Rightarrow>
                          if t = PStr ''choices''
                          then ebind (zform_choices_checker fmt ''extra_data'' extra_data)
                                 (\<lambda>_. Inr widget_content)
                          else ebind (str_concat ''unknown zform type: '' t) invalid)
                else ebind (str_concat ''unknown widget type: '' widget_type) invalid)
           | _ \<Rightarrow> invalid ''extra_data is not a dict'')))
      | _ \<Rightarrow> invalid ''widget_content is not a dict'')"

definition MAX_IDX :: int where "MAX_IDX = 1000"

definition typed_dict :: "py check" where
  "typed_dict = check_dict [(''type'', check_string)] [] None False"

definition poll_vote_checker :: "py check" where
  "poll_vote_checker = check_dict_only
     [(''type'', check_string), (''key'', check_string), (''vote'', check_int_in [1, -1])] []"

definition poll_question_checker :: "py check" where
  "poll_question_checker =
     check_dict_only [(''type'', check_string), (''question'', check_string)] []"

definition poll_option_checker :: "py check" where
  "poll_option_checker = check_dict_only
     [(''type'', check_string), (''option'', check_string),
      (''idx'', check_int_range 0 MAX_IDX)] []"

definition validate_poll_data :: "py \<Rightarrow> bool \<Rightarrow> unit res" where
  "validate_poll_data poll_data is_widget_author =
     ebind (typed_dict ''poll data'' poll_data) (\<lambda>_.
     case poll_data of
       PDict d \<Rightarrow> ebind (getk d ''type'') (\<lambda>t.
         if t = PStr ''vote''
         then ebind (poll_vote_checker ''poll data'' poll_data) (\<lambda>_. Inr ())
         else if t = PStr ''question''
         then if \<not> is_widget_author
              then invalid (''You can'' @ [CHR 0x27] @ ''t edit a question unless you are the author.'')
              else ebind (poll_question_checker ''poll data'' poll_data) (\<lambda>_. Inr ())
         else if t = PStr ''new_option''
         then ebind (poll_option_checker ''poll data'' poll_data) (\<lambda>_. Inr ())
         else ebind (str_concat ''Unknown type for poll data: '' t) invalid)
     | _ \<Rightarrow> Inl AssertionError)"

definition todo_task_checker :: "py check" where
  "todo_task_checker = check_dict_only
     [(''type'', check_string), (''key'', check_int_range 0 MAX_IDX), (''task'', check_string),
      (''desc'', check_string), (''completed'', check_bool)] []"

definition todo_strike_checker :: "py check" where
  "todo_strike_checker = check_dict_only [(''type'', check_string), (''key'', check_string)] []"

definition todo_title_checker :: "py check" where
  "todo_title_checker = check_dict_only [(''type'', check_string), (''title'', check_string)] []"

definition validate_todo_data :: "py \<Rightarrow> bool \<Rightarrow> unit res" where
  "validate_todo_data todo_data is_widget_author =
     ebind (typed_dict ''todo data'' todo_data) (\<lambda>_.
     case todo_data of
       PDict d \<Rightarrow> ebind (getk d ''type'') (\<lambda>t.
         if t = PStr ''new_task''
         then ebind (todo_task_checker ''todo data'' todo_data) (\<lambda>_. Inr ())
         else if t = PStr ''strike''
         then ebind (todo_strike_checker ''todo data'' todo_data) (\<lambda>_. Inr ())
         else if t = PStr ''new_task_list_title''
         then if \<not> is_widget_author
              then invalid (''You can'' @ [CHR 0x27]
                @ ''t edit the task list title unless you are the author.'')
              else ebind (todo_title_checker ''todo data'' todo_data) (\<lambda>_. Inr ())
         else ebind (str_concat ''Unknown type for todo data: '' t) invalid)
     | _ \<Rightarrow> Inl AssertionError)"

section \<open>Converters\<close>

definition to_non_negative_int :: "string \<Rightarrow> string \<Rightarrow> int \<Rightarrow> int res" where
  "to_non_negative_int var_name s max_int_size =
     (case py_int s of
        None \<Rightarrow> Inl (ValueError ''invalid literal for int() with base 10'')
      | Some x \<Rightarrow>
          if x < 0 then Inl (ValueError ''argument is negative'')
          else if x > max_int_size
          then Inl (ValueError (str_of_int x @ '' is too large (max '' @ str_of_int max_int_size @ '')''))
          else Inr x)"

definition check_string_or_int_list :: "py check" where
  "check_string_or_int_list var_name val =
     (case val of
        PStr _ \<Rightarrow> Inr val
      | PList _ \<Rightarrow> check_list check_int None var_name val
      | _ \<Rightarrow> invalid (var_name @ '' is not a string or an integer list''))"

definition check_string_or_int :: "py check" where
  "check_string_or_int var_name val =
     (case val of
        PStr _ \<Rightarrow> Inr val
      | PInt _ \<Rightarrow> Inr val
      | PBool _ \<Rightarrow> Inr val
      | _ \<Rightarrow> invalid (var_name @ '' is not a string or integer''))"

section \<open>Wild values\<close>

text \<open>
  \<open>WildValue\<close> wraps a parsed JSON value with the name it has in messages.  The class
  of the Python object (\<open>WildValueList\<close>, \<open>WildValueDict\<close>, plain) is determined by
  the value \<open>wrap_wild_value\<close> got, so the operations dispatch on the value.
\<close>

record wild =
  var_name :: string
  wvalue :: py

definition wrap_wild_value :: "string \<Rightarrow> py \<Rightarrow> wild" where
  "wrap_wild_value n v = \<lparr>var_name = n, wvalue = v\<rparr>"

definition to_wild_value :: "(string \<Rightarrow> py option) \<Rightarrow> string \<Rightarrow> string \<Rightarrow> wild res" where
  \<comment> \<open>\<open>loads\<close>: \<open>orjson.loads\<close>, \<open>None\<close> where it raises \<open>JSONDecodeError\<close>\<close>
  "to_wild_value loads n inp =
     (case loads inp of
        None \<Rightarrow> Inl (JsonableError ''Malformed JSON'')
      | Some v \<Rightarrow> Inr (wrap_wild_value n v))"

definition wild_truth :: "wild \<Rightarrow> bool" where
  "wild_truth w = truthy (wvalue w)"

definition wild_len :: "wild \<Rightarrow> nat res" where
  "wild_len w =
     (case wvalue w of
        PDict d \<Rightarrow> Inr (length d)
      | PList xs \<Rightarrow> Inr (length xs)
      | PStr s \<Rightarrow> Inr (py_len s)
      | _ \<Rightarrow> invalid (var_name w @ '' does not have a length''))"

definition need_list :: "wild \<Rightarrow> 'a res" where
  "need_list w = invalid (var_name w @ '' is not a list'')"

definition need_dict :: "wild \<Rightarrow> 'a res" where
  "need_dict w = invalid (var_name w @ '' is not a dict'')"

definition index_var :: "wild \<Rightarrow> string \<Rightarrow> string" where
  "index_var w k = var_name w @ ''['' @ k @ '']''"

text \<open>\<open>repr\<close> of a key that needs no escape: the key between apostrophes.\<close>

definition repr_key :: "string \<Rightarrow> string" where
  "repr_key k = [CHR 0x27] @ k @ [CHR 0x27]"

definition wild_iter :: "wild \<Rightarrow> wild list res" where
  "wild_iter w =
     (case wvalue w of
        PList xs \<Rightarrow> Inr (map (\<lambda>(i, item). wrap_wild_value (index_var w (str_of_nat i)) item)
                          (List.enumerate 0 xs))
      | _ \<Rightarrow> need_list w)"

definition wild_contains :: "wild \<Rightarrow> string \<Rightarrow> bool res" where
  "wild_contains w k = (case wvalue w of PDict d \<Rightarrow> Inr (has_key d k) | _ \<Rightarrow> need_dict w)"

text \<open>Integer subscripts count from the end when negative.\<close>

definition wild_index :: "wild \<Rightarrow> int \<Rightarrow> wild res" where
  "wild_index w i =
     (case wvalue w of
        PList xs \<Rightarrow>
          (let n = index_var w (str_of_int i); j = (if i < 0 then int (length xs) + i else i)
           in if 0 \<le> j \<and> j < int (length xs)
              then Inr (wrap_wild_value n (xs ! nat j))
              else invalid (n @ '' is missing''))
      | _ \<Rightarrow> need_list w)"

definition wild_key :: "wild \<Rightarrow> string \<Rightarrow> wild res" where
  "wild_key w k =
     (case wvalue w of
        PDict d \<Rightarrow>
          (let n = index_var w (repr_key k)
           in case map_of d k of
                None \<Rightarrow> invalid (n @ '' is missing'')
              | Some item \<Rightarrow> Inr (wrap_wild_value n item))
      | _ \<Rightarrow> need_dict w)"

definition wild_get :: "wild \<Rightarrow> string \<Rightarrow> py \<Rightarrow> wild res" where
  "wild_get w k dflt =
     (case wvalue w of
        PDict d \<Rightarrow> Inr (wrap_wild_value (index_var w (repr_key k)) (get_or d k dflt))
      | _ \<Rightarrow> need_dict w)"

definition wild_keys :: "wild \<Rightarrow> string list res" where
  "wild_keys w = (case wvalue w of PDict d \<Rightarrow> Inr (map fst d) | _ \<Rightarrow> need_dict w)"

definition wild_items :: "wild \<Rightarrow> (string \<times> wild) list res" where
  "wild_items w =
     (case wvalue w of
        PDict d \<Rightarrow> Inr (map (\<lambda>(k, v). (k, wrap_wild_value (index_var w (repr_key k)) v)) d)
      | _ \<Rightarrow> need_dict w)"

definition wild_values :: "wild \<Rightarrow> wild list res" where
  "wild_values w = ebind (wild_items w) (\<lambda>kvs. Inr (map snd kvs))"

definition tame :: "py check \<Rightarrow> wild \<Rightarrow> py res" where
  "tame validator w = validator (var_name w) (wvalue w)"

section \<open>The contract of a validator\<close>

definition accepts :: "py check \<Rightarrow> py \<Rightarrow> bool" where
  "accepts run x \<longleftrightarrow> run '''' x = Inr x"

locale validator =
  fixes run :: "py check"
  assumes accept: "accepts run x \<Longrightarrow> run n x = Inr x"
    and refuse: "\<not> accepts run x \<Longrightarrow> \<exists>m. run n x = Inl (ValidationError m)"
begin

lemma run_Inr [simp]: "run n x = Inr y \<longleftrightarrow> y = x \<and> accepts run x"
  by (metis accept refuse sum.distinct(1) sum.inject(2))

lemma run_Inl: "run n x = Inl e \<Longrightarrow> \<not> accepts run x \<and> (\<exists>m. e = ValidationError m)"
  by (metis accept refuse sum.distinct(1) sum.inject(1))

lemma run_cases:
  obtains (accepted) "accepts run x" "run n x = Inr x"
  | (refused) m where "\<not> accepts run x" "run n x = Inl (ValidationError m)"
  by (metis accept refuse)

lemma items_Inr: "check_items run n i xs = Inr u \<longleftrightarrow> (\<forall>x\<in>set xs. accepts run x)"
  by (induction xs arbitrary: i) (auto simp: res_simps)

lemma items_refuse:
  "\<not> (\<forall>x\<in>set xs. accepts run x) \<Longrightarrow> \<exists>m. check_items run n i xs = Inl (ValidationError m)"
proof (induction xs arbitrary: i)
  case Nil
  then show ?case by simp
next
  case (Cons x xs)
  show ?case
  proof (cases "accepts run x")
    case True
    with Cons.prems have "\<exists>m. check_items run n (Suc i) xs = Inl (ValidationError m)"
      by (auto intro: Cons.IH)
    then show ?thesis by (auto simp: accept [OF True])
  next
    case False
    then obtain m where "run (n @ ''['' @ str_of_nat i @ '']'') x = Inl (ValidationError m)"
      using refuse by blast
    then show ?thesis by simp
  qed
qed

end

lemma on_string_simps [simp]:
  "on_string n (PStr s) f = f s"
  "on_string n PNone f = invalid (n @ '' is not a string'')"
  "on_string n (PBool b) f = invalid (n @ '' is not a string'')"
  "on_string n (PInt i) f = invalid (n @ '' is not a string'')"
  "on_string n (PFloat r) f = invalid (n @ '' is not a string'')"
  "on_string n (PList xs) f = invalid (n @ '' is not a string'')"
  "on_string n (PDict d) f = invalid (n @ '' is not a string'')"
  by (simp_all add: on_string_def check_string_def)

text \<open>A validator that inspects the string, or the integer, it was given.\<close>

lemma string_validatorI:
  assumes run: "\<And>n v. run n v = on_string n v (f n)"
    and f: "\<And>n s. if P s then f n s = Inr (PStr s) else \<exists>m. f n s = Inl (ValidationError m)"
  shows "validator run" and "accepts run v \<longleftrightarrow> (\<exists>s. v = PStr s \<and> P s)"
proof -
  have ok: "f n s = Inr (PStr s) \<longleftrightarrow> P s" for n s
    using f[of s n] by (auto split: if_splits)
  have acc: "accepts run v \<longleftrightarrow> (\<exists>s. v = PStr s \<and> P s)" for v
    by (cases v) (auto simp: accepts_def run ok)
  then show "accepts run v \<longleftrightarrow> (\<exists>s. v = PStr s \<and> P s)" .
  have "\<exists>m. run n x = Inl (ValidationError m)" if "\<not> accepts run x" for n x
    using that f by (cases x) (auto simp: acc run)
  then show "validator run"
    by unfold_locales (auto simp: acc run ok)
qed

lemma int_validatorI:
  assumes run: "\<And>n v. run n v = on_int n v (f n v)"
    and f: "\<And>n v i. as_int v = Some i \<Longrightarrow>
      if P i then f n v i = Inr v else \<exists>m. f n v i = Inl (ValidationError m)"
  shows "validator run" and "accepts run v \<longleftrightarrow> (\<exists>i. as_int v = Some i \<and> P i)"
proof -
  have eq: "on_int n v (f n v) = (case as_int v of
      None \<Rightarrow> invalid (n @ '' is not an integer'') | Some i \<Rightarrow> f n v i)" for n v
    by (simp add: on_int_def check_int_def split: option.splits)
  have ok: "as_int v = Some i \<Longrightarrow> f n v i = Inr v \<longleftrightarrow> P i" for n v i
    using f[of v i n] by (auto split: if_splits)
  have acc: "accepts run v \<longleftrightarrow> (\<exists>i. as_int v = Some i \<and> P i)" for v
    by (cases "as_int v") (auto simp: accepts_def run eq ok)
  then show "accepts run v \<longleftrightarrow> (\<exists>i. as_int v = Some i \<and> P i)" .
  have "\<exists>m. run n x = Inl (ValidationError m)" if "\<not> accepts run x" for n x
    using that f[of x] by (cases "as_int x") (auto simp: acc run eq)
  then show "validator run"
    by unfold_locales (auto simp: acc run eq ok)
qed

lemma check_anything_validator: "validator check_anything" and accepts_anything [simp]: "accepts check_anything v"
  by (auto simp: check_anything_def accepts_def intro!: validator.intro)

lemma check_string_validator: "validator check_string"
  and accepts_string: "accepts check_string v \<longleftrightarrow> (\<exists>s. v = PStr s)"
  using string_validatorI [of check_string "\<lambda>n s. Inr (PStr s)" "\<lambda>_. True"]
  by (auto simp: check_string_def on_string_def split: py.splits)

lemma check_required_string_validator: "validator check_required_string"
  and accepts_required_string:
    "accepts check_required_string v \<longleftrightarrow> (\<exists>s. v = PStr s \<and> \<not> (\<forall>c\<in>set s. is_space c))"
  using string_validatorI [where P = "\<lambda>s. \<not> (\<forall>c\<in>set s. is_space c)" and run = check_required_string
      and f = "\<lambda>n s. if strip s = [] then invalid (n @ '' cannot be blank.'') else Inr (PStr s)"]
  by (auto simp: check_required_string_def strip_empty_iff on_string_def check_string_def split: py.splits)

lemma check_capped_string_validator: "validator (check_capped_string m)"
  and accepts_capped_string:
    "accepts (check_capped_string m) v \<longleftrightarrow> (\<exists>s. v = PStr s \<and> py_len s \<le> m)"
  using string_validatorI [where P = "\<lambda>s. py_len s \<le> m" and run = "check_capped_string m"
      and f = "\<lambda>n s. if py_len s > m then invalid (n @ '' is too long (limit: '' @ str_of_nat m
        @ '' characters)'') else Inr (PStr s)"]
  by (auto simp: check_capped_string_def on_string_def check_string_def split: py.splits)

lemma check_color_validator: "validator check_color"
  and accepts_color: "accepts check_color v \<longleftrightarrow> (\<exists>s. v = PStr s \<and> color_match s)"
  using string_validatorI [where P = color_match and run = check_color
      and f = "\<lambda>n s. if \<not> color_match s then invalid (n @ '' is not a valid hex color code'')
        else Inr (PStr s)"]
  by (auto simp: check_color_def on_string_def check_string_def split: py.splits)

lemma check_int_validator: "validator check_int"
  and accepts_int: "accepts check_int v \<longleftrightarrow> as_int v \<noteq> None"
  using int_validatorI [where P = "\<lambda>_. True" and run = check_int and f = "\<lambda>n v i. Inr v"]
  by (auto simp: check_int_def on_int_def split: option.splits)

lemma check_int_in_validator: "validator (check_int_in vs)"
  and accepts_int_in: "accepts (check_int_in vs) v \<longleftrightarrow> (\<exists>i. as_int v = Some i \<and> i \<in> set vs)"
  using int_validatorI [where P = "\<lambda>i. i \<in> set vs" and run = "check_int_in vs"
      and f = "\<lambda>n v i. if i \<notin> set vs then invalid (''Invalid '' @ n) else Inr v"]
  by (auto simp: check_int_in_def)

lemma check_int_range_validator: "validator (check_int_range lo hi)"
  and accepts_int_range:
    "accepts (check_int_range lo hi) v \<longleftrightarrow> (\<exists>i. as_int v = Some i \<and> lo \<le> i \<and> i \<le> hi)"
  using int_validatorI [where P = "\<lambda>i. lo \<le> i \<and> i \<le> hi" and run = "check_int_range lo hi"
      and f = "\<lambda>n v i. if i < lo then invalid (n @ '' is too small'')
        else if i > hi then invalid (n @ '' is too large'') else Inr v"]
  by (auto simp: check_int_range_def)

lemma check_bool_validator: "validator check_bool"
  and accepts_bool: "accepts check_bool v \<longleftrightarrow> (\<exists>b. v = PBool b)"
  by (auto simp: check_bool_def accepts_def intro!: validator.intro split: py.splits)

lemma equals_validator: "validator (equals fmt w)"
  and accepts_equals: "accepts (equals fmt w) v \<longleftrightarrow> py_eq v w"
  by (auto simp: equals_def accepts_def intro!: validator.intro split: if_splits)

section \<open>The combinators keep the contract\<close>

lemma check_none_or_validator:
  assumes "validator sub"
  shows "validator (check_none_or sub)"
    and "accepts (check_none_or sub) v \<longleftrightarrow> v = PNone \<or> accepts sub v"
  using validator.accept [OF assms] validator.refuse [OF assms]
  by (auto simp: check_none_or_def accepts_def intro!: validator.intro)

lemma check_list_validator:
  assumes sub: "validator sub"
  shows "validator (check_list sub len)"
    and accepts_list: "accepts (check_list sub len) v \<longleftrightarrow>
      (\<exists>xs. v = PList xs \<and> (\<forall>n. len = Some n \<longrightarrow> length xs = n) \<and> (\<forall>x\<in>set xs. accepts sub x))"
proof -
  have acc: "accepts (check_list sub len) v \<longleftrightarrow>
      (\<exists>xs. v = PList xs \<and> (\<forall>n. len = Some n \<longrightarrow> length xs = n) \<and> (\<forall>x\<in>set xs. accepts sub x))" for v
    by (auto simp: accepts_def [of "check_list sub len"] check_list_def res_simps
        validator.items_Inr [OF sub] split: py.splits option.splits if_splits)
  then show "accepts (check_list sub len) v \<longleftrightarrow>
      (\<exists>xs. v = PList xs \<and> (\<forall>n. len = Some n \<longrightarrow> length xs = n) \<and> (\<forall>x\<in>set xs. accepts sub x))" .
  show "validator (check_list sub len)"
  proof
    fix x n
    show "check_list sub len n x = Inr x" if "accepts (check_list sub len) x"
      using that by (auto simp: acc check_list_def res_simps validator.items_Inr [OF sub]
          split: option.splits)
    show "\<exists>m. check_list sub len n x = Inl (ValidationError m)"
      if "\<not> accepts (check_list sub len) x"
    proof (cases x)
      case (PList xs)
      show ?thesis
      proof (cases "\<forall>x\<in>set xs. accepts sub x")
        case True
        with that PList show ?thesis by (auto simp: acc check_list_def)
      next
        case False
        then obtain m where "check_items sub n 0 xs = Inl (ValidationError m)"
          using validator.items_refuse [OF sub] by blast
        with PList show ?thesis by (auto simp: check_list_def split: option.splits)
      qed
    qed (auto simp: check_list_def)
  qed
qed

lemma check_union_validator:
  assumes "\<forall>f\<in>set fs. validator f"
  shows "validator (check_union fs)"
    and accepts_union: "accepts (check_union fs) v \<longleftrightarrow> (\<exists>f\<in>set fs. accepts f v)"
proof -
  have run: "check_union fs n v = Inr v \<and> (\<exists>f\<in>set fs. accepts f v) \<or>
      (\<exists>m. check_union fs n v = Inl (ValidationError m)) \<and> \<not> (\<exists>f\<in>set fs. accepts f v)" for n v
    using assms
  proof (induction fs)
    case Nil
    show ?case by simp
  next
    case (Cons f fs)
    from Cons.prems have "validator f" by simp
    then show ?case
      by (cases rule: validator.run_cases [of f v n]) (use Cons in auto)
  qed
  then have acc: "accepts (check_union fs) v \<longleftrightarrow> (\<exists>f\<in>set fs. accepts f v)" for v
    unfolding accepts_def [of "check_union fs"] by (metis sum.distinct(1))
  then show "accepts (check_union fs) v \<longleftrightarrow> (\<exists>f\<in>set fs. accepts f v)" .
  show "validator (check_union fs)"
    by unfold_locales (use run acc in metis)+
qed

text \<open>
  A loop of checks: \<open>decides r P\<close> says that the check \<open>r\<close> passes where \<open>P\<close>
  holds and refuses with \<open>ValidationError\<close> elsewhere.
\<close>

definition decides :: "unit res \<Rightarrow> bool \<Rightarrow> bool" where
  "decides r P \<longleftrightarrow> (if P then r = Inr () else (\<exists>m. r = Inl (ValidationError m)))"

lemma decides_iff: "decides r P \<Longrightarrow> r = Inr () \<longleftrightarrow> P"
  by (auto simp: decides_def split: if_splits)

lemma decides_refuse: "decides r P \<Longrightarrow> \<not> P \<Longrightarrow> \<exists>m. r = Inl (ValidationError m)"
  by (simp add: decides_def)

lemma decides_eiter:
  "(\<And>x. x \<in> set xs \<Longrightarrow> decides (f x) (P x)) \<Longrightarrow> decides (eiter f xs) (\<forall>x\<in>set xs. P x)"
proof (induction xs)
  case Nil
  show ?case by (simp add: decides_def)
next
  case (Cons x xs)
  then have x: "decides (f x) (P x)" and xs: "decides (eiter f xs) (\<forall>x\<in>set xs. P x)"
    by simp_all
  show ?case
  proof (cases "P x")
    case True
    then show ?thesis using x xs by (auto simp: decides_def split: if_splits)
  next
    case False
    then show ?thesis using x by (auto simp: decides_def)
  qed
qed

lemma decides_ebind:
  "decides r P \<Longrightarrow> (P \<Longrightarrow> decides s Q) \<Longrightarrow> decides (ebind r (\<lambda>_. s)) (P \<and> Q)"
  by (auto simp: decides_def split: if_splits)

lemma decides_run:
  assumes "validator f"
  shows "decides (ebind (f n x) (\<lambda>_. Inr ())) (accepts f x)"
    and "decides (ebind (f n x) (\<lambda>y. py_assert (x = y))) (accepts f x)"
  by (cases rule: validator.run_cases [OF assms, of x n]; simp add: decides_def)+

lemma decides_required:
  "validator (snd kv) \<Longrightarrow>
   decides (check_required_key n d kv) (\<exists>x. map_of d (fst kv) = Some x \<and> accepts (snd kv) x)"
  using decides_run(1) [of "snd kv" "key_var n (fst kv)"]
  by (cases "map_of d (fst kv)") (auto simp: check_required_key_def decides_def)

lemma decides_optional:
  "validator (snd kv) \<Longrightarrow>
   decides (check_optional_key n d kv) (\<forall>x. map_of d (fst kv) = Some x \<longrightarrow> accepts (snd kv) x)"
  using decides_run(1) [of "snd kv" "key_var n (fst kv)"]
  by (cases "map_of d (fst kv)") (auto simp: check_optional_key_def decides_def)

lemma decides_value:
  "validator f \<Longrightarrow> has_key d k \<Longrightarrow>
   decides (check_value f n d k) (\<forall>x. map_of d k = Some x \<longrightarrow> accepts f x)"
  using decides_run(2) [of f "n @ '' contains a value that''"]
  by (cases "map_of d k") (auto simp: has_key_def getk_def check_value_def)

definition dict_ok :: "key_checks \<Rightarrow> key_checks \<Rightarrow> py check option \<Rightarrow> bool \<Rightarrow> dict \<Rightarrow> bool" where
  "dict_ok req opt vv only d \<longleftrightarrow>
     (\<forall>kv\<in>set req. \<exists>x. map_of d (fst kv) = Some x \<and> accepts (snd kv) x) \<and>
     (\<forall>kv\<in>set opt. \<forall>x. map_of d (fst kv) = Some x \<longrightarrow> accepts (snd kv) x) \<and>
     (\<forall>f. vv = Some f \<longrightarrow> (\<forall>k\<in>fst ` set d. \<forall>x. map_of d k = Some x \<longrightarrow> accepts f x)) \<and>
     (only \<longrightarrow> fst ` set d \<subseteq> fst ` set req \<union> fst ` set opt)"

lemma check_dict_run:
  assumes "\<forall>kv\<in>set req \<union> set opt. validator (snd kv)" and "\<forall>f. vv = Some f \<longrightarrow> validator f"
  shows "if dict_ok req opt vv only d then check_dict req opt vv only n (PDict d) = Inr (PDict d)
    else \<exists>m. check_dict req opt vv only n (PDict d) = Inl (ValidationError m)"
proof -
  let ?keys = "eiter (\<lambda>k. ebind (check_string (n @ '' key'') (PStr k)) (\<lambda>_. Inr ())) (map fst d)"
  let ?vals = "case vv of None \<Rightarrow> Inr () | Some f \<Rightarrow> eiter (check_value f n d) (map fst d)"
  let ?delta = "filter (\<lambda>k. k \<notin> set (map fst req) \<and> k \<notin> set (map fst opt)) (map fst d)"
  let ?R = "\<forall>kv\<in>set req. \<exists>x. map_of d (fst kv) = Some x \<and> accepts (snd kv) x"
  let ?O = "\<forall>kv\<in>set opt. \<forall>x. map_of d (fst kv) = Some x \<longrightarrow> accepts (snd kv) x"
  let ?V = "\<forall>f. vv = Some f \<longrightarrow> (\<forall>k\<in>fst ` set d. \<forall>x. map_of d k = Some x \<longrightarrow> accepts f x)"
  have k: "?keys = Inr ()"
    by (simp add: res_simps check_string_def)
  have r: "decides (eiter (check_required_key n d) req) ?R"
    using assms by (intro decides_eiter decides_required) auto
  have o: "decides (eiter (check_optional_key n d) opt) ?O"
    using assms by (intro decides_eiter decides_optional) auto
  have v: "decides ?vals ?V"
  proof (cases vv)
    case None
    then show ?thesis by (simp add: decides_def)
  next
    case (Some f)
    have "decides (eiter (check_value f n d) (map fst d))
        (\<forall>k\<in>set (map fst d). \<forall>x. map_of d k = Some x \<longrightarrow> accepts f x)"
      using assms(2) Some by (intro decides_eiter decides_value) (auto simp: has_key_set image_iff)
    with Some show ?thesis by simp
  qed
  have d: "?delta = [] \<longleftrightarrow> fst ` set d \<subseteq> fst ` set req \<union> fst ` set opt"
    by (auto simp: filter_empty_conv)
  show ?thesis
  proof (cases "?R \<and> ?O \<and> ?V")
    case True
    with r o v have "eiter (check_required_key n d) req = Inr ()"
      "eiter (check_optional_key n d) opt = Inr ()" "?vals = Inr ()"
      by (simp_all add: decides_def)
    with k True d show ?thesis by (simp add: check_dict_def dict_ok_def Let_def)
  next
    case False
    then have "\<exists>m. check_dict req opt vv only n (PDict d) = Inl (ValidationError m)"
      using r o v k by (auto simp: check_dict_def decides_def split: if_splits)
    moreover have "\<not> dict_ok req opt vv only d" using False by (auto simp: dict_ok_def)
    ultimately show ?thesis by simp
  qed
qed

lemma check_dict_validator:
  assumes "\<forall>kv\<in>set req \<union> set opt. validator (snd kv)" and "\<forall>f. vv = Some f \<longrightarrow> validator f"
  shows "validator (check_dict req opt vv only)"
    and accepts_dict: "accepts (check_dict req opt vv only) v \<longleftrightarrow>
      (\<exists>d. v = PDict d \<and> dict_ok req opt vv only d)"
proof -
  have run: "if \<exists>d. v = PDict d \<and> dict_ok req opt vv only d
      then check_dict req opt vv only n v = Inr v
      else \<exists>m. check_dict req opt vv only n v = Inl (ValidationError m)" for n v
  proof (cases v)
    case (PDict d)
    with check_dict_run [OF assms, where n = n and d = d and only = only] show ?thesis by simp
  qed (simp_all add: check_dict_def)
  then have acc: "accepts (check_dict req opt vv only) v \<longleftrightarrow>
      (\<exists>d. v = PDict d \<and> dict_ok req opt vv only d)" for v
    unfolding accepts_def [of "check_dict req opt vv only"] by (metis sum.distinct(1))
  then show "accepts (check_dict req opt vv only) v \<longleftrightarrow>
      (\<exists>d. v = PDict d \<and> dict_ok req opt vv only d)" .
  show "validator (check_dict req opt vv only)"
    by unfold_locales (use run acc in metis)+
qed

section \<open>Interpretations\<close>

interpretation v_anything: validator check_anything
  by (rule check_anything_validator)

interpretation v_string: validator check_string
  by (rule check_string_validator)

interpretation v_required_string: validator check_required_string
  by (rule check_required_string_validator)

interpretation v_capped: validator "check_capped_string m" for m
  by (rule check_capped_string_validator)

interpretation v_color: validator check_color
  by (rule check_color_validator)

interpretation v_int: validator check_int
  by (rule check_int_validator)

interpretation v_int_in: validator "check_int_in vs" for vs
  by (rule check_int_in_validator)

interpretation v_int_range: validator "check_int_range lo hi" for lo hi
  by (rule check_int_range_validator)

interpretation v_bool: validator check_bool
  by (rule check_bool_validator)

lemmas primitive_validators =
  check_string_validator check_required_string_validator check_capped_string_validator
  check_color_validator check_int_validator check_int_in_validator check_int_range_validator
  check_bool_validator equals_validator

lemmas primitive_accepts =
  accepts_string accepts_required_string accepts_capped_string accepts_color accepts_int
  accepts_int_in accepts_int_range accepts_bool accepts_equals

interpretation v_typed: validator typed_dict
  unfolding typed_dict_def by (rule check_dict_validator) (simp_all add: primitive_validators)

interpretation v_option: validator select_option_checker
  unfolding select_option_checker_def check_dict_only_def
  by (rule check_dict_validator) (simp_all add: primitive_validators)

interpretation v_poll_vote: validator poll_vote_checker
  unfolding poll_vote_checker_def check_dict_only_def
  by (rule check_dict_validator) (simp_all add: primitive_validators)

interpretation v_poll_question: validator poll_question_checker
  unfolding poll_question_checker_def check_dict_only_def
  by (rule check_dict_validator) (simp_all add: primitive_validators)

interpretation v_poll_option: validator poll_option_checker
  unfolding poll_option_checker_def check_dict_only_def
  by (rule check_dict_validator) (simp_all add: primitive_validators)

interpretation v_todo_task: validator todo_task_checker
  unfolding todo_task_checker_def check_dict_only_def
  by (rule check_dict_validator) (simp_all add: primitive_validators)

interpretation v_todo_strike: validator todo_strike_checker
  unfolding todo_strike_checker_def check_dict_only_def
  by (rule check_dict_validator) (simp_all add: primitive_validators)

interpretation v_todo_title: validator todo_title_checker
  unfolding todo_title_checker_def check_dict_only_def
  by (rule check_dict_validator) (simp_all add: primitive_validators)

interpretation v_zform: validator "zform_choices_checker fmt" for fmt
  unfolding zform_choices_checker_def
  by (rule check_dict_validator)
    (simp_all add: primitive_validators check_list_validator check_dict_validator)

text \<open>What the composed checkers accept, spelled out on the dictionary.\<close>

lemma dict_ok_simps:
  "dict_ok req opt None only d \<longleftrightarrow>
     (\<forall>kv\<in>set req. \<exists>x. map_of d (fst kv) = Some x \<and> accepts (snd kv) x) \<and>
     (\<forall>kv\<in>set opt. \<forall>x. map_of d (fst kv) = Some x \<longrightarrow> accepts (snd kv) x) \<and>
     (only \<longrightarrow> fst ` set d \<subseteq> fst ` set req \<union> fst ` set opt)"
  by (simp add: dict_ok_def)

lemma accepts_typed: "accepts typed_dict v \<longleftrightarrow> (\<exists>d s. v = PDict d \<and> map_of d ''type'' = Some (PStr s))"
  unfolding typed_dict_def
  by (subst accepts_dict) (auto simp: primitive_validators dict_ok_simps primitive_accepts)

lemma accepts_poll_vote: "accepts poll_vote_checker (PDict d) \<longleftrightarrow>
    (\<exists>t k v. map_of d ''type'' = Some (PStr t) \<and> map_of d ''key'' = Some (PStr k) \<and>
      map_of d ''vote'' = Some v \<and> (as_int v = Some 1 \<or> as_int v = Some (-1)) \<and>
      fst ` set d \<subseteq> {''type'', ''key'', ''vote''})"
  unfolding poll_vote_checker_def check_dict_only_def
  by (subst accepts_dict) (auto simp: primitive_validators dict_ok_simps primitive_accepts)

lemma accepts_poll_question: "accepts poll_question_checker (PDict d) \<longleftrightarrow>
    (\<exists>t q. map_of d ''type'' = Some (PStr t) \<and> map_of d ''question'' = Some (PStr q) \<and>
      fst ` set d \<subseteq> {''type'', ''question''})"
  unfolding poll_question_checker_def check_dict_only_def
  by (subst accepts_dict) (auto simp: primitive_validators dict_ok_simps primitive_accepts)

lemma accepts_poll_option: "accepts poll_option_checker (PDict d) \<longleftrightarrow>
    (\<exists>t s v i. map_of d ''type'' = Some (PStr t) \<and> map_of d ''option'' = Some (PStr s) \<and>
      map_of d ''idx'' = Some v \<and> as_int v = Some i \<and> 0 \<le> i \<and> i \<le> MAX_IDX \<and>
      fst ` set d \<subseteq> {''type'', ''option'', ''idx''})"
  unfolding poll_option_checker_def check_dict_only_def
  by (subst accepts_dict) (auto simp: primitive_validators dict_ok_simps primitive_accepts)

definition poll_message_ok :: "dict \<Rightarrow> bool \<Rightarrow> bool" where
  \<comment> \<open>the three submessages a poll widget may send, and who may send them\<close>
  "poll_message_ok d author \<longleftrightarrow>
     (\<exists>k v. map_of d ''type'' = Some (PStr ''vote'') \<and> map_of d ''key'' = Some (PStr k) \<and>
        map_of d ''vote'' = Some v \<and> (as_int v = Some 1 \<or> as_int v = Some (-1)) \<and>
        fst ` set d \<subseteq> {''type'', ''key'', ''vote''}) \<or>
     (\<exists>q. author \<and> map_of d ''type'' = Some (PStr ''question'') \<and>
        map_of d ''question'' = Some (PStr q) \<and> fst ` set d \<subseteq> {''type'', ''question''}) \<or>
     (\<exists>s v i. map_of d ''type'' = Some (PStr ''new_option'') \<and> map_of d ''option'' = Some (PStr s) \<and>
        map_of d ''idx'' = Some v \<and> as_int v = Some i \<and> 0 \<le> i \<and> i \<le> MAX_IDX \<and>
        fst ` set d \<subseteq> {''type'', ''option'', ''idx''})"

lemma decides_checker:
  "validator f \<Longrightarrow> decides (ebind (f n x) (\<lambda>_. Inr ())) (accepts f x)"
  by (rule decides_run)

lemma poll_decides:
  "decides (validate_poll_data p author) (\<exists>d. p = PDict d \<and> poll_message_ok d author)"
proof (cases "accepts typed_dict p")
  case False
  then obtain m where "typed_dict ''poll data'' p = Inl (ValidationError m)"
    using v_typed.refuse by blast
  moreover have "\<not> (\<exists>d. p = PDict d \<and> poll_message_ok d author)"
    using False by (auto simp: accepts_typed poll_message_ok_def)
  ultimately show ?thesis by (auto simp: validate_poll_data_def decides_def)
next
  case True
  then obtain d t where p: "p = PDict d" and t: "map_of d ''type'' = Some (PStr t)"
    by (auto simp: accepts_typed)
  have run: "validate_poll_data p author =
      (if t = ''vote'' then ebind (poll_vote_checker ''poll data'' p) (\<lambda>_. Inr ())
       else if t = ''question'' then if \<not> author
         then invalid (''You can'' @ [CHR 0x27] @ ''t edit a question unless you are the author.'')
         else ebind (poll_question_checker ''poll data'' p) (\<lambda>_. Inr ())
       else if t = ''new_option'' then ebind (poll_option_checker ''poll data'' p) (\<lambda>_. Inr ())
       else invalid (''Unknown type for poll data: '' @ t))"
    using t by (simp add: p v_typed.accept [OF True [unfolded p]] validate_poll_data_def getk_def)
  show ?thesis
    unfolding run
    using decides_checker [OF v_poll_vote.validator_axioms, of "''poll data''" p]
      decides_checker [OF v_poll_question.validator_axioms, of "''poll data''" p]
      decides_checker [OF v_poll_option.validator_axioms, of "''poll data''" p]
    by (auto simp: p t poll_message_ok_def accepts_poll_vote accepts_poll_question
        accepts_poll_option decides_def)
qed

lemma accepts_todo_task: "accepts todo_task_checker (PDict d) \<longleftrightarrow>
    (\<exists>t k i s e b. map_of d ''type'' = Some (PStr t) \<and>
      map_of d ''key'' = Some k \<and> as_int k = Some i \<and> 0 \<le> i \<and> i \<le> MAX_IDX \<and>
      map_of d ''task'' = Some (PStr s) \<and> map_of d ''desc'' = Some (PStr e) \<and>
      map_of d ''completed'' = Some (PBool b) \<and>
      fst ` set d \<subseteq> {''type'', ''key'', ''task'', ''desc'', ''completed''})"
  unfolding todo_task_checker_def check_dict_only_def
  by (subst accepts_dict) (auto simp: primitive_validators dict_ok_simps primitive_accepts)

lemma accepts_todo_strike: "accepts todo_strike_checker (PDict d) \<longleftrightarrow>
    (\<exists>t k. map_of d ''type'' = Some (PStr t) \<and> map_of d ''key'' = Some (PStr k) \<and>
      fst ` set d \<subseteq> {''type'', ''key''})"
  unfolding todo_strike_checker_def check_dict_only_def
  by (subst accepts_dict) (auto simp: primitive_validators dict_ok_simps primitive_accepts)

lemma accepts_todo_title: "accepts todo_title_checker (PDict d) \<longleftrightarrow>
    (\<exists>t s. map_of d ''type'' = Some (PStr t) \<and> map_of d ''title'' = Some (PStr s) \<and>
      fst ` set d \<subseteq> {''type'', ''title''})"
  unfolding todo_title_checker_def check_dict_only_def
  by (subst accepts_dict) (auto simp: primitive_validators dict_ok_simps primitive_accepts)

definition todo_message_ok :: "dict \<Rightarrow> bool \<Rightarrow> bool" where
  "todo_message_ok d author \<longleftrightarrow>
     (map_of d ''type'' = Some (PStr ''new_task'') \<and> accepts todo_task_checker (PDict d)) \<or>
     (map_of d ''type'' = Some (PStr ''strike'') \<and> accepts todo_strike_checker (PDict d)) \<or>
     (author \<and> map_of d ''type'' = Some (PStr ''new_task_list_title'')
        \<and> accepts todo_title_checker (PDict d))"

lemma todo_decides:
  "decides (validate_todo_data p author) (\<exists>d. p = PDict d \<and> todo_message_ok d author)"
proof (cases "accepts typed_dict p")
  case False
  then obtain m where "typed_dict ''todo data'' p = Inl (ValidationError m)"
    using v_typed.refuse by blast
  moreover have "\<not> (\<exists>d. p = PDict d \<and> todo_message_ok d author)"
    using False by (auto simp: accepts_typed todo_message_ok_def)
  ultimately show ?thesis by (auto simp: validate_todo_data_def decides_def)
next
  case True
  then obtain d t where p: "p = PDict d" and t: "map_of d ''type'' = Some (PStr t)"
    by (auto simp: accepts_typed)
  have run: "validate_todo_data p author =
      (if t = ''new_task'' then ebind (todo_task_checker ''todo data'' p) (\<lambda>_. Inr ())
       else if t = ''strike'' then ebind (todo_strike_checker ''todo data'' p) (\<lambda>_. Inr ())
       else if t = ''new_task_list_title'' then if \<not> author
         then invalid (''You can'' @ [CHR 0x27]
           @ ''t edit the task list title unless you are the author.'')
         else ebind (todo_title_checker ''todo data'' p) (\<lambda>_. Inr ())
       else invalid (''Unknown type for todo data: '' @ t))"
    using t by (simp add: p v_typed.accept [OF True [unfolded p]] validate_todo_data_def getk_def)
  show ?thesis
    unfolding run
    using decides_checker [OF v_todo_task.validator_axioms, of "''todo data''" p]
      decides_checker [OF v_todo_strike.validator_axioms, of "''todo data''" p]
      decides_checker [OF v_todo_title.validator_axioms, of "''todo data''" p]
    by (auto simp: p t todo_message_ok_def decides_def)
qed

section \<open>Integers and colours\<close>

lemma digit_char [simp]:
  "n < 10 \<Longrightarrow> is_digit (char_of (48 + n :: nat))"
  "n < 10 \<Longrightarrow> digit_val (char_of (48 + n :: nat)) = int n"
  by (simp_all add: is_digit_def digit_val_def)

lemma digit_not_special: "is_digit c \<Longrightarrow> \<not> is_space c \<and> c \<noteq> CHR ''_'' \<and> c \<noteq> CHR ''-'' \<and> c \<noteq> CHR ''+''"
  by (auto simp: is_digit_def is_space_def Let_def)

lemma str_of_nat_digits: "c \<in> set (str_of_nat n) \<Longrightarrow> is_digit c"
proof (induction n rule: str_of_nat.induct)
  case (1 n)
  show ?case
  proof (cases "n < 10")
    case True
    with "1.prems" show ?thesis by (simp add: str_of_nat.simps [of n])
  next
    case False
    with "1" show ?thesis by (auto simp: str_of_nat.simps [of n])
  qed
qed

lemma str_of_nat_nonempty [simp]: "str_of_nat n \<noteq> []"
  by (subst str_of_nat.simps) simp

lemma int_digits_snoc:
  "\<forall>c\<in>set ds. is_digit c \<Longrightarrow> ds \<noteq> [] \<Longrightarrow> is_digit d \<Longrightarrow> int_digits acc ds = Some v \<Longrightarrow>
   int_digits acc (ds @ [d]) = Some (10 * v + digit_val d)"
proof (induction acc ds rule: int_digits.induct)
  case (3 acc c c' cs)
  then have "c' \<noteq> CHR ''_''" using digit_not_special by auto
  with 3 show ?case by simp
qed (auto split: if_splits dest: digit_not_special)

lemma int_digits_str_of_nat: "int_digits 0 (str_of_nat n) = Some (int n)"
proof (induction n rule: str_of_nat.induct)
  case (1 n)
  show ?case
  proof (cases "n < 10")
    case True
    then show ?thesis by (simp add: str_of_nat.simps [of n])
  next
    case False
    then have "int_digits 0 (str_of_nat (n div 10)) = Some (int (n div 10))"
      by (rule "1.IH")
    then have "int_digits 0 (str_of_nat (n div 10) @ [char_of (48 + n mod 10)]) =
        Some (10 * int (n div 10) + int (n mod 10))"
      by (subst int_digits_snoc) (auto simp: str_of_nat_digits)
    also have "10 * int (n div 10) + int (n mod 10) = int n" by presburger
    finally show ?thesis using False by (simp add: str_of_nat.simps [of n])
  qed
qed

lemma strip_no_space: "\<forall>c\<in>set s. \<not> is_space c \<Longrightarrow> strip s = s"
proof -
  assume a: "\<forall>c\<in>set s. \<not> is_space c"
  have "dropWhile is_space s = s" using a by (cases s) auto
  moreover have "dropWhile is_space (rev s) = rev s" using a by (cases s rule: rev_cases) auto
  ultimately show ?thesis by (simp add: strip_def)
qed

lemma py_int_str_of_nat: "py_int (str_of_nat n) = Some (int n)"
proof -
  have "strip (str_of_nat n) = str_of_nat n"
    using str_of_nat_digits digit_not_special by (blast intro: strip_no_space)
  moreover obtain c cs where c: "str_of_nat n = c # cs" by (cases "str_of_nat n") auto
  moreover have "is_digit c" using str_of_nat_digits [of c n] c by simp
  ultimately show ?thesis
    using int_digits_str_of_nat [of n] digit_not_special [of c] by (auto simp: py_int_def)
qed

section \<open>Choice fields\<close>

fun option_text :: "py \<Rightarrow> py option" where
  "option_text (PDict d) = map_of d ''text''"
| "option_text _ = None"

lemma select_option_text:
  "accepts select_option_checker v \<Longrightarrow> \<exists>s. option_text v = Some (PStr s)"
  unfolding select_option_checker_def check_dict_only_def
  by (subst (asm) accepts_dict) (auto simp: primitive_validators dict_ok_simps primitive_accepts)

lemma check_select_options_Inr:
  "check_select_options fd acc = Inr r \<longleftrightarrow>
     (\<forall>(k, v)\<in>set fd. \<not> (\<forall>c\<in>set k. is_space c) \<and> accepts select_option_checker v) \<and>
     r = fold (\<lambda>kv. List.insert (the (option_text (snd kv)))) fd acc"
proof (induction fd arbitrary: acc)
  case Nil
  show ?case by auto
next
  case (Cons kv fd)
  obtain k v where kv: "kv = (k, v)" by (cases kv)
  show ?case
  proof (cases "(\<exists>c\<in>set k. \<not> is_space c) \<and> accepts select_option_checker v")
    case True
    then obtain s where s: "option_text v = Some (PStr s)" using select_option_text by blast
    then obtain d where d: "v = PDict d" "map_of d ''text'' = Some (PStr s)" by (cases v) auto
    with True have "check_select_options (kv # fd) acc =
        check_select_options fd (List.insert (PStr s) acc)"
      by (auto simp: kv strip_empty_iff getk_def v_option.accept)
    with Cons.IH True s show ?thesis by (simp add: kv)
  next
    case False
    then show ?thesis by (auto simp: kv strip_empty_iff res_simps split: if_splits)
  qed
qed

lemma fold_insert_set: "set (fold (\<lambda>x. List.insert (f x)) xs acc) = f ` set xs \<union> set acc"
  by (induction xs arbitrary: acc) auto

lemma fold_insert_distinct: "distinct acc \<Longrightarrow> distinct (fold (\<lambda>x. List.insert (f x)) xs acc)"
  by (induction xs arbitrary: acc) auto

lemma fold_insert_length:
  "length xs = length (fold (\<lambda>x. List.insert (f x)) xs []) \<longleftrightarrow> distinct (map f xs)"
proof -
  have "length (fold (\<lambda>x. List.insert (f x)) xs []) = card (f ` set xs)"
    using distinct_card [OF fold_insert_distinct [of "[]" f xs]] by (simp add: fold_insert_set)
  then show ?thesis
    by (metis card_distinct distinct_card length_map list.set_map)
qed

section \<open>Properties\<close>

text \<open>
  A checker built by \<open>check_dict_only\<close> from lawful validators returns exactly the
  dictionaries that have every required key with an accepted value, an accepted value at each
  optional key that is present, and no other key; it returns its input unchanged, and every
  refusal is a \<open>ValidationError\<close>.
\<close>

theorem check_dict_only_exact:
  assumes "\<forall>kv\<in>set req \<union> set opt. validator (snd kv)"
  shows "if \<exists>d. v = PDict d \<and>
        (\<forall>kv\<in>set req. \<exists>x. map_of d (fst kv) = Some x \<and> accepts (snd kv) x) \<and>
        (\<forall>kv\<in>set opt. \<forall>x. map_of d (fst kv) = Some x \<longrightarrow> accepts (snd kv) x) \<and>
        fst ` set d \<subseteq> fst ` set req \<union> fst ` set opt
    then check_dict_only req opt n v = Inr v
    else \<exists>m. check_dict_only req opt n v = Inl (ValidationError m)"
proof -
  have v: "validator (check_dict_only req opt)"
    unfolding check_dict_only_def by (rule check_dict_validator) (use assms in auto)
  have "accepts (check_dict_only req opt) v \<longleftrightarrow> (\<exists>d. v = PDict d \<and>
        (\<forall>kv\<in>set req. \<exists>x. map_of d (fst kv) = Some x \<and> accepts (snd kv) x) \<and>
        (\<forall>kv\<in>set opt. \<forall>x. map_of d (fst kv) = Some x \<longrightarrow> accepts (snd kv) x) \<and>
        fst ` set d \<subseteq> fst ` set req \<union> fst ` set opt)"
    using assms by (simp add: check_dict_only_def accepts_dict dict_ok_simps)
  with validator.accept [OF v] validator.refuse [OF v] show ?thesis by metis
qed

theorem check_dict_only_exact_witness:
  "check_dict_only [(''type'', check_string), (''idx'', check_int_range 0 5)] [] ''d''
      (PDict [(''idx'', PInt 3), (''type'', PStr ''t'')]) =
    Inr (PDict [(''idx'', PInt 3), (''type'', PStr ''t'')])
   \<and> (\<exists>m. check_dict_only [(''type'', check_string), (''idx'', check_int_range 0 5)] [] ''d''
      (PDict [(''idx'', PInt 3), (''type'', PStr ''t''), (''extra'', PNone)]) = Inl (ValidationError m))"
  using check_dict_only_exact [of "[(''type'', check_string), (''idx'', check_int_range 0 5)]" "[]"
      "PDict [(''idx'', PInt 3), (''type'', PStr ''t'')]" "''d''"]
    check_dict_only_exact [of "[(''type'', check_string), (''idx'', check_int_range 0 5)]" "[]"
      "PDict [(''idx'', PInt 3), (''type'', PStr ''t''), (''extra'', PNone)]" "''d''"]
  by (simp add: primitive_validators primitive_accepts)

text \<open>
  A poll submessage is accepted exactly when it is a vote of 1 or -1 on a key, a new option
  with an index in range, or a question edit by the poll's author, each with no further key;
  everything else is refused with \<open>ValidationError\<close>.
\<close>

theorem poll_data_exact:
  "(validate_poll_data p author = Inr () \<longleftrightarrow> (\<exists>d. p = PDict d \<and> poll_message_ok d author)) \<and>
   (validate_poll_data p author = Inr () \<or> (\<exists>m. validate_poll_data p author = Inl (ValidationError m)))"
  using poll_decides [of p author] by (auto simp: decides_def split: if_splits)

text \<open>
  A todo submessage is accepted exactly when it is a new task, a strike, or a title change by
  the list's author, each well-formed with no further key; everything else is refused with
  \<open>ValidationError\<close>.
\<close>

theorem todo_data_exact:
  "(validate_todo_data p author = Inr () \<longleftrightarrow> (\<exists>d. p = PDict d \<and> todo_message_ok d author)) \<and>
   (validate_todo_data p author = Inr () \<or> (\<exists>m. validate_todo_data p author = Inl (ValidationError m)))"
  using todo_decides [of p author] by (auto simp: decides_def split: if_splits)

text \<open>
  \<open>check_color\<close> accepts exactly \<open>#\<close> followed by three to six hexadecimal digits,
  with or without one final newline: lengths four and five, and the newline, pass.
\<close>

theorem check_color_exact:
  "(\<exists>w. check_color n (PStr s) = Inr w) \<longleftrightarrow>
   (\<exists>hs. (s = CHR ''#'' # hs \<or> s = CHR ''#'' # hs @ [CHR 0x0A]) \<and>
      list_all is_hex hs \<and> 3 \<le> length hs \<and> length hs \<le> 6)"
proof -
  have nl: "\<not> is_hex (CHR 0x0A)" by (simp add: is_hex_def is_digit_def)
  have "color_match s \<longleftrightarrow> (\<exists>hs. chop_newline s = CHR ''#'' # hs \<and> (\<forall>c\<in>set hs. is_hex c) \<and>
      3 \<le> length hs \<and> length hs \<le> 6)"
    by (cases "chop_newline s") (auto simp: color_match_def list_all_iff)
  also have "\<dots> \<longleftrightarrow> (\<exists>hs. (s = CHR ''#'' # hs \<or> s = CHR ''#'' # hs @ [CHR 0x0A]) \<and>
      (\<forall>c\<in>set hs. is_hex c) \<and> 3 \<le> length hs \<and> length hs \<le> 6)"
  proof -
    have "(chop_newline s = CHR ''#'' # hs) \<longleftrightarrow> (s = CHR ''#'' # hs \<or> s = CHR ''#'' # hs @ [CHR 0x0A])"
      if "\<forall>c\<in>set hs. is_hex c" for hs
      using that nl by (cases s rule: rev_cases; cases hs rule: rev_cases) (auto simp: chop_newline_def)
    then show ?thesis by blast
  qed
  finally show ?thesis by (simp add: accepts_color list_all_iff)
qed

text \<open>
  \<open>to_non_negative_int\<close> inverts decimal printing on every number up to its bound, and
  whatever string it is given it returns only numbers between 0 and the bound and otherwise
  raises \<open>ValueError\<close>.
\<close>

theorem to_non_negative_int_roundtrip:
  "to_non_negative_int n (str_of_nat k) m =
     (if int k \<le> m then Inr (int k)
      else Inl (ValueError (str_of_int (int k) @ '' is too large (max '' @ str_of_int m @ '')''))) \<and>
   (case to_non_negative_int n s m of
      Inr x \<Rightarrow> 0 \<le> x \<and> x \<le> m
    | Inl e \<Rightarrow> (\<exists>msg. e = ValueError msg))"
  by (auto simp: to_non_negative_int_def py_int_str_of_nat split: option.splits)

fun is_str :: "py \<Rightarrow> bool" where
  "is_str (PStr s) = True"
| "is_str _ = False"

lemma str_concat_cases [simp]:
  "is_str t \<Longrightarrow> \<exists>u. ebind (str_concat s t) invalid = Inl (ValidationError u)"
  "\<not> is_str t \<Longrightarrow> str_concat s t = Inl TypeError"
  by (cases t; simp)+

lemma str_concat_invalid:
  "ebind (str_concat s t) invalid = (if is_str t then ebind (str_concat s t) invalid else Inl TypeError)"
  by (cases t) simp_all

text \<open>
  \<open>check_widget_content\<close> returns its input exactly for a well-formed choices form.  On
  every other input it raises \<open>ValidationError\<close>, except when the widget type (or the form
  type) is present but not a string: then building the error message raises \<open>TypeError\<close>.
\<close>

theorem widget_content_outcomes:
  "(case check_widget_content fmt v of
      Inr w \<Rightarrow> w = v \<and> (\<exists>d x. v = PDict d \<and> map_of d ''widget_type'' = Some (PStr ''zform'') \<and>
        map_of d ''extra_data'' = Some (PDict x) \<and> map_of x ''type'' = Some (PStr ''choices'') \<and>
        accepts (zform_choices_checker fmt) (PDict x))
    | Inl e \<Rightarrow> (\<exists>m. e = ValidationError m) \<or>
        e = TypeError \<and> (\<exists>d x t. v = PDict d \<and> map_of d ''widget_type'' = Some t \<and>
          map_of d ''extra_data'' = Some (PDict x) \<and>
          (if is_str t then t = PStr ''zform'' \<and> (\<exists>u. map_of x ''type'' = Some u \<and> \<not> is_str u) else True)))"
proof (cases v)
  case v: (PDict d)
  show ?thesis
  proof (cases "map_of d ''widget_type''")
    case None
    then show ?thesis by (simp add: v check_widget_content_def)
  next
    case t: (Some t)
    show ?thesis
    proof (cases "\<exists>x. map_of d ''extra_data'' = Some (PDict x)")
      case False
      then show ?thesis by (auto simp: v t check_widget_content_def split: option.splits py.splits)
    next
      case True
      then obtain x where x: "map_of d ''extra_data'' = Some (PDict x)" by blast
      show ?thesis
      proof (cases "t = PStr ''zform''")
        case False
        then show ?thesis
          by (cases t) (simp_all add: v t x check_widget_content_def)
      next
        case zform: True
        have z: "\<exists>m. zform_choices_checker fmt n y = Inl (ValidationError m)"
          if "\<not> accepts (zform_choices_checker fmt) y" for n y
          using v_zform.refuse that by blast
        show ?thesis
        proof (cases "map_of x ''type''")
          case None
          then show ?thesis by (simp add: v t x zform check_widget_content_def)
        next
          case u: (Some u)
          show ?thesis
          proof (cases "u = PStr ''choices''")
            case False
            then show ?thesis
              by (cases u) (simp_all add: v t x zform u check_widget_content_def)
          next
            case True
            with z [of "PDict x" "''extra_data''"] show ?thesis
              by (cases "accepts (zform_choices_checker fmt) (PDict x)")
                (auto simp: v t x zform u check_widget_content_def v_zform.accept)
          qed
        qed
      qed
    qed
  qed
qed (simp_all add: check_widget_content_def)

lemma widget_type_error:
  "check_widget_content fmt (PDict [(''widget_type'', PInt 5), (''extra_data'', PDict [])]) = Inl TypeError"
  by (simp add: check_widget_content_def)

text \<open>
  Choice-field data that \<open>validate_select_field_data\<close> lets through is returned unchanged,
  has only non-blank keys, and its options all have non-blank texts that are pairwise different.
\<close>

theorem select_field_data_exact:
  "validate_select_field_data fd = Inr w \<longleftrightarrow>
     w = fd \<and> list_all (\<lambda>(k, v). \<not> list_all is_space k \<and> accepts select_option_checker v) fd \<and>
     distinct (map (\<lambda>kv. the (option_text (snd kv))) fd)"
proof -
  let ?r = "fold (\<lambda>kv. List.insert (the (option_text (snd kv)))) fd []"
  have "validate_select_field_data fd = Inr w \<longleftrightarrow>
      (\<exists>r. check_select_options fd [] = Inr r \<and> length fd = length r \<and> w = fd)"
    by (auto simp: validate_select_field_data_def res_simps split: if_splits)
  also have "\<dots> \<longleftrightarrow> w = fd \<and>
      (\<forall>(k, v)\<in>set fd. \<not> (\<forall>c\<in>set k. is_space c) \<and> accepts select_option_checker v) \<and>
      length fd = length ?r"
    by (auto simp: check_select_options_Inr)
  finally show ?thesis
    by (simp only: fold_insert_length list_all_iff)
qed

end
