(* ===== verification/Effects.thy ===== *)
theory Effects
  imports Prelude
begin

text \<open>
  Python statements that read and write shared state and may raise: a program maps a state to a
  result and the state it leaves, also when it raises, because a Python exception undoes nothing.
  \<open>wp m Q s\<close> says that running \<open>m\<close> in \<open>s\<close> ends in a result and a state that satisfy
  \<open>Q\<close>; its equations let the simplifier run a program, \<open>wp_for_each\<close> handles loops.
\<close>

named_theorems wp_simps \<open>weakest preconditions of programs\<close>

type_synonym ('s, 'a) prog = "'s \<Rightarrow> 'a res \<times> 's"

definition ret :: "'a \<Rightarrow> ('s, 'a) prog" where
  "ret x = (\<lambda>s. (Inr x, s))"

definition raise :: "exn \<Rightarrow> ('s, 'a) prog" where
  "raise e = (\<lambda>s. (Inl e, s))"

definition gets :: "('s \<Rightarrow> 'a) \<Rightarrow> ('s, 'a) prog" where
  "gets f = (\<lambda>s. (Inr (f s), s))"

definition modify :: "('s \<Rightarrow> 's) \<Rightarrow> ('s, unit) prog" where
  "modify f = (\<lambda>s. (Inr (), f s))"

definition lift :: "'a res \<Rightarrow> ('s, 'a) prog" where
  "lift r = (\<lambda>s. (r, s))"

definition bnd :: "('s, 'a) prog \<Rightarrow> ('a \<Rightarrow> ('s, 'b) prog) \<Rightarrow> ('s, 'b) prog" where
  "bnd m f = (\<lambda>s. case m s of (Inl e, s') \<Rightarrow> (Inl e, s') | (Inr x, s') \<Rightarrow> f x s')"

abbreviation seq :: "('s, 'a) prog \<Rightarrow> ('s, 'b) prog \<Rightarrow> ('s, 'b) prog" where
  "seq m m' \<equiv> bnd m (\<lambda>_. m')"

definition whenever :: "bool \<Rightarrow> ('s, unit) prog \<Rightarrow> ('s, unit) prog" where
  "whenever b m = (if b then m else ret ())"

text \<open>\<open>try: m except: h\<close> and \<open>try: m finally: f\<close>.\<close>

definition try_except :: "('s, 'a) prog \<Rightarrow> (exn \<Rightarrow> ('s, 'a) prog) \<Rightarrow> ('s, 'a) prog" where
  "try_except m h = (\<lambda>s. case m s of (Inl e, s') \<Rightarrow> h e s' | (Inr x, s') \<Rightarrow> (Inr x, s'))"

definition try_finally :: "('s, 'a) prog \<Rightarrow> ('s, unit) prog \<Rightarrow> ('s, 'a) prog" where
  "try_finally m f = (\<lambda>s. case m s of (r, s') \<Rightarrow>
     (case f s' of (Inl e, s'') \<Rightarrow> (Inl e, s'') | (Inr _, s'') \<Rightarrow> (r, s'')))"

fun for_each :: "('a \<Rightarrow> ('s, unit) prog) \<Rightarrow> 'a list \<Rightarrow> ('s, unit) prog" where
  "for_each f [] = ret ()"
| "for_each f (x # xs) = seq (f x) (for_each f xs)"

text \<open>A loop that also carries a local variable.\<close>

fun for_fold :: "('a \<Rightarrow> 'b \<Rightarrow> ('s, 'b) prog) \<Rightarrow> 'a list \<Rightarrow> 'b \<Rightarrow> ('s, 'b) prog" where
  "for_fold f [] b = ret b"
| "for_fold f (x # xs) b = bnd (f x b) (for_fold f xs)"

lemma bnd_cong [fundef_cong]:
  assumes "m = m'" and "\<And>x s s'. m' s = (Inr x, s') \<Longrightarrow> f x s' = f' x s'"
  shows "bnd m f = bnd m' f'"
  using assms by (auto simp: bnd_def fun_eq_iff split: prod.split sum.split)

definition wp :: "('s, 'a) prog \<Rightarrow> ('a res \<Rightarrow> 's \<Rightarrow> bool) \<Rightarrow> 's \<Rightarrow> bool" where
  "wp m Q s = (case m s of (r, s') \<Rightarrow> Q r s')"

lemma wp_eq: "wp m Q s \<longleftrightarrow> Q (fst (m s)) (snd (m s))"
  by (simp add: wp_def split_beta)

lemma wp_ret [wp_simps]: "wp (ret x) Q s = Q (Inr x) s"
  and wp_raise [wp_simps]: "wp (raise e) Q s = Q (Inl e) s"
  and wp_gets [wp_simps]: "wp (gets f) Q s = Q (Inr (f s)) s"
  and wp_modify [wp_simps]: "wp (modify g) Q' s = Q' (Inr ()) (g s)"
  and wp_lift [wp_simps]: "wp (lift r) Q s = Q r s"
  by (simp_all add: wp_def ret_def raise_def gets_def modify_def lift_def)

lemma wp_bnd [wp_simps]:
  "wp (bnd m f) Q s = wp m (\<lambda>r s'. case r of Inl e \<Rightarrow> Q (Inl e) s' | Inr x \<Rightarrow> wp (f x) Q s') s"
  by (simp add: wp_def bnd_def split: prod.split sum.split)

lemma wp_whenever [wp_simps]: "wp (whenever b m) Q s = (if b then wp m Q s else Q (Inr ()) s)"
  by (simp add: whenever_def wp_ret)

lemma wp_try_except [wp_simps]:
  "wp (try_except m h) Q s = wp m (\<lambda>r s'. case r of Inl e \<Rightarrow> wp (h e) Q s' | Inr x \<Rightarrow> Q (Inr x) s') s"
  by (simp add: wp_def try_except_def split: prod.split sum.split)

lemma wp_try_finally [wp_simps]:
  "wp (try_finally m f) Q s =
     wp m (\<lambda>r s'. wp f (\<lambda>r' s''. case r' of Inl e \<Rightarrow> Q (Inl e) s'' | Inr _ \<Rightarrow> Q r s'') s') s"
  by (simp add: wp_def try_finally_def split: prod.split sum.split)

lemma wp_weaken: "wp m Q s \<Longrightarrow> (\<And>r s'. Q r s' \<Longrightarrow> R r s') \<Longrightarrow> wp m R s"
  by (simp add: wp_eq)

lemma wp_bnd_I:
  assumes "wp m R s" and "\<And>e s'. R (Inl e) s' \<Longrightarrow> Q (Inl e) s'"
    and "\<And>x s'. R (Inr x) s' \<Longrightarrow> wp (f x) Q s'"
  shows "wp (bnd m f) Q s"
  unfolding wp_bnd using assms(1) by (rule wp_weaken) (auto split: sum.split intro: assms(2,3))

text \<open>A program that does not raise and keeps an invariant; loops of such bodies.\<close>

definition keeps :: "('s \<Rightarrow> bool) \<Rightarrow> ('s, 'a) prog \<Rightarrow> bool" where
  "keeps I m \<longleftrightarrow> (\<forall>s. I s \<longrightarrow> wp m (\<lambda>r s'. (\<exists>x. r = Inr x) \<and> I s') s)"

lemma keepsD: "keeps I m \<Longrightarrow> I s \<Longrightarrow> wp m (\<lambda>r s'. (\<exists>x. r = Inr x) \<and> I s') s"
  by (simp add: keeps_def)

lemma keepsI: "(\<And>s. I s \<Longrightarrow> wp m (\<lambda>r s'. (\<exists>x. r = Inr x) \<and> I s') s) \<Longrightarrow> keeps I m"
  by (simp add: keeps_def)

lemma keeps_ret: "keeps I (ret x)"
  by (simp add: keeps_def wp_simps)

lemma keeps_bnd: "keeps I m \<Longrightarrow> (\<And>x. keeps I (f x)) \<Longrightarrow> keeps I (bnd m f)"
  by (rule keepsI, rule wp_bnd_I, erule (1) keepsD) (auto intro: keepsD)

lemma keeps_for_each: "(\<And>x. x \<in> set xs \<Longrightarrow> keeps I (f x)) \<Longrightarrow> keeps I (for_each f xs)"
  by (induction xs) (auto intro: keeps_ret keeps_bnd)

lemma wp_for_each:
  assumes "I s"
    and "\<And>x s. x \<in> set xs \<Longrightarrow> I s \<Longrightarrow> wp (f x) (\<lambda>r s'. r = Inr () \<and> I s') s"
  shows "wp (for_each f xs) (\<lambda>r s'. r = Inr () \<and> I s') s"
  using assms
proof (induction xs arbitrary: s)
  case (Cons x xs)
  have "wp (f x) (\<lambda>r s'. r = Inr () \<and> I s') s" using Cons.prems by simp
  then show ?case
    unfolding for_each.simps
    by (rule wp_bnd_I) (use Cons in auto)
qed (simp add: wp_simps)

text \<open>
  The same for a body that may raise: whatever happens, the invariant holds afterwards.
\<close>

definition stable :: "('s \<Rightarrow> bool) \<Rightarrow> ('s, 'a) prog \<Rightarrow> bool" where
  "stable I m \<longleftrightarrow> (\<forall>s. I s \<longrightarrow> I (snd (m s)))"

lemma stableI: "(\<And>s. I s \<Longrightarrow> I (snd (m s))) \<Longrightarrow> stable I m"
  by (simp add: stable_def)

lemma stableD: "stable I m \<Longrightarrow> I s \<Longrightarrow> I (snd (m s))"
  by (simp add: stable_def)

lemma stable_basic [simp, intro]:
  "stable I (ret x)" "stable I (raise e)" "stable I (gets f)" "stable I (lift r)"
  by (simp_all add: stable_def ret_def raise_def gets_def lift_def)

lemma stable_bnd [intro]: "stable I m \<Longrightarrow> (\<And>x. stable I (f x)) \<Longrightarrow> stable I (bnd m f)"
  by (fastforce simp: stable_def bnd_def split: prod.split sum.split)

lemma stable_bnd_lift: "(\<And>x. r = Inr x \<Longrightarrow> stable I (f x)) \<Longrightarrow> stable I (bnd (lift r) f)"
  by (simp add: stable_def bnd_def lift_def split: sum.split)

lemma stable_bnd_gets: "(\<And>s. I s \<Longrightarrow> stable I (f (g s))) \<Longrightarrow> stable I (bnd (gets g) f)"
  by (simp add: stable_def bnd_def gets_def)

lemma stable_if: "(b \<Longrightarrow> stable I m) \<Longrightarrow> (\<not> b \<Longrightarrow> stable I m') \<Longrightarrow> stable I (if b then m else m')"
  by simp

lemma stable_whenever [intro]: "(b \<Longrightarrow> stable I m) \<Longrightarrow> stable I (whenever b m)"
  by (simp add: whenever_def)

lemma stable_for_each [intro]: "(\<And>x. x \<in> set xs \<Longrightarrow> stable I (f x)) \<Longrightarrow> stable I (for_each f xs)"
  by (induction xs) auto

lemma stable_for_fold [intro]:
  "(\<And>x b. x \<in> set xs \<Longrightarrow> stable I (f x b)) \<Longrightarrow> stable I (for_fold f xs b)"
  by (induction xs arbitrary: b) auto

lemma stable_try_except [intro]:
  "stable I m \<Longrightarrow> (\<And>e. stable I (h e)) \<Longrightarrow> stable I (try_except m h)"
  by (fastforce simp: stable_def try_except_def split: prod.split sum.split)

lemma stable_try_finally [intro]:
  "stable I m \<Longrightarrow> stable I f \<Longrightarrow> stable I (try_finally m f)"
  by (fastforce simp: stable_def try_finally_def split: prod.split sum.split)

lemma keeps_stable: "keeps I m \<Longrightarrow> stable I m"
  by (simp add: keeps_def stable_def wp_eq)

end
