(* ===== verification/RateLimiter.thy ===== *)
theory RateLimiter
  imports Validators Effects
begin

text \<open>
  Rate limiting (\<^verbatim>\<open>zerver/lib/rate_limiter.py\<close>): the in-memory backend of the event server
  with its garbage collection, the decisions of the Redis backend on what it reads from Redis,
  the retry loop of its transaction, the entities and their rules, and the request-level code.

  Times are the readings of the clock, in seconds, idealised as reals.  The tables are the
  dictionaries of the class, as association lists.  A rule is a window in seconds and the number
  of calls it allows.
\<close>

type_synonym rule = "int \<times> int"

record mem_state =
  reset_times :: "(rule \<times> (string \<times> real) list) list"
  last_gc_time :: "(rule \<times> real) list"
  timestamps_blocked_until :: "(string \<times> real) list"

section \<open>The in-memory backend\<close>

definition garbage_collect_for_rule :: "real \<Rightarrow> rule \<Rightarrow> mem_state \<Rightarrow> mem_state" where
  "garbage_collect_for_rule now rule s = (case map_of (reset_times s) rule of
     None \<Rightarrow> s
   | Some t \<Rightarrow>
       (let t' = filter (\<lambda>kr. \<not> snd kr < now) t
        in s\<lparr>reset_times := (if t' = [] then AList.delete rule (reset_times s)
                            else AList.update rule t' (reset_times s))\<rparr>))"

definition collect_old :: "real \<Rightarrow> rule \<Rightarrow> mem_state \<Rightarrow> mem_state" where
  "collect_old now rule s =
     (if get_or (last_gc_time s) rule 0 \<le> now - of_int (fst rule) / of_int (snd rule)
      then garbage_collect_for_rule now rule (s\<lparr>last_gc_time := AList.update rule now (last_gc_time s)\<rparr>)
      else s)"

definition setdefault :: "'k \<Rightarrow> 'v \<Rightarrow> ('k \<times> 'v) list \<Rightarrow> ('k \<times> 'v) list" where
  "setdefault k v d = (if has_key d k then d else AList.update k v d)"

definition need_to_limit :: "real \<Rightarrow> string \<Rightarrow> rule \<Rightarrow> (mem_state, bool \<times> real) prog" where
  "need_to_limit now entity_key rule =
     (case rule of (time_window, max_count) \<Rightarrow>
     if max_count = 0 then raise ZeroDivisionError
     else
       seq (modify (\<lambda>s. (collect_old now rule s)\<lparr>reset_times :=
              setdefault rule [] (reset_times (collect_old now rule s))\<rparr>))
      (bnd (gets (\<lambda>s. get_or (reset_times s) rule [])) (\<lambda>t.
       let new_reset = max (get_or t entity_key now) now + of_int time_window / of_int max_count
       in if new_reset > now + of_int time_window
          then ret (True, new_reset - of_int time_window - now)
          else seq (modify (\<lambda>s. s\<lparr>reset_times := AList.update rule (AList.update entity_key new_reset t) (reset_times s)\<rparr>))
                   (ret (False, 0)))))"

definition get_api_calls_left :: "real \<Rightarrow> string \<Rightarrow> int \<Rightarrow> int \<Rightarrow> (mem_state, int \<times> real) prog" where
  "get_api_calls_left now entity_key range_seconds max_calls =
     bnd (gets (\<lambda>s. map_of (get_or (reset_times s) (range_seconds, max_calls) []) entity_key)) (\<lambda>r.
     case r of
       None \<Rightarrow> ret (max_calls, 0)
     | Some reset_time \<Rightarrow>
         if range_seconds = 0 then raise ZeroDivisionError
         else ret (\<lfloor>(now + of_int range_seconds - reset_time) * of_int max_calls / of_int range_seconds\<rfloor>,
                   reset_time - now))"

definition block_access :: "real \<Rightarrow> string \<Rightarrow> int \<Rightarrow> (mem_state, unit) prog" where
  "block_access now entity_key seconds = modify (\<lambda>s. s\<lparr>timestamps_blocked_until :=
     AList.update entity_key (now + of_int seconds) (timestamps_blocked_until s)\<rparr>)"

definition unblock_access :: "string \<Rightarrow> (mem_state, unit) prog" where
  "unblock_access entity_key =
     bnd (gets (\<lambda>s. has_key (timestamps_blocked_until s) entity_key)) (\<lambda>b.
     if b then modify (\<lambda>s. s\<lparr>timestamps_blocked_until := AList.delete entity_key (timestamps_blocked_until s)\<rparr>)
     else raise (KeyError entity_key))"

definition clear_history :: "string \<Rightarrow> (mem_state, unit) prog" where
  "clear_history entity_key = modify (\<lambda>s. s\<lparr>
     reset_times := map (\<lambda>(rule, t). (rule, AList.delete entity_key t)) (reset_times s),
     timestamps_blocked_until := AList.delete entity_key (timestamps_blocked_until s)\<rparr>)"

text \<open>The loop over the rules; \<open>clock i\<close> is what \<open>need_to_limit\<close> reads for rule \<open>i\<close>.\<close>

fun check_rules :: "(nat \<Rightarrow> real) \<Rightarrow> string \<Rightarrow> rule list \<Rightarrow> nat \<Rightarrow> bool \<times> real \<Rightarrow> (mem_state, bool \<times> real) prog" where
  "check_rules clock entity_key [] i r = ret r"
| "check_rules clock entity_key (rule # rules) i r =
     bnd (need_to_limit (clock i) entity_key rule) (\<lambda>r.
     if fst r then ret r else check_rules clock entity_key rules (Suc i) r)"

definition rate_limit_entity :: "real \<Rightarrow> (nat \<Rightarrow> real) \<Rightarrow> string \<Rightarrow> rule list \<Rightarrow> (mem_state, bool \<times> real) prog" where
  "rate_limit_entity now clock entity_key rules =
     bnd (gets (\<lambda>s. map_of (timestamps_blocked_until s) entity_key)) (\<lambda>until.
     let check = seq (lift (py_assert (rules \<noteq> []))) (check_rules clock entity_key rules 0 (False, 0))
     in case until of
          None \<Rightarrow> check
        | Some t \<Rightarrow>
            if now < t then ret (True, t - now)
            else seq (modify (\<lambda>s. s\<lparr>timestamps_blocked_until :=
                       AList.delete entity_key (timestamps_blocked_until s)\<rparr>)) check)"

section \<open>A leaky bucket per rule and entity\<close>

text \<open>
  The abstract view: for every rule and entity a time until which the bucket is filled, which is
  never in the past.  \<open>bucket_step\<close> is a call against such a bucket.
\<close>

definition bucket :: "mem_state \<Rightarrow> rule \<Rightarrow> string \<Rightarrow> real option" where
  "bucket s rule key = map_of (get_or (reset_times s) rule []) key"

definition filled_until :: "real \<Rightarrow> mem_state \<Rightarrow> rule \<Rightarrow> string \<Rightarrow> real" where
  "filled_until now s rule key = (case bucket s rule key of None \<Rightarrow> now | Some r \<Rightarrow> max r now)"

definition step_of :: "rule \<Rightarrow> real" where
  "step_of rule = of_int (fst rule) / of_int (snd rule)"

definition bucket_step :: "real \<Rightarrow> rule \<Rightarrow> real \<Rightarrow> (bool \<times> real) \<times> real" where
  "bucket_step now rule level =
     (let full = level + step_of rule
      in if full > now + of_int (fst rule) then ((True, full - of_int (fst rule) - now), level)
         else ((False, 0), full))"

definition wf_mem :: "mem_state \<Rightarrow> bool" where
  "wf_mem s \<longleftrightarrow> (\<forall>rule t. map_of (reset_times s) rule = Some t \<longrightarrow> distinct (map fst t))"

lemma wf_memD: "wf_mem s \<Longrightarrow> map_of (reset_times s) rule = Some t \<Longrightarrow> distinct (map fst t)"
  unfolding wf_mem_def by blast

lemma wf_memI: "(\<And>rule t. map_of (reset_times s) rule = Some t \<Longrightarrow> distinct (map fst t)) \<Longrightarrow> wf_mem s"
  unfolding wf_mem_def by blast

lemma filled_until_ge: "now \<le> filled_until now s rule key"
  by (simp add: filled_until_def split: option.split)

lemma filled_until_later: "now \<le> now' \<Longrightarrow> filled_until now' s rule key = max now' (filled_until now s rule key)"
  by (auto simp: filled_until_def split: option.split)

lemma map_of_filter_snd:
  "distinct (map fst t) \<Longrightarrow> map_of (filter (\<lambda>kr. P (snd kr)) t) k = (case map_of t k of None \<Rightarrow> None
     | Some r \<Rightarrow> if P r then Some r else None)"
proof (induction t)
  case (Cons p t)
  then have "map_of t (fst p) = None" by (simp add: map_of_eq_None_iff)
  with Cons show ?case by (auto split: option.split)
qed simp

lemma bucket_collect_rule:
  assumes "wf_mem s"
  shows "bucket (garbage_collect_for_rule now rule s) rule' key =
    (if rule' = rule then (case bucket s rule key of None \<Rightarrow> None | Some r \<Rightarrow> if r < now then None else Some r)
     else bucket s rule' key)"
proof (cases "map_of (reset_times s) rule")
  case None
  then show ?thesis by (simp add: garbage_collect_for_rule_def bucket_def get_or_def)
next
  case (Some t)
  with assms have d: "distinct (map fst t)" by (rule wf_memD)
  have f: "map_of (filter (\<lambda>kr. \<not> snd kr < now) t) key =
      (case map_of t key of None \<Rightarrow> None | Some r \<Rightarrow> if r < now then None else Some r)"
    using map_of_filter_snd [OF d, of "\<lambda>r. \<not> r < now" key] by (simp split: option.split)
  show ?thesis
  proof (cases "filter (\<lambda>kr. \<not> snd kr < now) t = []")
    case True
    with f Some show ?thesis
      by (simp add: garbage_collect_for_rule_def bucket_def get_or_def Let_def)
  next
    case False
    with f Some show ?thesis
      by (simp add: garbage_collect_for_rule_def bucket_def get_or_def Let_def)
  qed
qed

lemma bucket_last_gc [simp]: "bucket (s\<lparr>last_gc_time := g\<rparr>) rule key = bucket s rule key"
  by (simp add: bucket_def)

lemma wf_last_gc [simp]: "wf_mem (s\<lparr>last_gc_time := g\<rparr>) = wf_mem s"
  by (simp add: wf_mem_def)

lemma wf_collect_rule: "wf_mem s \<Longrightarrow> wf_mem (garbage_collect_for_rule now rule s)"
  by (rule wf_memI)
     (auto simp: garbage_collect_for_rule_def Let_def intro: wf_memD distinct_map_filter split: option.splits if_splits)

lemma wf_collect: "wf_mem s \<Longrightarrow> wf_mem (collect_old now rule s)"
  by (simp add: collect_old_def wf_collect_rule)

text \<open>Garbage collection is invisible: it drops only buckets that have leaked out.\<close>

lemma filled_collect:
  assumes "wf_mem s" "now \<le> t"
  shows "filled_until t (collect_old now rule s) rule' key = filled_until t s rule' key"
  using assms bucket_collect_rule [of "s\<lparr>last_gc_time := AList.update rule now (last_gc_time s)\<rparr>" now rule rule' key]
  by (auto simp: collect_old_def filled_until_def split: option.split)

lemma blocked_collect [simp]:
  "timestamps_blocked_until (collect_old now rule s) = timestamps_blocked_until s"
  by (simp add: collect_old_def garbage_collect_for_rule_def Let_def split: option.split)

text \<open>What is left unchanged, and what a call against one bucket does.\<close>

definition called :: "real \<Rightarrow> string \<Rightarrow> rule \<Rightarrow> mem_state \<Rightarrow> mem_state \<Rightarrow> bool" where
  "called now key rule s s' \<longleftrightarrow> wf_mem s' \<and> timestamps_blocked_until s' = timestamps_blocked_until s \<and>
     (\<forall>t\<ge>now. \<forall>rule' key'. filled_until t s' rule' key' =
        (if rule' = rule \<and> key' = key
         then max t (snd (bucket_step now rule (filled_until now s rule key)))
         else filled_until t s rule' key'))"

lemma bucket_setdefault: "bucket (s\<lparr>reset_times := setdefault rule [] (reset_times s)\<rparr>) rule' key = bucket s rule' key"
  by (auto simp: bucket_def setdefault_def get_or_def has_key_def split: option.splits)

lemma bucket_update:
  "bucket (s\<lparr>reset_times := AList.update rule (AList.update key r (get_or (reset_times s) rule [])) (reset_times s)\<rparr>) rule' key' =
     (if rule' = rule \<and> key' = key then Some r else bucket s rule' key')"
  by (auto simp: bucket_def get_or_def)

lemma wf_setdefault: "wf_mem s \<Longrightarrow> wf_mem (s\<lparr>reset_times := setdefault rule [] (reset_times s)\<rparr>)"
  by (rule wf_memI) (auto simp: setdefault_def intro: wf_memD split: if_splits)

lemma wf_get: "wf_mem s \<Longrightarrow> distinct (map fst (get_or (reset_times s) rule []))"
  by (auto simp: get_or_def intro: wf_memD split: option.split)

lemma wf_update:
  "wf_mem s \<Longrightarrow> distinct (map fst t) \<Longrightarrow> wf_mem (s\<lparr>reset_times := AList.update rule (AList.update key r t) (reset_times s)\<rparr>)"
  by (rule wf_memI) (auto simp: distinct_update intro: wf_memD split: if_splits)

lemma need_to_limit_step:
  assumes wf: "wf_mem s" and c: "snd rule \<noteq> 0"
  shows "\<exists>s'. need_to_limit now key rule s =
      (Inr (fst (bucket_step now rule (filled_until now s rule key))), s') \<and> called now key rule s s'"
proof -
  define s1 where "s1 = (collect_old now rule s)\<lparr>reset_times := setdefault rule [] (reset_times (collect_old now rule s))\<rparr>"
  have wf1: "wf_mem s1" unfolding s1_def by (intro wf_setdefault wf_collect wf)
  have f1: "filled_until t s1 rule' key' = filled_until t s rule' key'" if "now \<le> t" for t rule' key'
    using filled_collect [OF wf that, of rule rule' key'] bucket_setdefault [of rule "collect_old now rule s" rule' key']
    by (simp add: s1_def filled_until_def)
  have b1: "timestamps_blocked_until s1 = timestamps_blocked_until s" by (simp add: s1_def)
  obtain w k where rule: "rule = (w, k)" by fastforce
  let ?t = "get_or (reset_times s1) rule []"
  have level: "max (get_or ?t key now) now = filled_until now s1 rule key"
    by (simp add: get_or_def filled_until_def bucket_def split: option.split)
  let ?r = "filled_until now s rule key + step_of rule"
  have run: "need_to_limit now key rule s =
      (if ?r > now + of_int w then (Inr (True, ?r - of_int w - now), s1)
       else (Inr (False, 0), s1\<lparr>reset_times := AList.update rule (AList.update key ?r ?t) (reset_times s1)\<rparr>))"
    using c level f1 [of now rule key]
    by (simp add: need_to_limit_def rule bnd_def modify_def gets_def ret_def Let_def step_of_def s1_def)
  show ?thesis
  proof (cases "?r > now + of_int w")
    case True
    have "filled_until t s1 rule' key' = (if rule' = rule \<and> key' = key
        then max t (filled_until now s rule key) else filled_until t s rule' key')" if "now \<le> t" for t rule' key'
      using f1 [OF that, of rule' key'] filled_until_later [OF that, of s rule key] by simp
    with True wf1 b1 have "called now key rule s s1"
      by (simp add: called_def bucket_step_def rule Let_def)
    with run True show ?thesis by (simp add: bucket_step_def rule Let_def)
  next
    case False
    let ?s = "s1\<lparr>reset_times := AList.update rule (AList.update key ?r ?t) (reset_times s1)\<rparr>"
    have "wf_mem ?s" by (intro wf_update wf1 wf_get)
    moreover have "filled_until t ?s rule' key' = (if rule' = rule \<and> key' = key then max t ?r else filled_until t s rule' key')"
      if "now \<le> t" for t rule' key'
      using f1 [OF that, of rule' key'] bucket_update [of rule key ?r s1 rule' key'] by (simp add: filled_until_def max.commute)
    ultimately have "called now key rule s ?s"
      using False b1 by (simp add: called_def bucket_step_def rule Let_def)
    with run False show ?thesis by (simp add: bucket_step_def rule Let_def)
  qed
qed


section \<open>How many calls a rule lets through\<close>

text \<open>The calls for \<open>key\<close> under \<open>rule\<close> that pass, in a run of calls for any entities and rules.\<close>

definition passes :: "(bool \<times> real) res \<Rightarrow> bool" where
  "passes r = (case r of Inr (limited, _) \<Rightarrow> \<not> limited | Inl _ \<Rightarrow> False)"

fun accepted :: "string \<Rightarrow> rule \<Rightarrow> (real \<times> string \<times> rule) list \<Rightarrow> mem_state \<Rightarrow> nat" where
  "accepted key rule [] s = 0"
| "accepted key rule ((t, k, r) # calls) s =
     (case need_to_limit t k r s of (res, s') \<Rightarrow>
        (if k = key \<and> r = rule \<and> passes res then 1 else 0) + accepted key rule calls s')"

lemma need_to_limit_zero: "snd rule = 0 \<Longrightarrow> need_to_limit now key rule s = (Inl ZeroDivisionError, s)"
  by (cases rule) (simp add: need_to_limit_def raise_def)

lemma called_filled:
  "called now key rule s s' \<Longrightarrow> filled_until now s' rule' key' =
     (if rule' = rule \<and> key' = key then max now (snd (bucket_step now rule (filled_until now s rule key)))
      else filled_until now s rule' key')"
  unfolding called_def by blast

lemma called_wf: "called now key rule s s' \<Longrightarrow> wf_mem s'"
  by (simp add: called_def)

lemma accepted_level:
  assumes "wf_mem s" "step_of rule > 0" "snd rule \<noteq> 0" "sorted (map fst calls)"
    and "\<forall>p\<in>set calls. now \<le> fst p \<and> fst p \<le> b"
    and "a + real n * step_of rule \<le> filled_until now s rule key"
  shows "accepted key rule calls s = 0 \<or>
    a + real (n + accepted key rule calls s) * step_of rule \<le> b + of_int (fst rule)"
  using assms(1,4-6)
proof (induction calls arbitrary: s now n)
  case Nil
  then show ?case by simp
next
  case (Cons p calls)
  obtain t k r where p: "p = (t, k, r)" by (cases p)
  have t: "now \<le> t" "t \<le> b" "sorted (map fst calls)" "\<forall>p\<in>set calls. t \<le> fst p \<and> fst p \<le> b"
    using Cons.prems by (auto simp: p)
  have lv: "a + real n * step_of rule \<le> filled_until t s rule key"
    using Cons.prems(4) filled_until_later [OF t(1), of s rule key] by linarith
  show ?case
  proof (cases "snd r = 0")
    case True
    then have "\<not> r = rule" using assms(3) by auto
    with Cons.IH [OF Cons.prems(1) t(3,4) lv] need_to_limit_zero [OF True] show ?thesis by (simp add: p)
  next
    case False
    from need_to_limit_step [OF Cons.prems(1) False, of t k] obtain s' where
      s': "need_to_limit t k r s = (Inr (fst (bucket_step t r (filled_until t s r k))), s')" "called t k r s s'" by blast
    show ?thesis
    proof (cases "k = key \<and> r = rule \<and> passes (Inr (fst (bucket_step t r (filled_until t s r k))))")
      case True
      then have full: "filled_until t s rule key + step_of rule \<le> t + of_int (fst rule)"
        by (auto simp: bucket_step_def passes_def Let_def split: if_splits)
      have "filled_until t s' rule key = max t (filled_until t s rule key + step_of rule)"
        using called_filled [OF s'(2), of rule key] True full by (simp add: bucket_step_def Let_def)
      then have "a + real (Suc n) * step_of rule \<le> filled_until t s' rule key"
        using lv by (simp add: algebra_simps)
      from Cons.IH [OF called_wf [OF s'(2)] t(3,4) this]
      have "accepted key rule calls s' = 0 \<or>
          a + real (Suc n + accepted key rule calls s') * step_of rule \<le> b + of_int (fst rule)" .
      moreover have "a + real (Suc n) * step_of rule \<le> b + of_int (fst rule)"
        using lv full t(2) by (simp add: algebra_simps)
      ultimately show ?thesis using True s'(1) by (auto simp: p ac_simps)
    next
      case no: False
      have "filled_until t s rule key \<le> filled_until t s' rule key"
      proof (cases "rule = r \<and> key = k")
        case True
        then show ?thesis
          using called_filled [OF s'(2), of rule key] filled_until_ge [of t s rule key] assms(2)
          by (auto simp: bucket_step_def Let_def)
      next
        case False
        then show ?thesis using called_filled [OF s'(2), of rule key] by auto
      qed
      with lv have "a + real n * step_of rule \<le> filled_until t s' rule key" by linarith
      from Cons.IH [OF called_wf [OF s'(2)] t(3,4) this] no s'(1) show ?thesis
        by (auto simp: p)
    qed
  qed
qed



section \<open>Advice to the caller\<close>

definition in_window :: "real \<Rightarrow> rule \<Rightarrow> string \<Rightarrow> mem_state \<Rightarrow> bool" where
  "in_window now rule key s \<longleftrightarrow> filled_until now s rule key \<le> now + of_int (fst rule)"

lemma in_window_called:
  assumes "called now key rule s s'" "in_window now rule' key' s" "0 \<le> fst rule'"
  shows "in_window now rule' key' s'"
  using assms called_filled [OF assms(1), of rule' key']
  by (auto simp: in_window_def bucket_step_def Let_def split: if_splits)

lemma in_window_later: "in_window now rule key s \<Longrightarrow> now \<le> t \<Longrightarrow> 0 \<le> fst rule \<Longrightarrow> in_window t rule key s"
  using filled_until_later [of now t s rule key] by (auto simp: in_window_def)

lemma burst:
  assumes "wf_mem s" "0 < step_of rule" "snd rule \<noteq> 0" "filled_until now s rule key \<le> now + of_int (fst rule)"
  shows "accepted key rule (replicate m (now, key, rule)) s =
    min m (nat \<lfloor>(now + of_int (fst rule) - filled_until now s rule key) / step_of rule\<rfloor>)"
  using assms(1,4)
proof (induction m arbitrary: s)
  case 0
  then show ?case by simp
next
  case (Suc m)
  let ?L = "filled_until now s rule key" and ?b = "now + of_int (fst rule)"
  obtain s' where s': "need_to_limit now key rule s = (Inr (fst (bucket_step now rule ?L)), s')" "called now key rule s s'"
    using need_to_limit_step [OF Suc.prems(1) assms(3)] by blast
  note L' = called_filled [OF s'(2), of rule key, simplified]
  show ?case
  proof (cases "?L + step_of rule \<le> ?b")
    case True
    have L1: "filled_until now s' rule key = ?L + step_of rule"
      using L' True filled_until_ge [of now s rule key] assms(2) by (simp add: bucket_step_def Let_def)
    have "(?b - ?L) / step_of rule = (?b - (?L + step_of rule)) / step_of rule + 1"
      using assms(2) by (simp add: field_simps)
    then have fl: "\<lfloor>(?b - ?L) / step_of rule\<rfloor> = \<lfloor>(?b - (?L + step_of rule)) / step_of rule\<rfloor> + 1" by simp
    have "0 \<le> (?b - (?L + step_of rule)) / step_of rule" using True assms(2) by simp
    then have nn: "0 \<le> \<lfloor>(?b - (?L + step_of rule)) / step_of rule\<rfloor>" by simp
    have "accepted key rule (replicate m (now, key, rule)) s' =
        min m (nat \<lfloor>(?b - (?L + step_of rule)) / step_of rule\<rfloor>)"
      using Suc.IH [OF called_wf [OF s'(2)]] True by (simp add: L1)
    with True fl nn s'(1) show ?thesis by (simp add: bucket_step_def Let_def passes_def nat_add_distrib)
  next
    case False
    have L1: "filled_until now s' rule key = ?L"
      using L' False filled_until_ge [of now s rule key] by (simp add: bucket_step_def Let_def)
    have "(?b - ?L) / step_of rule < 1" "0 \<le> (?b - ?L) / step_of rule"
      using False Suc.prems(2) assms(2) by (simp_all add: field_simps)
    then have "\<lfloor>(?b - ?L) / step_of rule\<rfloor> = 0" by linarith
    moreover have "accepted key rule (replicate m (now, key, rule)) s' = 0"
      using Suc.IH [OF called_wf [OF s'(2)]] Suc.prems(2) calculation by (simp add: L1)
    ultimately show ?thesis using s'(1) False by (simp add: bucket_step_def Let_def passes_def)
  qed
qed

text \<open>
  \<open>get_api_calls_left\<close> tells the truth: of any number of further calls at the same instant
  exactly as many pass as it says, when the bucket is in use; for an entity without a bucket it
  says the maximum, and exactly that many pass.
\<close>

theorem calls_left_exact:
  assumes "wf_mem s" "0 < w" "0 < c"
    and "case bucket s (w, c) key of None \<Rightarrow> True | Some r \<Rightarrow> now \<le> r \<and> r \<le> now + of_int w"
  shows "\<exists>n reset. get_api_calls_left now key w c s = (Inr (n, reset), s) \<and> 0 \<le> n \<and> n \<le> c \<and> 0 \<le> reset \<and>
    accepted key (w, c) (replicate m (now, key, (w, c))) s = min m (nat n)"
proof -
  have w: "(0::real) < of_int w" "(0::real) < of_int c" using assms(2,3) by simp_all
  then have st: "0 < step_of (w, c)" by (simp add: step_of_def)
  let ?L = "filled_until now s (w, c) key"
  have L: "now \<le> ?L" "?L \<le> now + of_int w"
    using assms(4) w by (auto simp: filled_until_def split: option.splits)
  let ?n = "\<lfloor>(now + of_int w - ?L) / step_of (w, c)\<rfloor>"
  have eq: "(now + of_int w - ?L) / step_of (w, c) = (now + of_int w - ?L) * of_int c / of_int w"
    using w by (simp add: step_of_def)
  have "0 \<le> (now + of_int w - ?L) / step_of (w, c)" using L st by simp
  then have n0: "0 \<le> ?n" by simp
  have "(now + of_int w - ?L) * of_int c / of_int w \<le> of_int c"
    using L(1) w by (simp add: pos_divide_le_eq mult.commute)
  then have nc: "?n \<le> c" unfolding eq by linarith
  have acc: "accepted key (w, c) (replicate m (now, key, (w, c))) s = min m (nat ?n)"
    using burst [OF assms(1) st, of now key m] assms(3) L by simp
  show ?thesis
  proof (cases "bucket s (w, c) key")
    case None
    then have "get_api_calls_left now key w c s = (Inr (c, 0), s)" and "?L = now"
      by (simp_all add: get_api_calls_left_def bucket_def bnd_def gets_def ret_def filled_until_def)
    moreover have "?n = c" using \<open>?L = now\<close> w by (simp add: step_of_def)
    ultimately show ?thesis using acc assms(3) by auto
  next
    case (Some r)
    with assms(2,4) have r: "?L = r" "0 \<le> r - now" by (simp_all add: filled_until_def)
    then have "get_api_calls_left now key w c s = (Inr (?n, r - now), s)"
      using Some assms(2) eq by (simp add: get_api_calls_left_def bucket_def bnd_def gets_def ret_def)
    with acc n0 nc r(2) show ?thesis by auto
  qed
qed

text \<open>
  The time returned with a refusal is exactly how long to wait: when the entity makes no other
  call, a call after \<open>d\<close> passes if and only if \<open>d\<close> is at least that time; it is
  positive, and at most \<open>window / count\<close>.
\<close>

theorem retry_after_exact:
  assumes "wf_mem s" "0 < w" "0 < c" "in_window now (w, c) key s"
    and "need_to_limit now key (w, c) s = (Inr (True, t), s')" and "0 \<le> d"
  shows "0 < t \<and> t \<le> of_int w / of_int c \<and>
    passes (fst (need_to_limit (now + d) key (w, c) s')) = (t \<le> d)"
proof -
  let ?L = "filled_until now s (w, c) key"
  have w: "(0::real) < of_int w" "(1::real) \<le> of_int c" using assms(2,3) by simp_all
  have st: "step_of (w, c) \<le> of_int w" using w by (simp add: step_of_def pos_divide_le_eq)
  obtain s1 where s1: "need_to_limit now key (w, c) s = (Inr (fst (bucket_step now (w, c) ?L)), s1)" "called now key (w, c) s s1"
    using need_to_limit_step [OF assms(1), of "(w, c)" now key] assms(3) by auto
  with assms(5) have t: "?L + step_of (w, c) > now + of_int w" "t = ?L + step_of (w, c) - of_int w - now" "s' = s1"
    by (auto simp: bucket_step_def Let_def split: if_splits)
  have "0 < t" using t by simp
  moreover have "t \<le> step_of (w, c)" using assms(4) t(2) by (simp add: in_window_def)
  moreover have "passes (fst (need_to_limit (now + d) key (w, c) s')) = (t \<le> d)"
  proof -
    have "filled_until (now + d) s1 (w, c) key = max (now + d) ?L"
      using s1(2) t(1) assms(6) by (simp add: called_def bucket_step_def Let_def)
    moreover obtain s2 where "need_to_limit (now + d) key (w, c) s1 =
        (Inr (fst (bucket_step (now + d) (w, c) (filled_until (now + d) s1 (w, c) key))), s2)"
      using need_to_limit_step [OF called_wf [OF s1(2)], of "(w, c)" "now + d" key] assms(3) by auto
    ultimately show ?thesis
      using t st by (auto simp: bucket_step_def passes_def Let_def max_def)
  qed
  ultimately show ?thesis by (simp add: step_of_def)
qed


section \<open>The Redis backend\<close>

text \<open>
  What the Redis backend decides from what its pipelines read: \<open>timestamps\<close> are the entries
  \<open>lindex list_key (count - 1)\<close> of the rules in order, \<open>blocked\<close> and \<open>ttl\<close> the blocking
  key and its time to live.  The pipelines themselves run in Redis.
\<close>

fun limited_by :: "real \<Rightarrow> (real option \<times> rule) list \<Rightarrow> bool \<times> real" where
  "limited_by now [] = (False, 0)"
| "limited_by now ((None, rule) # rest) = limited_by now rest"
| "limited_by now ((Some timestamp, rule) # rest) =
     (let boundary = timestamp + of_int (fst rule)
      in if boundary \<ge> now then (True, boundary - now) else limited_by now rest)"

definition is_ratelimited :: "real \<Rightarrow> rule list \<Rightarrow> real option list \<Rightarrow> bool \<Rightarrow> int option \<Rightarrow> (bool \<times> real) res" where
  "is_ratelimited now rules timestamps blocked ttl =
     (if rules = [] then Inl AssertionError
      else if blocked then Inr (True, case ttl of None \<Rightarrow> 1 / 2 | Some n \<Rightarrow> of_int n)
      else Inr (limited_by now (zip timestamps rules)))"

definition redis_calls_left :: "real \<Rightarrow> int \<Rightarrow> int \<Rightarrow> int \<Rightarrow> real option \<Rightarrow> int \<times> real" where
  "redis_calls_left now range_seconds max_calls count newest_call =
     (let time_reset = (case newest_call of None \<Rightarrow> now | Some t \<Rightarrow> now + (of_int range_seconds - (now - t)))
      in (max_calls - count, time_reset - now))"

text \<open>
  The retry loop of \<open>incr_ratelimit\<close>: \<open>conflict i\<close> tells whether the \<open>i\<close>-th transaction is
  aborted by Redis; the result is the number of transactions tried.
\<close>

function incr_attempts :: "(nat \<Rightarrow> bool) \<Rightarrow> nat \<Rightarrow> nat res" where
  "incr_attempts conflict count =
     (if \<not> conflict count then Inr (Suc count)
      else if count > 10 then Inl RateLimiterLockingError
      else incr_attempts conflict (Suc count))"
  by pat_completeness auto
termination by (relation "measure (\<lambda>(conflict, count). 12 - count)") auto

declare incr_attempts.simps [simp del]

definition redis_rate_limit :: "(bool \<times> real) res \<Rightarrow> (nat \<Rightarrow> bool) \<Rightarrow> (bool \<times> real) res" where
  "redis_rate_limit decision conflict =
     ebind decision (\<lambda>(ratelimited, time).
     if ratelimited then Inr (True, time)
     else Inr (case incr_attempts conflict 0 of Inr _ \<Rightarrow> False | Inl _ \<Rightarrow> True, time))"

lemma limited_by_iff:
  "fst (limited_by now ps) \<longleftrightarrow>
     (\<exists>p\<in>set ps. case fst p of None \<Rightarrow> False | Some t \<Rightarrow> now \<le> t + of_int (fst (snd p)))"
  by (induction now ps rule: limited_by.induct) (simp_all add: Let_def)

text \<open>
  \<open>history\<close> is the list of an entity in Redis, the times of its calls, newest first; the timestamps
  read from it decide as the rules say: a call is refused exactly if, for some rule, the
  \<open>count\<close>-th latest call is within the window.
\<close>

definition timestamps_of :: "real list \<Rightarrow> rule list \<Rightarrow> real option list" where
  "timestamps_of history rules = map (\<lambda>r. if nat (snd r - 1) < length history then Some (history ! nat (snd r - 1)) else None) rules"


lemma incr_attempts_result:
  "count \<le> 11 \<Longrightarrow> incr_attempts conflict count =
     (if \<exists>i. count \<le> i \<and> i \<le> 11 \<and> \<not> conflict i
      then Inr (Suc (LEAST i. count \<le> i \<and> \<not> conflict i)) else Inl RateLimiterLockingError)"
proof (induction conflict count rule: incr_attempts.induct)
  case (1 conflict count)
  show ?case
  proof (cases "conflict count")
    case False
    have "(LEAST i. count \<le> i \<and> \<not> conflict i) = count"
      by (rule Least_equality) (use False in auto)
    with False 1 show ?thesis by (subst incr_attempts.simps) auto
  next
    case True
    then have next_i: "count \<le> i \<and> \<not> conflict i \<longleftrightarrow> Suc count \<le> i \<and> \<not> conflict i" for i
      by (metis Suc_leD Suc_leI le_neq_implies_less)
    show ?thesis
    proof (cases "count > 10")
      case gt: True
      with 1(2) have "count = 11" by simp
      with True show ?thesis by (subst incr_attempts.simps) (auto dest: le_antisym)
    next
      case False
      with 1 True show ?thesis
        by (subst incr_attempts.simps) (auto simp: next_i Suc_le_eq)
    qed
  qed
qed


section \<open>Entities and their rules\<close>

text \<open>
  \<open>settings\<close>, with the rules of a domain as a partial function; a user's own limits are a string
  like \<open>60:100,3600:500\<close>.
\<close>

record rl_settings =
  RATE_LIMITING :: bool
  DEBUG_RATE_LIMITING :: bool
  RUNNING_INSIDE_TORNADO :: bool
  RATE_LIMITING_DOMAINS_FOR_TORNADO :: "string list"
  RATE_LIMITING_RULES :: "string \<Rightarrow> rule list option"

definition get_rules :: "rule list \<Rightarrow> rule list" where
  "get_rules rules_list = (if rules_list = [] then [(1, 9999)] else rules_list)"

definition max_api_calls :: "rule list \<Rightarrow> int" where
  "max_api_calls rules_list = snd (last (get_rules rules_list))"

definition max_api_window :: "rule list \<Rightarrow> int" where
  "max_api_window rules_list = fst (last (get_rules rules_list))"

text \<open>\<open>s.split(c, n)\<close>: at most \<open>n\<close> splits.\<close>

definition split_max :: "char \<Rightarrow> nat \<Rightarrow> string \<Rightarrow> string list" where
  "split_max c n s = (let ws = split_on c s
     in if length ws \<le> Suc n then ws else take n ws @ [join [c] (drop n ws)])"

definition parse_int :: "string \<Rightarrow> int res" where
  "parse_int s = (case py_int s of None \<Rightarrow> Inl (ValueError ''invalid literal for int() with base 10'') | Some n \<Rightarrow> Inr n)"

definition parse_limit :: "string \<Rightarrow> rule res" where
  "parse_limit limit = (case split_max CHR '':'' 2 limit of
     [seconds, requests] \<Rightarrow>
       ebind (parse_int seconds) (\<lambda>w. ebind (parse_int requests) (\<lambda>c. Inr (w, c)))
   | _ \<Rightarrow> Inl (ValueError ''values to unpack''))"

definition domain_rules :: "rl_settings \<Rightarrow> string \<Rightarrow> rule list res" where
  "domain_rules cfg domain = (case RATE_LIMITING_RULES cfg domain of None \<Rightarrow> Inl (KeyError domain) | Some rs \<Rightarrow> Inr rs)"

definition user_rules :: "rl_settings \<Rightarrow> string \<Rightarrow> string \<Rightarrow> rule list res" where
  "user_rules cfg rate_limits domain =
     (if rate_limits \<noteq> [] \<and> domain = ''api_by_user'' then emap parse_limit (split_on CHR '','' rate_limits)
      else domain_rules cfg domain)"

definition user_key :: "int \<Rightarrow> string \<Rightarrow> string" where
  "user_key user_id domain = ''RateLimitedUser:'' @ str_of_int user_id @ '':'' @ domain"

definition ip_key :: "string \<Rightarrow> string \<Rightarrow> string" where
  "ip_key ip_addr domain = ''RateLimitedIPAddr:<'' @ ip_addr @ ''>:'' @ domain"

definition file_key :: "string \<Rightarrow> string" where
  "file_key path_id = ''RateLimitedSpectatorAttachmentAccessByFile:'' @ path_id"

text \<open>Which backend serves an entity of a domain.\<close>

definition in_memory :: "rl_settings \<Rightarrow> string \<Rightarrow> bool" where
  "in_memory cfg domain \<longleftrightarrow> RUNNING_INSIDE_TORNADO cfg \<and> domain \<in> set (RATE_LIMITING_DOMAINS_FOR_TORNADO cfg)"

text \<open>
  Keys do not collide.  The angle brackets matter, as the source says: addresses and domains may
  contain colons.
\<close>

lemma cut_at: "a @ c # b = a' @ c # b' \<Longrightarrow> c \<notin> set a \<Longrightarrow> c \<notin> set a' \<Longrightarrow> a = a' \<and> b = b'"
  by (induction a arbitrary: a') (auto simp: Cons_eq_append_conv append_eq_Cons_conv)

lemma ip_key_inj:
  assumes "ip_key a d = ip_key a' d'" "CHR ''>'' \<notin> set a" "CHR ''>'' \<notin> set a'"
  shows "a = a' \<and> d = d'"
  using cut_at [of a "CHR ''>''" "'':'' @ d" a' "'':'' @ d'"] assms by (simp add: ip_key_def)

lemma user_ip_keys_differ: "user_key u d \<noteq> ip_key a d'"
  by (simp add: user_key_def ip_key_def)

section \<open>Rate-limiting a request\<close>

record rate_limit_result =
  rr_key :: string
  secs_to_freedom :: real
  over_limit :: bool
  remaining :: int

text \<open>A backend: the operations the request level calls.\<close>

record 's backend =
  b_rate_limit :: "string \<Rightarrow> rule list \<Rightarrow> int \<Rightarrow> int \<Rightarrow> ('s, bool \<times> real) prog"
  b_calls_left :: "string \<Rightarrow> int \<Rightarrow> int \<Rightarrow> ('s, int \<times> real) prog"

definition on_backend :: "('s, 'a) prog \<Rightarrow> ('s \<times> 'n, 'a) prog" where
  "on_backend m = (\<lambda>(s, notes). case m s of (r, s') \<Rightarrow> (r, (s', notes)))"

text \<open>\<open>rate_limit_request\<close>; the second half of the state is \<open>request_notes.ratelimits_applied\<close>.\<close>

definition rate_limit_request ::
    "'s backend \<Rightarrow> string \<Rightarrow> rule list \<Rightarrow> ('s \<times> rate_limit_result list, unit) prog" where
  "rate_limit_request B key rules_list =
     bnd (on_backend (b_rate_limit B key (get_rules rules_list) (max_api_calls rules_list) (max_api_window rules_list)))
       (\<lambda>(ratelimited, time).
     seq (modify (\<lambda>(s, notes). (s, notes @ [\<lparr>rr_key = key, secs_to_freedom = time, over_limit = ratelimited, remaining = 0\<rparr>])))
    (if ratelimited then raise (RateLimitedError (Some time))
     else
       bnd (on_backend (b_calls_left B key (max_api_window rules_list) (max_api_calls rules_list)))
         (\<lambda>(calls_remaining, seconds_until_reset).
       modify (\<lambda>(s, notes). (s, butlast notes @
         [(last notes)\<lparr>remaining := calls_remaining, secs_to_freedom := seconds_until_reset\<rparr>])))))"

definition mem_backend :: "real \<Rightarrow> mem_state backend" where
  "mem_backend now = \<lparr>b_rate_limit = (\<lambda>key rules _ _. rate_limit_entity now (\<lambda>_. now) key rules),
     b_calls_left = get_api_calls_left now\<rparr>"

text \<open>The requests that are limited at all, and the address they are limited by.\<close>

definition is_local_addr :: "string \<Rightarrow> bool" where
  "is_local_addr addr \<longleftrightarrow> addr \<in> {''127.0.0.1'', ''::1''}"

definition client_is_exempt_from_rate_limiting :: "rl_settings \<Rightarrow> string option \<Rightarrow> string \<Rightarrow> bool" where
  "client_is_exempt_from_rate_limiting cfg client_name remote_addr \<longleftrightarrow>
     (case client_name of None \<Rightarrow> False | Some n \<Rightarrow> lower n = ''internal'') \<and>
     (is_local_addr remote_addr \<or> DEBUG_RATE_LIMITING cfg)"

definition should_rate_limit :: "rl_settings \<Rightarrow> string option \<Rightarrow> string \<Rightarrow> bool" where
  "should_rate_limit cfg client_name remote_addr =
     (if \<not> RATE_LIMITING cfg then False
      else if client_is_exempt_from_rate_limiting cfg client_name remote_addr then False else True)"

definition rate_limit_user :: "rl_settings \<Rightarrow> 's backend \<Rightarrow> string option \<Rightarrow> string \<Rightarrow> int \<Rightarrow> string \<Rightarrow> string \<Rightarrow>
    ('s \<times> rate_limit_result list, unit) prog" where
  "rate_limit_user cfg B client_name remote_addr user_id rate_limits domain =
     (if \<not> should_rate_limit cfg client_name remote_addr then ret ()
      else bnd (lift (user_rules cfg rate_limits domain)) (rate_limit_request B (user_key user_id domain)))"

text \<open>\<open>tor_ips\<close> is the cached list of exit nodes, or nothing when it could not be read.\<close>

definition bucket_addr :: "string list option \<Rightarrow> string \<Rightarrow> string" where
  "bucket_addr tor_ips ip_addr =
     (if is_local_addr ip_addr then ip_addr
      else case tor_ips of None \<Rightarrow> ip_addr | Some ips \<Rightarrow> if ip_addr \<in> set ips then ''tor-exit-node'' else ip_addr)"

definition rate_limit_request_by_ip :: "rl_settings \<Rightarrow> 's backend \<Rightarrow> string list option \<Rightarrow> string option \<Rightarrow> string \<Rightarrow>
    string \<Rightarrow> ('s \<times> rate_limit_result list, unit) prog" where
  "rate_limit_request_by_ip cfg B tor_ips client_name remote_addr domain =
     (if \<not> should_rate_limit cfg client_name remote_addr then ret ()
      else seq (lift (py_assert (remote_addr \<noteq> [])))
          (bnd (lift (domain_rules cfg domain))
             (rate_limit_request B (ip_key (bucket_addr tor_ips remote_addr) domain))))"

definition rate_limit_spectator_attachment_access_by_file ::
    "rl_settings \<Rightarrow> 's backend \<Rightarrow> string \<Rightarrow> ('s, unit) prog" where
  "rate_limit_spectator_attachment_access_by_file cfg B path_id =
     bnd (lift (domain_rules cfg ''spectator_attachment_access_by_file'')) (\<lambda>rs.
     bnd (b_rate_limit B (file_key path_id) (get_rules rs) (max_api_calls rs) (max_api_window rs)) (\<lambda>(ratelimited, _).
     if ratelimited then raise (RateLimitedError None) else ret ()))"


section \<open>The contract of a backend\<close>

definition valid_rules :: "rule list \<Rightarrow> bool" where
  "valid_rules rules \<longleftrightarrow> list_all (\<lambda>r. 0 < fst r \<and> 0 < snd r) rules"

text \<open>
  What the request level relies on: a call is decided without an exception; a refusal has a
  positive waiting time; after an accepted call fewer than the maximum are left.
\<close>

locale limiter_backend =
  fixes B :: "'s backend" and ok :: "'s \<Rightarrow> bool"
  assumes decides: "ok s \<Longrightarrow> rules \<noteq> [] \<Longrightarrow> valid_rules rules \<Longrightarrow>
      \<exists>b t s'. b_rate_limit B key rules (snd (last rules)) (fst (last rules)) s = (Inr (b, t), s') \<and>
        ok s' \<and> (b \<longrightarrow> 0 < t) \<and>
        (\<not> b \<longrightarrow> (\<exists>n r. b_calls_left B key (fst (last rules)) (snd (last rules)) s' = (Inr (n, r), s') \<and>
           0 \<le> n \<and> n < snd (last rules) \<and> 0 \<le> r))"
begin

lemma get_rules_ok: "get_rules rs \<noteq> []" "valid_rules rs \<Longrightarrow> valid_rules (get_rules rs)"
  by (simp_all add: get_rules_def valid_rules_def)

lemma request_outcome:
  assumes "ok s" "valid_rules rs"
  shows "\<exists>s' note. ok s' \<and> rr_key note = key \<and>
    (if over_limit note
     then rate_limit_request B key rs (s, notes) = (Inl (RateLimitedError (Some (secs_to_freedom note))), s', notes @ [note]) \<and>
       remaining note = 0 \<and> 0 < secs_to_freedom note
     else rate_limit_request B key rs (s, notes) = (Inr (), s', notes @ [note]) \<and>
       0 \<le> remaining note \<and> remaining note < max_api_calls rs \<and> 0 \<le> secs_to_freedom note)"
proof -
  from decides [OF assms(1) get_rules_ok(1) get_rules_ok(2) [OF assms(2)], of key]
  obtain b t s' where r: "b_rate_limit B key (get_rules rs) (max_api_calls rs) (max_api_window rs) s = (Inr (b, t), s')"
    "ok s'" "b \<longrightarrow> 0 < t"
    and left: "\<not> b \<Longrightarrow> \<exists>n r. b_calls_left B key (max_api_window rs) (max_api_calls rs) s' = (Inr (n, r), s') \<and>
       0 \<le> n \<and> n < max_api_calls rs \<and> 0 \<le> r"
    by (auto simp: max_api_calls_def max_api_window_def)
  show ?thesis
  proof (cases b)
    case True
    let ?n = "\<lparr>rr_key = key, secs_to_freedom = t, over_limit = True, remaining = 0\<rparr>"
    have "rate_limit_request B key rs (s, notes) = (Inl (RateLimitedError (Some t)), s', notes @ [?n])"
      using r(1) True by (simp add: rate_limit_request_def bnd_def on_backend_def modify_def raise_def)
    with r(2,3) True show ?thesis by (intro exI [of _ s'] exI [of _ ?n]) simp
  next
    case False
    from left [OF this] obtain n u where l: "b_calls_left B key (max_api_window rs) (max_api_calls rs) s' = (Inr (n, u), s')"
      "0 \<le> n" "n < max_api_calls rs" "0 \<le> u" by blast
    let ?n = "\<lparr>rr_key = key, secs_to_freedom = u, over_limit = False, remaining = n\<rparr>"
    have "rate_limit_request B key rs (s, notes) = (Inr (), s', notes @ [?n])"
      using r(1) l(1) False by (simp add: rate_limit_request_def bnd_def on_backend_def modify_def)
    with r(2) l show ?thesis by (intro exI [of _ s'] exI [of _ ?n]) simp
  qed
qed

end

text \<open>The in-memory backend meets it, at every instant, on tables whose buckets fit their windows.\<close>

definition mem_ok :: "real \<Rightarrow> mem_state \<Rightarrow> bool" where
  "mem_ok now s \<longleftrightarrow> wf_mem s \<and> (\<forall>rule key. 0 < fst rule \<and> 0 < snd rule \<longrightarrow> in_window now rule key s)"

lemma mem_ok_called: "mem_ok now s \<Longrightarrow> called now key rule s s' \<Longrightarrow> mem_ok now s'"
  unfolding mem_ok_def using called_wf in_window_called by (metis order_less_imp_le)

lemma step_pos: "0 < fst rule \<Longrightarrow> 0 < snd rule \<Longrightarrow> 0 < step_of rule"
  by (simp add: step_of_def)

lemma check_rules_ok:
  assumes "mem_ok now s" "valid_rules rules" "rules \<noteq> []"
  shows "\<exists>b t s'. check_rules (\<lambda>_. now) key rules i r s = (Inr (b, t), s') \<and> mem_ok now s' \<and> (b \<longrightarrow> 0 < t) \<and>
    (\<not> b \<longrightarrow> now + step_of (last rules) \<le> filled_until now s' (last rules) key)"
  using assms
proof (induction rules arbitrary: i r s)
  case Nil
  then show ?case by simp
next
  case (Cons rule rules)
  from Cons.prems(2) have pos: "0 < fst rule" "0 < snd rule" by (simp_all add: valid_rules_def)
  from Cons.prems(1) have wf: "wf_mem s" by (simp add: mem_ok_def)
  let ?L = "filled_until now s rule key"
  obtain s' where s': "need_to_limit now key rule s = (Inr (fst (bucket_step now rule ?L)), s')" "called now key rule s s'"
    using need_to_limit_step [OF wf, of rule now key] pos by auto
  note ok' = mem_ok_called [OF Cons.prems(1) s'(2)]
  show ?case
  proof (cases "?L + step_of rule > now + of_int (fst rule)")
    case True
    then have "check_rules (\<lambda>_. now) key (rule # rules) i r s =
        (Inr (True, ?L + step_of rule - of_int (fst rule) - now), s')"
      using s'(1) by (simp add: bnd_def bucket_step_def Let_def ret_def)
    then show ?thesis using ok' True by auto
  next
    case False
    then have run: "check_rules (\<lambda>_. now) key (rule # rules) i r s = check_rules (\<lambda>_. now) key rules (Suc i) (False, 0) s'"
      using s'(1) by (simp add: bnd_def bucket_step_def Let_def)
    show ?thesis
    proof (cases "rules = []")
      case True
      have "filled_until now s' rule key = max now (?L + step_of rule)"
        using called_filled [OF s'(2), of rule key] False by (simp add: bucket_step_def Let_def)
      then have "now + step_of rule \<le> filled_until now s' rule key"
        using filled_until_ge [of now s rule key] by simp
      with run ok' True show ?thesis by (auto simp: ret_def)
    next
      case rules: False
      have "valid_rules rules" using Cons.prems(2) by (simp add: valid_rules_def)
      from Cons.IH [OF ok' this rules, of "Suc i" "(False, 0)"] run rules show ?thesis by simp
    qed
  qed
qed

lemma calls_left_after:
  assumes "0 < w" "0 < c" "mem_ok now s" "now + step_of (w, c) \<le> filled_until now s (w, c) key"
  shows "\<exists>n r. get_api_calls_left now key w c s = (Inr (n, r), s) \<and> 0 \<le> n \<and> n < c \<and> 0 \<le> r"
proof -
  have w: "(0::real) < of_int w" "(0::real) < of_int c" using assms(1,2) by simp_all
  let ?L = "filled_until now s (w, c) key"
  have st: "0 < step_of (w, c)" using step_pos [of "(w, c)"] assms(1,2) by simp
  with assms(4) obtain r where r: "bucket s (w, c) key = Some r" "?L = r" "now < r"
    by (auto simp: filled_until_def max_def split: option.splits if_splits)
  have top: "?L \<le> now + of_int w" using assms(1-3) by (auto simp: mem_ok_def in_window_def)
  have run: "get_api_calls_left now key w c s = (Inr (\<lfloor>(now + of_int w - r) * of_int c / of_int w\<rfloor>, r - now), s)"
    using r(1) assms(1) by (simp add: get_api_calls_left_def bucket_def bnd_def gets_def ret_def)
  have "0 \<le> (now + of_int w - r) * of_int c / of_int w" using top r(2) w by simp
  moreover have "(now + of_int w - r) * of_int c / of_int w < of_int c"
    using r(3) w by (simp add: pos_divide_less_eq mult.commute)
  ultimately have "0 \<le> \<lfloor>(now + of_int w - r) * of_int c / of_int w\<rfloor>" "\<lfloor>(now + of_int w - r) * of_int c / of_int w\<rfloor> < c"
    by (simp_all add: floor_less_iff)
  with run r(3) show ?thesis by auto
qed

lemma mem_ok_blocked [simp]: "mem_ok now (s\<lparr>timestamps_blocked_until := b\<rparr>) = mem_ok now s"
  by (simp add: mem_ok_def wf_mem_def in_window_def filled_until_def bucket_def)

interpretation memory: limiter_backend "mem_backend now" "mem_ok now" for now
proof
  fix s :: mem_state and rules key
  assume ok: "mem_ok now s" and rules: "rules \<noteq> []" "valid_rules rules"
  obtain w c where last: "last rules = (w, c)" by fastforce
  have "(w, c) \<in> set rules" using last_in_set [OF rules(1)] last by simp
  with rules(2) have pos: "0 < w" "0 < c" by (auto simp: valid_rules_def list_all_iff)
  have checked: "\<exists>b t s'. check_rules (\<lambda>_. now) key rules 0 (False, 0) s0 = (Inr (b, t), s') \<and> mem_ok now s' \<and> (b \<longrightarrow> 0 < t) \<and>
      (\<not> b \<longrightarrow> (\<exists>n r. get_api_calls_left now key w c s' = (Inr (n, r), s') \<and> 0 \<le> n \<and> n < c \<and> 0 \<le> r))"
    if "mem_ok now s0" for s0
    using check_rules_ok [OF that rules(2,1), of key 0 "(False, 0)"] calls_left_after [OF pos] by (auto simp: last)
  show "\<exists>b t s'. b_rate_limit (mem_backend now) key rules (snd (last rules)) (fst (last rules)) s = (Inr (b, t), s') \<and>
      mem_ok now s' \<and> (b \<longrightarrow> 0 < t) \<and>
      (\<not> b \<longrightarrow> (\<exists>n r. b_calls_left (mem_backend now) key (fst (last rules)) (snd (last rules)) s' = (Inr (n, r), s') \<and>
         0 \<le> n \<and> n < snd (last rules) \<and> 0 \<le> r))"
  proof (cases "map_of (timestamps_blocked_until s) key")
    case None
    with checked [OF ok] rules(1) show ?thesis
      by (simp add: mem_backend_def rate_limit_entity_def bnd_def gets_def lift_def last)
  next
    case (Some t)
    have "mem_ok now (s\<lparr>timestamps_blocked_until := AList.delete key (timestamps_blocked_until s)\<rparr>)" using ok by simp
    from checked [OF this] Some ok rules(1) show ?thesis
      by (cases "now < t") (auto simp: mem_backend_def rate_limit_entity_def bnd_def gets_def lift_def modify_def ret_def last)
  qed
qed


section \<open>Properties of requests\<close>

text \<open>
  A rate-limited request has two outcomes: it is refused, with a positive time to wait in the
  error and in the request's notes, or it proceeds, and then its notes say how many calls are
  left, fewer than the maximum and not negative, and how long until the limit resets.  Either
  way exactly one note is added and the tables stay fit for the next request.
\<close>

theorem request_limit_outcome:
  assumes "mem_ok now s" "valid_rules rs"
  shows "\<exists>s' note. mem_ok now s' \<and> rr_key note = key \<and>
    (if over_limit note
     then rate_limit_request (mem_backend now) key rs (s, notes) =
         (Inl (RateLimitedError (Some (secs_to_freedom note))), s', notes @ [note]) \<and>
       remaining note = 0 \<and> 0 < secs_to_freedom note
     else rate_limit_request (mem_backend now) key rs (s, notes) = (Inr (), s', notes @ [note]) \<and>
       0 \<le> remaining note \<and> remaining note < max_api_calls rs \<and> 0 \<le> secs_to_freedom note)"
  using assms by (rule memory.request_outcome)

text \<open>
  A manual block is absolute and exact: until it ends every call of the entity is refused with the
  remaining time, whatever its rules, and no bucket is charged; \<open>unblock_access\<close> lifts it and
  leaves no trace.
\<close>

theorem block_exact:
  assumes "s' = snd (block_access now key secs s)"
  shows "(t < now + of_int secs \<longrightarrow> rate_limit_entity t clock key rules s' = (Inr (True, now + of_int secs - t), s')) \<and>
    (\<not> has_key (timestamps_blocked_until s) key \<longrightarrow>
       rate_limit_entity t clock key rules (snd (unblock_access key s')) = rate_limit_entity t clock key rules s)"
proof -
  have s': "s' = s\<lparr>timestamps_blocked_until := AList.update key (now + of_int secs) (timestamps_blocked_until s)\<rparr>"
    using assms by (simp add: block_access_def modify_def)
  have undo: "AList.delete key (AList.update key v m) = m" if "\<not> has_key m key" for v and m :: "(string \<times> real) list"
    using that by (induction m) (auto simp: has_key_def split: if_splits)
  have "snd (unblock_access key s') = s" if "\<not> has_key (timestamps_blocked_until s) key"
    using undo [OF that] by (simp add: s' unblock_access_def bnd_def gets_def modify_def)
  then show ?thesis
    by (simp add: s' rate_limit_entity_def bnd_def gets_def ret_def)
qed

text \<open>
  The retry loop of the Redis transaction ends: it tries at most twelve transactions, succeeds
  with the first that is not aborted, and gives up only when all twelve were.
\<close>

theorem incr_attempts_bounded:
  "incr_attempts conflict 0 = (if list_all conflict [0..<12] then Inl RateLimiterLockingError
     else Inr (Suc (length (takeWhile conflict [0..<12]))))"
proof (cases "list_all conflict [0..<12]")
  case True
  then have "\<forall>i\<le>11. conflict i" by (auto simp: list_all_iff)
  with True show ?thesis using incr_attempts_result [of 0 conflict] by auto
next
  case False
  then obtain i where "i < 12" "\<not> conflict i" by (auto simp: list_all_iff)
  then have i: "i \<le> 11" "\<not> conflict i" by simp_all
  define l where "l = (LEAST i. \<not> conflict i)"
  have l: "\<not> conflict l" using LeastI [of "\<lambda>i. \<not> conflict i", OF i(2)] by (simp add: l_def)
  have below: "conflict j" if "j < l" for j using not_less_Least [of j "\<lambda>i. \<not> conflict i"] that by (simp add: l_def)
  have "l \<le> i" using Least_le [of "\<lambda>i. \<not> conflict i", OF i(2)] by (simp add: l_def)
  with i(1) have "l < 12" by simp
  then have "[0..<12] = [0..<l] @ [l..<12]" "[l..<12] = l # [Suc l..<12]"
    using upt_add_eq_append [of 0 l "12 - l"] by (simp_all add: upt_conv_Cons)
  moreover have "takeWhile conflict ([0..<l] @ l # [Suc l..<12]) = [0..<l] @ takeWhile conflict (l # [Suc l..<12])"
    by (rule takeWhile_append2) (simp add: below)
  ultimately have "length (takeWhile conflict [0..<12]) = l"
    using l by simp
  moreover have "incr_attempts conflict 0 = Inr (Suc l)"
    using incr_attempts_result [of 0 conflict] i by (auto simp: l_def)
  ultimately show ?thesis using False by simp
qed

definition empty_mem :: mem_state where
  "empty_mem = \<lparr>reset_times = [], last_gc_time = [], timestamps_blocked_until = []\<rparr>"

definition two_rules :: "rule list" where
  "two_rules = [(10, 2), (10, 1)]"


lemma wf_empty_mem: "wf_mem empty_mem"
  by (simp add: wf_mem_def empty_mem_def)

lemma filled_empty_mem [simp]: "filled_until now empty_mem rule key = now"
  by (simp add: filled_until_def bucket_def empty_mem_def get_or_def)

lemma mem_ok_empty: "mem_ok now empty_mem"
  by (simp add: mem_ok_def wf_empty_mem in_window_def)

text \<open>
  The two backends disagree on refused calls: with a rule of two calls per ten seconds before a
  rule of one, the in-memory backend charges the first rule's bucket also for a call that the
  second rule refuses, which the Redis backend does not count.
\<close>

theorem refused_call_charged:
  "map (\<lambda>s. fst (get_api_calls_left 1000 ''k'' 10 2 s))
     (let s1 = snd (rate_limit_entity 1000 (\<lambda>_. 1000) ''k'' two_rules empty_mem);
          s2 = snd (rate_limit_entity 1000 (\<lambda>_. 1000) ''k'' two_rules s1) in [s1, s2]) = [Inr (1, 5), Inr (0, 10)] \<and>
   (let s1 = snd (rate_limit_entity 1000 (\<lambda>_. 1000) ''k'' two_rules empty_mem)
    in fst (rate_limit_entity 1000 (\<lambda>_. 1000) ''k'' two_rules s1) = Inr (True, 10))"
  by (simp add: rate_limit_entity_def two_rules_def empty_mem_def bnd_def gets_def ret_def lift_def modify_def
      need_to_limit_def collect_old_def garbage_collect_for_rule_def setdefault_def get_or_def has_key_def
      get_api_calls_left_def Let_def)


theorem calls_left_exact_witness:
  "\<exists>n reset. get_api_calls_left 1000 ''k'' 10 2 (snd (need_to_limit 1000 ''k'' (10, 2) empty_mem)) =
     (Inr (n, reset), snd (need_to_limit 1000 ''k'' (10, 2) empty_mem)) \<and> 0 \<le> n \<and> n \<le> 2 \<and> 0 \<le> reset \<and>
     accepted ''k'' (10, 2) (replicate 5 (1000, ''k'', (10, 2))) (snd (need_to_limit 1000 ''k'' (10, 2) empty_mem)) = min 5 (nat n)"
proof (rule calls_left_exact)
  show "wf_mem (snd (need_to_limit 1000 ''k'' (10, 2) empty_mem))"
    using need_to_limit_step [OF wf_empty_mem, of "(10, 2)" 1000 "''k''"] called_wf by auto
  show "case bucket (snd (need_to_limit 1000 ''k'' (10, 2) empty_mem)) (10, 2) ''k'' of
      None \<Rightarrow> True | Some r \<Rightarrow> 1000 \<le> r \<and> r \<le> 1000 + of_int 10"
    by (simp add: need_to_limit_def empty_mem_def bnd_def gets_def ret_def modify_def collect_old_def
        garbage_collect_for_rule_def setdefault_def get_or_def has_key_def bucket_def Let_def)
qed simp_all

theorem retry_after_exact_witness:
  "\<exists>t s s'. need_to_limit 1000 ''k'' (10, 1) s = (Inr (True, t), s') \<and> 0 < t \<and> t \<le> 10 \<and>
     passes (fst (need_to_limit (1000 + 12) ''k'' (10, 1) s')) = (t \<le> 12)"
proof -
  let ?s = "snd (need_to_limit 1000 ''k'' (10, 1) empty_mem)"
  obtain s where s: "?s = s" "called 1000 ''k'' (10, 1) empty_mem s"
    using need_to_limit_step [OF wf_empty_mem, of "(10, 1)" 1000 "''k''"] by auto
  have L: "filled_until 1000 s (10, 1) ''k'' = 1010"
    using called_filled [OF s(2), of "(10, 1)" "''k''"] by (simp add: bucket_step_def step_of_def Let_def)
  obtain s' where s': "need_to_limit 1000 ''k'' (10, 1) s = (Inr (True, 10), s')"
    using need_to_limit_step [OF called_wf [OF s(2)], of "(10, 1)" 1000 "''k''"] L
    by (auto simp: bucket_step_def step_of_def Let_def)
  have "in_window 1000 (10, 1) ''k'' s" by (simp add: in_window_def L)
  from retry_after_exact [OF called_wf [OF s(2)] _ _ this s', of 12]
  have "0 < (10::real) \<and> (10::real) \<le> of_int 10 / of_int 1 \<and>
      passes (fst (need_to_limit (1000 + 12) ''k'' (10, 1) s')) = (10 \<le> (12::real))" by simp
  with s' show ?thesis by (intro exI [of _ 10] exI [of _ s] exI [of _ s']) simp
qed


theorem request_limit_outcome_witness:
  "\<exists>s' note. mem_ok 1000 s' \<and> rr_key note = ''k'' \<and>
    (if over_limit note
     then rate_limit_request (mem_backend 1000) ''k'' two_rules (empty_mem, []) =
         (Inl (RateLimitedError (Some (secs_to_freedom note))), s', [] @ [note]) \<and>
       remaining note = 0 \<and> 0 < secs_to_freedom note
     else rate_limit_request (mem_backend 1000) ''k'' two_rules (empty_mem, []) = (Inr (), s', [] @ [note]) \<and>
       0 \<le> remaining note \<and> remaining note < max_api_calls two_rules \<and> 0 \<le> secs_to_freedom note)"
  by (rule request_limit_outcome [OF mem_ok_empty]) (simp add: valid_rules_def two_rules_def)

theorem block_exact_witness:
  "rate_limit_entity 1005 (\<lambda>_. 1005) ''k'' two_rules (snd (block_access 1000 ''k'' 60 empty_mem)) =
     (Inr (True, 55), snd (block_access 1000 ''k'' 60 empty_mem))"
  using block_exact [OF refl, of 1005 1000 60 "\<lambda>_. 1005" "''k''" two_rules empty_mem] by simp

end
