(* ===== verification/NotificationData.thy ===== *)
theory NotificationData
  imports Prelude
begin

text \<open>
  The decision whether a message notifies a user, from
  \<^verbatim>\<open>zerver/lib/notification_data.py\<close>: the \<open>UserMessageNotificationsData\<close> record, its
  construction from the sender's user-id sets, the push and e-mail triggers, the hierarchy of
  stream settings and the choice of the user group a mention is attributed to.

  The locale \<open>notification_channel\<close> is the contract the push and the e-mail trigger share
  and the event queue relies on; it is interpreted on both.  The user groups live in the
  database: their members and names are parameters.
\<close>

datatype trigger =
    DIRECT_MESSAGE
  | MENTION
  | TOPIC_WILDCARD_MENTION
  | STREAM_WILDCARD_MENTION
  | STREAM_PUSH
  | STREAM_EMAIL
  | FOLLOWED_TOPIC_PUSH
  | FOLLOWED_TOPIC_EMAIL
  | TOPIC_WILDCARD_MENTION_IN_FOLLOWED_TOPIC
  | STREAM_WILDCARD_MENTION_IN_FOLLOWED_TOPIC

fun trigger_name :: "trigger \<Rightarrow> string" where
  "trigger_name DIRECT_MESSAGE = ''direct_message''"
| "trigger_name MENTION = ''mentioned''"
| "trigger_name TOPIC_WILDCARD_MENTION = ''topic_wildcard_mentioned''"
| "trigger_name STREAM_WILDCARD_MENTION = ''stream_wildcard_mentioned''"
| "trigger_name STREAM_PUSH = ''stream_push_notify''"
| "trigger_name STREAM_EMAIL = ''stream_email_notify''"
| "trigger_name FOLLOWED_TOPIC_PUSH = ''followed_topic_push_notify''"
| "trigger_name FOLLOWED_TOPIC_EMAIL = ''followed_topic_email_notify''"
| "trigger_name TOPIC_WILDCARD_MENTION_IN_FOLLOWED_TOPIC =
     ''topic_wildcard_mentioned_in_followed_topic''"
| "trigger_name STREAM_WILDCARD_MENTION_IN_FOLLOWED_TOPIC =
     ''stream_wildcard_mentioned_in_followed_topic''"

record notif =
  user_id :: int
  online_push_enabled :: bool
  dm_email_notify :: bool
  dm_push_notify :: bool
  mention_email_notify :: bool
  mention_push_notify :: bool
  topic_wildcard_mention_email_notify :: bool
  topic_wildcard_mention_push_notify :: bool
  stream_wildcard_mention_email_notify :: bool
  stream_wildcard_mention_push_notify :: bool
  stream_push_notify :: bool
  stream_email_notify :: bool
  followed_topic_push_notify :: bool
  followed_topic_email_notify :: bool
  topic_wildcard_mention_in_followed_topic_push_notify :: bool
  topic_wildcard_mention_in_followed_topic_email_notify :: bool
  stream_wildcard_mention_in_followed_topic_push_notify :: bool
  stream_wildcard_mention_in_followed_topic_email_notify :: bool
  sender_is_muted :: bool
  disable_external_notifications :: bool

text \<open>The dataclass constructor: \<open>__post_init__\<close> refuses dubious data.\<close>

definition post_init_ok :: "notif \<Rightarrow> bool" where
  "post_init_ok n \<longleftrightarrow>
     (if dm_email_notify n \<or> dm_push_notify n
      then \<not> (stream_email_notify n \<or> stream_push_notify n
              \<or> followed_topic_email_notify n \<or> followed_topic_push_notify n)
      else True) \<and>
     (if stream_email_notify n \<or> stream_push_notify n
         \<or> followed_topic_email_notify n \<or> followed_topic_push_notify n
      then \<not> (dm_email_notify n \<or> dm_push_notify n)
      else True)"

definition make_notif :: "notif \<Rightarrow> notif res" where
  "make_notif n = ebind (py_assert (post_init_ok n)) (\<lambda>_. Inr n)"

text \<open>The keyword arguments of \<open>from_user_id_sets\<close> that are sets of user ids.\<close>

record user_id_sets =
  online_push_user_ids :: "int set"
  dm_mention_push_disabled_user_ids :: "int set"
  dm_mention_email_disabled_user_ids :: "int set"
  stream_push_user_ids :: "int set"
  stream_email_user_ids :: "int set"
  topic_wildcard_mention_user_ids :: "int set"
  stream_wildcard_mention_user_ids :: "int set"
  followed_topic_push_user_ids :: "int set"
  followed_topic_email_user_ids :: "int set"
  topic_wildcard_mention_in_followed_topic_user_ids :: "int set"
  stream_wildcard_mention_in_followed_topic_user_ids :: "int set"
  muted_sender_user_ids :: "int set"
  all_bot_user_ids :: "int set"

definition bot_notif :: "int \<Rightarrow> notif" where
  "bot_notif uid = \<lparr>
     user_id = uid, online_push_enabled = False,
     dm_email_notify = False, dm_push_notify = False,
     mention_email_notify = False, mention_push_notify = False,
     topic_wildcard_mention_email_notify = False, topic_wildcard_mention_push_notify = False,
     stream_wildcard_mention_email_notify = False, stream_wildcard_mention_push_notify = False,
     stream_push_notify = False, stream_email_notify = False,
     followed_topic_push_notify = False, followed_topic_email_notify = False,
     topic_wildcard_mention_in_followed_topic_push_notify = False,
     topic_wildcard_mention_in_followed_topic_email_notify = False,
     stream_wildcard_mention_in_followed_topic_push_notify = False,
     stream_wildcard_mention_in_followed_topic_email_notify = False,
     sender_is_muted = False, disable_external_notifications = False\<rparr>"

definition computed_notif :: "int \<Rightarrow> string list \<Rightarrow> bool \<Rightarrow> bool \<Rightarrow> user_id_sets \<Rightarrow> notif" where
  "computed_notif uid flags private_message disable_external s =
    (let email_ok = uid \<notin> dm_mention_email_disabled_user_ids s;
         push_ok = uid \<notin> dm_mention_push_disabled_user_ids s
     in \<lparr>
     user_id = uid,
     online_push_enabled = uid \<in> online_push_user_ids s,
     dm_email_notify = email_ok \<and> private_message,
     dm_push_notify = push_ok \<and> private_message,
     mention_email_notify = email_ok \<and> ''mentioned'' \<in> set flags,
     mention_push_notify = push_ok \<and> ''mentioned'' \<in> set flags,
     topic_wildcard_mention_email_notify =
       uid \<in> topic_wildcard_mention_user_ids s \<and> email_ok \<and> ''topic_wildcard_mentioned'' \<in> set flags,
     topic_wildcard_mention_push_notify =
       uid \<in> topic_wildcard_mention_user_ids s \<and> push_ok \<and> ''topic_wildcard_mentioned'' \<in> set flags,
     stream_wildcard_mention_email_notify =
       uid \<in> stream_wildcard_mention_user_ids s \<and> email_ok \<and> ''stream_wildcard_mentioned'' \<in> set flags,
     stream_wildcard_mention_push_notify =
       uid \<in> stream_wildcard_mention_user_ids s \<and> push_ok \<and> ''stream_wildcard_mentioned'' \<in> set flags,
     stream_push_notify = uid \<in> stream_push_user_ids s,
     stream_email_notify = uid \<in> stream_email_user_ids s,
     followed_topic_push_notify = uid \<in> followed_topic_push_user_ids s,
     followed_topic_email_notify = uid \<in> followed_topic_email_user_ids s,
     topic_wildcard_mention_in_followed_topic_push_notify =
       uid \<in> topic_wildcard_mention_in_followed_topic_user_ids s \<and> push_ok
         \<and> ''topic_wildcard_mentioned'' \<in> set flags,
     topic_wildcard_mention_in_followed_topic_email_notify =
       uid \<in> topic_wildcard_mention_in_followed_topic_user_ids s \<and> email_ok
         \<and> ''topic_wildcard_mentioned'' \<in> set flags,
     stream_wildcard_mention_in_followed_topic_push_notify =
       uid \<in> stream_wildcard_mention_in_followed_topic_user_ids s \<and> push_ok
         \<and> ''stream_wildcard_mentioned'' \<in> set flags,
     stream_wildcard_mention_in_followed_topic_email_notify =
       uid \<in> stream_wildcard_mention_in_followed_topic_user_ids s \<and> email_ok
         \<and> ''stream_wildcard_mentioned'' \<in> set flags,
     sender_is_muted = uid \<in> muted_sender_user_ids s,
     disable_external_notifications = disable_external\<rparr>)"

definition from_user_id_sets ::
    "int \<Rightarrow> string list \<Rightarrow> bool \<Rightarrow> bool \<Rightarrow> user_id_sets \<Rightarrow> notif res" where
  "from_user_id_sets uid flags private_message disable_external s =
     (if uid \<in> all_bot_user_ids s then make_notif (bot_notif uid)
      else make_notif (computed_notif uid flags private_message disable_external s))"

section \<open>Triggers\<close>

definition trivially_should_not_notify :: "notif \<Rightarrow> int \<Rightarrow> bool" where
  "trivially_should_not_notify n acting_user_id =
     (if user_id n = acting_user_id then True
      else if sender_is_muted n then True
      else if disable_external_notifications n then True
      else False)"

definition get_push_notification_trigger :: "notif \<Rightarrow> int \<Rightarrow> bool \<Rightarrow> trigger option" where
  "get_push_notification_trigger n acting_user_id idle =
     (if \<not> idle \<and> \<not> online_push_enabled n then None
      else if trivially_should_not_notify n acting_user_id then None
      else if dm_push_notify n then Some DIRECT_MESSAGE
      else if mention_push_notify n then Some MENTION
      else if topic_wildcard_mention_in_followed_topic_push_notify n
        then Some TOPIC_WILDCARD_MENTION_IN_FOLLOWED_TOPIC
      else if stream_wildcard_mention_in_followed_topic_push_notify n
        then Some STREAM_WILDCARD_MENTION_IN_FOLLOWED_TOPIC
      else if topic_wildcard_mention_push_notify n then Some TOPIC_WILDCARD_MENTION
      else if stream_wildcard_mention_push_notify n then Some STREAM_WILDCARD_MENTION
      else if followed_topic_push_notify n then Some FOLLOWED_TOPIC_PUSH
      else if stream_push_notify n then Some STREAM_PUSH
      else None)"

definition get_email_notification_trigger :: "notif \<Rightarrow> int \<Rightarrow> bool \<Rightarrow> trigger option" where
  "get_email_notification_trigger n acting_user_id idle =
     (if \<not> idle then None
      else if trivially_should_not_notify n acting_user_id then None
      else if dm_email_notify n then Some DIRECT_MESSAGE
      else if mention_email_notify n then Some MENTION
      else if topic_wildcard_mention_in_followed_topic_email_notify n
        then Some TOPIC_WILDCARD_MENTION_IN_FOLLOWED_TOPIC
      else if stream_wildcard_mention_in_followed_topic_email_notify n
        then Some STREAM_WILDCARD_MENTION_IN_FOLLOWED_TOPIC
      else if topic_wildcard_mention_email_notify n then Some TOPIC_WILDCARD_MENTION
      else if stream_wildcard_mention_email_notify n then Some STREAM_WILDCARD_MENTION
      else if followed_topic_email_notify n then Some FOLLOWED_TOPIC_EMAIL
      else if stream_email_notify n then Some STREAM_EMAIL
      else None)"

definition is_push_notifiable :: "notif \<Rightarrow> int \<Rightarrow> bool \<Rightarrow> bool" where
  "is_push_notifiable n acting_user_id idle \<longleftrightarrow>
     get_push_notification_trigger n acting_user_id idle \<noteq> None"

definition is_email_notifiable :: "notif \<Rightarrow> int \<Rightarrow> bool \<Rightarrow> bool" where
  "is_email_notifiable n acting_user_id idle \<longleftrightarrow>
     get_email_notification_trigger n acting_user_id idle \<noteq> None"

definition is_notifiable :: "notif \<Rightarrow> int \<Rightarrow> bool \<Rightarrow> bool" where
  "is_notifiable n acting_user_id idle \<longleftrightarrow>
     is_email_notifiable n acting_user_id idle \<or> is_push_notifiable n acting_user_id idle"

section \<open>Stream and topic settings\<close>

datatype visibility_policy = INHERIT | MUTED | UNMUTED | FOLLOWED

definition user_allows_notifications_in_StreamTopic ::
    "bool \<Rightarrow> visibility_policy \<Rightarrow> bool option \<Rightarrow> bool \<Rightarrow> bool" where
  "user_allows_notifications_in_StreamTopic stream_is_muted policy stream_specific_setting global_setting =
     (if stream_is_muted \<and> policy \<noteq> UNMUTED then False
      else if policy = MUTED then False
      else case stream_specific_setting of Some b \<Rightarrow> b | None \<Rightarrow> global_setting)"

section \<open>Group mentions\<close>

text \<open>
  \<open>members g\<close> are the ids \<open>mention_data.get_group_members(g)\<close> returns, a set given as a
  list without repetition.
\<close>

definition attribute_member ::
    "int set \<Rightarrow> (int \<Rightarrow> int list) \<Rightarrow> int \<Rightarrow> int \<Rightarrow> (int \<rightharpoonup> int) \<Rightarrow> (int \<rightharpoonup> int)" where
  "attribute_member mentioned_user_ids members group_id member_id m =
     (if member_id \<in> mentioned_user_ids then m
      else case m member_id of
        Some previous_group_id \<Rightarrow>
          (if length (members previous_group_id) > length (members group_id)
           then m(member_id \<mapsto> group_id) else m)
      | None \<Rightarrow> m(member_id \<mapsto> group_id))"

definition attribute_group ::
    "int set \<Rightarrow> (int \<Rightarrow> int list) \<Rightarrow> int \<Rightarrow> (int \<rightharpoonup> int) \<Rightarrow> (int \<rightharpoonup> int)" where
  "attribute_group mentioned_user_ids members group_id =
     fold (attribute_member mentioned_user_ids members group_id) (members group_id)"

definition get_user_group_mentions_data ::
    "int set \<Rightarrow> int list \<Rightarrow> (int \<Rightarrow> int list) \<Rightarrow> (int \<rightharpoonup> int)" where
  "get_user_group_mentions_data mentioned_user_ids mentioned_user_group_ids members =
     fold (attribute_group mentioned_user_ids members) mentioned_user_group_ids Map.empty"

record mention_message =
  mentioned_user_group_id :: "int option"
  mtrigger :: trigger

record mentioned_user_group =
  mg_id :: int
  mg_name :: string
  members_count :: nat

fun smallest_group ::
    "(int \<Rightarrow> mentioned_user_group res) \<Rightarrow> int list \<Rightarrow> mentioned_user_group option
     \<Rightarrow> mentioned_user_group option res" where
  "smallest_group lookup_group [] best = Inr best"
| "smallest_group lookup_group (g # gs) best =
     ebind (lookup_group g) (\<lambda>current.
       smallest_group lookup_group gs
         (case best of
            None \<Rightarrow> Some current
          | Some b \<Rightarrow> if members_count current < members_count b then Some current else best))"

definition get_mentioned_user_group ::
    "(int \<Rightarrow> mentioned_user_group res) \<Rightarrow> mention_message list \<Rightarrow> mentioned_user_group option res" where
  \<comment> \<open>\<open>lookup_group g\<close>: the group's row and its member count, or the failed database lookup\<close>
  "get_mentioned_user_group lookup_group messages =
     (if \<exists>message\<in>set messages. mentioned_user_group_id message = None \<and> mtrigger message = MENTION
      then Inr None
      else smallest_group lookup_group
             (List.map_filter mentioned_user_group_id messages) None)"

section \<open>The contract of a notification channel\<close>

locale notification_channel =
  fixes trigger_of :: "notif \<Rightarrow> int \<Rightarrow> bool \<Rightarrow> trigger option"
  assumes suppressed: "trivially_should_not_notify n a \<Longrightarrow> trigger_of n a idle = None"
    and idle_mono: "trigger_of n a False = Some t \<Longrightarrow> trigger_of n a True = Some t"
begin

lemma own_message: "trigger_of n (user_id n) idle = None"
  by (rule suppressed) (simp add: trivially_should_not_notify_def)

lemma not_idle_None: "trigger_of n a True = None \<Longrightarrow> trigger_of n a idle = None"
  using idle_mono [of n a] by (cases idle; cases "trigger_of n a False") auto

end

interpretation push: notification_channel get_push_notification_trigger
  by unfold_locales (auto simp: get_push_notification_trigger_def split: if_splits)

interpretation email: notification_channel get_email_notification_trigger
  by unfold_locales (auto simp: get_email_notification_trigger_def split: if_splits)

lemma not_idle_not_notifiable: "\<not> is_notifiable n a True \<Longrightarrow> \<not> is_notifiable n a idle"
  using push.not_idle_None email.not_idle_None
  by (auto simp: is_notifiable_def is_push_notifiable_def is_email_notifiable_def)

text \<open>The settings that can trigger a push, and an e-mail, by rank.\<close>

definition push_settings :: "notif \<Rightarrow> (bool \<times> trigger) list" where
  "push_settings n =
     [(dm_push_notify n, DIRECT_MESSAGE), (mention_push_notify n, MENTION),
      (topic_wildcard_mention_in_followed_topic_push_notify n, TOPIC_WILDCARD_MENTION_IN_FOLLOWED_TOPIC),
      (stream_wildcard_mention_in_followed_topic_push_notify n, STREAM_WILDCARD_MENTION_IN_FOLLOWED_TOPIC),
      (topic_wildcard_mention_push_notify n, TOPIC_WILDCARD_MENTION),
      (stream_wildcard_mention_push_notify n, STREAM_WILDCARD_MENTION),
      (followed_topic_push_notify n, FOLLOWED_TOPIC_PUSH), (stream_push_notify n, STREAM_PUSH)]"

definition email_settings :: "notif \<Rightarrow> (bool \<times> trigger) list" where
  "email_settings n =
     [(dm_email_notify n, DIRECT_MESSAGE), (mention_email_notify n, MENTION),
      (topic_wildcard_mention_in_followed_topic_email_notify n, TOPIC_WILDCARD_MENTION_IN_FOLLOWED_TOPIC),
      (stream_wildcard_mention_in_followed_topic_email_notify n, STREAM_WILDCARD_MENTION_IN_FOLLOWED_TOPIC),
      (topic_wildcard_mention_email_notify n, TOPIC_WILDCARD_MENTION),
      (stream_wildcard_mention_email_notify n, STREAM_WILDCARD_MENTION),
      (followed_topic_email_notify n, FOLLOWED_TOPIC_EMAIL), (stream_email_notify n, STREAM_EMAIL)]"

definition first_setting :: "(bool \<times> trigger) list \<Rightarrow> trigger option" where
  "first_setting ss = map_option snd (find fst ss)"

lemma push_trigger_eq:
  "get_push_notification_trigger n a idle =
     (if (idle \<or> online_push_enabled n) \<and> \<not> trivially_should_not_notify n a
      then first_setting (push_settings n) else None)"
  by (simp add: get_push_notification_trigger_def first_setting_def push_settings_def)

lemma email_trigger_eq:
  "get_email_notification_trigger n a idle =
     (if idle \<and> \<not> trivially_should_not_notify n a
      then first_setting (email_settings n) else None)"
  by (simp add: get_email_notification_trigger_def first_setting_def email_settings_def)

lemma bot_no_setting: "first_setting (push_settings (bot_notif uid)) = None"
  "first_setting (email_settings (bot_notif uid)) = None"
  by (simp_all add: first_setting_def push_settings_def email_settings_def bot_notif_def)

lemma from_user_id_sets_cases:
  "from_user_id_sets uid flags pm de s =
     (if uid \<in> all_bot_user_ids s then Inr (bot_notif uid)
      else if post_init_ok (computed_notif uid flags pm de s)
      then Inr (computed_notif uid flags pm de s) else Inl AssertionError)"
proof -
  have "post_init_ok (bot_notif uid)" by (simp add: post_init_ok_def bot_notif_def)
  then show ?thesis by (simp add: from_user_id_sets_def make_notif_def py_assert_def)
qed

lemma from_user_id_sets_user_id:
  "from_user_id_sets uid flags pm de s = Inr n \<Longrightarrow> user_id n = uid"
proof -
  have "user_id (bot_notif uid) = uid" "user_id (computed_notif uid flags pm de s) = uid"
    by (simp_all add: bot_notif_def computed_notif_def Let_def)
  moreover assume "from_user_id_sets uid flags pm de s = Inr n"
  ultimately show ?thesis by (auto simp: from_user_id_sets_cases split: if_splits)
qed

section \<open>Attribution of group mentions\<close>

text \<open>The group a member is attributed to after the groups \<open>gs\<close>: the first of least size.\<close>

definition attributed :: "(int \<Rightarrow> int list) \<Rightarrow> int \<Rightarrow> int list \<Rightarrow> int \<Rightarrow> bool" where
  "attributed members u gs g \<longleftrightarrow>
     (\<exists>as bs. gs = as @ g # bs \<and> u \<in> set (members g) \<and>
        (\<forall>g'\<in>set as. u \<in> set (members g') \<longrightarrow> length (members g) < length (members g')) \<and>
        (\<forall>g'\<in>set bs. u \<in> set (members g') \<longrightarrow> length (members g) \<le> length (members g')))"

lemma attribute_group_lookup:
  assumes "distinct (members g)"
  shows "attribute_group P members g m u =
    (if u \<in> set (members g) then attribute_member P members g u m u else m u)"
proof -
  have "distinct us \<Longrightarrow> fold (attribute_member P members g) us m u =
      (if u \<in> set us then attribute_member P members g u m u else m u)" for us
  proof (induction us arbitrary: m)
    case Nil
    show ?case by simp
  next
    case (Cons v us)
    have same: "attribute_member P members g v m u = m u" if "u \<noteq> v" for m
      using that by (simp add: attribute_member_def split: option.splits)
    show ?case
    proof (cases "u = v")
      case True
      with Cons show ?thesis by simp
    next
      case False
      have "attribute_member P members g u (attribute_member P members g v m) u =
          attribute_member P members g u m u"
        using same [OF False] by (simp add: attribute_member_def split: option.splits)
      with Cons False same show ?thesis by simp
    qed
  qed
  with assms show ?thesis by (simp add: attribute_group_def)
qed

lemma attributed_snoc_new:
  assumes "u \<in> set (members g)" "\<forall>g'\<in>set gs. u \<notin> set (members g')"
  shows "attributed members u (gs @ [g]) g"
  unfolding attributed_def using assms by (intro exI [of _ gs] exI [of _ "[]"]) auto

lemma attributed_snoc_better:
  assumes "attributed members u gs h" "u \<in> set (members g)" "length (members g) < length (members h)"
  shows "attributed members u (gs @ [g]) g"
proof -
  from assms(1) have "\<forall>g'\<in>set gs. u \<in> set (members g') \<longrightarrow> length (members h) \<le> length (members g')"
    unfolding attributed_def by fastforce
  with assms(2,3) show ?thesis
    unfolding attributed_def by (intro exI [of _ gs] exI [of _ "[]"]) fastforce
qed

lemma attributed_snoc_keep:
  assumes "attributed members u gs h" "u \<in> set (members g) \<longrightarrow> length (members h) \<le> length (members g)"
  shows "attributed members u (gs @ [g]) h"
proof -
  from assms(1) obtain as bs where "gs = as @ h # bs" "u \<in> set (members h)"
    "\<forall>g'\<in>set as. u \<in> set (members g') \<longrightarrow> length (members h) < length (members g')"
    "\<forall>g'\<in>set bs. u \<in> set (members g') \<longrightarrow> length (members h) \<le> length (members g')"
    by (auto simp: attributed_def)
  with assms(2) show ?thesis
    unfolding attributed_def by (intro exI [of _ as] exI [of _ "bs @ [g]"]) auto
qed

section \<open>Properties\<close>

text \<open>
  A user who is notified about a message while active would also be notified if idle: the
  event queue may skip the off-line test for users whom \<open>is_notifiable\<close> rejects as idle.
\<close>

theorem notifiable_idle_mono:
  assumes "is_notifiable n acting_user_id idle"
  shows "is_notifiable n acting_user_id True"
  using not_idle_not_notifiable assms by blast

theorem notifiable_idle_mono_witness:
  "is_notifiable ((bot_notif 7)\<lparr>online_push_enabled := True, mention_push_notify := True\<rparr>) 3 True"
proof (rule notifiable_idle_mono)
  show "is_notifiable ((bot_notif 7)\<lparr>online_push_enabled := True, mention_push_notify := True\<rparr>) 3 False"
    by (simp add: is_notifiable_def is_push_notifiable_def push_trigger_eq first_setting_def
        push_settings_def trivially_should_not_notify_def bot_notif_def)
qed

text \<open>
  Building the notification data fails, with \<open>AssertionError\<close>, exactly for a human user
  with direct-message notifications in a private conversation who is also in one of the
  stream or followed-topic sets; a bot's data never triggers a push or an e-mail.
\<close>

theorem from_user_id_sets_outcomes:
  "case from_user_id_sets uid flags private_message disable_external s of
     Inl e \<Rightarrow> e = AssertionError \<and> uid \<notin> all_bot_user_ids s \<and> private_message \<and>
       \<not> (uid \<in> dm_mention_email_disabled_user_ids s \<and> uid \<in> dm_mention_push_disabled_user_ids s) \<and>
       uid \<in> stream_push_user_ids s \<union> stream_email_user_ids s \<union>
         followed_topic_push_user_ids s \<union> followed_topic_email_user_ids s
   | Inr n \<Rightarrow> user_id n = uid \<and> \<not> (uid \<in> all_bot_user_ids s \<and> is_notifiable n acting idle)"
proof (cases "uid \<in> all_bot_user_ids s")
  case True
  have "user_id (bot_notif uid) = uid" by (simp add: bot_notif_def)
  with True show ?thesis
    by (simp add: from_user_id_sets_cases is_notifiable_def is_push_notifiable_def
        is_email_notifiable_def push_trigger_eq email_trigger_eq bot_no_setting)
next
  case False
  let ?n = "computed_notif uid flags private_message disable_external s"
  have f: "user_id ?n = uid" "dm_email_notify ?n \<longleftrightarrow> uid \<notin> dm_mention_email_disabled_user_ids s \<and> private_message"
    "dm_push_notify ?n \<longleftrightarrow> uid \<notin> dm_mention_push_disabled_user_ids s \<and> private_message"
    "stream_push_notify ?n \<longleftrightarrow> uid \<in> stream_push_user_ids s"
    "stream_email_notify ?n \<longleftrightarrow> uid \<in> stream_email_user_ids s"
    "followed_topic_push_notify ?n \<longleftrightarrow> uid \<in> followed_topic_push_user_ids s"
    "followed_topic_email_notify ?n \<longleftrightarrow> uid \<in> followed_topic_email_user_ids s"
    by (simp_all add: computed_notif_def Let_def)
  show ?thesis
  proof (cases "post_init_ok ?n")
    case True
    with False f show ?thesis by (simp add: from_user_id_sets_cases)
  next
    case bad: False
    then have "uid \<in> stream_push_user_ids s \<union> stream_email_user_ids s \<union>
         followed_topic_push_user_ids s \<union> followed_topic_email_user_ids s"
      "dm_email_notify ?n \<or> dm_push_notify ?n"
      by (auto simp: post_init_ok_def f(4-7) split: if_splits)
    with False bad f(2,3) show ?thesis by (auto simp: from_user_id_sets_cases)
  qed
qed

text \<open>
  A user not mentioned personally who belongs to a mentioned group is attributed to the
  first mentioned group of least size among those the user belongs to; nobody else is
  attributed to a group.
\<close>

theorem group_mentions_smallest:
  assumes "\<forall>g\<in>set gids. distinct (members g)"
  shows "case get_user_group_mentions_data mentioned gids members u of
      None \<Rightarrow> u \<in> mentioned \<or> (\<forall>g\<in>set gids. u \<notin> set (members g))
    | Some g \<Rightarrow> u \<notin> mentioned \<and> attributed members u gids g"
  using assms
proof (induction gids rule: rev_induct)
  case Nil
  show ?case by (simp add: get_user_group_mentions_data_def)
next
  case (snoc g gids)
  let ?m = "get_user_group_mentions_data mentioned gids members"
  have step: "get_user_group_mentions_data mentioned (gids @ [g]) members u =
      (if u \<in> set (members g) then attribute_member mentioned members g u ?m u else ?m u)"
    using snoc.prems by (simp add: get_user_group_mentions_data_def attribute_group_lookup)
  from snoc have IH: "case ?m u of
      None \<Rightarrow> u \<in> mentioned \<or> (\<forall>g\<in>set gids. u \<notin> set (members g))
    | Some g \<Rightarrow> u \<notin> mentioned \<and> attributed members u gids g" by simp
  show ?case
  proof (cases "?m u")
    case None
    with IH show ?thesis
      unfolding step by (auto simp: attribute_member_def intro: attributed_snoc_new)
  next
    case (Some h)
    with IH show ?thesis
      unfolding step
      by (auto simp: attribute_member_def intro: attributed_snoc_better attributed_snoc_keep)
  qed
qed

theorem group_mentions_smallest_witness:
  "get_user_group_mentions_data {9} [1, 2] (\<lambda>g. if g = 1 then [5, 6, 9] else [5, 7]) 5 = Some 2 \<and>
   attributed (\<lambda>g. if g = 1 then [5, 6, 9] else [5, 7]) 5 [1, 2] 2"
proof -
  have r: "get_user_group_mentions_data {9} [1, 2] (\<lambda>g. if g = 1 then [5, 6, 9] else [5, 7]) 5 = Some 2"
    by (simp add: get_user_group_mentions_data_def attribute_group_def attribute_member_def)
  then show ?thesis
    using group_mentions_smallest [where gids = "[1, 2]" and mentioned = "{9}" and u = 5
      and members = "\<lambda>g. if g = 1 then [5, 6, 9] else [5, 7]"] by simp
qed

lemma smallest_group_spec:
  assumes "smallest_group lookup_group gs best = Inr r"
  shows "\<exists>found. emap lookup_group gs = Inr found \<and>
    (case r of
       None \<Rightarrow> best = None \<and> gs = []
     | Some b \<Rightarrow> (best = Some b \<or> b \<in> set found) \<and>
         (\<forall>c\<in>set found. members_count b \<le> members_count c) \<and>
         (\<forall>c. best = Some c \<longrightarrow> members_count b \<le> members_count c))"
  using assms
proof (induction gs arbitrary: best)
  case Nil
  then show ?case by (auto split: option.splits)
next
  case (Cons g gs)
  then obtain cur where cur: "lookup_group g = Inr cur"
    by (auto simp: res_simps)
  let ?best = "case best of None \<Rightarrow> Some cur
    | Some b \<Rightarrow> if members_count cur < members_count b then Some cur else best"
  from Cons.prems cur have "smallest_group lookup_group gs ?best = Inr r" by simp
  from Cons.IH [OF this] obtain found b where "emap lookup_group gs = Inr found"
    "r = Some b" "?best = Some b \<or> b \<in> set found"
    "\<forall>c\<in>set found. members_count b \<le> members_count c"
    "\<forall>c. ?best = Some c \<longrightarrow> members_count b \<le> members_count c"
    by (cases r) (auto split: option.splits if_splits)
  then show ?case
    using cur by (auto split: option.splits if_splits)
qed

text \<open>
  When no message mentions the user personally, the group shown in the notification e-mail is
  one of the looked-up groups with the fewest members, and there is none only when no message
  carries a group mention.
\<close>

theorem mentioned_user_group_smallest:
  assumes "get_mentioned_user_group lookup_group messages = Inr r"
    and "\<not> (\<exists>m\<in>set messages. mentioned_user_group_id m = None \<and> mtrigger m = MENTION)"
  shows "\<exists>found. emap lookup_group (List.map_filter mentioned_user_group_id messages) = Inr found \<and>
    (case r of None \<Rightarrow> found = []
     | Some g \<Rightarrow> g \<in> set found \<and> (\<forall>h\<in>set found. members_count g \<le> members_count h))"
proof -
  from assms have "smallest_group lookup_group (List.map_filter mentioned_user_group_id messages) None = Inr r"
    by (simp add: get_mentioned_user_group_def split: if_splits)
  from smallest_group_spec [OF this] show ?thesis
    by (auto split: option.splits)
qed

definition sample_group :: "int \<Rightarrow> mentioned_user_group res" where
  "sample_group g = Inr \<lparr>mg_id = g, mg_name = ''g'', members_count = nat (10 - g)\<rparr>"

theorem mentioned_user_group_smallest_witness:
  "\<exists>found. emap sample_group [3, 4] = Inr found \<and> \<lparr>mg_id = 4, mg_name = ''g'', members_count = 6\<rparr> \<in> set found"
proof -
  let ?ms = "[\<lparr>mentioned_user_group_id = Some 3, mtrigger = MENTION\<rparr>,
      \<lparr>mentioned_user_group_id = Some 4, mtrigger = MENTION\<rparr>]"
  have ids: "List.map_filter mentioned_user_group_id ?ms = [3, 4]"
    by (simp add: List.map_filter_simps)
  have r: "get_mentioned_user_group sample_group ?ms =
      Inr (Some \<lparr>mg_id = 4, mg_name = ''g'', members_count = 6\<rparr>)"
    by (simp add: get_mentioned_user_group_def ids sample_group_def)
  show ?thesis
    using mentioned_user_group_smallest [OF r] unfolding ids by auto
qed

end
