(* ===== verification/Unread.thy ===== *)
theory Unread
  imports NotificationData Validators "HOL-Library.Product_Lexorder" "HOL-Library.List_Lexorder" "HOL-Library.Char_ord" "HOL-Library.Multiset"
begin

text \<open>
  The unread messages of a user (\<^verbatim>\<open>zerver/lib/message.py\<close>): the raw data fetched from the
  database, its update by message events while a client registers, the details a client gets to
  mark messages unread again, and the aggregation into the form sent to clients.

  Dictionaries keyed by message id are association lists in insertion order; Python orders
  strings by code point, which is the order of their UTF-8 encodings.  What comes from the
  database, the muted channels, the visibility policies and the members of a group
  conversation, is a parameter.
\<close>

unbundle bit_operations_syntax

record raw_unread_stream =
  us_stream_id :: int
  us_topic :: string

record raw_unread =
  pm_dict :: "(int \<times> int) list"
  stream_dict :: "(int \<times> raw_unread_stream) list"
  huddle_dict :: "(int \<times> string) list"
  mentions :: "int set"
  muted_stream_ids :: "int set"
  unmuted_stream_msgs :: "int set"
  old_unreads_missing :: bool

definition MAX_UNREAD_MESSAGES :: nat where
  "MAX_UNREAD_MESSAGES = 50000"

section \<open>The raw data\<close>

text \<open>A row of the query for unread messages; \<open>flags\<close> is the bit field of the user's message.\<close>

record um_row =
  row_message_id :: int
  row_recipient_type :: int
  row_recipient_id :: int
  row_recipient_type_id :: int
  row_sender_id :: int
  row_topic :: string
  row_flags :: int

definition Recipient_PERSONAL :: int where "Recipient_PERSONAL = 1"
definition Recipient_STREAM :: int where "Recipient_STREAM = 2"
definition Recipient_GROUP :: int where "Recipient_GROUP = 3"

definition flag_mentioned :: int where "flag_mentioned = 8"
definition flag_stream_wildcard_mentioned :: int where "flag_stream_wildcard_mentioned = 16"
definition flag_topic_wildcard_mentioned :: int where "flag_topic_wildcard_mentioned = 32"

definition empty_unread :: raw_unread where
  "empty_unread = \<lparr>pm_dict = [], stream_dict = [], huddle_dict = [], mentions = {}, muted_stream_ids = {},
     unmuted_stream_msgs = {}, old_unreads_missing = False\<rparr>"

definition is_row_muted :: "int set \<Rightarrow> (int \<Rightarrow> string \<Rightarrow> visibility_policy) \<Rightarrow> int \<Rightarrow> int \<Rightarrow> string \<Rightarrow> bool" where
  "is_row_muted muted policy stream_id recipient_id topic_name =
     (if stream_id \<in> muted \<and> policy recipient_id topic_name \<in> {UNMUTED, FOLLOWED} then False
      else if stream_id \<in> muted then True
      else if policy recipient_id topic_name = MUTED then True
      else False)"

definition extract_row :: "int \<Rightarrow> (int \<Rightarrow> string \<Rightarrow> visibility_policy) \<Rightarrow> (int \<Rightarrow> string) \<Rightarrow> um_row \<Rightarrow> raw_unread \<Rightarrow> raw_unread" where
  "extract_row me policy group_users r s =
     (let mid = row_message_id r;
          muted = is_row_muted (muted_stream_ids s) policy (row_recipient_type_id r) (row_recipient_id r) (row_topic r);
          s1 = (if row_recipient_type r = Recipient_STREAM
                then let s' = s\<lparr>stream_dict := AList.update mid
                           \<lparr>us_stream_id = row_recipient_type_id r, us_topic = row_topic r\<rparr> (stream_dict s)\<rparr>
                     in if \<not> muted then s'\<lparr>unmuted_stream_msgs := insert mid (unmuted_stream_msgs s')\<rparr> else s'
                else if row_recipient_type r = Recipient_PERSONAL
                then s\<lparr>pm_dict := AList.update mid
                       (if row_sender_id r = me then row_recipient_type_id r else row_sender_id r) (pm_dict s)\<rparr>
                else if row_recipient_type r = Recipient_GROUP
                then s\<lparr>huddle_dict := AList.update mid (group_users (row_recipient_id r)) (huddle_dict s)\<rparr>
                else s);
          s2 = (if row_flags r AND flag_mentioned \<noteq> 0 then s1\<lparr>mentions := insert mid (mentions s1)\<rparr> else s1)
      in if row_flags r AND flag_stream_wildcard_mentioned \<noteq> 0 \<or> row_flags r AND flag_topic_wildcard_mentioned \<noteq> 0
         then if row_recipient_type r = Recipient_STREAM
              then if \<not> muted then s2\<lparr>mentions := insert mid (mentions s2)\<rparr> else s2
              else s2\<lparr>mentions := insert mid (mentions s2)\<rparr>
         else s2)"

definition extract_unread_data_from_um_rows ::
    "int set \<Rightarrow> (int \<Rightarrow> string \<Rightarrow> visibility_policy) \<Rightarrow> (int \<Rightarrow> string) \<Rightarrow> um_row list \<Rightarrow> int option \<Rightarrow> raw_unread" where
  "extract_unread_data_from_um_rows muted policy group_users rows user = (case user of
     None \<Rightarrow> empty_unread
   | Some me \<Rightarrow>
       (fold (extract_row me policy group_users) rows (empty_unread\<lparr>muted_stream_ids := muted\<rparr>))
         \<lparr>old_unreads_missing := (length rows = MAX_UNREAD_MESSAGES)\<rparr>)"

section \<open>Message events\<close>

text \<open>\<open>message["display_recipient"]\<close> of a direct message, as the ids of its users.\<close>

definition recipient_ids :: "dict \<Rightarrow> int list res" where
  "recipient_ids message =
     ebind (list_at message ''display_recipient'') (emap (\<lambda>v. ebind (as_dict v) (\<lambda>d. int_at d ''id'')))"

definition user_ids_string :: "int list \<Rightarrow> string" where
  "user_ids_string user_ids = join '','' (map str_of_int (sort user_ids))"

definition topic_unmuted :: "bool \<Rightarrow> visibility_policy \<Rightarrow> bool" where
  "topic_unmuted stream_muted policy \<longleftrightarrow>
     (\<not> stream_muted \<and> policy \<noteq> MUTED) \<or> (stream_muted \<and> policy \<in> {UNMUTED, FOLLOWED})"

definition add_stream_message :: "(int \<Rightarrow> string \<Rightarrow> visibility_policy) \<Rightarrow> int \<Rightarrow> int \<Rightarrow> string \<Rightarrow> raw_unread \<Rightarrow> raw_unread" where
  "add_stream_message policy mid stream_id topic_name s =
     (let s' = s\<lparr>stream_dict := AList.update mid \<lparr>us_stream_id = stream_id, us_topic = topic_name\<rparr> (stream_dict s)\<rparr>
      in if topic_unmuted (stream_id \<in> muted_stream_ids s) (policy stream_id topic_name)
         then s'\<lparr>unmuted_stream_msgs := insert mid (unmuted_stream_msgs s')\<rparr> else s')"

definition add_direct_message :: "int \<Rightarrow> int \<Rightarrow> int list \<Rightarrow> raw_unread \<Rightarrow> raw_unread" where
  "add_direct_message me mid ids s =
     (let others = filter (\<lambda>i. i \<noteq> me) ids
      in if length others \<le> 1
         then s\<lparr>pm_dict := AList.update mid (if length others = 1 then hd others else me) (pm_dict s)\<rparr>
         else s\<lparr>huddle_dict := AList.update mid (user_ids_string ids) (huddle_dict s)\<rparr>)"

definition add_mentions :: "int \<Rightarrow> string list \<Rightarrow> raw_unread \<Rightarrow> raw_unread" where
  "add_mentions mid flags s =
     (if ''mentioned'' \<in> set flags \<or>
         ((''stream_wildcard_mentioned'' \<in> set flags \<or> ''topic_wildcard_mentioned'' \<in> set flags) \<and> mid \<in> unmuted_stream_msgs s)
      then s\<lparr>mentions := insert mid (mentions s)\<rparr> else s)"

definition apply_unread_message_event ::
    "(int \<Rightarrow> string \<Rightarrow> visibility_policy) \<Rightarrow> int \<Rightarrow> dict \<Rightarrow> string list \<Rightarrow> raw_unread \<Rightarrow> raw_unread res" where
  "apply_unread_message_event policy me message flags s =
     ebind (int_at message ''id'') (\<lambda>mid.
     ebind (getk message ''type'') (\<lambda>ty.
     ebind (if ty = PStr ''stream''
            then ebind (int_at message ''stream_id'') (\<lambda>stream_id.
                 ebind (text_at message ''subject'') (\<lambda>topic_name.
                 Inr (add_stream_message policy mid stream_id topic_name s)))
            else if ty = PStr ''private''
            then ebind (recipient_ids message) (\<lambda>ids. Inr (add_direct_message me mid ids s))
            else Inl AssertionError) (\<lambda>s'.
     Inr (add_mentions mid flags s'))))"

definition remove_message_id_from_unread_mgs :: "int \<Rightarrow> raw_unread \<Rightarrow> raw_unread" where
  "remove_message_id_from_unread_mgs mid s = s\<lparr>
     pm_dict := AList.delete mid (pm_dict s),
     stream_dict := AList.delete mid (stream_dict s),
     huddle_dict := AList.delete mid (huddle_dict s),
     unmuted_stream_msgs := unmuted_stream_msgs s - {mid},
     mentions := mentions s - {mid}\<rparr>"

section \<open>Details for marking messages unread\<close>

datatype message_details =
    PrivateDetails (details_mentioned: bool) "int list"
  | StreamDetails (details_mentioned: bool) int string bool
  | OtherDetails (details_mentioned: bool)

text \<open>The keys of the result are the message ids as strings; here they stay integers.\<close>

definition split_ids :: "string \<Rightarrow> int list res" where
  "split_ids s = emap (\<lambda>w. case py_int w of None \<Rightarrow> Inl (ValueError ''invalid literal for int() with base 10'') | Some n \<Rightarrow> Inr n)
     (split_on CHR '','' s)"

definition format_unread_message_details :: "int \<Rightarrow> raw_unread \<Rightarrow> (int \<times> message_details) list res" where
  "format_unread_message_details me s =
     (let pms = fold (\<lambda>(mid, other). AList.update mid (PrivateDetails (mid \<in> mentions s) (if other = me then [] else [other])))
            (pm_dict s) [];
          streams = fold (\<lambda>(mid, d). AList.update mid (StreamDetails (mid \<in> mentions s) (us_stream_id d) (us_topic d)
              (mid \<in> unmuted_stream_msgs s))) (stream_dict s) pms
      in efold (\<lambda>(mid, ids_string) data.
           ebind (split_ids ids_string) (\<lambda>ids.
           Inr (AList.update mid (PrivateDetails (mid \<in> mentions s) (sort (filter (\<lambda>i. i \<noteq> me) ids))) data)))
         (huddle_dict s) streams)"

definition add_message_to_unread_msgs :: "int \<Rightarrow> int \<Rightarrow> message_details \<Rightarrow> raw_unread \<Rightarrow> raw_unread" where
  "add_message_to_unread_msgs me mid d s =
     (let s1 = (if details_mentioned d then s\<lparr>mentions := insert mid (mentions s)\<rparr> else s)
      in case d of
           PrivateDetails _ ids0 \<Rightarrow>
             (let user_ids = filter (\<lambda>i. i \<noteq> me) ids0
              in if user_ids = [] then s1\<lparr>pm_dict := AList.update mid me (pm_dict s1)\<rparr>
                 else if length user_ids = 1 then s1\<lparr>pm_dict := AList.update mid (hd user_ids) (pm_dict s1)\<rparr>
                 else s1\<lparr>huddle_dict := AList.update mid (user_ids_string (user_ids @ [me])) (huddle_dict s1)\<rparr>)
         | StreamDetails _ stream_id topic unmuted \<Rightarrow>
             (let s2 = s1\<lparr>stream_dict := AList.update mid \<lparr>us_stream_id = stream_id, us_topic = topic\<rparr> (stream_dict s1)\<rparr>
              in if unmuted then s2\<lparr>unmuted_stream_msgs := insert mid (unmuted_stream_msgs s2)\<rparr> else s2)
         | OtherDetails _ \<Rightarrow> s1)"

text \<open>The dictionary of an event read as details.\<close>

definition details_of_dict :: "dict \<Rightarrow> message_details res" where
  "details_of_dict d =
     (let mentioned = truthy_at d ''mentioned''
      in ebind (getk d ''type'') (\<lambda>ty.
         if ty = PStr ''private'' then ebind (int_list_at d ''user_ids'') (\<lambda>ids. Inr (PrivateDetails mentioned ids))
         else if ty = PStr ''stream''
         then ebind (int_at d ''stream_id'') (\<lambda>stream_id.
              ebind (text_at d ''topic'') (\<lambda>topic.
              ebind (getk d ''unmuted_stream_msg'') (\<lambda>unmuted.
              Inr (StreamDetails mentioned stream_id topic (truthy unmuted)))))
         else Inr (OtherDetails mentioned)))"

section \<open>Aggregation\<close>

text \<open>
  The three aggregations differ only in the key: the ids of the messages per key, each sorted, the
  keys sorted.
\<close>

definition aggregate :: "('v \<Rightarrow> 'k::linorder) \<Rightarrow> (int \<times> 'v) list \<Rightarrow> ('k \<times> int list) list" where
  "aggregate key input =
     (let lookup = fold (\<lambda>(mid, v) m. AList.update (key v) (get_or m (key v) [] @ [mid]) m) input []
      in map (\<lambda>k. (k, sort (get_or lookup k []))) (sort (map fst lookup)))"

record unread_messages =
  um_pms :: "(int \<times> int list) list"
  um_streams :: "((int \<times> string) \<times> int list) list"
  um_huddles :: "(string \<times> int list) list"
  um_mentions :: "int set"
  um_count :: nat
  um_old_unreads_missing :: bool

definition aggregate_pms :: "(int \<times> int) list \<Rightarrow> (int \<times> int list) list" where
  "aggregate_pms = aggregate (\<lambda>other. other)"

definition aggregate_streams :: "(int \<times> raw_unread_stream) list \<Rightarrow> ((int \<times> string) \<times> int list) list" where
  "aggregate_streams = aggregate (\<lambda>d. (us_stream_id d, us_topic d))"

definition aggregate_direct_message_groups :: "(int \<times> string) list \<Rightarrow> (string \<times> int list) list" where
  "aggregate_direct_message_groups = aggregate (\<lambda>s. s)"

definition aggregate_unread_data :: "raw_unread \<Rightarrow> unread_messages" where
  "aggregate_unread_data s = \<lparr>
     um_pms = aggregate_pms (pm_dict s),
     um_streams = aggregate_streams (stream_dict s),
     um_huddles = aggregate_direct_message_groups (huddle_dict s),
     um_mentions = mentions s,
     um_count = length (pm_dict s) + card (unmuted_stream_msgs s) + length (huddle_dict s),
     um_old_unreads_missing = old_unreads_missing s\<rparr>"


section \<open>What aggregation yields\<close>

definition ids_for :: "('v \<Rightarrow> 'k) \<Rightarrow> 'k \<Rightarrow> (int \<times> 'v) list \<Rightarrow> int list" where
  "ids_for key k xs = map fst (filter (\<lambda>p. key (snd p) = k) xs)"

definition lookup_of :: "('v \<Rightarrow> 'k) \<Rightarrow> (int \<times> 'v) list \<Rightarrow> ('k \<times> int list) list" where
  "lookup_of key xs = fold (\<lambda>(mid, v) m. AList.update (key v) (get_or m (key v) [] @ [mid]) m) xs []"

lemma lookup_snoc: "lookup_of key (xs @ [(mid, v)]) =
    AList.update (key v) (get_or (lookup_of key xs) (key v) [] @ [mid]) (lookup_of key xs)"
  by (simp add: lookup_of_def)

lemma map_of_lookup: "map_of (lookup_of key xs) k = (if ids_for key k xs = [] then None else Some (ids_for key k xs))"
proof (induction xs rule: rev_induct)
  case Nil
  show ?case by (simp add: lookup_of_def ids_for_def)
next
  case (snoc p xs)
  obtain mid v where p: "p = (mid, v)" by fastforce
  have get: "get_or (lookup_of key xs) (key v) [] = ids_for key (key v) xs"
    if "map_of (lookup_of key xs) (key v) = (if ids_for key (key v) xs = [] then None else Some (ids_for key (key v) xs))"
    using that by (simp add: get_or_def)
  have "map_of (lookup_of key xs) (key v) = (if ids_for key (key v) xs = [] then None else Some (ids_for key (key v) xs))"
    if "key v = k" using snoc that by simp
  with snoc get show ?case
    by (cases "key v = k") (simp_all add: p lookup_snoc ids_for_def)
qed

lemma ids_for_mem: "m \<in> set (ids_for key k xs) \<longleftrightarrow> (\<exists>v. (m, v) \<in> set xs \<and> key v = k)"
  by (force simp: ids_for_def)

lemma ids_for_empty: "ids_for key k xs \<noteq> [] \<longleftrightarrow> (\<exists>m v. (m, v) \<in> set xs \<and> key v = k)"
  by (metis ids_for_mem last_in_set length_pos_if_in_set less_numeral_extra(3) list.size(3))

lemma key_image: "k \<in> key ` snd ` set xs \<longleftrightarrow> (\<exists>m v. (m, v) \<in> set xs \<and> key v = k)"
  by force

lemma distinct_lookup: "distinct (map fst (lookup_of key xs))"
  by (induction xs rule: rev_induct) (auto simp: lookup_of_def split: prod.split intro: distinct_update)

lemma keys_lookup: "set (map fst (lookup_of key xs)) = key ` snd ` set xs"
proof -
  have "k \<in> set (map fst (lookup_of key xs)) \<longleftrightarrow> k \<in> key ` snd ` set xs" for k
  proof -
    have "k \<in> set (map fst (lookup_of key xs)) \<longleftrightarrow> map_of (lookup_of key xs) k \<noteq> None"
      by (simp add: map_of_eq_None_iff)
    also have "\<dots> \<longleftrightarrow> ids_for key k xs \<noteq> []" by (simp add: map_of_lookup)
    finally show ?thesis by (simp only: ids_for_empty key_image)
  qed
  then show ?thesis by blast
qed

lemma aggregate_eq:
  "aggregate key xs = map (\<lambda>k. (k, sort (ids_for key k xs))) (sort (map fst (lookup_of key xs)))"
proof -
  have "get_or (lookup_of key xs) k [] = ids_for key k xs" for k by (simp add: get_or_def map_of_lookup)
  then show ?thesis unfolding aggregate_def Let_def lookup_of_def [symmetric] by simp
qed

definition aggregated :: "('v \<Rightarrow> 'k::linorder) \<Rightarrow> (int \<times> 'v) list \<Rightarrow> ('k \<times> int list) list \<Rightarrow> bool" where
  "aggregated key input out \<longleftrightarrow> sorted_wrt (<) (map fst out) \<and>
     list_all (\<lambda>(k, ids). ids \<noteq> [] \<and> sorted_wrt (<) ids) out \<and>
     (\<forall>m k. (\<exists>ids. (k, ids) \<in> set out \<and> m \<in> set ids) \<longleftrightarrow> (\<exists>v. (m, v) \<in> set input \<and> key v = k))"

lemma aggregate_aggregated:
  assumes "distinct (map fst xs)"
  shows "aggregated key xs (aggregate key xs)"
proof -
  have "sorted_wrt (<) (sort (map fst (lookup_of key xs)))"
    by (simp add: strict_sorted_iff distinct_lookup)
  then have "sorted_wrt (<) (map fst (aggregate key xs))" by (simp add: aggregate_eq comp_def)
  moreover have "distinct (ids_for key k xs)" for k
    using assms by (simp add: ids_for_def distinct_map_filter)
  then have "sorted_wrt (<) (sort (ids_for key k xs))" for k by (simp add: strict_sorted_iff)
  moreover have "sort (ids_for key k xs) \<noteq> []" if "k \<in> key ` snd ` set xs" for k
  proof -
    from that have "ids_for key k xs \<noteq> []" by (simp only: ids_for_empty key_image)
    then show ?thesis by (metis length_0_conv length_sort)
  qed
  moreover have "(\<exists>ids. (k, ids) \<in> set (aggregate key xs) \<and> m \<in> set ids) \<longleftrightarrow> (\<exists>v. (m, v) \<in> set xs \<and> key v = k)" for m k
  proof -
    have mem: "(k, ids) \<in> set (aggregate key xs) \<longleftrightarrow> k \<in> key ` snd ` set xs \<and> ids = sort (ids_for key k xs)" for k ids
      using keys_lookup [of key xs] by (auto simp: aggregate_eq)
    have "k \<in> key ` snd ` set xs \<and> m \<in> set (sort (ids_for key k xs)) \<longleftrightarrow> (\<exists>v. (m, v) \<in> set xs \<and> key v = k)"
      unfolding key_image set_sort ids_for_mem by blast
    then show ?thesis unfolding mem by blast
  qed
  ultimately show ?thesis
    unfolding aggregated_def using keys_lookup [of key xs] by (simp add: aggregate_eq list_all_iff)
qed

definition wf_unread :: "raw_unread \<Rightarrow> bool" where
  "wf_unread s \<longleftrightarrow>
     distinct (map fst (pm_dict s) @ map fst (stream_dict s) @ map fst (huddle_dict s)) \<and>
     unmuted_stream_msgs s \<subseteq> fst ` set (stream_dict s) \<and>
     mentions s \<subseteq> fst ` set (pm_dict s) \<union> fst ` set (stream_dict s) \<union> fst ` set (huddle_dict s)"

text \<open>
  C34. What clients get: each of the three groupings lists its keys in strictly increasing order,
  every key with its non-empty, strictly increasing list of message ids, and exactly the
  messages of the raw data, each under its own key; the count is that of the unread direct
  messages and unmuted channel messages together.
\<close>

theorem aggregation_exact:
  assumes "wf_unread s"
  shows "aggregated (\<lambda>x. x) (pm_dict s) (um_pms (aggregate_unread_data s)) \<and>
    aggregated (\<lambda>d. (us_stream_id d, us_topic d)) (stream_dict s) (um_streams (aggregate_unread_data s)) \<and>
    aggregated (\<lambda>x. x) (huddle_dict s) (um_huddles (aggregate_unread_data s)) \<and>
    um_count (aggregate_unread_data s) =
      card (fst ` set (pm_dict s) \<union> unmuted_stream_msgs s \<union> fst ` set (huddle_dict s))"
proof -
  have d: "distinct (map fst (pm_dict s))" "distinct (map fst (stream_dict s))" "distinct (map fst (huddle_dict s))"
    using assms by (simp_all add: wf_unread_def)
  have dis: "fst ` set (pm_dict s) \<inter> unmuted_stream_msgs s = {}"
    "(fst ` set (pm_dict s) \<union> unmuted_stream_msgs s) \<inter> fst ` set (huddle_dict s) = {}"
    using assms by (auto simp: wf_unread_def)
  have fin: "finite (unmuted_stream_msgs s)"
    using assms by (auto simp: wf_unread_def intro: finite_subset)
  have c: "card (fst ` set (pm_dict s)) = length (pm_dict s)" "card (fst ` set (huddle_dict s)) = length (huddle_dict s)"
    using distinct_card [OF d(1)] distinct_card [OF d(3)] by simp_all
  have "card (fst ` set (pm_dict s) \<union> unmuted_stream_msgs s \<union> fst ` set (huddle_dict s)) =
      length (pm_dict s) + card (unmuted_stream_msgs s) + length (huddle_dict s)"
    using card_Un_disjoint [OF _ _ dis(2)] card_Un_disjoint [OF _ fin dis(1)] fin c by simp
  then show ?thesis
    using aggregate_aggregated [OF d(1), of "\<lambda>x. x"] aggregate_aggregated [OF d(3), of "\<lambda>x. x"]
      aggregate_aggregated [OF d(2), of "\<lambda>d. (us_stream_id d, us_topic d)"]
    by (simp add: aggregate_unread_data_def aggregate_pms_def aggregate_streams_def
        aggregate_direct_message_groups_def)
qed

section \<open>The unread messages as a map\<close>

text \<open>
  What the three dictionaries and two sets stand for: each unread message with the place it was
  sent to and whether it mentions the user.  The operations are specified on this map.
\<close>

datatype place =
    InChannel int string bool
  | Direct int
  | Group string

type_synonym unread_view = "int \<Rightarrow> (place \<times> bool) option"

definition place_of :: "raw_unread \<Rightarrow> int \<Rightarrow> place option" where
  "place_of s m = (case map_of (stream_dict s) m of
     Some d \<Rightarrow> Some (InChannel (us_stream_id d) (us_topic d) (m \<in> unmuted_stream_msgs s))
   | None \<Rightarrow> (case map_of (pm_dict s) m of
       Some other \<Rightarrow> Some (Direct other)
     | None \<Rightarrow> map_option Group (map_of (huddle_dict s) m)))"

definition view :: "raw_unread \<Rightarrow> unread_view" where
  "view s m = map_option (\<lambda>p. (p, m \<in> mentions s)) (place_of s m)"

definition message_place :: "(int \<Rightarrow> string \<Rightarrow> visibility_policy) \<Rightarrow> int set \<Rightarrow> int \<Rightarrow> dict \<Rightarrow> place res" where
  "message_place policy muted me message =
     ebind (getk message ''type'') (\<lambda>ty.
     if ty = PStr ''stream''
     then ebind (int_at message ''stream_id'') (\<lambda>stream_id.
          ebind (text_at message ''subject'') (\<lambda>topic.
          Inr (InChannel stream_id topic (topic_unmuted (stream_id \<in> muted) (policy stream_id topic)))))
     else if ty = PStr ''private''
     then ebind (recipient_ids message) (\<lambda>ids. Inr (case filter (\<lambda>i. i \<noteq> me) ids of
            [] \<Rightarrow> Direct me
          | [other] \<Rightarrow> Direct other
          | _ \<Rightarrow> Group (user_ids_string ids)))
     else Inl AssertionError)"

fun counts_mention :: "string list \<Rightarrow> place \<Rightarrow> bool" where
  "counts_mention flags p \<longleftrightarrow> ''mentioned'' \<in> set flags \<or>
     ((''stream_wildcard_mentioned'' \<in> set flags \<or> ''topic_wildcard_mentioned'' \<in> set flags) \<and>
      (case p of InChannel _ _ unmuted \<Rightarrow> unmuted | _ \<Rightarrow> False))"

fun details_entry :: "int \<Rightarrow> message_details \<Rightarrow> (place \<times> bool) option" where
  "details_entry me (PrivateDetails mentioned ids) = Some
     (case filter (\<lambda>i. i \<noteq> me) ids of
        [] \<Rightarrow> Direct me
      | [other] \<Rightarrow> Direct other
      | others \<Rightarrow> Group (user_ids_string (others @ [me])), mentioned)"
| "details_entry me (StreamDetails mentioned stream_id topic unmuted) = Some (InChannel stream_id topic unmuted, mentioned)"
| "details_entry me (OtherDetails mentioned) = None"

text \<open>An entry may arrive again, as events may repeat what was fetched, but not with other data.\<close>

definition fits :: "unread_view \<Rightarrow> int \<Rightarrow> place \<times> bool \<Rightarrow> bool" where
  "fits v m e \<longleftrightarrow> v m = None \<or> v m = Some e"

lemma map_of_Some_fst: "map_of xs k = Some v \<Longrightarrow> k \<in> fst ` set xs"
  by (metis fst_conv image_eqI map_of_SomeD)

lemma fst_update [simp]: "fst ` set (AList.update k v xs) = insert k (fst ` set xs)"
  using dom_update [of k v xs] by (simp add: dom_map_of_conv_image_fst)

lemma distinct_update_fst [simp]: "distinct (map fst xs) \<Longrightarrow> distinct (map fst (AList.update k v xs))"
  by (rule distinct_update)

lemma place_of_None: "place_of s m = None \<longleftrightarrow>
    map_of (stream_dict s) m = None \<and> map_of (pm_dict s) m = None \<and> map_of (huddle_dict s) m = None"
  by (simp add: place_of_def split: option.split)

lemma view_None: "view s m = None \<longleftrightarrow> place_of s m = None"
  by (simp add: view_def)

definition apart :: "raw_unread \<Rightarrow> int \<Rightarrow> bool" where
  "apart s m \<longleftrightarrow>
     (map_of (stream_dict s) m \<noteq> None \<longrightarrow> map_of (pm_dict s) m = None \<and> map_of (huddle_dict s) m = None) \<and>
     (map_of (pm_dict s) m \<noteq> None \<longrightarrow> map_of (huddle_dict s) m = None) \<and>
     (m \<in> unmuted_stream_msgs s \<longrightarrow> map_of (stream_dict s) m \<noteq> None) \<and>
     (m \<in> mentions s \<longrightarrow> place_of s m \<noteq> None)"

lemma wf_unread_alt: "wf_unread s \<longleftrightarrow>
    distinct (map fst (pm_dict s)) \<and> distinct (map fst (stream_dict s)) \<and> distinct (map fst (huddle_dict s)) \<and>
    (\<forall>m. apart s m)"
proof -
  have "apart s m \<longleftrightarrow>
      (m \<notin> dom (map_of (stream_dict s)) \<or> m \<notin> dom (map_of (pm_dict s))) \<and>
      (m \<notin> dom (map_of (stream_dict s)) \<or> m \<notin> dom (map_of (huddle_dict s))) \<and>
      (m \<notin> dom (map_of (pm_dict s)) \<or> m \<notin> dom (map_of (huddle_dict s))) \<and>
      (m \<in> unmuted_stream_msgs s \<longrightarrow> m \<in> dom (map_of (stream_dict s))) \<and>
      (m \<in> mentions s \<longrightarrow> m \<in> dom (map_of (pm_dict s)) \<union> dom (map_of (stream_dict s)) \<union> dom (map_of (huddle_dict s)))"
    for m
    by (auto simp: apart_def place_of_None dom_def)
  then show ?thesis
    unfolding wf_unread_def by (auto simp: dom_map_of_conv_image_fst)
qed

text \<open>Two states with the same map are the same for clients and for later events.\<close>

lemma remove_view: "view (remove_message_id_from_unread_mgs mid s) = (view s)(mid := None)"
  by (rule ext) (simp add: view_def place_of_def remove_message_id_from_unread_mgs_def split: option.split)

lemma remove_wf: "wf_unread s \<Longrightarrow> wf_unread (remove_message_id_from_unread_mgs mid s)"
  unfolding wf_unread_alt apart_def place_of_None
  by (simp add: remove_message_id_from_unread_mgs_def distinct_delete del: not_None_eq map_of_eq_Some_iff)

text \<open>Both ways of adding an unread message enter it at its place.\<close>

definition enter :: "int \<Rightarrow> place \<Rightarrow> bool \<Rightarrow> raw_unread \<Rightarrow> raw_unread" where
  "enter mid p mentioned s =
     (let s1 = (if mentioned then s\<lparr>mentions := insert mid (mentions s)\<rparr> else s)
      in case p of
           InChannel stream_id topic unmuted \<Rightarrow>
             s1\<lparr>stream_dict := AList.update mid \<lparr>us_stream_id = stream_id, us_topic = topic\<rparr> (stream_dict s),
                unmuted_stream_msgs := (if unmuted then insert mid (unmuted_stream_msgs s) else unmuted_stream_msgs s)\<rparr>
         | Direct other \<Rightarrow> s1\<lparr>pm_dict := AList.update mid other (pm_dict s)\<rparr>
         | Group users \<Rightarrow> s1\<lparr>huddle_dict := AList.update mid users (huddle_dict s)\<rparr>)"

lemma muted_enter [simp]: "muted_stream_ids (enter mid p b s) = muted_stream_ids s"
  by (simp add: enter_def Let_def split: place.split)

lemma fits_dicts:
  assumes "wf_unread s" and "fits (view s) mid (p, b)"
  shows "mid \<in> mentions s \<Longrightarrow> b"
    and "case p of
        InChannel i t u \<Rightarrow> map_of (pm_dict s) mid = None \<and> map_of (huddle_dict s) mid = None \<and>
          (mid \<in> unmuted_stream_msgs s \<longrightarrow> u)
      | Direct other \<Rightarrow> map_of (stream_dict s) mid = None \<and> map_of (huddle_dict s) mid = None \<and>
          mid \<notin> unmuted_stream_msgs s
      | Group users \<Rightarrow> map_of (stream_dict s) mid = None \<and> map_of (pm_dict s) mid = None \<and>
          mid \<notin> unmuted_stream_msgs s"
proof -
  have a: "apart s mid" using assms(1) by (simp add: wf_unread_alt)
  show "mid \<in> mentions s \<Longrightarrow> b"
    using a assms(2) by (auto simp: fits_def view_def apart_def)
  show "case p of
        InChannel i t u \<Rightarrow> map_of (pm_dict s) mid = None \<and> map_of (huddle_dict s) mid = None \<and>
          (mid \<in> unmuted_stream_msgs s \<longrightarrow> u)
      | Direct other \<Rightarrow> map_of (stream_dict s) mid = None \<and> map_of (huddle_dict s) mid = None \<and>
          mid \<notin> unmuted_stream_msgs s
      | Group users \<Rightarrow> map_of (stream_dict s) mid = None \<and> map_of (pm_dict s) mid = None \<and>
          mid \<notin> unmuted_stream_msgs s"
    using a assms(2)
    by (auto simp: fits_def view_def apart_def place_of_def split: place.split option.splits)
qed

lemma enter_view:
  assumes "wf_unread s" and "fits (view s) mid (p, b)"
  shows "view (enter mid p b s) = (view s)(mid \<mapsto> (p, b))"
proof (rule ext)
  fix m
  show "view (enter mid p b s) m = ((view s)(mid \<mapsto> (p, b))) m"
    using fits_dicts [OF assms]
    by (cases "m = mid"; cases p; cases b) (auto simp: enter_def view_def place_of_def split: option.split)
qed

lemma enter_apart:
  assumes "wf_unread s" and "fits (view s) mid (p, b)"
  shows "apart (enter mid p b s) m"
proof -
  have a: "apart s m" using assms(1) by (simp add: wf_unread_alt)
  show ?thesis
    using fits_dicts [OF assms] a
    by (cases "m = mid"; cases p; cases b)
      (auto simp: enter_def apart_def place_of_None simp del: not_None_eq map_of_eq_Some_iff)
qed

lemma enter_wf:
  assumes "wf_unread s" and "fits (view s) mid (p, b)"
  shows "wf_unread (enter mid p b s)"
  using enter_apart [OF assms] assms(1)
  by (auto simp: wf_unread_alt enter_def Let_def split: place.split)

lemma details_enter:
  "details_entry me d = Some (p, b) \<Longrightarrow> add_message_to_unread_msgs me mid d s = enter mid p b s"
  "details_entry me d = None \<Longrightarrow> add_message_to_unread_msgs me mid d s =
     (if details_mentioned d then s\<lparr>mentions := insert mid (mentions s)\<rparr> else s)"
  by (cases d; auto simp: add_message_to_unread_msgs_def enter_def Let_def split: list.splits)+

lemma message_enter:
  assumes p: "message_place policy (muted_stream_ids s) me message = Inr p" and m: "map_of message ''id'' = Some (PInt mid)"
    and fit: "wf_unread s" "fits (view s) mid (p, counts_mention flags p)"
  shows "apply_unread_message_event policy me message flags s = Inr (enter mid p (counts_mention flags p) s)"
proof -
  have i: "int_at message ''id'' = Inr mid" using m by (simp add: int_at_Inr)
  from p consider
      (channel) stream_id topic where "map_of message ''type'' = Some (PStr ''stream'')"
        "int_at message ''stream_id'' = Inr stream_id" "text_at message ''subject'' = Inr topic"
        "p = InChannel stream_id topic (topic_unmuted (stream_id \<in> muted_stream_ids s) (policy stream_id topic))"
    | (conversation) ids where "map_of message ''type'' = Some (PStr ''private'')" "recipient_ids message = Inr ids"
        "p = (case filter (\<lambda>i. i \<noteq> me) ids of [] \<Rightarrow> Direct me | [other] \<Rightarrow> Direct other | _ \<Rightarrow> Group (user_ids_string ids))"
    by (auto simp: message_place_def res_simps split: if_splits)
  then show ?thesis
  proof cases
    case channel
    then show ?thesis
      using fits_dicts [OF fit]
      by (auto simp: apply_unread_message_event_def i getk_def add_stream_message_def add_mentions_def enter_def Let_def)
  next
    case conversation
    then show ?thesis
      using fits_dicts [OF fit]
      by (auto simp: apply_unread_message_event_def i getk_def add_direct_message_def add_mentions_def enter_def Let_def
          split: list.splits)
  qed
qed


section \<open>Details and back\<close>

definition group_members :: "int \<Rightarrow> int list \<Rightarrow> bool" where
  "group_members me ids \<longleftrightarrow> list_all (\<lambda>i. 0 \<le> i) ids \<and> count_list ids me = 1 \<and> 3 \<le> length ids"

lemma update_new: "k \<notin> fst ` set xs \<Longrightarrow> AList.update k v xs = xs @ [(k, v)]"
  by (induction xs) auto

lemma fold_update_new:
  assumes "distinct (map fst xs)" and "fst ` set acc \<inter> fst ` set xs = {}"
  shows "fold (\<lambda>(k, x). AList.update k (g k x)) xs acc = acc @ map (\<lambda>(k, x). (k, g k x)) xs"
  using assms
proof (induction xs arbitrary: acc)
  case Nil
  show ?case by simp
next
  case (Cons p xs)
  obtain k x where p: "p = (k, x)" by fastforce
  have "fold (\<lambda>(k, x). AList.update k (g k x)) xs (acc @ [(k, g k x)]) =
      (acc @ [(k, g k x)]) @ map (\<lambda>(k, x). (k, g k x)) xs"
    using Cons.prems by (intro Cons.IH) (auto simp: p)
  then show ?case using Cons.prems by (simp add: p update_new)
qed

lemma efold_update_new:
  assumes "distinct (map fst xs)" and "fst ` set acc \<inter> fst ` set xs = {}"
    and "\<And>k x. (k, x) \<in> set xs \<Longrightarrow> f x = Inr (h x)"
  shows "efold (\<lambda>(k, x) data. ebind (f x) (\<lambda>y. Inr (AList.update k (g k y) data))) xs acc =
    Inr (acc @ map (\<lambda>(k, x). (k, g k (h x))) xs)"
  using assms
proof (induction xs arbitrary: acc)
  case Nil
  show ?case by simp
next
  case (Cons p xs)
  obtain k x where p: "p = (k, x)" by fastforce
  have fx: "f x = Inr (h x)" by (rule Cons.prems(3) [of k]) (simp add: p)
  have "efold (\<lambda>(k, x) data. ebind (f x) (\<lambda>y. Inr (AList.update k (g k y) data))) xs (acc @ [(k, g k (h x))]) =
      Inr ((acc @ [(k, g k (h x))]) @ map (\<lambda>(k, x). (k, g k (h x))) xs)"
    using Cons.prems by (intro Cons.IH) (auto simp: p)
  then show ?case using Cons.prems fx by (simp add: p update_new)
qed

lemma split_on_none: "c \<notin> set w \<Longrightarrow> split_on c w = [w]"
  by (induction w) auto

lemma split_on_append: "c \<notin> set w \<Longrightarrow> split_on c (w @ c # s) = w # split_on c s"
  by (induction w) auto

lemma split_on_join:
  "ws \<noteq> [] \<Longrightarrow> (\<And>w. w \<in> set ws \<Longrightarrow> c \<notin> set w) \<Longrightarrow> split_on c (join [c] ws) = ws"
  by (induction "[c]" ws rule: join.induct) (simp_all add: split_on_none split_on_append)

lemma no_comma: "0 \<le> i \<Longrightarrow> CHR '','' \<notin> set (str_of_int i)"
  using str_of_nat_digits [of "CHR '',''" "nat i"] by (auto simp: str_of_int_def is_digit_def)

lemma split_ids_string:
  assumes "ids \<noteq> []" and "list_all (\<lambda>i. 0 \<le> i) ids"
  shows "split_ids (user_ids_string ids) = Inr (sort ids)"
proof -
  have nn: "\<forall>i\<in>set (sort ids). 0 \<le> i" using assms(2) by (simp add: list_all_iff)
  have ne: "map str_of_int (sort ids) \<noteq> []" using assms(1) by (metis length_0_conv length_map length_sort)
  have sp: "split_on CHR '','' (user_ids_string ids) = map str_of_int (sort ids)"
    unfolding user_ids_string_def using nn by (intro split_on_join [OF ne]) (auto dest: no_comma)
  have "py_int (str_of_int i) = Some i" if "i \<in> set (sort ids)" for i
    using nn that by (force simp: str_of_int_def py_int_str_of_nat)
  then have "emap (\<lambda>w. case py_int w of None \<Rightarrow> Inl (ValueError ''invalid literal for int() with base 10'') | Some n \<Rightarrow> Inr n)
      (map str_of_int is) = Inr is" if "set is \<subseteq> set (sort ids)" for "is"
    using that by (induction "is") auto
  then show ?thesis by (simp add: split_ids_def sp)
qed

lemma group_string:
  assumes "group_members me ids"
  shows "split_ids (user_ids_string ids) = Inr (sort ids)"
    and "user_ids_string (sort (filter (\<lambda>i. i \<noteq> me) (sort ids)) @ [me]) = user_ids_string ids"
    and "2 \<le> length (filter (\<lambda>i. i \<noteq> me) (sort (filter (\<lambda>i. i \<noteq> me) (sort ids))))"
proof -
  have g: "list_all (\<lambda>i. 0 \<le> i) ids" "count_list ids me = 1" "3 \<le> length ids"
    using assms by (simp_all add: group_members_def)
  show "split_ids (user_ids_string ids) = Inr (sort ids)"
    using g by (intro split_ids_string) auto
  have c: "mset (filter (\<lambda>i. i \<noteq> me) ids) + {#me#} = mset ids"
  proof -
    have "mset ids = filter_mset (\<lambda>i. i \<noteq> me) (mset ids) + filter_mset (\<lambda>i. \<not> i \<noteq> me) (mset ids)"
      by (rule multiset_partition)
    also have "filter_mset (\<lambda>i. \<not> i \<noteq> me) (mset ids) = {#me#}"
      using g(2) by (simp add: filter_eq_replicate_mset count_mset)
    finally show ?thesis by simp
  qed
  then have "mset (sort (filter (\<lambda>i. i \<noteq> me) (sort ids)) @ [me]) = mset ids"
    by simp
  then have "sort (sort (filter (\<lambda>i. i \<noteq> me) (sort ids)) @ [me]) = sort ids"
    by (metis sorted_list_of_multiset_mset)
  then show "user_ids_string (sort (filter (\<lambda>i. i \<noteq> me) (sort ids)) @ [me]) = user_ids_string ids"
    by (simp add: user_ids_string_def)
  have "length (filter (\<lambda>i. i \<noteq> me) ids) + 1 = length ids"
    using arg_cong [OF c, of size] by (simp del: mset_filter)
  moreover have "length (filter (\<lambda>i. i \<noteq> me) (sort (filter (\<lambda>i. i \<noteq> me) (sort ids)))) = length (filter (\<lambda>i. i \<noteq> me) ids)"
    by (simp add: filter_sort)
  ultimately show "2 \<le> length (filter (\<lambda>i. i \<noteq> me) (sort (filter (\<lambda>i. i \<noteq> me) (sort ids))))"
    using g(3) by simp
qed

definition names_group :: "int \<Rightarrow> string \<Rightarrow> bool" where
  "names_group me g = (case split_ids g of Inr ids \<Rightarrow> group_members me ids \<and> g = user_ids_string ids | Inl _ \<Rightarrow> False)"

definition groups_ok :: "int \<Rightarrow> raw_unread \<Rightarrow> bool" where
  "groups_ok me s \<longleftrightarrow> list_all (\<lambda>(m, g). names_group me g) (huddle_dict s)"

lemma names_group_string: "group_members me ids \<Longrightarrow> names_group me (user_ids_string ids)"
proof -
  assume g: "group_members me ids"
  have "group_members me (sort ids)"
    using g by (simp add: group_members_def list_all_iff flip: count_mset)
  moreover have "user_ids_string (sort ids) = user_ids_string ids"
    by (simp add: user_ids_string_def sorted_sort_id)
  ultimately show ?thesis by (simp add: names_group_def group_string(1) [OF g])
qed

lemma groups_okD: "groups_ok me s \<Longrightarrow> (m, g) \<in> set (huddle_dict s) \<Longrightarrow> \<exists>ids. group_members me ids \<and> g = user_ids_string ids"
proof -
  assume "groups_ok me s" "(m, g) \<in> set (huddle_dict s)"
  then have "names_group me g" by (auto simp: groups_ok_def list_all_iff dest: bspec)
  then show ?thesis by (cases "split_ids g") (auto simp: names_group_def)
qed

text \<open>Adding details one after the other enters each message at its place.\<close>

lemma fold_details:
  assumes "wf_unread t" and "distinct (map fst ds)"
    and "\<And>m d. (m, d) \<in> set ds \<Longrightarrow> \<exists>e. details_entry me d = Some e \<and> fits (view t) m e"
  shows "wf_unread (fold (\<lambda>(m, d). add_message_to_unread_msgs me m d) ds t) \<and>
    view (fold (\<lambda>(m, d). add_message_to_unread_msgs me m d) ds t) =
      view t ++ (\<lambda>m. case map_of ds m of None \<Rightarrow> None | Some d \<Rightarrow> details_entry me d)"
  using assms
proof (induction ds arbitrary: t)
  case Nil
  then show ?case by (simp add: map_add_def)
next
  case (Cons x ds)
  obtain m d where x: "x = (m, d)" by fastforce
  from Cons.prems(3) [of m d] obtain p b where e: "details_entry me d = Some (p, b)" and fit: "fits (view t) m (p, b)"
    by (auto simp: x)
  let ?t = "enter m p b t"
  have v: "view ?t = (view t)(m \<mapsto> (p, b))" by (rule enter_view [OF Cons.prems(1) fit])
  have "wf_unread (fold (\<lambda>(m, d). add_message_to_unread_msgs me m d) ds ?t) \<and>
    view (fold (\<lambda>(m, d). add_message_to_unread_msgs me m d) ds ?t) =
      view ?t ++ (\<lambda>m. case map_of ds m of None \<Rightarrow> None | Some d \<Rightarrow> details_entry me d)"
  proof (rule Cons.IH)
    show "wf_unread ?t" by (rule enter_wf [OF Cons.prems(1) fit])
    show "distinct (map fst ds)" using Cons.prems(2) by simp
    show "\<exists>e. details_entry me d' = Some e \<and> fits (view ?t) m' e" if "(m', d') \<in> set ds" for m' d'
    proof -
      have "m' \<noteq> m" using Cons.prems(2) that by (auto simp: x rev_image_eqI)
      then show ?thesis using Cons.prems(3) [of m' d'] that by (simp add: v x fits_def)
    qed
  qed
  moreover have "map_of ds m = None" using Cons.prems(2) by (simp add: x map_of_eq_None_iff)
  then have "view ?t ++ (\<lambda>m. case map_of ds m of None \<Rightarrow> None | Some d \<Rightarrow> details_entry me d) =
      view t ++ (\<lambda>m'. case map_of (x # ds) m' of None \<Rightarrow> None | Some d \<Rightarrow> details_entry me d)"
    by (auto simp: v x e map_add_def fun_eq_iff split: option.splits)
  ultimately show ?case by (simp add: x details_enter(1) [OF e])
qed

text \<open>The details of a state, dictionary by dictionary.\<close>

definition private_details :: "int \<Rightarrow> raw_unread \<Rightarrow> int \<Rightarrow> int \<Rightarrow> message_details" where
  "private_details me s m other = PrivateDetails (m \<in> mentions s) (if other = me then [] else [other])"

definition stream_details :: "raw_unread \<Rightarrow> int \<Rightarrow> raw_unread_stream \<Rightarrow> message_details" where
  "stream_details s m d = StreamDetails (m \<in> mentions s) (us_stream_id d) (us_topic d) (m \<in> unmuted_stream_msgs s)"

definition group_details :: "int \<Rightarrow> raw_unread \<Rightarrow> int \<Rightarrow> int list \<Rightarrow> message_details" where
  "group_details me s m ids = PrivateDetails (m \<in> mentions s) (sort (filter (\<lambda>i. i \<noteq> me) ids))"

definition users_of :: "string \<Rightarrow> int list" where
  "users_of g = (case split_ids g of Inr ids \<Rightarrow> ids | Inl _ \<Rightarrow> [])"

lemma format_eq:
  assumes wf: "wf_unread s" and groups: "groups_ok me s"
  shows "format_unread_message_details me s = Inr
    (map (\<lambda>(m, x). (m, private_details me s m x)) (pm_dict s) @
     map (\<lambda>(m, x). (m, stream_details s m x)) (stream_dict s) @
     map (\<lambda>(m, x). (m, group_details me s m (users_of x))) (huddle_dict s))"
proof -
  have d: "distinct (map fst (pm_dict s))" "distinct (map fst (stream_dict s))" "distinct (map fst (huddle_dict s))"
    "fst ` set (pm_dict s) \<inter> fst ` set (stream_dict s) = {}"
    "(fst ` set (pm_dict s) \<union> fst ` set (stream_dict s)) \<inter> fst ` set (huddle_dict s) = {}"
    using wf by (auto simp: wf_unread_def)
  have keys: "fst ` (\<lambda>(m, x). (m, f m x)) ` A = fst ` A" for f :: "int \<Rightarrow> 'a \<Rightarrow> 'b" and A
    by force
  have sp: "split_ids g = Inr (users_of g)" if "(m, g) \<in> set (huddle_dict s)" for m g
    using groups_okD [OF groups that] group_string(1) by (auto simp: users_of_def)
  have 1: "fold (\<lambda>(mid, other). AList.update mid (PrivateDetails (mid \<in> mentions s) (if other = me then [] else [other])))
        (pm_dict s) [] = map (\<lambda>(m, x). (m, private_details me s m x)) (pm_dict s)"
    using fold_update_new [OF d(1), of "[]" "private_details me s"] by (simp add: private_details_def)
  have 2: "fold (\<lambda>(mid, d). AList.update mid (StreamDetails (mid \<in> mentions s) (us_stream_id d) (us_topic d)
          (mid \<in> unmuted_stream_msgs s))) (stream_dict s) (map (\<lambda>(m, x). (m, private_details me s m x)) (pm_dict s)) =
      map (\<lambda>(m, x). (m, private_details me s m x)) (pm_dict s) @ map (\<lambda>(m, x). (m, stream_details s m x)) (stream_dict s)"
    using fold_update_new [OF d(2), of "map (\<lambda>(m, x). (m, private_details me s m x)) (pm_dict s)" "stream_details s"] d(4)
    by (simp add: stream_details_def keys)
  have 3: "efold (\<lambda>(k, x) data. ebind (split_ids x) (\<lambda>y. Inr (AList.update k (group_details me s k y) data)))
      (huddle_dict s) (map (\<lambda>(m, x). (m, private_details me s m x)) (pm_dict s) @ map (\<lambda>(m, x). (m, stream_details s m x)) (stream_dict s)) =
    Inr ((map (\<lambda>(m, x). (m, private_details me s m x)) (pm_dict s) @ map (\<lambda>(m, x). (m, stream_details s m x)) (stream_dict s)) @
      map (\<lambda>(m, x). (m, group_details me s m (users_of x))) (huddle_dict s))"
    using sp d(3,5) by (intro efold_update_new) (auto simp: keys image_Un)
  show ?thesis
    unfolding format_unread_message_details_def Let_def 1 2 using 3 by (simp add: group_details_def)
qed

lemma details_of_format:
  assumes wf: "wf_unread s" and groups: "groups_ok me s"
    and ds: "format_unread_message_details me s = Inr ds"
  shows "distinct (map fst ds) \<and>
    (\<forall>m d. (m, d) \<in> set ds \<longrightarrow> details_entry me d = view s m \<and> view s m \<noteq> None) \<and>
    (\<forall>m. view s m \<noteq> None \<longrightarrow> m \<in> fst ` set ds)"
proof -
  have eq: "ds = map (\<lambda>(m, x). (m, private_details me s m x)) (pm_dict s) @
     map (\<lambda>(m, x). (m, stream_details s m x)) (stream_dict s) @
     map (\<lambda>(m, x). (m, group_details me s m (users_of x))) (huddle_dict s)"
    using ds format_eq [OF wf groups] by simp
  have a: "apart s m" for m using wf by (simp add: wf_unread_alt)
  have lookup: "map_of (pm_dict s) m = Some x \<longleftrightarrow> (m, x) \<in> set (pm_dict s)"
    "map_of (stream_dict s) m = Some y \<longleftrightarrow> (m, y) \<in> set (stream_dict s)"
    "map_of (huddle_dict s) m = Some z \<longleftrightarrow> (m, z) \<in> set (huddle_dict s)" for m x y z
    using wf by (simp_all add: wf_unread_alt)
  have keys: "map fst (map (\<lambda>(m, x). (m, f m x)) xs) = map fst xs" for f :: "int \<Rightarrow> 'a \<Rightarrow> 'b" and xs
    by (simp add: comp_def split_beta)
  have ks: "map fst ds = map fst (pm_dict s) @ map fst (stream_dict s) @ map fst (huddle_dict s)"
    by (simp only: eq map_append keys)
  have "distinct (map fst ds)" using wf by (simp add: ks wf_unread_def)
  moreover have "details_entry me d = view s m \<and> view s m \<noteq> None" if "(m, d) \<in> set ds" for m d
  proof -
    from that consider (pm) other where "(m, other) \<in> set (pm_dict s)" "d = private_details me s m other"
      | (stream) x where "(m, x) \<in> set (stream_dict s)" "d = stream_details s m x"
      | (huddle) g where "(m, g) \<in> set (huddle_dict s)" "d = group_details me s m (users_of g)"
      by (auto simp: eq)
    then show ?thesis
    proof cases
      case pm
      then show ?thesis using a [of m] unfolding lookup [symmetric]
        by (simp add: private_details_def view_def place_of_def apart_def)
    next
      case stream
      then show ?thesis unfolding lookup [symmetric]
        by (simp add: stream_details_def view_def place_of_def)
    next
      case huddle
      then obtain ids where ids: "group_members me ids" "g = user_ids_string ids"
        using groups_okD [OF groups] by blast
      let ?others = "filter (\<lambda>i. i \<noteq> me) (sort (filter (\<lambda>i. i \<noteq> me) (sort ids)))"
      have others: "?others = sort (filter (\<lambda>i. i \<noteq> me) (sort ids))" by simp
      obtain i j js where l: "?others = i # j # js"
        using group_string(3) [OF ids(1)] by (metis One_nat_def Suc_1 Suc_le_length_iff)
      have "details_entry me d = Some (Group (user_ids_string (?others @ [me])), m \<in> mentions s)"
        by (simp add: huddle(2) group_details_def users_of_def ids(2) group_string(1) [OF ids(1)] l)
      also have "user_ids_string (?others @ [me]) = g"
        unfolding others group_string(2) [OF ids(1)] ids(2) ..
      finally show ?thesis using huddle(1) a [of m] unfolding lookup [symmetric]
        by (simp add: view_def place_of_def apart_def)
    qed
  qed
  moreover have "m \<in> fst ` set ds" if "view s m \<noteq> None" for m
  proof -
    have "set (map fst ds) = fst ` set (pm_dict s) \<union> fst ` set (stream_dict s) \<union> fst ` set (huddle_dict s)"
      by (auto simp: ks)
    then show ?thesis using that by (auto simp: view_None place_of_None map_of_eq_None_iff)
  qed
  ultimately show ?thesis by blast
qed

text \<open>
  C35. Marking unread loses nothing.  The details sent with an event that marks messages unread
  are computed without error from their unread data \<open>s\<close> (whose group conversations name the
  user and at least two others), and applying them to a state that has none of these messages
  adds exactly what was there: the same places, the same mutes, the same mentions.
\<close>

theorem unread_details_roundtrip:
  assumes "wf_unread s" and "wf_unread t" and "\<And>m. view s m \<noteq> None \<Longrightarrow> view t m = None"
    and "groups_ok me s"
  shows "\<exists>ds. format_unread_message_details me s = Inr ds \<and>
    wf_unread (fold (\<lambda>(m, d). add_message_to_unread_msgs me m d) ds t) \<and>
    view (fold (\<lambda>(m, d). add_message_to_unread_msgs me m d) ds t) = view t ++ view s"
proof -
  obtain ds where ds: "format_unread_message_details me s = Inr ds" using format_eq [OF assms(1,4)] by blast
  note d = details_of_format [OF assms(1,4) ds]
  have "(\<lambda>m. case map_of ds m of None \<Rightarrow> None | Some d \<Rightarrow> details_entry me d) = view s"
  proof
    fix m
    show "(case map_of ds m of None \<Rightarrow> None | Some d \<Rightarrow> details_entry me d) = view s m"
    proof (cases "map_of ds m")
      case None
      then have "m \<notin> fst ` set ds" by (simp add: map_of_eq_None_iff)
      then have "view s m = None" using d by blast
      with None show ?thesis by simp
    next
      case (Some x)
      then show ?thesis using d by (auto dest: map_of_SomeD)
    qed
  qed
  moreover have "\<exists>e. details_entry me x = Some e \<and> fits (view t) m e" if "(m, x) \<in> set ds" for m x
    using d assms(3) that by (fastforce simp: fits_def)
  ultimately show ?thesis
    using fold_details [OF assms(2), of ds me] d ds by metis
qed

definition sample_unread :: raw_unread where
  "sample_unread = \<lparr>pm_dict = [(4, 7), (1, 7)], stream_dict = [(2, \<lparr>us_stream_id = 5, us_topic = ''a''\<rparr>)],
     huddle_dict = [(3, user_ids_string [9, 8, 7])], mentions = {2}, muted_stream_ids = {},
     unmuted_stream_msgs = {2}, old_unreads_missing = False\<rparr>"

lemma sample_wf: "wf_unread sample_unread"
  by (simp add: sample_unread_def wf_unread_def)

lemma sample_groups: "groups_ok 9 sample_unread"
  by (simp add: sample_unread_def groups_ok_def names_group_string group_members_def)

theorem aggregation_exact_witness:
  "um_pms (aggregate_unread_data sample_unread) = [(7, [1, 4])] \<and> um_count (aggregate_unread_data sample_unread) = 4 \<and>
   aggregated (\<lambda>x. x) (pm_dict sample_unread) (um_pms (aggregate_unread_data sample_unread))"
  using aggregation_exact [OF sample_wf]
  by (simp add: sample_unread_def aggregate_unread_data_def aggregate_pms_def aggregate_def get_or_def)

theorem unread_details_roundtrip_witness:
  "\<exists>ds. format_unread_message_details 9 sample_unread = Inr ds \<and>
    view (fold (\<lambda>(m, d). add_message_to_unread_msgs 9 m d) ds empty_unread) 2 = Some (InChannel 5 ''a'' True, True) \<and>
    view (fold (\<lambda>(m, d). add_message_to_unread_msgs 9 m d) ds empty_unread) 3 = Some (Group (user_ids_string [9, 8, 7]), False)"
proof -
  have "wf_unread empty_unread" by (simp add: empty_unread_def wf_unread_def)
  moreover have "view empty_unread m = None" for m by (simp add: view_def place_of_def empty_unread_def)
  moreover have "view sample_unread 2 = Some (InChannel 5 ''a'' True, True)"
    "view sample_unread 3 = Some (Group (user_ids_string [9, 8, 7]), False)"
    by (simp_all add: view_def place_of_def sample_unread_def)
  ultimately show ?thesis
    using unread_details_roundtrip [OF sample_wf _ _ sample_groups, of empty_unread] by (fastforce simp: map_add_def)
qed


end
