(* ===== verification/Permissions.thy ===== *)
theory Permissions
  imports Prelude
begin

text \<open>
  What the role of a user and the settings of their organization allow
  (\<^verbatim>\<open>zerver/models/users.py\<close>, \<^verbatim>\<open>zerver/models/realms.py\<close>, the wildcard-mention policy of
  \<^verbatim>\<open>zerver/lib/message.py\<close>).  Times are integers of microseconds, the resolution of
  Python's \<open>datetime\<close>; membership in the group of a permission is a table of the organization.
\<close>

section \<open>Organizations and users\<close>

record realm =
  realm_id :: int
  policy_of :: "string \<Rightarrow> int"
  in_permission_group :: "string \<Rightarrow> int \<Rightarrow> bool"
  system_group_of :: "string \<Rightarrow> string option"
  waiting_period_threshold :: int
  wildcard_mention_policy :: int
  bot_creation_policy :: int
  plan_type :: int
  enable_spectator_access :: bool
  is_zephyr_mirror_realm :: bool

record user_profile =
  profile_id :: int
  user_role :: int
  date_joined :: int
  bot_owner_id :: "int option"
  is_billing_admin :: bool

definition ROLE_REALM_OWNER :: int where "ROLE_REALM_OWNER = 100"
definition ROLE_REALM_ADMINISTRATOR :: int where "ROLE_REALM_ADMINISTRATOR = 200"
definition ROLE_MODERATOR :: int where "ROLE_MODERATOR = 300"
definition ROLE_MEMBER :: int where "ROLE_MEMBER = 400"
definition ROLE_GUEST :: int where "ROLE_GUEST = 600"

definition ROLE_TYPES :: "int list" where
  "ROLE_TYPES = [ROLE_REALM_OWNER, ROLE_REALM_ADMINISTRATOR, ROLE_MODERATOR, ROLE_MEMBER, ROLE_GUEST]"

definition POLICY_MEMBERS_ONLY :: int where "POLICY_MEMBERS_ONLY = 1"
definition POLICY_ADMINS_ONLY :: int where "POLICY_ADMINS_ONLY = 2"
definition POLICY_FULL_MEMBERS_ONLY :: int where "POLICY_FULL_MEMBERS_ONLY = 3"
definition POLICY_MODERATORS_ONLY :: int where "POLICY_MODERATORS_ONLY = 4"
definition POLICY_EVERYONE :: int where "POLICY_EVERYONE = 5"
definition POLICY_NOBODY :: int where "POLICY_NOBODY = 6"
definition POLICY_OWNERS_ONLY :: int where "POLICY_OWNERS_ONLY = 7"

definition PLAN_TYPE_LIMITED :: int where "PLAN_TYPE_LIMITED = 2"
definition WILDCARD_MENTION_THRESHOLD :: int where "WILDCARD_MENTION_THRESHOLD = 15"

definition is_realm_admin :: "user_profile \<Rightarrow> bool" where
  "is_realm_admin u \<longleftrightarrow> user_role u \<in> {ROLE_REALM_ADMINISTRATOR, ROLE_REALM_OWNER}"

definition is_realm_owner :: "user_profile \<Rightarrow> bool" where
  "is_realm_owner u \<longleftrightarrow> user_role u = ROLE_REALM_OWNER"

definition is_moderator :: "user_profile \<Rightarrow> bool" where
  "is_moderator u \<longleftrightarrow> user_role u = ROLE_MODERATOR"

definition is_guest :: "user_profile \<Rightarrow> bool" where
  "is_guest u \<longleftrightarrow> user_role u = ROLE_GUEST"

definition has_billing_access :: "user_profile \<Rightarrow> bool" where
  "has_billing_access u \<longleftrightarrow> is_realm_owner u \<or> is_billing_admin u"

text \<open>The property setters.\<close>

definition set_role_flag :: "int \<Rightarrow> bool \<Rightarrow> user_profile \<Rightarrow> user_profile" where
  "set_role_flag r v u =
     (if v then u\<lparr>user_role := r\<rparr> else if user_role u = r then u\<lparr>user_role := ROLE_MEMBER\<rparr> else u)"

definition set_is_realm_admin :: "bool \<Rightarrow> user_profile \<Rightarrow> user_profile" where
  "set_is_realm_admin = set_role_flag ROLE_REALM_ADMINISTRATOR"

definition set_is_realm_owner :: "bool \<Rightarrow> user_profile \<Rightarrow> user_profile" where
  "set_is_realm_owner = set_role_flag ROLE_REALM_OWNER"

definition set_is_guest :: "bool \<Rightarrow> user_profile \<Rightarrow> user_profile" where
  "set_is_guest = set_role_flag ROLE_GUEST"

definition set_is_moderator :: "bool \<Rightarrow> user_profile \<Rightarrow> user_profile" where
  "set_is_moderator = set_role_flag ROLE_MODERATOR"

definition timedelta_days :: "int \<Rightarrow> int" where
  "timedelta_days us = us div (86400 * 1000000)"

definition is_provisional_member :: "realm \<Rightarrow> int \<Rightarrow> user_profile \<Rightarrow> bool" where
  "is_provisional_member r now u =
     (if is_moderator u then False
      else if timedelta_days (now - date_joined u) < waiting_period_threshold r then True
      else False)"

definition can_admin_user :: "user_profile \<Rightarrow> user_profile \<Rightarrow> bool \<Rightarrow> bool" where
  "can_admin_user u target same_realm =
     (if bot_owner_id target = Some (profile_id u) then True
      else if is_realm_admin u \<and> same_realm then True
      else False)"

definition LIMIT_GENERIC_BOTS :: int where "LIMIT_GENERIC_BOTS = 2"
definition DEFAULT_BOT :: int where "DEFAULT_BOT = 1"
definition INCOMING_WEBHOOK_BOT :: int where "INCOMING_WEBHOOK_BOT = 2"
definition OUTGOING_WEBHOOK_BOT :: int where "OUTGOING_WEBHOOK_BOT = 3"
definition EMBEDDED_BOT :: int where "EMBEDDED_BOT = 4"

definition allowed_bot_types :: "bool \<Rightarrow> realm \<Rightarrow> user_profile \<Rightarrow> int list" where
  "allowed_bot_types embedded_bots_enabled r u =
     (if is_realm_admin u \<or> bot_creation_policy r \<noteq> LIMIT_GENERIC_BOTS then [DEFAULT_BOT] else []) @
     [INCOMING_WEBHOOK_BOT, OUTGOING_WEBHOOK_BOT] @
     (if embedded_bots_enabled then [EMBEDDED_BOT] else [])"

section \<open>Permissions\<close>

definition REALM_PERMISSION_GROUP_SETTINGS :: "string list" where
  "REALM_PERMISSION_GROUP_SETTINGS = [''create_multiuse_invite_group'', ''can_access_all_users_group'',
     ''can_create_public_channel_group'', ''can_create_private_channel_group'',
     ''direct_message_initiator_group'', ''direct_message_permission_group'']"

definition known_policies :: "string list" where
  "known_policies = [''add_custom_emoji_policy'', ''can_create_private_channel_group'',
     ''can_create_public_channel_group'', ''create_multiuse_invite_group'',
     ''create_web_public_stream_policy'', ''delete_own_message_policy'',
     ''direct_message_initiator_group'', ''direct_message_permission_group'', ''edit_topic_policy'',
     ''invite_to_stream_policy'', ''invite_to_realm_policy'', ''move_messages_between_streams_policy'',
     ''user_group_edit_policy'']"

definition has_permission :: "realm \<Rightarrow> int \<Rightarrow> user_profile \<Rightarrow> string \<Rightarrow> bool res" where
  "has_permission r now u policy_name =
     (if policy_name \<notin> set known_policies then Inl AssertionError
      else if policy_name \<in> set REALM_PERMISSION_GROUP_SETTINGS
      then Inr (in_permission_group r policy_name (profile_id u))
      else let policy_value = policy_of r policy_name
           in if policy_value = POLICY_NOBODY then Inr False
              else if policy_value = POLICY_EVERYONE then Inr True
              else if is_realm_owner u then Inr True
              else if policy_value = POLICY_OWNERS_ONLY then Inr False
              else if is_realm_admin u then Inr True
              else if policy_value = POLICY_ADMINS_ONLY then Inr False
              else if is_moderator u then Inr True
              else if policy_value = POLICY_MODERATORS_ONLY then Inr False
              else if is_guest u then Inr False
              else if policy_value = POLICY_MEMBERS_ONLY then Inr True
              else ebind (py_assert (policy_value = POLICY_FULL_MEMBERS_ONLY)) (\<lambda>_.
                   Inr (\<not> is_provisional_member r now u)))"

definition web_public_streams_enabled :: "bool \<Rightarrow> realm \<Rightarrow> bool" where
  "web_public_streams_enabled server_enabled r =
     (if \<not> server_enabled then False
      else if plan_type r = PLAN_TYPE_LIMITED then False
      else if \<not> enable_spectator_access r then False
      else True)"

definition can_create_public_streams :: "realm \<Rightarrow> int \<Rightarrow> user_profile \<Rightarrow> bool res" where
  "can_create_public_streams r now u = has_permission r now u ''can_create_public_channel_group''"

definition can_create_private_streams :: "realm \<Rightarrow> int \<Rightarrow> user_profile \<Rightarrow> bool res" where
  "can_create_private_streams r now u = has_permission r now u ''can_create_private_channel_group''"

definition can_create_web_public_streams :: "bool \<Rightarrow> realm \<Rightarrow> int \<Rightarrow> user_profile \<Rightarrow> bool res" where
  "can_create_web_public_streams server_enabled r now u =
     (if \<not> web_public_streams_enabled server_enabled r then Inr False
      else has_permission r now u ''create_web_public_stream_policy'')"

definition can_subscribe_other_users :: "realm \<Rightarrow> int \<Rightarrow> user_profile \<Rightarrow> bool res" where
  "can_subscribe_other_users r now u = has_permission r now u ''invite_to_stream_policy''"

definition can_invite_users_by_email :: "realm \<Rightarrow> int \<Rightarrow> user_profile \<Rightarrow> bool res" where
  "can_invite_users_by_email r now u = has_permission r now u ''invite_to_realm_policy''"

definition can_create_multiuse_invite_to_realm :: "realm \<Rightarrow> int \<Rightarrow> user_profile \<Rightarrow> bool res" where
  "can_create_multiuse_invite_to_realm r now u = has_permission r now u ''create_multiuse_invite_group''"

definition can_move_messages_between_streams :: "realm \<Rightarrow> int \<Rightarrow> user_profile \<Rightarrow> bool res" where
  "can_move_messages_between_streams r now u = has_permission r now u ''move_messages_between_streams_policy''"

definition can_edit_user_groups :: "realm \<Rightarrow> int \<Rightarrow> user_profile \<Rightarrow> bool res" where
  "can_edit_user_groups r now u = has_permission r now u ''user_group_edit_policy''"

definition can_move_messages_to_another_topic :: "realm \<Rightarrow> int \<Rightarrow> user_profile \<Rightarrow> bool res" where
  "can_move_messages_to_another_topic r now u = has_permission r now u ''edit_topic_policy''"

definition can_add_custom_emoji :: "realm \<Rightarrow> int \<Rightarrow> user_profile \<Rightarrow> bool res" where
  "can_add_custom_emoji r now u = has_permission r now u ''add_custom_emoji_policy''"

definition can_delete_own_message :: "realm \<Rightarrow> int \<Rightarrow> user_profile \<Rightarrow> bool res" where
  "can_delete_own_message r now u = has_permission r now u ''delete_own_message_policy''"

definition can_access_public_streams :: "realm \<Rightarrow> user_profile \<Rightarrow> bool" where
  "can_access_public_streams r u \<longleftrightarrow> \<not> (is_guest u \<or> is_zephyr_mirror_realm r)"

text \<open>\<open>system_group_of\<close> is the name of the group a setting names, when it is a system group.\<close>

definition SYSTEM_GROUPS_ENUM_MAP :: "(string \<times> int) list" where
  "SYSTEM_GROUPS_ENUM_MAP = [(''role:owners'', POLICY_OWNERS_ONLY), (''role:administrators'', POLICY_ADMINS_ONLY),
     (''role:moderators'', POLICY_MODERATORS_ONLY), (''role:fullmembers'', POLICY_FULL_MEMBERS_ONLY),
     (''role:members'', POLICY_MEMBERS_ONLY), (''role:everyone'', POLICY_EVERYONE), (''role:nobody'', POLICY_NOBODY)]"

definition COMMON_POLICY_TYPES :: "int list" where
  "COMMON_POLICY_TYPES = [POLICY_MEMBERS_ONLY, POLICY_ADMINS_ONLY, POLICY_FULL_MEMBERS_ONLY, POLICY_MODERATORS_ONLY]"

definition get_corresponding_policy_value_for_group_setting :: "realm \<Rightarrow> string \<Rightarrow> int list \<Rightarrow> int res" where
  "get_corresponding_policy_value_for_group_setting r group_setting_name valid_policy_enums =
     (let fallback = ebind (py_assert (valid_policy_enums = COMMON_POLICY_TYPES)) (\<lambda>_. Inr POLICY_MEMBERS_ONLY)
      in case system_group_of r group_setting_name of
           Some name \<Rightarrow> ebind (getk SYSTEM_GROUPS_ENUM_MAP name) (\<lambda>v.
             if v \<in> set valid_policy_enums then Inr v else fallback)
         | None \<Rightarrow> fallback)"

section \<open>Wildcard mentions\<close>

definition wildcard_mention_policy_authorizes_user :: "realm \<Rightarrow> int \<Rightarrow> user_profile \<Rightarrow> bool res" where
  "wildcard_mention_policy_authorizes_user r now sender =
     (let p = wildcard_mention_policy r
      in if p = 6 then Inr False
         else if p = 1 then Inr True
         else if p = 5 then Inr (is_realm_admin sender)
         else if p = 7 then Inr (is_realm_admin sender \<or> is_moderator sender)
         else if p = 3 then Inr (is_realm_admin sender \<or> (\<not> is_provisional_member r now sender \<and> \<not> is_guest sender))
         else if p = 2 then Inr (\<not> is_guest sender)
         else Inl AssertionError)"

definition topic_wildcard_mention_allowed :: "realm \<Rightarrow> int \<Rightarrow> user_profile \<Rightarrow> int \<Rightarrow> bool res" where
  "topic_wildcard_mention_allowed r now sender topic_participant_count =
     (if topic_participant_count \<le> WILDCARD_MENTION_THRESHOLD then Inr True
      else wildcard_mention_policy_authorizes_user r now sender)"

definition stream_wildcard_mention_allowed :: "realm \<Rightarrow> int \<Rightarrow> user_profile \<Rightarrow> int \<Rightarrow> bool res" where
  "stream_wildcard_mention_allowed r now sender subscribers =
     (if subscribers \<le> WILDCARD_MENTION_THRESHOLD then Inr True
      else wildcard_mention_policy_authorizes_user r now sender)"

section \<open>Permissions as a matter of standing\<close>

text \<open>
  The contract behind the chains of tests: users are ordered by standing, every policy asks for
  a least standing, and a permission is granted exactly from there on.
\<close>

definition standing :: "realm \<Rightarrow> int \<Rightarrow> user_profile \<Rightarrow> nat" where
  "standing r now u =
     (if user_role u = ROLE_REALM_OWNER then 5
      else if user_role u = ROLE_REALM_ADMINISTRATOR then 4
      else if user_role u = ROLE_MODERATOR then 3
      else if user_role u = ROLE_GUEST then 0
      else if timedelta_days (now - date_joined u) < waiting_period_threshold r then 1
      else 2)"

definition required :: "int \<Rightarrow> nat option" where
  "required policy = map_of [(POLICY_EVERYONE, 0), (POLICY_MEMBERS_ONLY, 1), (POLICY_FULL_MEMBERS_ONLY, 2),
     (POLICY_MODERATORS_ONLY, 3), (POLICY_ADMINS_ONLY, 4), (POLICY_OWNERS_ONLY, 5), (POLICY_NOBODY, 6)] policy"

definition required_for_wildcard :: "int \<Rightarrow> nat option" where
  "required_for_wildcard policy = map_of [(1, 0), (2, 1), (3, 2), (7, 3), (5, 4), (6, 6)] policy"

lemmas role_defs = ROLE_REALM_OWNER_def ROLE_REALM_ADMINISTRATOR_def ROLE_MODERATOR_def ROLE_MEMBER_def
  ROLE_GUEST_def ROLE_TYPES_def

lemmas policy_defs = POLICY_MEMBERS_ONLY_def POLICY_ADMINS_ONLY_def POLICY_FULL_MEMBERS_ONLY_def
  POLICY_MODERATORS_ONLY_def POLICY_EVERYONE_def POLICY_NOBODY_def POLICY_OWNERS_ONLY_def

lemmas role_tests = is_realm_admin_def is_realm_owner_def is_moderator_def is_guest_def is_provisional_member_def

lemma policy_outcome:
  assumes known: "name \<in> set known_policies" "name \<notin> set REALM_PERMISSION_GROUP_SETTINGS"
    and n: "required (policy_of r name) = Some n" and role: "user_role u \<in> set ROLE_TYPES"
  shows "has_permission r now u name = Inr (n \<le> standing r now u)"
proof -
  from n consider "policy_of r name = 5" "n = 0" | "policy_of r name = 1" "n = 1" | "policy_of r name = 3" "n = 2"
    | "policy_of r name = 4" "n = 3" | "policy_of r name = 2" "n = 4" | "policy_of r name = 7" "n = 5"
    | "policy_of r name = 6" "n = 6"
    by (auto simp: required_def policy_defs split: if_splits)
  moreover from role consider "user_role u = 100" | "user_role u = 200" | "user_role u = 300" | "user_role u = 400" | "user_role u = 600"
    by (auto simp: role_defs)
  ultimately show ?thesis
    using known
    by cases (auto simp: has_permission_def standing_def policy_defs role_defs role_tests Let_def)
qed

lemma wildcard_outcome:
  assumes n: "required_for_wildcard (wildcard_mention_policy r) = Some n" and role: "user_role u \<in> set ROLE_TYPES"
  shows "wildcard_mention_policy_authorizes_user r now u = Inr (n \<le> standing r now u)"
proof -
  from n consider "wildcard_mention_policy r = 1" "n = 0" | "wildcard_mention_policy r = 2" "n = 1"
    | "wildcard_mention_policy r = 3" "n = 2" | "wildcard_mention_policy r = 7" "n = 3"
    | "wildcard_mention_policy r = 5" "n = 4" | "wildcard_mention_policy r = 6" "n = 6"
    by (auto simp: required_for_wildcard_def split: if_splits)
  moreover from role consider "user_role u = 100" | "user_role u = 200" | "user_role u = 300" | "user_role u = 400" | "user_role u = 600"
    by (auto simp: role_defs)
  ultimately show ?thesis
    by cases (auto simp: wildcard_mention_policy_authorizes_user_def standing_def role_defs role_tests Let_def)
qed

text \<open>
  C39. Permissions are a matter of standing.  For every policy that is not a group setting and
  every value the organization can give it, \<open>has_permission\<close> never raises and grants the
  permission exactly to the users whose standing reaches what the policy asks for; the same
  holds of the right to mention everyone in a large channel or topic, under its own, differently
  numbered policy.  In particular a user of higher standing is never refused what a user of lower
  standing may do.
\<close>

theorem permissions_by_standing:
  assumes "user_role u \<in> set ROLE_TYPES"
    and "name \<in> set known_policies" and "name \<notin> set REALM_PERMISSION_GROUP_SETTINGS"
    and "required (policy_of r name) = Some n"
    and "required_for_wildcard (wildcard_mention_policy r) = Some w"
  shows "has_permission r now u name = Inr (n \<le> standing r now u) \<and>
    wildcard_mention_policy_authorizes_user r now u = Inr (w \<le> standing r now u) \<and>
    topic_wildcard_mention_allowed r now u participants =
      Inr (participants \<le> WILDCARD_MENTION_THRESHOLD \<or> w \<le> standing r now u)"
  using policy_outcome [OF assms(2,3,4,1)] wildcard_outcome [OF assms(5,1)]
  by (simp add: topic_wildcard_mention_allowed_def)

theorem permissions_by_standing_witness:
  "let r = \<lparr>realm_id = 1, policy_of = (\<lambda>_. POLICY_FULL_MEMBERS_ONLY), in_permission_group = (\<lambda>_ _. False), system_group_of = (\<lambda>_. None),
          waiting_period_threshold = 3, wildcard_mention_policy = 7, bot_creation_policy = 1, plan_type = 1,
          enable_spectator_access = True, is_zephyr_mirror_realm = False\<rparr>;
       u = \<lparr>profile_id = 7, user_role = ROLE_MEMBER, date_joined = 0, bot_owner_id = None, is_billing_admin = False\<rparr>
   in has_permission r (3 * 86400 * 1000000) u ''edit_topic_policy'' = Inr True \<and>
      has_permission r (3 * 86400 * 1000000 - 1) u ''edit_topic_policy'' = Inr False \<and>
      topic_wildcard_mention_allowed r 0 u 16 = Inr False"
proof -
  define r where "r = \<lparr>realm_id = 1, policy_of = (\<lambda>_::string. POLICY_FULL_MEMBERS_ONLY), in_permission_group = (\<lambda>_ _. False), system_group_of = (\<lambda>_. None),
          waiting_period_threshold = 3, wildcard_mention_policy = 7, bot_creation_policy = 1, plan_type = 1,
          enable_spectator_access = True, is_zephyr_mirror_realm = False\<rparr>"
  define u where "u = \<lparr>profile_id = 7, user_role = ROLE_MEMBER, date_joined = 0, bot_owner_id = None, is_billing_admin = False\<rparr>"
  have h: "user_role u \<in> set ROLE_TYPES" "''edit_topic_policy'' \<in> set known_policies"
    "''edit_topic_policy'' \<notin> set REALM_PERMISSION_GROUP_SETTINGS" "required (policy_of r ''edit_topic_policy'') = Some 2"
    "required_for_wildcard (wildcard_mention_policy r) = Some 3"
    by (simp_all add: r_def u_def role_defs policy_defs known_policies_def REALM_PERMISSION_GROUP_SETTINGS_def
        required_def required_for_wildcard_def)
  have s: "standing r (3 * 86400 * 1000000) u = 2" "standing r (3 * 86400 * 1000000 - 1) u = 1" "standing r 0 u = 1"
    by (simp_all add: standing_def r_def u_def role_defs timedelta_days_def)
  show ?thesis
    using permissions_by_standing [OF h, of "3 * 86400 * 1000000" 16]
      permissions_by_standing [OF h, of "3 * 86400 * 1000000 - 1" 16] permissions_by_standing [OF h, of 0 16]
    unfolding s by (simp add: WILDCARD_MENTION_THRESHOLD_def flip: r_def u_def)
qed

end
