(* ===== verification/RegisterState.thy ===== *)
theory RegisterState
  imports Unread Permissions
begin

text \<open>
  The state that \<^verbatim>\<open>fetch_initial_state_data\<close> gathers when a client registers, and the
  vocabulary of \<^verbatim>\<open>apply_event\<close> (\<^verbatim>\<open>zerver/lib/events.py\<close>) that brings it up to date.

  The entries clients see are a dictionary; the three that \<^verbatim>\<open>apply_event\<close> keeps in a form of its
  own, keyed by integers, are components of the record, absent when they were not fetched.
  An exception ends the registration and nothing reads the state after it, so the operations
  return the new state or the exception.  What \<^verbatim>\<open>apply_event\<close> asks the database for is the
  record \<open>database\<close>, a parameter of the model.
\<close>

record reg_state =
  st :: dict
  raw_users :: "(int \<times> dict) list option"
  raw_unread_msgs :: "raw_unread option"
  raw_recents :: "(int \<times> dict) list option"

record database =
  db_topic_policy :: "int \<Rightarrow> string \<Rightarrow> visibility_policy"
  db_user_recipient :: "int \<Rightarrow> int option"
  db_email_visibility :: "int \<Rightarrow> int option"
  db_realm :: realm
  db_user :: user_profile
  db_now :: int
  db_web_public_enabled :: bool
  db_default_streams :: "py"
  db_owned_bots :: "py list"
  db_fake_domain :: string
  db_inaccessible_avatar :: string
  db_subscription_rows :: "int \<Rightarrow> dict list"
  db_presence :: "int \<Rightarrow> bool \<Rightarrow> dict"
  db_max_message_id :: int
  db_recent_conversations :: "(int \<times> dict) list"
  db_notification_default :: "string \<Rightarrow> bool"

record registration =
  my_id :: int
  my_recipient_id :: int
  client_gravatar :: bool
  slim_presence :: bool
  include_subscribers :: bool
  linkifier_url_template :: bool
  user_list_incomplete :: bool

section \<open>Reading and writing entries\<close>

definition put :: "string \<Rightarrow> py \<Rightarrow> reg_state \<Rightarrow> reg_state" where
  "put k v s = s\<lparr>st := dset k v (st s)\<rparr>"

definition on_list :: "string \<Rightarrow> (py list \<Rightarrow> py list res) \<Rightarrow> reg_state \<Rightarrow> reg_state res" where
  "on_list k f s = ebind (list_at (st s) k) (\<lambda>xs. ebind (f xs) (\<lambda>ys. Inr (put k (PList ys) s)))"

text \<open>\<open>for d in xs:\<close> a change of \<open>d\<close> in place.\<close>

definition each_dict :: "(dict \<Rightarrow> dict res) \<Rightarrow> py list \<Rightarrow> py list res" where
  "each_dict f = emap (\<lambda>v. ebind (as_dict v) (\<lambda>d. ebind (f d) (\<lambda>d'. Inr (PDict d'))))"

fun keep_if :: "('a \<Rightarrow> bool res) \<Rightarrow> 'a list \<Rightarrow> 'a list res" where
  "keep_if p [] = Inr []"
| "keep_if p (x # xs) = ebind (p x) (\<lambda>b. ebind (keep_if p xs) (\<lambda>ys. Inr (if b then x # ys else ys)))"

text \<open>\<open>v in vs\<close> and \<open>d[k] == v\<close>.\<close>

definition py_in :: "py \<Rightarrow> py list \<Rightarrow> bool" where
  "py_in v vs = list_ex (\<lambda>w. py_eq w v) vs"

definition field_eq :: "string \<Rightarrow> py \<Rightarrow> py \<Rightarrow> bool res" where
  "field_eq k v x = ebind (as_dict x) (\<lambda>d. ebind (getk d k) (\<lambda>w. Inr (py_eq w v)))"

definition field_in :: "string \<Rightarrow> py list \<Rightarrow> py \<Rightarrow> bool res" where
  "field_in k vs x = ebind (as_dict x) (\<lambda>d. ebind (getk d k) (\<lambda>w. Inr (py_in w vs)))"

definition negate :: "bool res \<Rightarrow> bool res" where
  "negate b = ebind b (\<lambda>b. Inr (\<not> b))"

definition fields_of :: "string \<Rightarrow> py list \<Rightarrow> py list res" where
  "fields_of k = emap (\<lambda>x. ebind (as_dict x) (\<lambda>d. getk d k))"

definition dict_update :: "dict \<Rightarrow> dict \<Rightarrow> dict" where
  "dict_update d e = fold (\<lambda>(k, v). dset k v) e d"

definition py_or :: "py \<Rightarrow> py \<Rightarrow> py" where
  "py_or a b = (if truthy a then a else b)"

text \<open>\<open>xs.sort(key=...)\<close>, which is stable, on an integer or a string field.\<close>

definition sort_keyed :: "(dict \<Rightarrow> ('k::linorder) res) \<Rightarrow> py list \<Rightarrow> py list res" where
  "sort_keyed key xs =
     ebind (emap (\<lambda>x. ebind (as_dict x) key) xs) (\<lambda>ks. Inr (map snd (sort_key fst (zip ks xs))))"

definition strings :: "py list \<Rightarrow> string list" where
  "strings vs = concat (map (\<lambda>v. case v of PStr s \<Rightarrow> [s] | _ \<Rightarrow> []) vs)"

definition the_part :: "string \<Rightarrow> 'a option \<Rightarrow> 'a res" where
  "the_part k p = (case p of None \<Rightarrow> Inl (KeyError k) | Some x \<Rightarrow> Inr x)"

definition lower_at :: "dict \<Rightarrow> string \<Rightarrow> string res" where
  "lower_at d k = ebind (getk d k) (\<lambda>v. case v of PStr s \<Rightarrow> Inr (lower s) | _ \<Rightarrow> Inl AttributeError)"

text \<open>\<open>for x in xs: s = f(x, s)\<close> when the entry is present, and nothing otherwise.\<close>

definition when_present :: "string \<Rightarrow> (reg_state \<Rightarrow> reg_state res) \<Rightarrow> reg_state \<Rightarrow> reg_state res" where
  "when_present k f s = (if has_key (st s) k then f s else Inr s)"

section \<open>Constants of the models\<close>

definition is_administrator_role :: "py \<Rightarrow> bool" where
  "is_administrator_role role = py_in role [PInt ROLE_REALM_ADMINISTRATOR, PInt ROLE_REALM_OWNER]"

definition EMAIL_ADDRESS_VISIBILITY_EVERYONE :: int where "EMAIL_ADDRESS_VISIBILITY_EVERYONE = 1"
definition STREAM_POST_POLICY_ADMINS :: int where "STREAM_POST_POLICY_ADMINS = 2"

definition display_settings_legacy :: "string list" where
  "display_settings_legacy = [''color_scheme'', ''default_language'', ''web_home_view'',
     ''demote_inactive_streams'', ''dense_mode'', ''emojiset'', ''enable_drafts_synchronization'',
     ''enter_sends'', ''fluid_layout_width'', ''high_contrast_mode'', ''left_side_userlist'',
     ''starred_message_counts'', ''translate_emoticons'', ''twenty_four_hour_time'']"

definition notification_settings_legacy :: "string list" where
  "notification_settings_legacy = [''desktop_icon_count_display'',
     ''email_notifications_batching_period_seconds'', ''enable_desktop_notifications'',
     ''enable_digest_emails'', ''enable_login_emails'', ''enable_marketing_emails'',
     ''enable_offline_email_notifications'', ''enable_offline_push_notifications'',
     ''enable_online_push_notifications'', ''enable_sounds'', ''enable_stream_audible_notifications'',
     ''enable_stream_desktop_notifications'', ''enable_stream_email_notifications'',
     ''enable_stream_push_notifications'', ''message_content_in_email_notifications'',
     ''notification_sound'', ''pm_content_in_desktop_notifications'', ''presence_enabled'',
     ''realm_name_in_email_notifications_policy'', ''wildcard_mentions_notify'']"

definition modern_settings :: "string list" where
  "modern_settings = [''display_emoji_reaction_users'', ''email_address_visibility'',
     ''web_escape_navigates_to_home_view'', ''receives_typing_notifications'',
     ''send_private_typing_notifications'', ''send_read_receipts'', ''send_stream_typing_notifications'',
     ''web_mark_read_on_scroll_policy'', ''web_channel_default_view'', ''user_list_style'',
     ''web_animate_image_previews'', ''web_stream_unreads_count_display_policy'', ''web_font_size_px'',
     ''web_line_height_percent'', ''web_navigate_to_sent_message'']"

definition modern_notification_settings :: "string list" where
  "modern_notification_settings = [''enable_followed_topic_desktop_notifications'',
     ''enable_followed_topic_email_notifications'', ''enable_followed_topic_push_notifications'',
     ''enable_followed_topic_audible_notifications'', ''enable_followed_topic_wildcard_mentions_notify'',
     ''automatically_follow_topics_policy'', ''automatically_unmute_topics_in_muted_streams_policy'',
     ''automatically_follow_topics_where_mentioned'']"

definition property_types :: "string list" where
  "property_types = display_settings_legacy @ notification_settings_legacy @
     modern_notification_settings @ modern_settings"

section \<open>A sample database and registration\<close>

definition sample_realm :: realm where
  "sample_realm = \<lparr>realm_id = 1, policy_of = (\<lambda>_. POLICY_MODERATORS_ONLY), in_permission_group = (\<lambda>_ _. True),
     system_group_of = (\<lambda>_. Some ''role:members''), waiting_period_threshold = 3, wildcard_mention_policy = 7,
     bot_creation_policy = 1, plan_type = 1, enable_spectator_access = False, is_zephyr_mirror_realm = False\<rparr>"

definition sample_user :: user_profile where
  "sample_user = \<lparr>profile_id = 9, user_role = ROLE_MODERATOR, date_joined = 0, bot_owner_id = None, is_billing_admin = False\<rparr>"

definition sample_db :: database where
  "sample_db = \<lparr>db_topic_policy = (\<lambda>_ _. INHERIT), db_user_recipient = (\<lambda>i. Some (100 + i)),
     db_email_visibility = (\<lambda>_. Some 1), db_realm = sample_realm, db_user = sample_user, db_now = 0,
     db_web_public_enabled = True, db_default_streams = PList [], db_owned_bots = [], db_fake_domain = ''fake.example'',
     db_inaccessible_avatar = ''/avatar'',
     db_subscription_rows = (\<lambda>_. []), db_presence = (\<lambda>_ _. []), db_max_message_id = 0,
     db_recent_conversations = [], db_notification_default = (\<lambda>_. True)\<rparr>"

definition sample_reg :: registration where
  "sample_reg = \<lparr>my_id = 9, my_recipient_id = 109, client_gravatar = False, slim_presence = True,
     include_subscribers = False, linkifier_url_template = True, user_list_incomplete = False\<rparr>"


end
