(* ===== verification/ApplyEvents.thy ===== *)
theory ApplyEvents
  imports RegisterState
begin

text \<open>
  \<^verbatim>\<open>apply_event\<close> of \<^verbatim>\<open>zerver/lib/events.py\<close>: one definition per event type, dispatched by
  \<open>apply_event\<close>, iterated by \<open>apply_events\<close>, followed by \<open>post_process_state\<close>.
\<close>

section \<open>Messages\<close>

definition get_recent_conversations_recipient_id :: "database \<Rightarrow> registration \<Rightarrow> int \<Rightarrow> int \<Rightarrow> int res" where
  "get_recent_conversations_recipient_id db reg recipient_id sender_id =
     (if recipient_id = my_recipient_id reg
      then (case db_user_recipient db sender_id of None \<Rightarrow> Inl DoesNotExist | Some r \<Rightarrow> Inr r)
      else Inr recipient_id)"

definition note_unread :: "database \<Rightarrow> registration \<Rightarrow> dict \<Rightarrow> dict \<Rightarrow> reg_state \<Rightarrow> reg_state res" where
  "note_unread db reg event message s = (case raw_unread_msgs s of
     None \<Rightarrow> Inr s
   | Some u \<Rightarrow>
       ebind (list_at event ''flags'') (\<lambda>flags.
       if ''read'' \<in> set (strings flags) then Inr s
       else ebind (apply_unread_message_event (db_topic_policy db) (my_id reg) message (strings flags) u) (\<lambda>u'.
            Inr (s\<lparr>raw_unread_msgs := Some u'\<rparr>))))"

definition note_conversation :: "database \<Rightarrow> registration \<Rightarrow> dict \<Rightarrow> reg_state \<Rightarrow> reg_state res" where
  "note_conversation db reg message s = (case raw_recents s of
     None \<Rightarrow> Inr s
   | Some recents \<Rightarrow>
       ebind (int_at message ''recipient_id'') (\<lambda>recipient_id.
       ebind (int_at message ''sender_id'') (\<lambda>sender_id.
       ebind (get_recent_conversations_recipient_id db reg recipient_id sender_id) (\<lambda>rid.
       ebind (case map_of recents rid of
                Some c \<Rightarrow> Inr c
              | None \<Rightarrow> ebind (recipient_ids message) (\<lambda>ids.
                  Inr [(''user_ids'', PList (map PInt (sort (filter (\<lambda>i. i \<noteq> my_id reg) ids))))])) (\<lambda>c.
       ebind (int_at message ''id'') (\<lambda>mid.
       Inr (s\<lparr>raw_recents := Some (AList.update rid (dset ''max_message_id'' (PInt mid) c) recents)\<rparr>)))))))"

definition note_first_message :: "dict \<Rightarrow> string \<Rightarrow> reg_state \<Rightarrow> reg_state res" where
  "note_first_message message k = when_present k (on_list k (each_dict (\<lambda>d.
     ebind (getk message ''stream_id'') (\<lambda>stream_id.
     ebind (getk d ''stream_id'') (\<lambda>i.
     if py_eq i stream_id
     then ebind (getk d ''first_message_id'') (\<lambda>first.
          if first = PNone
          then ebind (getk message ''id'') (\<lambda>mid. Inr (dset ''first_message_id'' mid d))
          else Inr d)
     else Inr d)))))"

definition apply_message_event :: "database \<Rightarrow> registration \<Rightarrow> dict \<Rightarrow> reg_state \<Rightarrow> reg_state res" where
  "apply_message_event db reg event s =
     ebind (int_at (st s) ''max_message_id'') (\<lambda>newest.
     ebind (dict_at event ''message'') (\<lambda>message.
     ebind (int_at message ''id'') (\<lambda>mid.
     ebind (note_unread db reg event message (put ''max_message_id'' (PInt (max newest mid)) s)) (\<lambda>s1.
     ebind (getk message ''type'') (\<lambda>ty.
     if ty \<noteq> PStr ''stream'' then note_conversation db reg message s1
     else ebind (note_first_message message ''subscriptions'' s1) (note_first_message message ''streams''))))))"

section \<open>Drafts and scheduled messages\<close>

fun index_where :: "('a \<Rightarrow> bool res) \<Rightarrow> nat \<Rightarrow> 'a list \<Rightarrow> nat option res" where
  "index_where p i [] = Inr None"
| "index_where p i (x # xs) = ebind (p x) (\<lambda>b. if b then Inr (Some i) else index_where p (Suc i) xs)"

definition at_draft :: "py res \<Rightarrow> (nat \<Rightarrow> py list \<Rightarrow> py list res) \<Rightarrow> py list \<Rightarrow> py list res" where
  "at_draft draft_id act drafts =
     ebind (index_where (\<lambda>x. ebind (as_dict x) (\<lambda>d. ebind (getk d ''id'') (\<lambda>i.
              ebind draft_id (\<lambda>j. Inr (py_eq i j))))) 0 drafts) (\<lambda>idx.
     case idx of None \<Rightarrow> Inl AssertionError | Some i \<Rightarrow> act i drafts)"

definition apply_drafts_event :: "dict \<Rightarrow> reg_state \<Rightarrow> reg_state res" where
  "apply_drafts_event event s =
     ebind (getk event ''op'') (\<lambda>op.
     if op = PStr ''add''
     then on_list ''drafts'' (\<lambda>xs. ebind (list_at event ''drafts'') (\<lambda>ys. Inr (xs @ ys))) s
     else if op = PStr ''update''
     then ebind (dict_at event ''draft'') (\<lambda>draft. ebind (getk draft ''id'') (\<lambda>i.
          on_list ''drafts'' (at_draft (Inr i) (\<lambda>i xs. Inr (xs[i := PDict draft]))) s))
     else if op = PStr ''remove''
     then ebind (getk event ''draft_id'') (\<lambda>i.
          on_list ''drafts'' (at_draft (Inr i) (\<lambda>i xs. Inr (take i xs @ drop (Suc i) xs))) s)
     else on_list ''drafts'' (at_draft (Inl UnboundLocalError) (\<lambda>i xs. Inr xs)) s)"

definition sort_scheduled :: "py list \<Rightarrow> py list res" where
  "sort_scheduled = sort_keyed (\<lambda>d. int_at d ''scheduled_delivery_timestamp'')"

text \<open>The update replaces the first message with the id and sorts again if its time changed.\<close>

definition replace_scheduled :: "dict \<Rightarrow> py list \<Rightarrow> py list res" where
  "replace_scheduled new xs =
     ebind (index_where (\<lambda>x. ebind (as_dict x) (\<lambda>d. ebind (getk d ''scheduled_message_id'') (\<lambda>i.
              ebind (getk new ''scheduled_message_id'') (\<lambda>j. Inr (py_eq i j))))) 0 xs) (\<lambda>idx.
     case idx of
       None \<Rightarrow> Inr xs
     | Some i \<Rightarrow>
         ebind (as_dict (xs ! i)) (\<lambda>old.
         ebind (getk old ''scheduled_delivery_timestamp'') (\<lambda>t.
         ebind (getk new ''scheduled_delivery_timestamp'') (\<lambda>t'.
         if \<not> py_eq t t' then sort_scheduled (xs[i := PDict new]) else Inr (xs[i := PDict new])))))"

text \<open>
  The removal deletes from the list it iterates over: the element that moves into the freed
  place is not looked at.
\<close>

fun remove_scanning :: "('a \<Rightarrow> bool res) \<Rightarrow> 'a list \<Rightarrow> 'a list res" where
  "remove_scanning p [] = Inr []"
| "remove_scanning p (x # xs) = ebind (p x) (\<lambda>b.
     if b then (case xs of [] \<Rightarrow> Inr [] | y # ys \<Rightarrow> ebind (remove_scanning p ys) (\<lambda>zs. Inr (y # zs)))
     else ebind (remove_scanning p xs) (\<lambda>zs. Inr (x # zs)))"

definition apply_scheduled_messages_event :: "dict \<Rightarrow> reg_state \<Rightarrow> reg_state res" where
  "apply_scheduled_messages_event event s =
     ebind (getk event ''op'') (\<lambda>op.
     if op = PStr ''add''
     then ebind (list_at event ''scheduled_messages'') (\<lambda>ms.
          ebind (py_assert (length ms = 1)) (\<lambda>_.
          on_list ''scheduled_messages'' (\<lambda>xs. sort_scheduled (xs @ [hd ms])) s))
     else if op = PStr ''update''
     then on_list ''scheduled_messages'' (\<lambda>xs. if xs = [] then Inr []
            else ebind (dict_at event ''scheduled_message'') (\<lambda>new. replace_scheduled new xs)) s
     else if op = PStr ''remove''
     then on_list ''scheduled_messages'' (remove_scanning (\<lambda>x. ebind (as_dict x) (\<lambda>d.
            ebind (getk d ''scheduled_message_id'') (\<lambda>i.
            ebind (getk event ''scheduled_message_id'') (\<lambda>j. Inr (py_eq i j)))))) s
     else Inr s)"

section \<open>Custom profile fields\<close>

definition drop_stale_profile_data :: "py list \<Rightarrow> dict \<Rightarrow> dict res" where
  "drop_stale_profile_data field_ids user =
     (if \<not> has_key user ''profile_data'' then Inr user
      else ebind (dict_at user ''profile_data'') (\<lambda>profile_data.
           ebind (keep_if (\<lambda>(field_id, field_data). case py_int field_id of
                    None \<Rightarrow> Inl (ValueError ''invalid literal for int() with base 10'')
                  | Some n \<Rightarrow> Inr (py_in (PInt n) field_ids)) profile_data) (\<lambda>kept.
           Inr (dset ''profile_data'' (PDict kept) user))))"

definition apply_custom_profile_fields_event :: "dict \<Rightarrow> reg_state \<Rightarrow> reg_state res" where
  "apply_custom_profile_fields_event event s =
     ebind (list_at event ''fields'') (\<lambda>fields.
     ebind (fields_of ''id'' fields) (\<lambda>field_ids.
     let s1 = put ''custom_profile_fields'' (PList fields) s
     in case raw_users s1 of
          None \<Rightarrow> Inr s1
        | Some users \<Rightarrow>
            ebind (emap (\<lambda>(uid, user). ebind (drop_stale_profile_data field_ids user) (\<lambda>user'. Inr (uid, user'))) users)
              (\<lambda>users'. Inr (s1\<lparr>raw_users := Some users'\<rparr>))))"

section \<open>Users\<close>

text \<open>Whether the client computes the user's gravatar itself: their address must be visible to all.\<close>

definition omits_gravatar :: "database \<Rightarrow> bool \<Rightarrow> int \<Rightarrow> bool res" where
  "omits_gravatar db gravatar uid =
     (if gravatar
      then (case db_email_visibility db uid of
              None \<Rightarrow> Inl DoesNotExist
            | Some v \<Rightarrow> Inr (v = EMAIL_ADDRESS_VISIBILITY_EVERYONE))
      else Inr False)"

definition is_gravatar_url :: "bool \<Rightarrow> dict \<Rightarrow> bool res" where
  "is_gravatar_url gravatar person =
     (if gravatar
      then ebind (getk person ''avatar_url'') (\<lambda>url. case url of
             PStr u \<Rightarrow> Inr (startswith u ''https://secure.gravatar.com/'')
           | _ \<Rightarrow> Inl AttributeError)
      else Inr False)"

definition add_user :: "database \<Rightarrow> registration \<Rightarrow> int \<Rightarrow> dict \<Rightarrow> reg_state \<Rightarrow> reg_state res" where
  "add_user db reg uid person s =
     ebind (omits_gravatar db (client_gravatar reg) uid) (\<lambda>gravatar.
     ebind (is_gravatar_url gravatar person) (\<lambda>hide.
     let p1 = dset ''is_active'' (PBool True) (if hide then dset ''avatar_url'' PNone person else person)
     in ebind (getk p1 ''is_bot'') (\<lambda>bot.
        let p2 = (if truthy bot then p1 else dset ''profile_data'' (PDict []) p1)
        in ebind (the_part ''raw_users'' (raw_users s)) (\<lambda>users.
           Inr (s\<lparr>raw_users := Some (AList.update uid p2 users)\<rparr>)))))"

text \<open>The entries about the user themselves.\<close>

definition set_own_avatar :: "dict \<Rightarrow> reg_state \<Rightarrow> reg_state res" where
  "set_own_avatar person s =
     (if has_key person ''avatar_url'' \<and> has_key (st s) ''avatar_url''
      then ebind (getk person ''avatar_source'') (\<lambda>source.
           ebind (getk person ''avatar_url'') (\<lambda>url.
           ebind (getk person ''avatar_url_medium'') (\<lambda>medium.
           Inr (put ''avatar_url_medium'' medium (put ''avatar_url'' url (put ''avatar_source'' source s))))))
      else Inr s)"

definition own :: "database \<Rightarrow> (realm \<Rightarrow> int \<Rightarrow> user_profile \<Rightarrow> bool res) \<Rightarrow> py res" where
  "own db permission = ebind (permission (db_realm db) (db_now db) (db_user db)) (\<lambda>b. Inr (PBool b))"

definition set_own_role :: "database \<Rightarrow> py \<Rightarrow> reg_state \<Rightarrow> reg_state res" where
  "set_own_role db role s =
     ebind (own db can_create_private_streams) (\<lambda>private.
     ebind (own db can_create_public_streams) (\<lambda>public.
     ebind (own db (can_create_web_public_streams (db_web_public_enabled db))) (\<lambda>web_public.
     ebind (own db can_subscribe_other_users) (\<lambda>subscribe.
     ebind (own db can_invite_users_by_email) (\<lambda>invite.
     Inr (put ''realm_default_streams'' (if py_eq role (PInt ROLE_GUEST) then PList [] else db_default_streams db)
       (put ''can_invite_others_to_realm'' invite
       (put ''can_subscribe_other_users'' subscribe
       (put ''can_create_streams'' (py_or (py_or private public) web_public)
       (put ''can_create_web_public_streams'' web_public
       (put ''can_create_public_streams'' public
       (put ''can_create_private_streams'' private
       (put ''is_guest'' (PBool (py_eq role (PInt ROLE_GUEST)))
       (put ''is_moderator'' (PBool (py_eq role (PInt ROLE_MODERATOR)))
       (put ''is_owner'' (PBool (py_eq role (PInt ROLE_REALM_OWNER)))
       (put ''is_admin'' (PBool (is_administrator_role role)) s))))))))))))))))"

definition set_own_fields :: "dict \<Rightarrow> reg_state \<Rightarrow> reg_state" where
  "set_own_fields person s = fold (\<lambda>field s. case map_of person field of
       Some v \<Rightarrow> if has_key (st s) field then put field v s else s
     | None \<Rightarrow> s) [''delivery_email'', ''email'', ''full_name'', ''is_billing_admin''] s"

definition set_own_bots :: "database \<Rightarrow> registration \<Rightarrow> dict \<Rightarrow> reg_state \<Rightarrow> reg_state res" where
  "set_own_bots db reg person s = (case map_of person ''role'' of
     Some role \<Rightarrow>
       if has_key (st s) ''realm_bots''
       then ebind (the_part ''raw_users'' (raw_users s)) (\<lambda>users.
            ebind (the_part (str_of_int (my_id reg)) (map_of users (my_id reg))) (\<lambda>prev_state.
            ebind (getk prev_state ''is_admin'') (\<lambda>was_admin.
            Inr (if truthy was_admin \<and> \<not> is_administrator_role role then put ''realm_bots'' (PList []) s
                 else if \<not> truthy was_admin \<and> is_administrator_role role
                 then put ''realm_bots'' (PList (db_owned_bots db)) s
                 else s))))
       else Inr s
   | None \<Rightarrow> Inr s)"

definition update_own_user :: "database \<Rightarrow> registration \<Rightarrow> dict \<Rightarrow> reg_state \<Rightarrow> reg_state res" where
  "update_own_user db reg person s =
     ebind (set_own_avatar person s) (\<lambda>s1.
     ebind (case map_of person ''role'' of Some role \<Rightarrow> set_own_role db role s1 | None \<Rightarrow> Inr s1) (\<lambda>s2.
     let s3 = set_own_fields person s2;
         s4 = (case map_of person ''new_email'' of Some e \<Rightarrow> put ''email'' e s3 | None \<Rightarrow> s3)
     in set_own_bots db reg person s4))"

text \<open>The entry of a user in \<open>raw_users\<close>.\<close>

definition hide_gravatar :: "database \<Rightarrow> registration \<Rightarrow> int \<Rightarrow> dict \<Rightarrow> dict res" where
  "hide_gravatar db reg uid person =
     (if has_key person ''avatar_url''
      then ebind (omits_gravatar db (client_gravatar reg) uid) (\<lambda>gravatar.
           ebind (is_gravatar_url gravatar person) (\<lambda>hide.
           Inr (if hide then dset ''avatar_url_medium'' PNone (dset ''avatar_url'' PNone person) else person)))
      else Inr person)"

definition set_role :: "dict \<Rightarrow> dict \<Rightarrow> dict" where
  "set_role person p = (case map_of person ''role'' of
     None \<Rightarrow> p
   | Some role \<Rightarrow>
       dset ''is_guest'' (PBool (py_eq role (PInt ROLE_GUEST)))
         (dset ''is_owner'' (PBool (py_eq role (PInt ROLE_REALM_OWNER)))
           (dset ''is_admin'' (PBool (is_administrator_role role)) p)))"

definition set_profile_field :: "dict \<Rightarrow> dict \<Rightarrow> dict res" where
  "set_profile_field person p =
     (if \<not> has_key person ''custom_profile_field'' then Inr p
      else ebind (dict_at person ''custom_profile_field'') (\<lambda>field.
           ebind (int_at field ''id'') (\<lambda>i.
           ebind (getk field ''value'') (\<lambda>v.
           let field_id = str_of_int i
           in if v = PNone \<and> has_key p ''profile_data''
              then ebind (dict_at p ''profile_data'') (\<lambda>data.
                   Inr (dset ''profile_data'' (PDict (ddel field_id data)) p))
              else ebind (dict_at p ''profile_data'') (\<lambda>data.
                   Inr (dset ''profile_data'' (PDict (dset field_id
                     (PDict ((''value'', v) # (case map_of field ''rendered_value'' of
                        Some r \<Rightarrow> [(''rendered_value'', r)] | None \<Rightarrow> []))) data)) p))))))"

definition update_user_entry :: "dict \<Rightarrow> dict \<Rightarrow> dict res" where
  "update_user_entry person p =
     (let p1 = map (\<lambda>(field, v). (field, get_or person field v)) p;
          p2 = set_role person p1;
          p3 = (case map_of person ''is_billing_admin'' of Some v \<Rightarrow> dset ''is_billing_admin'' v p2 | None \<Rightarrow> p2)
      in ebind (set_profile_field person p3) (\<lambda>p4.
         Inr (case map_of person ''new_email'' of Some e \<Rightarrow> dset ''email'' e p4 | None \<Rightarrow> p4)))"

definition drop_subscriber :: "int \<Rightarrow> reg_state \<Rightarrow> reg_state res" where
  "drop_subscriber uid = on_list ''subscriptions'' (each_dict (\<lambda>sub.
     ebind (list_at sub ''subscribers'') (\<lambda>ids.
     Inr (dset ''subscribers'' (PList (filter (\<lambda>i. \<not> py_eq i (PInt uid)) ids)) sub))))"

definition drop_deactivated :: "registration \<Rightarrow> int \<Rightarrow> dict \<Rightarrow> reg_state \<Rightarrow> reg_state res" where
  "drop_deactivated reg uid person s =
     (if has_key person ''is_active'' \<and> \<not> truthy_at person ''is_active'' \<and> include_subscribers reg
      then drop_subscriber uid s else Inr s)"

definition update_user :: "database \<Rightarrow> registration \<Rightarrow> int \<Rightarrow> dict \<Rightarrow> reg_state \<Rightarrow> reg_state res" where
  "update_user db reg uid person s =
     ebind (if uid = my_id reg then update_own_user db reg person s else Inr s) (\<lambda>s1.
     ebind (the_part ''raw_users'' (raw_users s1)) (\<lambda>users.
     case map_of users uid of
       None \<Rightarrow> Inr s1
     | Some p \<Rightarrow>
         ebind (hide_gravatar db reg uid person) (\<lambda>person'.
         ebind (update_user_entry person' p) (\<lambda>p'.
         drop_deactivated reg uid person' (s1\<lparr>raw_users := Some (AList.update uid p' users)\<rparr>)))))"

definition get_data_for_inaccessible_user :: "database \<Rightarrow> int \<Rightarrow> dict" where
  "get_data_for_inaccessible_user db uid = [
     (''email'', PStr (''user'' @ str_of_int uid @ ''@'' @ db_fake_domain db)),
     (''user_id'', PInt uid),
     (''avatar_version'', PInt 1),
     (''is_admin'', PBool False),
     (''is_owner'', PBool False),
     (''is_guest'', PBool False),
     (''is_billing_admin'', PBool False),
     (''role'', PInt ROLE_MEMBER),
     (''is_bot'', PBool False),
     (''full_name'', PStr ''Unknown user''),
     (''timezone'', PStr ''''),
     (''is_active'', PBool True),
     (''date_joined'', PStr ''1970-01-01T00:00:00+00:00''),
     (''delivery_email'', PNone),
     (''avatar_url'', PStr (db_inaccessible_avatar db)),
     (''profile_data'', PDict [])]"

definition remove_user :: "database \<Rightarrow> registration \<Rightarrow> int \<Rightarrow> reg_state \<Rightarrow> reg_state res" where
  "remove_user db reg uid s =
     ebind (the_part ''raw_users'' (raw_users s)) (\<lambda>users.
     let s1 = (if has_key users uid
               then s\<lparr>raw_users := Some (if user_list_incomplete reg then AList.delete uid users
                      else AList.update uid (get_data_for_inaccessible_user db uid) users)\<rparr>
               else s)
     in if include_subscribers reg then drop_subscriber uid s1 else Inr s1)"

definition apply_realm_user_event :: "database \<Rightarrow> registration \<Rightarrow> dict \<Rightarrow> reg_state \<Rightarrow> reg_state res" where
  "apply_realm_user_event db reg event s =
     ebind (dict_at event ''person'') (\<lambda>person.
     ebind (int_at person ''user_id'') (\<lambda>uid.
     ebind (getk event ''op'') (\<lambda>op.
     if op = PStr ''add'' then add_user db reg uid person s
     else if op = PStr ''update'' then update_user db reg uid person s
     else if op = PStr ''remove'' then remove_user db reg uid s
     else Inl AssertionError)))"

text \<open>Bots.\<close>

definition update_bot :: "dict \<Rightarrow> dict \<Rightarrow> dict res" where
  "update_bot changes entry =
     ebind (getk entry ''user_id'') (\<lambda>i.
     ebind (getk changes ''user_id'') (\<lambda>j.
     Inr (if py_eq i j
          then (case map_of changes ''owner_id'' of
                  Some owner \<Rightarrow> dset ''owner_id'' owner entry
                | None \<Rightarrow> dict_update entry changes)
          else entry)))"

definition apply_realm_bot_event :: "dict \<Rightarrow> reg_state \<Rightarrow> reg_state res" where
  "apply_realm_bot_event event s =
     ebind (getk event ''op'') (\<lambda>op.
     if op = PStr ''add''
     then on_list ''realm_bots'' (\<lambda>xs. ebind (getk event ''bot'') (\<lambda>bot. Inr (xs @ [bot]))) s
     else if op = PStr ''delete''
     then on_list ''realm_bots'' (keep_if (\<lambda>x. ebind (dict_at event ''bot'') (\<lambda>bot.
            ebind (getk bot ''user_id'') (\<lambda>i. negate (field_eq ''user_id'' i x))))) s
     else if op = PStr ''update''
     then on_list ''realm_bots'' (each_dict (\<lambda>bot. ebind (dict_at event ''bot'') (\<lambda>changes. update_bot changes bot))) s
     else Inl AssertionError)"

section \<open>Channels\<close>

text \<open>The entry of a channel the user once subscribed to, from its row and the channel's event.\<close>

definition build_stream_dict_for_sub :: "dict \<Rightarrow> dict \<Rightarrow> dict res" where
  "build_stream_dict_for_sub sub raw =
     ebind (getk raw ''can_remove_subscribers_group_id'') (\<lambda>can_remove.
     ebind (getk raw ''creator_id'') (\<lambda>creator_id.
     ebind (int_at raw ''date_created'') (\<lambda>date_created.
     ebind (getk raw ''description'') (\<lambda>description.
     ebind (getk raw ''first_message_id'') (\<lambda>first_message_id.
     ebind (getk raw ''history_public_to_subscribers'') (\<lambda>history_public.
     ebind (getk raw ''invite_only'') (\<lambda>invite_only.
     ebind (getk raw ''is_web_public'') (\<lambda>is_web_public.
     ebind (getk raw ''message_retention_days'') (\<lambda>retention.
     ebind (getk raw ''name'') (\<lambda>name.
     ebind (getk raw ''rendered_description'') (\<lambda>rendered.
     ebind (getk raw ''id'') (\<lambda>stream_id.
     ebind (getk raw ''stream_post_policy'') (\<lambda>post_policy.
     ebind (getk sub ''color'') (\<lambda>color.
     ebind (getk sub ''is_muted'') (\<lambda>is_muted.
     ebind (getk sub ''pin_to_top'') (\<lambda>pin_to_top.
     ebind (getk sub ''audible_notifications'') (\<lambda>audible.
     ebind (getk sub ''desktop_notifications'') (\<lambda>desktop.
     ebind (getk sub ''email_notifications'') (\<lambda>email.
     ebind (getk sub ''push_notifications'') (\<lambda>push.
     ebind (getk sub ''wildcard_mentions_notify'') (\<lambda>wildcard.
     Inr [(''audible_notifications'', audible), (''can_remove_subscribers_group'', can_remove),
       (''color'', color), (''creator_id'', creator_id), (''date_created'', PInt date_created),
       (''description'', description), (''desktop_notifications'', desktop),
       (''email_notifications'', email), (''first_message_id'', first_message_id),
       (''history_public_to_subscribers'', history_public), (''in_home_view'', PBool (\<not> truthy is_muted)),
       (''invite_only'', invite_only),
       (''is_announcement_only'', PBool (py_eq post_policy (PInt STREAM_POST_POLICY_ADMINS))),
       (''is_muted'', is_muted), (''is_web_public'', is_web_public),
       (''message_retention_days'', retention), (''name'', name), (''pin_to_top'', pin_to_top),
       (''push_notifications'', push), (''rendered_description'', rendered), (''stream_id'', stream_id),
       (''stream_post_policy'', post_policy), (''stream_weekly_traffic'', PNone),
       (''wildcard_mentions_notify'', wildcard)])))))))))))))))))))))"

text \<open>The traffic is not computed here; the date goes to a \<open>datetime\<close> and back.\<close>

definition raw_stream_fields :: "(string \<times> string) list" where
  "raw_stream_fields = [(''can_remove_subscribers_group_id'', ''can_remove_subscribers_group''),
     (''creator_id'', ''creator_id''), (''date_created'', ''date_created''), (''description'', ''description''),
     (''first_message_id'', ''first_message_id''),
     (''history_public_to_subscribers'', ''history_public_to_subscribers''), (''invite_only'', ''invite_only''),
     (''is_web_public'', ''is_web_public''), (''message_retention_days'', ''message_retention_days''),
     (''name'', ''name''), (''rendered_description'', ''rendered_description''), (''id'', ''stream_id''),
     (''stream_post_policy'', ''stream_post_policy'')]"

definition build_unsubscribed_sub_from_stream_dict :: "dict \<Rightarrow> dict \<Rightarrow> dict res" where
  "build_unsubscribed_sub_from_stream_dict sub stream =
     ebind (emap (\<lambda>(k, k'). ebind (getk stream k') (\<lambda>v. Inr (k, v))) raw_stream_fields) (\<lambda>raw.
     ebind (build_stream_dict_for_sub sub raw) (\<lambda>d.
     ebind (getk stream ''stream_weekly_traffic'') (\<lambda>traffic.
     Inr (dset ''stream_weekly_traffic'' traffic d))))"

definition append_to :: "string \<Rightarrow> py \<Rightarrow> reg_state \<Rightarrow> reg_state res" where
  "append_to k v = on_list k (\<lambda>xs. Inr (xs @ [v]))"

definition create_stream :: "database \<Rightarrow> registration \<Rightarrow> py \<Rightarrow> reg_state \<Rightarrow> reg_state res" where
  "create_stream db reg v s =
     ebind (as_dict v) (\<lambda>stream.
     ebind (int_at stream ''stream_id'') (\<lambda>stream_id.
     let stream_data = (if include_subscribers reg then dset ''subscribers'' (PList []) stream else stream);
         rows = db_subscription_rows db stream_id
     in ebind
          (if length rows = 1
           then ebind (build_unsubscribed_sub_from_stream_dict (hd rows) stream_data) (\<lambda>d.
                append_to ''unsubscribed''
                  (PDict (if include_subscribers reg then dset ''subscribers'' (PList []) d else d)) s)
           else ebind (py_assert (length rows = 0)) (\<lambda>_. append_to ''never_subscribed'' (PDict stream_data) s))
          (when_present ''streams'' (append_to ''streams'' (PDict stream)))))"

definition sort_by_name :: "string \<Rightarrow> reg_state \<Rightarrow> reg_state res" where
  "sort_by_name k = on_list k (sort_keyed (\<lambda>d. text_at d ''name''))"

definition drop_ids :: "string \<Rightarrow> py list \<Rightarrow> string \<Rightarrow> reg_state \<Rightarrow> reg_state res" where
  "drop_ids field vs k = on_list k (keep_if (\<lambda>x. negate (field_in field vs x)))"

text \<open>The updates that go with the changed property of a channel.\<close>

definition copy_extras :: "dict \<Rightarrow> dict \<Rightarrow> dict res" where
  "copy_extras event obj =
     ebind (getk event ''property'') (\<lambda>property.
     ebind (if property = PStr ''description''
            then ebind (getk event ''rendered_description'') (\<lambda>r. Inr (dset ''rendered_description'' r obj))
            else Inr obj) (\<lambda>o1.
     let carry = (\<lambda>k d. if get_or event k PNone \<noteq> PNone then dset k (get_or event k PNone) d else d)
     in Inr (carry ''is_web_public'' (carry ''history_public_to_subscribers'' o1))))"

definition update_stream_dict :: "bool \<Rightarrow> dict \<Rightarrow> dict \<Rightarrow> dict res" where
  "update_stream_dict only_known event obj =
     ebind (lower_at obj ''name'') (\<lambda>obj_name.
     ebind (lower_at event ''name'') (\<lambda>event_name.
     if obj_name \<noteq> event_name then Inr obj
     else ebind (text_at event ''property'') (\<lambda>property.
          if only_known \<and> \<not> has_key obj property then Inr obj
          else ebind (getk event ''value'') (\<lambda>v. copy_extras event (dset property v obj)))))"

definition apply_stream_event :: "database \<Rightarrow> registration \<Rightarrow> dict \<Rightarrow> reg_state \<Rightarrow> reg_state res" where
  "apply_stream_event db reg event s =
     ebind (getk event ''op'') (\<lambda>op.
     if op = PStr ''create''
     then ebind (list_at event ''streams'') (\<lambda>streams.
          ebind (efold (create_stream db reg) streams s) (\<lambda>s1.
          ebind (sort_by_name ''unsubscribed'' s1) (\<lambda>s2.
          ebind (sort_by_name ''never_subscribed'' s2) (\<lambda>s3.
          when_present ''streams'' (sort_by_name ''streams'') s3))))
     else if op = PStr ''delete''
     then ebind (list_at event ''streams'') (\<lambda>streams.
          ebind (fields_of ''stream_id'' streams) (\<lambda>deleted.
          ebind (when_present ''streams'' (drop_ids ''stream_id'' deleted ''streams'') s) (\<lambda>s1.
          ebind (drop_ids ''stream_id'' deleted ''subscriptions'' s1) (\<lambda>s2.
          ebind (drop_ids ''stream_id'' deleted ''unsubscribed'' s2) (\<lambda>s3.
          drop_ids ''stream_id'' deleted ''never_subscribed'' s3)))))
     else if op = PStr ''update''
     then ebind (on_list ''subscriptions'' (each_dict (update_stream_dict False event)) s) (\<lambda>s1.
          ebind (on_list ''unsubscribed'' (each_dict (update_stream_dict False event)) s1) (\<lambda>s2.
          ebind (on_list ''never_subscribed'' (each_dict (update_stream_dict False event)) s2) (\<lambda>s3.
          when_present ''streams'' (on_list ''streams'' (each_dict (update_stream_dict True event))) s3)))
     else Inr s)"

section \<open>The organization\<close>

definition optional_bytes_to_mib :: "py \<Rightarrow> py res" where
  "optional_bytes_to_mib v = (case v of
     PNone \<Rightarrow> Inr PNone
   | PInt n \<Rightarrow> Inr (PInt (n div 2 ^ 20))
   | _ \<Rightarrow> Inl TypeError)"

definition policy_permission_dict :: "(string \<times> string) list" where
  "policy_permission_dict = [(''create_web_public_stream_policy'', ''can_create_web_public_streams''),
     (''invite_to_stream_policy'', ''can_subscribe_other_users''),
     (''invite_to_realm_policy'', ''can_invite_others_to_realm'')]"

definition refresh_permission :: "database \<Rightarrow> string \<times> string \<Rightarrow> reg_state \<Rightarrow> reg_state res" where
  "refresh_permission db pp s =
     (if has_key (st s) (snd pp)
      then ebind (own db (\<lambda>r now u. has_permission r now u (fst pp))) (\<lambda>b. Inr (put (snd pp) b s))
      else Inr s)"

definition refresh_can_create_streams :: "reg_state \<Rightarrow> reg_state res" where
  "refresh_can_create_streams s =
     ebind (getk (st s) ''can_create_private_streams'') (\<lambda>private.
     ebind (if truthy private then Inr private
            else ebind (getk (st s) ''can_create_public_streams'') (\<lambda>public.
                 if truthy public then Inr public
                 else getk (st s) ''can_create_web_public_streams'')) (\<lambda>v.
     Inr (put ''can_create_streams'' v s)))"

definition realm_update_extras :: "dict \<Rightarrow> string \<Rightarrow> py \<Rightarrow> reg_state \<Rightarrow> reg_state res" where
  "realm_update_extras event property v s =
     ebind (if property = ''plan_type''
            then ebind (dict_at event ''extra_data'') (\<lambda>extra.
                 ebind (getk extra ''upload_quota'') (\<lambda>quota.
                 ebind (optional_bytes_to_mib quota) (\<lambda>mib.
                 Inr (put ''realm_upload_quota_mib'' mib
                   (put ''zulip_plan_is_not_limited'' (PBool (\<not> py_eq v (PInt PLAN_TYPE_LIMITED))) s)))))
            else Inr s) (\<lambda>s1.
     if property = ''jitsi_server_url''
     then if v \<noteq> PNone then Inr (put ''jitsi_server_url'' v s1)
          else ebind (getk (st s1) ''server_jitsi_server_url'') (\<lambda>u. Inr (put ''jitsi_server_url'' u s1))
     else Inr s1)"

definition update_realm :: "database \<Rightarrow> dict \<Rightarrow> reg_state \<Rightarrow> reg_state res" where
  "update_realm db event s =
     ebind (text_at event ''property'') (\<lambda>property.
     ebind (getk event ''value'') (\<lambda>v.
     ebind (realm_update_extras event property v (put (''realm_'' @ property) v s)) (\<lambda>s1.
     ebind (if property = ''waiting_period_threshold''
            then efold (refresh_permission db) policy_permission_dict s1 else Inr s1) (\<lambda>s2.
     ebind (case map_of policy_permission_dict property of
              Some permission \<Rightarrow> refresh_permission db (property, permission) s2
            | None \<Rightarrow> Inr s2) refresh_can_create_streams))))"

definition enabled_method :: "dict \<Rightarrow> string \<Rightarrow> py res" where
  "enabled_method methods k = ebind (dict_at methods k) (\<lambda>d. getk d ''enabled'')"

text \<open>
  For the two permission groups the old numeric policy is recomputed.
\<close>

definition refresh_create_permission :: "database \<Rightarrow> string \<Rightarrow> string \<Rightarrow> string \<Rightarrow> reg_state \<Rightarrow> reg_state res" where
  "refresh_create_permission db setting policy permission s =
     ebind (get_corresponding_policy_value_for_group_setting (db_realm db) setting COMMON_POLICY_TYPES) (\<lambda>v.
     ebind (own db (\<lambda>r now u. has_permission r now u setting)) (\<lambda>b.
     refresh_can_create_streams (put permission b (put policy (PInt v) s))))"

definition update_realm_entry :: "database \<Rightarrow> string \<times> py \<Rightarrow> reg_state \<Rightarrow> reg_state res" where
  "update_realm_entry db kv s =
     (let key = fst kv; s1 = put (''realm_'' @ key) (snd kv) s
      in if key = ''authentication_methods''
         then ebind (as_dict (snd kv)) (\<lambda>methods.
              ebind (enabled_method methods ''Email'') (\<lambda>email.
              ebind (if truthy email then Inr email else enabled_method methods ''LDAP'') (\<lambda>password.
              Inr (put ''realm_email_auth_enabled'' email (put ''realm_password_auth_enabled'' password s1)))))
         else if key = ''can_create_public_channel_group''
         then refresh_create_permission db key ''realm_create_public_stream_policy'' ''can_create_public_streams'' s1
         else if key = ''can_create_private_channel_group''
         then refresh_create_permission db key ''realm_create_private_stream_policy'' ''can_create_private_streams'' s1
         else Inr s1)"

definition apply_realm_event :: "database \<Rightarrow> dict \<Rightarrow> reg_state \<Rightarrow> reg_state res" where
  "apply_realm_event db event s =
     ebind (getk event ''op'') (\<lambda>op.
     if op = PStr ''update'' then update_realm db event s
     else if op = PStr ''update_dict''
     then ebind (dict_at event ''data'') (\<lambda>data. efold (update_realm_entry db) data s)
     else if op = PStr ''deactivated'' then Inr s
     else Inl AssertionError)"

definition on_dict :: "string \<Rightarrow> (dict \<Rightarrow> dict res) \<Rightarrow> reg_state \<Rightarrow> reg_state res" where
  "on_dict k f s = ebind (dict_at (st s) k) (\<lambda>d. ebind (f d) (\<lambda>d'. Inr (put k (PDict d') s)))"

definition apply_realm_user_settings_defaults_event :: "dict \<Rightarrow> reg_state \<Rightarrow> reg_state res" where
  "apply_realm_user_settings_defaults_event event s =
     ebind (getk event ''op'') (\<lambda>op.
     if op = PStr ''update''
     then ebind (text_at event ''property'') (\<lambda>p. ebind (getk event ''value'') (\<lambda>v.
          on_dict ''realm_user_settings_defaults'' (\<lambda>d. Inr (dset p v d)) s))
     else Inl AssertionError)"

section \<open>Subscriptions\<close>

definition add_subscription :: "registration \<Rightarrow> py list \<Rightarrow> py \<Rightarrow> py list \<Rightarrow> py list res" where
  "add_subscription reg existing v subs =
     ebind (as_dict v) (\<lambda>sub.
     ebind (getk sub ''stream_id'') (\<lambda>i.
     if py_in i existing then Inr subs
     else Inr (subs @ [PDict (if has_key sub ''subscribers'' \<and> \<not> include_subscribers reg
                              then ddel ''subscribers'' sub else sub)])))"

text \<open>\<open>xs.remove(v)\<close>\<close>

fun remove_first :: "py \<Rightarrow> py list \<Rightarrow> py list res" where
  "remove_first v [] = Inl (ValueError ''list.remove(x): x not in list'')"
| "remove_first v (x # xs) = (if py_eq x v then Inr xs else ebind (remove_first v xs) (\<lambda>ys. Inr (x # ys)))"

definition remove_me :: "registration \<Rightarrow> dict \<Rightarrow> dict res" where
  "remove_me reg sub =
     (if include_subscribers reg
      then ebind (list_at sub ''subscribers'') (\<lambda>ids.
           ebind (remove_first (PInt (my_id reg)) ids) (\<lambda>ids'. Inr (dset ''subscribers'' (PList ids') sub)))
      else Inr sub)"

definition change_peers :: "(int set \<Rightarrow> int set) \<Rightarrow> py list \<Rightarrow> dict \<Rightarrow> dict res" where
  "change_peers f stream_ids sub =
     ebind (getk sub ''stream_id'') (\<lambda>i.
     if py_in i stream_ids
     then ebind (int_list_at sub ''subscribers'') (\<lambda>ids.
          Inr (dset ''subscribers'' (PList (map PInt (sorted_list_of_set (f (set ids))))) sub))
     else Inr sub)"

definition apply_peers :: "registration \<Rightarrow> (int set \<Rightarrow> int set \<Rightarrow> int set) \<Rightarrow> dict \<Rightarrow> reg_state \<Rightarrow> reg_state res" where
  "apply_peers reg f event s =
     (if include_subscribers reg
      then ebind (list_at event ''stream_ids'') (\<lambda>stream_ids.
           ebind (int_list_at event ''user_ids'') (\<lambda>user_ids.
           let change = on_list ''subscriptions'' (each_dict (change_peers (f (set user_ids)) stream_ids));
               change' = on_list ''unsubscribed'' (each_dict (change_peers (f (set user_ids)) stream_ids));
               change'' = on_list ''never_subscribed'' (each_dict (change_peers (f (set user_ids)) stream_ids))
           in ebind (change s) (\<lambda>s1. ebind (change' s1) change'')))
      else Inr s)"

definition add_subscriptions :: "registration \<Rightarrow> dict \<Rightarrow> reg_state \<Rightarrow> reg_state res" where
  "add_subscriptions reg event s =
     ebind (list_at event ''subscriptions'') (\<lambda>new.
     ebind (fields_of ''stream_id'' new) (\<lambda>added.
     ebind (list_at (st s) ''subscriptions'') (\<lambda>subs.
     ebind (fields_of ''stream_id'' subs) (\<lambda>existing.
     ebind (efold (add_subscription reg existing) new subs) (\<lambda>subs'.
     ebind (drop_ids ''stream_id'' added ''unsubscribed'' (put ''subscriptions'' (PList subs') s)) (\<lambda>s1.
     drop_ids ''stream_id'' added ''never_subscribed'' s1))))))"

text \<open>
  The removed subscriptions are moved; the entry in the old list is the same object, so that the
  user is removed from its subscribers before it is moved.
\<close>

definition remove_subscriptions :: "registration \<Rightarrow> dict \<Rightarrow> reg_state \<Rightarrow> reg_state res" where
  "remove_subscriptions reg event s =
     ebind (list_at event ''subscriptions'') (\<lambda>gone.
     ebind (fields_of ''stream_id'' gone) (\<lambda>removed.
     ebind (list_at (st s) ''subscriptions'') (\<lambda>subs.
     ebind (keep_if (field_in ''stream_id'' removed) subs) (\<lambda>removed_subs.
     ebind (each_dict (remove_me reg) removed_subs) (\<lambda>removed_subs'.
     ebind (on_list ''unsubscribed'' (\<lambda>xs. Inr (xs @ removed_subs')) s) (\<lambda>s1.
     drop_ids ''stream_id'' removed ''subscriptions'' s1))))))"

definition apply_subscription_event :: "registration \<Rightarrow> dict \<Rightarrow> reg_state \<Rightarrow> reg_state res" where
  "apply_subscription_event reg event s =
     ebind (getk event ''op'') (\<lambda>op.
     if op = PStr ''add'' then add_subscriptions reg event s
     else if op = PStr ''remove'' then remove_subscriptions reg event s
     else if op = PStr ''update''
     then on_list ''subscriptions'' (each_dict (\<lambda>sub.
            ebind (getk sub ''stream_id'') (\<lambda>i.
            ebind (getk event ''stream_id'') (\<lambda>j.
            if py_eq i j
            then ebind (text_at event ''property'') (\<lambda>p. ebind (getk event ''value'') (\<lambda>v. Inr (dset p v sub)))
            else Inr sub)))) s
     else if op = PStr ''peer_add'' then apply_peers reg (\<lambda>users ids. ids \<union> users) event s
     else if op = PStr ''peer_remove'' then apply_peers reg (\<lambda>users ids. ids - users) event s
     else Inl AssertionError)"

section \<open>Presence and messages that change\<close>

definition apply_presence_event :: "database \<Rightarrow> registration \<Rightarrow> dict \<Rightarrow> reg_state \<Rightarrow> reg_state res" where
  "apply_presence_event db reg event s =
     ebind (if slim_presence reg then ebind (int_at event ''user_id'') (\<lambda>i. Inr (str_of_int i))
            else text_at event ''email'') (\<lambda>user_key.
     ebind (int_at event ''user_id'') (\<lambda>uid.
     ebind (getk (db_presence db uid (slim_presence reg)) user_key) (\<lambda>presence.
     on_dict ''presences'' (\<lambda>d. Inr (dset user_key presence d)) s)))"

definition move_message :: "(raw_unread_stream \<Rightarrow> raw_unread_stream) \<Rightarrow> int \<Rightarrow> raw_unread \<Rightarrow> raw_unread" where
  "move_message f mid u = (case map_of (stream_dict u) mid of
     None \<Rightarrow> u
   | Some d \<Rightarrow> u\<lparr>stream_dict := AList.update mid (f d) (stream_dict u)\<rparr>)"

definition on_unread :: "(raw_unread \<Rightarrow> raw_unread res) \<Rightarrow> reg_state \<Rightarrow> reg_state res" where
  "on_unread f s = (case raw_unread_msgs s of
     None \<Rightarrow> Inr s
   | Some u \<Rightarrow> ebind (f u) (\<lambda>u'. Inr (s\<lparr>raw_unread_msgs := Some u'\<rparr>)))"

definition apply_update_message_event :: "dict \<Rightarrow> reg_state \<Rightarrow> reg_state res" where
  "apply_update_message_event event s =
     ebind (if has_key event ''new_stream_id''
            then on_unread (\<lambda>u. ebind (int_at event ''new_stream_id'') (\<lambda>stream_id.
                   ebind (int_list_at event ''message_ids'') (\<lambda>mids.
                   Inr (fold (move_message (\<lambda>d. d\<lparr>us_stream_id := stream_id\<rparr>)) mids u)))) s
            else Inr s) (\<lambda>s1.
     if has_key event ''subject''
     then on_unread (\<lambda>u. ebind (text_at event ''subject'') (\<lambda>topic_name.
            ebind (int_list_at event ''message_ids'') (\<lambda>mids.
            Inr (fold (move_message (\<lambda>d. d\<lparr>us_topic := topic_name\<rparr>)) mids u)))) s1
     else Inr s1)"

definition apply_delete_message_event :: "database \<Rightarrow> dict \<Rightarrow> reg_state \<Rightarrow> reg_state res" where
  "apply_delete_message_event db event s =
     ebind (if has_key event ''message_id'' then ebind (int_at event ''message_id'') (\<lambda>i. Inr [i])
            else int_list_at event ''message_ids'') (\<lambda>message_ids.
     ebind (on_unread (\<lambda>u. Inr (fold remove_message_id_from_unread_mgs message_ids u))
              (put ''max_message_id'' (PInt (db_max_message_id db)) s)) (\<lambda>s1.
     case raw_recents s1 of
       None \<Rightarrow> Inr s1
     | Some _ \<Rightarrow>
         ebind (getk event ''message_type'') (\<lambda>ty.
         if ty \<noteq> PStr ''private'' then Inr s1
         else Inr (s1\<lparr>raw_recents := Some (db_recent_conversations db)\<rparr>))))"

definition mark_unread :: "registration \<Rightarrow> string \<times> py \<Rightarrow> raw_unread \<Rightarrow> raw_unread res" where
  "mark_unread reg kv u =
     (case py_int (fst kv) of
        None \<Rightarrow> Inl (ValueError ''invalid literal for int() with base 10'')
      | Some mid \<Rightarrow>
          ebind (as_dict (snd kv)) (\<lambda>d. ebind (details_of_dict d) (\<lambda>details.
          Inr (add_message_to_unread_msgs (my_id reg) mid details u))))"

definition apply_update_message_flags_event :: "registration \<Rightarrow> dict \<Rightarrow> reg_state \<Rightarrow> reg_state res" where
  "apply_update_message_flags_event reg event s =
     ebind (getk event ''flag'') (\<lambda>flag.
     ebind (getk event ''op'') (\<lambda>op.
     ebind (if flag = PStr ''read'' \<and> op = PStr ''add''
            then on_unread (\<lambda>u. ebind (int_list_at event ''messages'') (\<lambda>mids.
                   Inr (fold remove_message_id_from_unread_mgs mids u))) s
            else Inr s) (\<lambda>s1.
     ebind (if flag = PStr ''read'' \<and> op = PStr ''remove''
            then on_unread (\<lambda>u. ebind (dict_at event ''message_details'') (\<lambda>details.
                   efold (mark_unread reg) details u)) s1
            else Inr s1) (\<lambda>s2.
     if flag = PStr ''starred''
     then when_present ''starred_messages'' (\<lambda>s.
            if op = PStr ''add''
            then on_list ''starred_messages'' (\<lambda>xs. ebind (list_at event ''messages'') (\<lambda>ys. Inr (xs @ ys))) s
            else if op = PStr ''remove''
            then on_list ''starred_messages'' (\<lambda>xs. ebind (list_at event ''messages'') (\<lambda>ys.
                   Inr (filter (\<lambda>x. \<not> py_in x ys) xs))) s
            else Inr s) s2
     else Inr s2))))"

section \<open>Lists of the organization\<close>

definition apply_realm_domains_event :: "dict \<Rightarrow> reg_state \<Rightarrow> reg_state res" where
  "apply_realm_domains_event event s =
     ebind (getk event ''op'') (\<lambda>op.
     if op = PStr ''add''
     then ebind (getk event ''realm_domain'') (\<lambda>d. append_to ''realm_domains'' d s)
     else if op = PStr ''change''
     then on_list ''realm_domains'' (each_dict (\<lambda>d.
            ebind (getk d ''domain'') (\<lambda>name.
            ebind (dict_at event ''realm_domain'') (\<lambda>new.
            ebind (getk new ''domain'') (\<lambda>new_name.
            if py_eq name new_name
            then ebind (getk new ''allow_subdomains'') (\<lambda>v. Inr (dset ''allow_subdomains'' v d))
            else Inr d))))) s
     else if op = PStr ''remove''
     then on_list ''realm_domains'' (keep_if (\<lambda>x. ebind (getk event ''domain'') (\<lambda>name.
            negate (field_eq ''domain'' name x)))) s
     else Inl AssertionError)"

definition for_group :: "dict \<Rightarrow> (dict \<Rightarrow> dict res) \<Rightarrow> reg_state \<Rightarrow> reg_state res" where
  "for_group event f = on_list ''realm_user_groups'' (each_dict (\<lambda>group.
     ebind (getk group ''id'') (\<lambda>i.
     ebind (getk event ''group_id'') (\<lambda>j.
     if py_eq i j then f group else Inr group))))"

definition extend_sorted :: "dict \<Rightarrow> string \<Rightarrow> string \<Rightarrow> dict \<Rightarrow> dict res" where
  "extend_sorted event source field ug =
     ebind (int_list_at ug field) (\<lambda>xs.
     ebind (int_list_at event source) (\<lambda>ys.
     Inr (dset field (PList (map PInt (sort (xs @ ys)))) ug)))"

definition remove_sorted :: "dict \<Rightarrow> string \<Rightarrow> string \<Rightarrow> dict \<Rightarrow> dict res" where
  "remove_sorted event source field ug =
     ebind (int_list_at ug field) (\<lambda>xs.
     ebind (int_list_at event source) (\<lambda>ys.
     Inr (dset field (PList (map PInt (sorted_list_of_set (set xs - set ys)))) ug)))"

definition apply_user_group_event :: "dict \<Rightarrow> reg_state \<Rightarrow> reg_state res" where
  "apply_user_group_event event s =
     ebind (getk event ''op'') (\<lambda>op.
     if op = PStr ''add''
     then on_list ''realm_user_groups'' (\<lambda>xs. ebind (getk event ''group'') (\<lambda>group.
            sort_keyed (\<lambda>d. int_at d ''id'') (xs @ [group]))) s
     else if op = PStr ''update''
     then for_group event (\<lambda>group. ebind (dict_at event ''data'') (\<lambda>data. Inr (dict_update group data))) s
     else if op = PStr ''add_members'' then for_group event (extend_sorted event ''user_ids'' ''members'') s
     else if op = PStr ''remove_members'' then for_group event (remove_sorted event ''user_ids'' ''members'') s
     else if op = PStr ''add_subgroups''
     then for_group event (extend_sorted event ''direct_subgroup_ids'' ''direct_subgroup_ids'') s
     else if op = PStr ''remove_subgroups''
     then for_group event (remove_sorted event ''direct_subgroup_ids'' ''direct_subgroup_ids'') s
     else if op = PStr ''remove''
     then on_list ''realm_user_groups'' (keep_if (\<lambda>x. ebind (getk event ''group_id'') (\<lambda>i.
            negate (field_eq ''id'' i x)))) s
     else Inl AssertionError)"

section \<open>Settings, status and topics\<close>

definition apply_display_settings_event :: "dict \<Rightarrow> reg_state \<Rightarrow> reg_state res" where
  "apply_display_settings_event event s =
     ebind (text_at event ''setting_name'') (\<lambda>name.
     ebind (py_assert (name = ''timezone'' \<or> name \<in> set display_settings_legacy)) (\<lambda>_.
     ebind (getk event ''setting'') (\<lambda>v. Inr (put name v s))))"

definition apply_global_notifications_event :: "dict \<Rightarrow> reg_state \<Rightarrow> reg_state res" where
  "apply_global_notifications_event event s =
     ebind (text_at event ''notification_name'') (\<lambda>name.
     ebind (py_assert (name \<in> set notification_settings_legacy)) (\<lambda>_.
     ebind (getk event ''setting'') (\<lambda>v. Inr (put name v s))))"

definition apply_user_settings_event :: "dict \<Rightarrow> reg_state \<Rightarrow> reg_state res" where
  "apply_user_settings_event event s =
     ebind (text_at event ''property'') (\<lambda>name.
     ebind (py_assert (name = ''timezone'' \<or> name \<in> set property_types)) (\<lambda>_.
     ebind (getk event ''value'') (\<lambda>v.
     on_dict ''user_settings'' (\<lambda>d. Inr (dset name v d))
       (if name \<in> set (display_settings_legacy @ notification_settings_legacy) then put name v s else s))))"

definition set_or_pop :: "string \<Rightarrow> bool \<Rightarrow> py \<Rightarrow> dict \<Rightarrow> dict" where
  "set_or_pop k clear v d = (if clear then ddel k d else dset k v d)"

definition update_status :: "dict \<Rightarrow> dict \<Rightarrow> dict" where
  "update_status event status =
     (let away = get_or event ''away'' PNone;
          status_text = get_or event ''status_text'' PNone;
          emoji_name = get_or event ''emoji_name'' PNone;
          emoji_code = get_or event ''emoji_code'' PNone;
          reaction_type = get_or event ''reaction_type'' PNone;
          s1 = (if away \<noteq> PNone then set_or_pop ''away'' (\<not> truthy away) (PBool True) status else status)
      in if status_text = PNone then s1
         else let s2 = set_or_pop ''status_text'' (status_text = PStr '''') status_text s1
              in if emoji_name = PNone then s2
                 else let s3 = set_or_pop ''emoji_name'' (emoji_name = PStr '''') emoji_name s2;
                          s4 = (if emoji_code \<noteq> PNone
                                then set_or_pop ''emoji_code'' (emoji_code = PStr '''') emoji_code s3 else s3)
                      in if reaction_type \<noteq> PNone
                         then set_or_pop ''reaction_type''
                                (reaction_type = PStr ''unicode_emoji'' \<and> emoji_name = PStr '''') reaction_type s4
                         else s4)"

definition apply_user_status_event :: "dict \<Rightarrow> reg_state \<Rightarrow> reg_state res" where
  "apply_user_status_event event s =
     ebind (int_at event ''user_id'') (\<lambda>uid.
     let key = str_of_int uid
     in on_dict ''user_status'' (\<lambda>d.
          ebind (as_dict (get_or d key (PDict []))) (\<lambda>status.
          let status' = update_status event status
          in Inr (if status' = [] then ddel key d else dset key (PDict status') d))) s)"

text \<open>Removes the first entry of the topic only.\<close>

fun delete_first :: "('a \<Rightarrow> bool res) \<Rightarrow> 'a list \<Rightarrow> 'a list res" where
  "delete_first p [] = Inr []"
| "delete_first p (x # xs) = ebind (p x) (\<lambda>b. if b then Inr xs else ebind (delete_first p xs) (\<lambda>ys. Inr (x # ys)))"

definition is_topic :: "dict \<Rightarrow> py \<Rightarrow> bool res" where
  "is_topic event x =
     ebind (as_dict x) (\<lambda>d.
     ebind (getk d ''stream_id'') (\<lambda>i.
     ebind (getk event ''stream_id'') (\<lambda>j.
     if py_eq i j
     then ebind (getk d ''topic_name'') (\<lambda>t. ebind (getk event ''topic_name'') (\<lambda>t'. Inr (py_eq t t')))
     else Inr False)))"

definition apply_user_topic_event :: "dict \<Rightarrow> reg_state \<Rightarrow> reg_state res" where
  "apply_user_topic_event event s =
     ebind (getk event ''visibility_policy'') (\<lambda>policy.
     if py_eq policy (PInt 0) then on_list ''user_topics'' (delete_first (is_topic event)) s
     else on_list ''user_topics'' (\<lambda>xs.
            ebind (emap (\<lambda>k. ebind (getk event k) (\<lambda>v. Inr (k, v)))
                     [''stream_id'', ''topic_name'', ''visibility_policy'', ''last_updated'']) (\<lambda>d.
            Inr (xs @ [PDict d]))) s)"

text \<open>An event that carries the new value of an entry.\<close>

definition replace_entry :: "dict \<Rightarrow> string \<Rightarrow> string \<Rightarrow> reg_state \<Rightarrow> reg_state res" where
  "replace_entry event source k s = ebind (getk event source) (\<lambda>v. Inr (put k v s))"

section \<open>Dispatch\<close>

definition replacing_events :: "(string \<times> string) list" where
  "replacing_events = [(''onboarding_steps'', ''onboarding_steps''), (''default_streams'', ''realm_default_streams''),
     (''default_stream_groups'', ''realm_default_stream_groups''), (''realm_emoji'', ''realm_emoji''),
     (''alert_words'', ''alert_words''), (''muted_topics'', ''muted_topics''), (''muted_users'', ''muted_users''),
     (''realm_playgrounds'', ''realm_playgrounds'')]"

definition ignored_events :: "string list" where
  "ignored_events = [''heartbeat'', ''reaction'', ''submessage'', ''typing'', ''attachment'', ''realm_export'',
     ''invites_changed'', ''web_reload_client'', ''restart'']"

text \<open>
  The tests of the type exclude each other; the events about messages come first here.
\<close>

definition apply_other_event :: "database \<Rightarrow> registration \<Rightarrow> string \<Rightarrow> dict \<Rightarrow> reg_state \<Rightarrow> reg_state res" where
  "apply_other_event db reg ty event s =
     (if ty = ''drafts'' then apply_drafts_event event s
      else if ty = ''scheduled_messages'' then apply_scheduled_messages_event event s
      else if ty = ''custom_profile_fields'' then apply_custom_profile_fields_event event s
      else if ty = ''realm_user'' then apply_realm_user_event db reg event s
      else if ty = ''realm_bot'' then apply_realm_bot_event event s
      else if ty = ''stream'' then apply_stream_event db reg event s
      else if ty = ''realm'' then apply_realm_event db event s
      else if ty = ''realm_user_settings_defaults'' then apply_realm_user_settings_defaults_event event s
      else if ty = ''subscription'' then apply_subscription_event reg event s
      else if ty = ''presence'' then apply_presence_event db reg event s
      else if ty = ''realm_domains'' then apply_realm_domains_event event s
      else if ty = ''realm_linkifiers''
      then (if linkifier_url_template reg then replace_entry event ty ty s else Inr s)
      else if ty = ''update_display_settings'' then apply_display_settings_event event s
      else if ty = ''update_global_notifications'' then apply_global_notifications_event event s
      else if ty = ''user_settings'' then apply_user_settings_event event s
      else if ty = ''user_group'' then apply_user_group_event event s
      else if ty = ''user_status'' then apply_user_status_event event s
      else if ty = ''user_topic'' then apply_user_topic_event event s
      else if ty = ''has_zoom_token'' then replace_entry event ''value'' ''has_zoom_token'' s
      else if ty \<in> set ignored_events then Inr s
      else case map_of replacing_events ty of
             Some k \<Rightarrow> replace_entry event ty k s
           | None \<Rightarrow> Inl AssertionError)"

definition apply_event :: "database \<Rightarrow> registration \<Rightarrow> dict \<Rightarrow> reg_state \<Rightarrow> reg_state res" where
  "apply_event db reg event s =
     ebind (text_at event ''type'') (\<lambda>ty.
     if ty = ''message'' then apply_message_event db reg event s
     else if ty = ''update_message'' then apply_update_message_event event s
     else if ty = ''delete_message'' then apply_delete_message_event db event s
     else if ty = ''update_message_flags'' then apply_update_message_flags_event reg event s
     else apply_other_event db reg ty event s)"

text \<open>The events of the types that were fetched, in order.\<close>

definition apply_events :: "database \<Rightarrow> registration \<Rightarrow> string list option \<Rightarrow> dict list \<Rightarrow> reg_state \<Rightarrow> reg_state res" where
  "apply_events db reg fetch_event_types events =
     efold (\<lambda>event s. case fetch_event_types of
       None \<Rightarrow> apply_event db reg event s
     | Some types \<Rightarrow> ebind (text_at event ''type'') (\<lambda>ty.
         if ty \<notin> set types then Inr s else apply_event db reg event s)) events"

section \<open>Post-processing\<close>

definition handle_stream_notifications_compatibility :: "database \<Rightarrow> dict \<Rightarrow> dict res" where
  "handle_stream_notifications_compatibility db = efold (\<lambda>k d.
     ebind (getk d k) (\<lambda>v. Inr (if v \<noteq> PNone then d
       else dset k (PBool (db_notification_default db (''enable_stream_'' @ k))) d)))
     [''desktop_notifications'', ''audible_notifications'', ''push_notifications'', ''email_notifications'']"

text \<open>What the client is sent: the entries, and the unread messages in their aggregated form.\<close>

record initial_data =
  reply :: dict
  unread_msgs :: "unread_messages option"

definition partition_users :: "(int \<times> dict) list \<Rightarrow> dict \<Rightarrow> dict res" where
  "partition_users users ret =
     ebind (emap (\<lambda>(uid, d). ebind (int_at d ''user_id'') (\<lambda>i.
              ebind (getk d ''is_active'') (\<lambda>active. Inr (i, truthy active, ddel ''is_active'' d)))) users) (\<lambda>keyed.
     let sorted_users = sort_key fst keyed;
         select = (\<lambda>a. PList (map (\<lambda>(i, active, d). PDict d) (filter (\<lambda>(i, active, d). active = a) sorted_users)))
     in Inr (dset ''realm_non_active_users'' (select False) (dset ''realm_users'' (select True) ret)))"

definition list_conversations :: "(int \<times> dict) list \<Rightarrow> dict \<Rightarrow> dict res" where
  "list_conversations recents ret =
     ebind (emap (\<lambda>(rid, d). ebind (int_at d ''max_message_id'') (\<lambda>m. Inr (- m, d))) recents) (\<lambda>keyed.
     Inr (dset ''recent_private_conversations'' (PList (map (PDict \<circ> snd) (sort_key fst keyed))) ret))"

definition post_process_state :: "database \<Rightarrow> bool \<Rightarrow> reg_state \<Rightarrow> initial_data res" where
  "post_process_state db notification_settings_null s =
     ebind (case raw_users s of None \<Rightarrow> Inr (st s) | Some users \<Rightarrow> partition_users users (st s)) (\<lambda>r1.
     ebind (case raw_recents s of None \<Rightarrow> Inr r1 | Some recents \<Rightarrow> list_conversations recents r1) (\<lambda>r2.
     ebind (if \<not> notification_settings_null \<and> has_key r2 ''subscriptions''
            then ebind (list_at r2 ''subscriptions'') (\<lambda>subs.
                 ebind (list_at r2 ''unsubscribed'') (\<lambda>unsubs.
                 ebind (each_dict (handle_stream_notifications_compatibility db) subs) (\<lambda>subs'.
                 ebind (each_dict (handle_stream_notifications_compatibility db) unsubs) (\<lambda>unsubs'.
                 Inr (dset ''unsubscribed'' (PList unsubs') (dset ''subscriptions'' (PList subs') r2))))))
            else Inr r2) (\<lambda>r3.
     Inr \<lparr>reply = r3, unread_msgs = map_option aggregate_unread_data (raw_unread_msgs s)\<rparr>)))"


end
