(* ===== verification/RegisterChannels.thy ===== *)
theory RegisterChannels
  imports ApplyEvents
begin

text \<open>
  The three lists of channels a registering client gets: those the user is subscribed to, those
  they once were and those they never were.  Events about channels move a channel between them;
  the lists stay duplicate-free and apart.
\<close>

section \<open>The ids of a list of channels\<close>

definition stream_ids :: "py list \<Rightarrow> int list res" where
  "stream_ids = emap (\<lambda>v. ebind (as_dict v) (\<lambda>d. int_at d ''stream_id''))"

definition lists :: "string \<Rightarrow> reg_state \<Rightarrow> int set \<Rightarrow> bool" where
  "lists k s A \<longleftrightarrow> (case ebind (list_at (st s) k) stream_ids of
     Inr ids \<Rightarrow> distinct ids \<and> set ids = A
   | Inl _ \<Rightarrow> False)"

definition channels :: "reg_state \<Rightarrow> int set \<Rightarrow> int set \<Rightarrow> int set \<Rightarrow> bool" where
  "channels s A B C \<longleftrightarrow>
     lists ''subscriptions'' s A \<and> lists ''unsubscribed'' s B \<and> lists ''never_subscribed'' s C \<and>
     A \<inter> B = {} \<and> A \<inter> C = {} \<and> B \<inter> C = {}"

lemma lists_iff: "lists k s A \<longleftrightarrow>
    (\<exists>xs ids. list_at (st s) k = Inr xs \<and> stream_ids xs = Inr ids \<and> distinct ids \<and> set ids = A)"
  by (cases "list_at (st s) k"; cases "ebind (list_at (st s) k) stream_ids") (auto simp: lists_def)

lemma list_at_put [simp]: "list_at (st (put k' (PList ys) s)) k = (if k = k' then Inr ys else list_at (st s) k)"
  by (simp add: put_def list_at_def)

lemma lists_put: "lists k (put k' (PList ys) s) A \<longleftrightarrow>
    (if k = k' then (\<exists>ids. stream_ids ys = Inr ids \<and> distinct ids \<and> set ids = A) else lists k s A)"
  by (simp add: lists_iff)

lemma on_list_elsewhere: "on_list k' f s = Inr s' \<Longrightarrow> k \<noteq> k' \<Longrightarrow> lists k s' A \<longleftrightarrow> lists k s A"
  by (auto simp: on_list_def res_simps lists_put)

lemma on_list_here:
  assumes "lists k s A" and "on_list k f s = Inr s'"
    and "\<And>xs ids ys. stream_ids xs = Inr ids \<Longrightarrow> distinct ids \<Longrightarrow> set ids = A \<Longrightarrow> f xs = Inr ys \<Longrightarrow>
      \<exists>ids'. stream_ids ys = Inr ids' \<and> distinct ids' \<and> set ids' = B"
  shows "lists k s' B"
proof -
  from assms(1) obtain xs ids where xs: "list_at (st s) k = Inr xs" "stream_ids xs = Inr ids" "distinct ids" "set ids = A"
    by (auto simp: lists_iff)
  with assms(2) obtain ys where ys: "f xs = Inr ys" "s' = put k (PList ys) s"
    by (auto simp: on_list_def res_simps)
  from assms(3) [OF xs(2,3,4) ys(1)] ys(2) show ?thesis by (simp add: lists_put)
qed

lemma stream_ids_append [simp]: "stream_ids (xs @ ys) = ebind (stream_ids xs) (\<lambda>a. ebind (stream_ids ys) (\<lambda>b. Inr (a @ b)))"
proof (induction xs)
  case Nil
  show ?case by (cases "stream_ids ys") (simp_all add: stream_ids_def)
next
  case (Cons x xs)
  then show ?case
    by (cases "ebind (as_dict x) (\<lambda>d. int_at d ''stream_id'')"; cases "stream_ids xs"; cases "stream_ids ys")
      (simp_all add: stream_ids_def)
qed

lemma stream_ids_Cons: "stream_ids (x # xs) = Inr ids \<longleftrightarrow>
    (\<exists>d i is. x = PDict d \<and> map_of d ''stream_id'' = Some (PInt i) \<and> stream_ids xs = Inr is \<and> ids = i # is)"
  by (auto simp: stream_ids_def res_simps as_dict_Inr)

lemma stream_ids_Nil [simp]: "stream_ids [] = Inr []"
  by (simp add: stream_ids_def)

lemma fields_of_stream_ids: "stream_ids xs = Inr ids \<Longrightarrow> fields_of ''stream_id'' xs = Inr (map PInt ids)"
  by (induction xs arbitrary: ids) (auto simp: stream_ids_Cons fields_of_def as_dict_def getk_def)

lemma py_in_ints [simp]: "py_in (PInt i) (map PInt is) \<longleftrightarrow> i \<in> set is"
  by (induction "is") (auto simp: py_in_def)

lemma keep_stream_ids:
  assumes "stream_ids xs = Inr ids"
  shows "keep_if (\<lambda>x. negate (field_in ''stream_id'' (map PInt gone) x)) xs = Inr ys \<Longrightarrow>
      stream_ids ys = Inr (filter (\<lambda>i. i \<notin> set gone) ids)"
    and "keep_if (field_in ''stream_id'' (map PInt gone)) xs = Inr ys \<Longrightarrow>
      stream_ids ys = Inr (filter (\<lambda>i. i \<in> set gone) ids)"
  using assms
  by (induction xs arbitrary: ids ys)
    (auto simp: stream_ids_Cons res_simps negate_def field_in_def as_dict_def getk_def split: if_splits)

lemma each_stream_ids:
  assumes "stream_ids xs = Inr ids" and "each_dict f xs = Inr ys"
    and "\<And>d d'. f d = Inr d' \<Longrightarrow> map_of d' ''stream_id'' = map_of d ''stream_id''"
  shows "stream_ids ys = Inr ids"
  using assms
proof (induction xs arbitrary: ids ys)
  case Nil
  then show ?case by (simp add: each_dict_def)
next
  case (Cons x xs)
  from Cons.prems(1) obtain d i "is" where x: "x = PDict d" "map_of d ''stream_id'' = Some (PInt i)"
    "stream_ids xs = Inr is" "ids = i # is"
    by (auto simp: stream_ids_Cons)
  from Cons.prems(2) x(1) obtain d' zs where ys: "f d = Inr d'" "each_dict f xs = Inr zs" "ys = PDict d' # zs"
    by (auto simp: each_dict_def res_simps as_dict_Inr)
  have "stream_ids zs = Inr is" using Cons.IH [OF x(3) ys(2) Cons.prems(3)] .
  with Cons.prems(3) [OF ys(1)] x ys show ?case by (simp add: stream_ids_Cons)
qed

lemma stream_ids_perm:
  assumes "stream_ids xs = Inr ids" and "mset ys = mset xs"
  shows "\<exists>ids'. stream_ids ys = Inr ids' \<and> mset ids' = mset ids"
proof -
  define g where "g v = (case v of PDict d \<Rightarrow> (case map_of d ''stream_id'' of Some (PInt i) \<Rightarrow> i | _ \<Rightarrow> 0) | _ \<Rightarrow> 0)" for v
  have *: "stream_ids zs = Inr is \<longleftrightarrow> (\<forall>z\<in>set zs. \<exists>d i. z = PDict d \<and> map_of d ''stream_id'' = Some (PInt i)) \<and> is = map g zs"
    for zs "is"
    by (induction zs arbitrary: "is") (auto simp: stream_ids_Cons g_def)
  have "set ys = set xs" using assms(2) by (metis set_mset_mset)
  moreover have "mset (map g ys) = mset (map g xs)" using assms(2) by simp
  ultimately show ?thesis using assms(1) unfolding * by auto
qed

section \<open>The operations on the lists\<close>

lemma drop_ids_here:
  assumes "lists k s A" and "drop_ids ''stream_id'' (map PInt gone) k s = Inr s'"
  shows "lists k s' (A - set gone)"
proof (rule on_list_here [OF assms(1) assms(2) [unfolded drop_ids_def]])
  fix xs ids ys
  assume ids: "stream_ids xs = Inr ids" "distinct ids" "set ids = A"
    and ys: "keep_if (\<lambda>x. negate (field_in ''stream_id'' (map PInt gone) x)) xs = Inr ys"
  from keep_stream_ids(1) [OF ids(1) ys] ids(2,3)
  show "\<exists>ids'. stream_ids ys = Inr ids' \<and> distinct ids' \<and> set ids' = A - set gone" by auto
qed

lemma drop_ids_elsewhere: "drop_ids f vs k' s = Inr s' \<Longrightarrow> k \<noteq> k' \<Longrightarrow> lists k s' A \<longleftrightarrow> lists k s A"
  unfolding drop_ids_def by (rule on_list_elsewhere)

lemma each_here:
  assumes "lists k s A" and "on_list k (each_dict f) s = Inr s'"
    and "\<And>d d'. f d = Inr d' \<Longrightarrow> map_of d' ''stream_id'' = map_of d ''stream_id''"
  shows "lists k s' A"
proof (rule on_list_here [OF assms(1,2)])
  fix xs ids ys
  assume ids: "stream_ids xs = Inr ids" "distinct ids" "set ids = A" and ys: "each_dict f xs = Inr ys"
  have "stream_ids ys = Inr ids" by (rule each_stream_ids [OF ids(1) ys assms(3)])
  with ids show "\<exists>ids'. stream_ids ys = Inr ids' \<and> distinct ids' \<and> set ids' = A" by blast
qed

lemma when_present_elsewhere:
  assumes "when_present p (on_list k' f) s = Inr s'" and "k \<noteq> k'"
  shows "lists k s' A \<longleftrightarrow> lists k s A"
  using assms by (auto simp: when_present_def on_list_elsewhere split: if_splits)

lemma sort_here:
  assumes "lists k s A" and "sort_by_name k s = Inr s'"
  shows "lists k s' A"
proof (rule on_list_here [OF assms(1) assms(2) [unfolded sort_by_name_def]])
  fix xs ids ys
  assume ids: "stream_ids xs = Inr ids" "distinct ids" "set ids = A"
    and "sort_keyed (\<lambda>d. text_at d ''name'') xs = Inr ys"
  then obtain ks where ks: "emap (\<lambda>x. ebind (as_dict x) (\<lambda>d. text_at d ''name'')) xs = Inr ks"
    and ys: "ys = map snd (sort_key fst (zip ks xs))"
    by (auto simp: sort_keyed_def res_simps)
  have "length ks = length xs" using ks by (rule emap_Inr_length)
  then have "mset (map snd (zip ks xs)) = mset xs" by simp
  then have "mset ys = mset xs" unfolding ys by (simp only: mset_map mset_sort)
  from stream_ids_perm [OF ids(1) this] ids show "\<exists>ids'. stream_ids ys = Inr ids' \<and> distinct ids' \<and> set ids' = A"
    by (metis mset_eq_imp_distinct_iff set_mset_mset)
qed

section \<open>The events\<close>

lemma stream_ids_single: "map_of d ''stream_id'' = Some (PInt i) \<Longrightarrow> stream_ids [PDict d] = Inr [i]"
  by (simp add: stream_ids_Cons)

lemma on_list_here_append:
  assumes "lists k s A" and "append_to k v s = Inr s'" and "v = PDict d" and "map_of d ''stream_id'' = Some (PInt i)" and "i \<notin> A"
  shows "lists k s' (insert i A)"
proof (rule on_list_here [OF assms(1) assms(2) [unfolded append_to_def]])
  fix xs ids ys
  assume ids: "stream_ids xs = Inr ids" "distinct ids" "set ids = A" and "Inr (xs @ [v]) = Inr ys"
  then have "stream_ids ys = Inr (ids @ [i])" using assms(3) stream_ids_single [OF assms(4)] by auto
  with ids assms(5) show "\<exists>ids'. stream_ids ys = Inr ids' \<and> distinct ids' \<and> set ids' = insert i A" by auto
qed

lemma append_elsewhere: "append_to k' v s = Inr s' \<Longrightarrow> k \<noteq> k' \<Longrightarrow> lists k s' A \<longleftrightarrow> lists k s A"
  unfolding append_to_def by (rule on_list_elsewhere)

lemma emap_fields: "emap (\<lambda>(k, k'). ebind (getk d k') (\<lambda>v. Inr (k, v))) ks = Inr raw \<Longrightarrow> distinct (map fst ks) \<Longrightarrow>
    (k, k') \<in> set ks \<Longrightarrow> map_of raw k = map_of d k'"
  by (induction ks arbitrary: raw) (auto simp: res_simps rev_image_eqI)

lemma build_unsubscribed_id:
  assumes "build_unsubscribed_sub_from_stream_dict row d = Inr d'"
  shows "map_of d' ''stream_id'' = map_of d ''stream_id''"
proof -
  from assms obtain raw e t where raw: "emap (\<lambda>(k, k'). ebind (getk d k') (\<lambda>v. Inr (k, v))) raw_stream_fields = Inr raw"
    and e: "build_stream_dict_for_sub row raw = Inr e" and d': "d' = dset ''stream_weekly_traffic'' t e"
    by (auto simp: build_unsubscribed_sub_from_stream_dict_def res_simps)
  have "map_of raw ''id'' = map_of d ''stream_id''"
    by (rule emap_fields [OF raw]) (simp_all add: raw_stream_fields_def)
  moreover have "map_of e ''stream_id'' = map_of raw ''id''"
    using e by (auto simp: build_stream_dict_for_sub_def res_simps)
  ultimately show ?thesis by (simp add: d')
qed

definition once_subscribed :: "database \<Rightarrow> int \<Rightarrow> bool" where
  "once_subscribed db i \<longleftrightarrow> length (db_subscription_rows db i) = 1"

lemma create_one:
  assumes ch: "channels s A B C" and ok: "create_stream db reg v s = Inr s'"
    and v: "v = PDict d" "map_of d ''stream_id'' = Some (PInt i)" and fresh: "i \<notin> A \<union> B \<union> C"
  shows "channels s' A (if once_subscribed db i then insert i B else B) (if once_subscribed db i then C else insert i C)"
proof -
  let ?d = "if include_subscribers reg then dset ''subscribers'' (PList []) d else d"
  have d: "map_of ?d ''stream_id'' = Some (PInt i)" using v(2) by simp
  have tail: "lists k s' X \<longleftrightarrow> lists k t X"
    if "when_present ''streams'' (append_to ''streams'' (PDict d)) t = Inr s'" "k \<noteq> ''streams''" for k t X
    using that unfolding append_to_def by (intro when_present_elsewhere) auto
  show ?thesis
  proof (cases "once_subscribed db i")
    case True
    then obtain e t where e: "build_unsubscribed_sub_from_stream_dict (hd (db_subscription_rows db i)) ?d = Inr e"
      and t: "append_to ''unsubscribed'' (PDict (if include_subscribers reg then dset ''subscribers'' (PList []) e else e)) s = Inr t"
      and s': "when_present ''streams'' (append_to ''streams'' (PDict d)) t = Inr s'"
      using ok v by (auto simp: create_stream_def once_subscribed_def as_dict_def int_at_def getk_def Let_def res_simps
          split: if_splits)
    have "map_of (if include_subscribers reg then dset ''subscribers'' (PList []) e else e) ''stream_id'' = Some (PInt i)"
      using build_unsubscribed_id [OF e] d by simp
    then have "lists ''unsubscribed'' t (insert i B)"
      using ch fresh by (intro on_list_here_append [OF _ t refl]) (auto simp: channels_def)
    then show ?thesis
      using ch fresh True tail [OF s'] append_elsewhere [OF t] by (auto simp: channels_def)
  next
    case False
    then obtain t where t: "append_to ''never_subscribed'' (PDict ?d) s = Inr t"
      and s': "when_present ''streams'' (append_to ''streams'' (PDict d)) t = Inr s'"
      using ok v by (auto simp: create_stream_def once_subscribed_def as_dict_def int_at_def getk_def Let_def res_simps)
    have "lists ''never_subscribed'' t (insert i C)"
      using ch fresh by (intro on_list_here_append [OF _ t refl d]) (auto simp: channels_def)
    then show ?thesis
      using ch fresh False tail [OF s'] append_elsewhere [OF t] by (auto simp: channels_def)
  qed
qed

lemma create_all:
  assumes "channels s A B C" and "efold (create_stream db reg) vs s = Inr s'"
    and "stream_ids vs = Inr ids" and "distinct ids" and "set ids \<inter> (A \<union> B \<union> C) = {}"
  shows "channels s' A (B \<union> {i \<in> set ids. once_subscribed db i}) (C \<union> {i \<in> set ids. \<not> once_subscribed db i})"
  using assms
proof (induction vs arbitrary: s B C ids)
  case Nil
  then show ?case by simp
next
  case (Cons v vs)
  from Cons.prems(2) obtain t where t: "create_stream db reg v s = Inr t" "efold (create_stream db reg) vs t = Inr s'"
    by (auto simp: res_simps)
  from Cons.prems(3) obtain d i "is" where v: "v = PDict d" "map_of d ''stream_id'' = Some (PInt i)"
    "stream_ids vs = Inr is" "ids = i # is"
    by (auto simp: stream_ids_Cons)
  let ?B = "if once_subscribed db i then insert i B else B" and ?C = "if once_subscribed db i then C else insert i C"
  have "channels t A ?B ?C" using Cons.prems(5) v(4) by (intro create_one [OF Cons.prems(1) t(1) v(1,2)]) auto
  then have "channels s' A (?B \<union> {i \<in> set is. once_subscribed db i}) (?C \<union> {i \<in> set is. \<not> once_subscribed db i})"
    by (rule Cons.IH [OF _ t(2) v(3)]) (use Cons.prems(4,5) v(4) in auto)
  moreover have "?B \<union> {i \<in> set is. once_subscribed db i} = B \<union> {i \<in> set ids. once_subscribed db i}"
    "?C \<union> {i \<in> set is. \<not> once_subscribed db i} = C \<union> {i \<in> set ids. \<not> once_subscribed db i}"
    by (auto simp: v(4))
  ultimately show ?case by simp
qed

lemma add_subscription_entry: "map_of d ''stream_id'' = Some (PInt i) \<Longrightarrow>
    add_subscription reg (map PInt as) (PDict d) ys = Inr (if i \<in> set as then ys
      else ys @ [PDict (if has_key d ''subscribers'' \<and> \<not> include_subscribers reg then ddel ''subscribers'' d else d)])"
  by (simp add: add_subscription_def as_dict_def getk_def)

lemma add_refined:
  assumes ch: "channels s A B C" and ok: "add_subscriptions reg event s = Inr s'"
    and ids: "list_at event ''subscriptions'' = Inr new" "stream_ids new = Inr ids" "distinct ids"
  shows "channels s' (A \<union> set ids) (B - set ids) (C - set ids)"
proof -
  from ch obtain subs as where subs: "list_at (st s) ''subscriptions'' = Inr subs" "stream_ids subs = Inr as"
    "distinct as" "set as = A"
    by (auto simp: channels_def lists_iff)
  from ok ids subs obtain subs' s1 where subs': "efold (add_subscription reg (map PInt as)) new subs = Inr subs'"
    and s1: "drop_ids ''stream_id'' (map PInt ids) ''unsubscribed'' (put ''subscriptions'' (PList subs') s) = Inr s1"
    and s': "drop_ids ''stream_id'' (map PInt ids) ''never_subscribed'' s1 = Inr s'"
    by (auto simp: add_subscriptions_def res_simps fields_of_stream_ids)
  have "stream_ids subs' = Inr (cs @ filter (\<lambda>i. i \<notin> set as) bs)"
    if "efold (add_subscription reg (map PInt as)) xs ys = Inr subs'" "stream_ids xs = Inr bs" "stream_ids ys = Inr cs"
    for xs ys bs cs
    using that
  proof (induction xs arbitrary: ys bs cs)
    case Nil
    then show ?case by simp
  next
    case (Cons x xs)
    from Cons.prems(2) obtain d i "is" where x: "x = PDict d" "map_of d ''stream_id'' = Some (PInt i)"
      "stream_ids xs = Inr is" "bs = i # is"
      by (auto simp: stream_ids_Cons)
    show ?case
    proof (cases "i \<in> set as")
      case True
      then have "efold (add_subscription reg (map PInt as)) xs ys = Inr subs'"
        using Cons.prems(1) x by (simp add: add_subscription_entry)
      from Cons.IH [OF this x(3) Cons.prems(3)] True x(4) show ?thesis by simp
    next
      case False
      let ?e = "if has_key d ''subscribers'' \<and> \<not> include_subscribers reg then ddel ''subscribers'' d else d"
      have e: "stream_ids [PDict ?e] = Inr [i]" using x(2) by (intro stream_ids_single) simp
      have "efold (add_subscription reg (map PInt as)) xs (ys @ [PDict ?e]) = Inr subs'"
        using Cons.prems(1) x False by (simp add: add_subscription_entry)
      moreover have "stream_ids (ys @ [PDict ?e]) = Inr (cs @ [i])" using Cons.prems(3) e by simp
      ultimately show ?thesis using Cons.IH [OF _ x(3)] False x(4) by simp
    qed
  qed
  from this [OF subs' ids(2) subs(2)] have "lists ''subscriptions'' (put ''subscriptions'' (PList subs') s) (A \<union> set ids)"
    using subs ids(3) by (auto simp: lists_put)
  moreover have "lists ''unsubscribed'' s1 (B - set ids)"
    using ch by (intro drop_ids_here [OF _ s1]) (simp add: channels_def lists_put)
  moreover have "lists ''never_subscribed'' s' (C - set ids)"
    using ch drop_ids_elsewhere [OF s1] by (intro drop_ids_here [OF _ s']) (simp add: channels_def lists_put)
  ultimately show ?thesis
    using ch drop_ids_elsewhere [OF s1] drop_ids_elsewhere [OF s'] by (auto simp: channels_def lists_put)
qed

lemma remove_me_id: "remove_me reg d = Inr d' \<Longrightarrow> map_of d' ''stream_id'' = map_of d ''stream_id''"
  by (auto simp: remove_me_def res_simps split: if_splits)

lemma remove_refined:
  assumes ch: "channels s A B C" and ok: "remove_subscriptions reg event s = Inr s'"
    and ids: "list_at event ''subscriptions'' = Inr gone" "stream_ids gone = Inr ids"
  shows "channels s' (A - set ids) (B \<union> (A \<inter> set ids)) C"
proof -
  from ch obtain subs as where subs: "list_at (st s) ''subscriptions'' = Inr subs" "stream_ids subs = Inr as"
    "distinct as" "set as = A"
    by (auto simp: channels_def lists_iff)
  from ok ids subs obtain rs rs' s1 where rs: "keep_if (field_in ''stream_id'' (map PInt ids)) subs = Inr rs"
    "each_dict (remove_me reg) rs = Inr rs'"
    and s1: "on_list ''unsubscribed'' (\<lambda>xs. Inr (xs @ rs')) s = Inr s1"
    and s': "drop_ids ''stream_id'' (map PInt ids) ''subscriptions'' s1 = Inr s'"
    by (auto simp: remove_subscriptions_def res_simps fields_of_stream_ids)
  have "stream_ids rs' = Inr (filter (\<lambda>i. i \<in> set ids) as)"
    by (rule each_stream_ids [OF keep_stream_ids(2) [OF subs(2) rs(1)] rs(2) remove_me_id])
  then have "lists ''unsubscribed'' s1 (B \<union> (A \<inter> set ids))"
    using ch subs by (intro on_list_here [OF _ s1, of B]) (auto simp: channels_def)
  moreover have "lists ''subscriptions'' s' (A - set ids)"
    using ch on_list_elsewhere [OF s1] by (intro drop_ids_here [OF _ s']) (auto simp: channels_def)
  ultimately show ?thesis
    using ch on_list_elsewhere [OF s1] drop_ids_elsewhere [OF s'] by (auto simp: channels_def)
qed

lemma each_channels:
  assumes "channels s A B C" and "on_list k (each_dict f) s = Inr s'"
    and "\<And>d d'. f d = Inr d' \<Longrightarrow> map_of d' ''stream_id'' = map_of d ''stream_id''"
  shows "channels s' A B C"
proof -
  have "lists k' s' X" if "lists k' s X" for k' X
    using that each_here [OF _ assms(2,3), where A = X] on_list_elsewhere [OF assms(2)] by (cases "k' = k") auto
  with assms(1) show ?thesis by (auto simp: channels_def)
qed

lemma change_peers_id: "change_peers f vs d = Inr d' \<Longrightarrow> map_of d' ''stream_id'' = map_of d ''stream_id''"
  by (auto simp: change_peers_def res_simps split: if_splits)

lemma peers_channels:
  assumes "channels s A B C" and "apply_peers reg f event s = Inr s'"
  shows "channels s' A B C"
proof -
  have step: "channels s A B C \<Longrightarrow> on_list k (each_dict (change_peers g vs)) s = Inr s' \<Longrightarrow> channels s' A B C" for k g vs s s'
    by (erule each_channels) (auto dest: change_peers_id)
  show ?thesis
    using assms by (auto simp: apply_peers_def Let_def res_simps split: if_splits) (metis step)+
qed

lemma copy_extras_id: "copy_extras event d = Inr d' \<Longrightarrow> map_of d' ''stream_id'' = map_of d ''stream_id''"
  by (auto simp: copy_extras_def Let_def res_simps split: if_splits)

lemma update_stream_id:
  assumes "map_of event ''property'' \<noteq> Some (PStr ''stream_id'')" and "update_stream_dict b event d = Inr d'"
  shows "map_of d' ''stream_id'' = map_of d ''stream_id''"
proof -
  have "property \<noteq> ''stream_id''" if "text_at event ''property'' = Inr property" for property
  proof
    assume "property = ''stream_id''"
    with that assms(1) show False by (cases "map_of event ''property''") (auto simp: text_at_def getk_def split: py.splits)
  qed
  with assms(2) show ?thesis
    by (auto simp: update_stream_dict_def res_simps dest!: copy_extras_id split: if_splits)
qed

definition event_ids :: "dict \<Rightarrow> string \<Rightarrow> int list option" where
  "event_ids event k = (case ebind (list_at event k) stream_ids of Inr ids \<Rightarrow> Some ids | Inl _ \<Rightarrow> None)"

definition kind_of :: "dict \<Rightarrow> (py option \<times> py option)" where
  "kind_of event = (map_of event ''type'', map_of event ''op'')"

abbreviation is_kind :: "dict \<Rightarrow> string \<Rightarrow> string \<Rightarrow> bool" where
  "is_kind event ty op \<equiv> kind_of event = (Some (PStr ty), Some (PStr op))"

text \<open>The contract: where the event moves the channels it names.\<close>

definition channel_step :: "database \<Rightarrow> dict \<Rightarrow> int set \<times> int set \<times> int set \<Rightarrow> int set \<times> int set \<times> int set" where
  "channel_step db event = (\<lambda>(A, B, C).
     (let N = (\<lambda>k. case event_ids event k of Some ids \<Rightarrow> set ids | None \<Rightarrow> {})
      in if is_kind event ''subscription'' ''add''
         then (A \<union> N ''subscriptions'', B - N ''subscriptions'', C - N ''subscriptions'')
         else if is_kind event ''subscription'' ''remove''
         then (A - N ''subscriptions'', B \<union> (A \<inter> N ''subscriptions''), C)
         else if is_kind event ''stream'' ''create''
         then (A, B \<union> {i \<in> N ''streams''. once_subscribed db i}, C \<union> {i \<in> N ''streams''. \<not> once_subscribed db i})
         else if is_kind event ''stream'' ''delete''
         then (A - N ''streams'', B - N ''streams'', C - N ''streams'')
         else (A, B, C)))"

text \<open>
  What is asked of the event: the channels it names have ids and are named once, a created
  channel is new, and no event renumbers a channel.
\<close>

definition channel_event_ok :: "dict \<Rightarrow> int set \<times> int set \<times> int set \<Rightarrow> bool" where
  "channel_event_ok event = (\<lambda>(A, B, C).
     if is_kind event ''subscription'' ''add'' \<or> is_kind event ''subscription'' ''remove''
     then (case event_ids event ''subscriptions'' of Some ids \<Rightarrow> distinct ids | None \<Rightarrow> False)
     else if is_kind event ''stream'' ''create''
     then (case event_ids event ''streams'' of Some ids \<Rightarrow> distinct ids \<and> list_all (\<lambda>i. i \<notin> A \<union> B \<union> C) ids | None \<Rightarrow> False)
     else if is_kind event ''stream'' ''delete'' then event_ids event ''streams'' \<noteq> None
     else map_of event ''property'' \<noteq> Some (PStr ''stream_id''))"

lemma event_ids_Some: "event_ids event k = Some ids \<longleftrightarrow> (\<exists>xs. list_at event k = Inr xs \<and> stream_ids xs = Inr ids)"
  by (cases "list_at event k"; cases "ebind (list_at event k) stream_ids") (auto simp: event_ids_def)

lemma channel_deletion_refined:
  assumes ch: "channels s A B C" and ids: "list_at event ''streams'' = Inr gone" "stream_ids gone = Inr ids"
    and ok: "apply_stream_event db reg event s = Inr s'" and op: "map_of event ''op'' = Some (PStr ''delete'')"
  shows "channels s' (A - set ids) (B - set ids) (C - set ids)"
proof -
  from ok op ids obtain s1 s2 s3 where
    s1: "when_present ''streams'' (drop_ids ''stream_id'' (map PInt ids) ''streams'') s = Inr s1"
    and s2: "drop_ids ''stream_id'' (map PInt ids) ''subscriptions'' s1 = Inr s2"
    and s3: "drop_ids ''stream_id'' (map PInt ids) ''unsubscribed'' s2 = Inr s3"
    and s': "drop_ids ''stream_id'' (map PInt ids) ''never_subscribed'' s3 = Inr s'"
    by (auto simp: apply_stream_event_def getk_def res_simps fields_of_stream_ids)
  have e1: "k \<noteq> ''streams'' \<Longrightarrow> lists k s1 X \<longleftrightarrow> lists k s X" for k X
    using when_present_elsewhere [OF s1 [unfolded drop_ids_def]] .
  show ?thesis
    using ch drop_ids_here [OF _ s2] drop_ids_here [OF _ s3] drop_ids_here [OF _ s'] e1
      drop_ids_elsewhere [OF s2] drop_ids_elsewhere [OF s3] drop_ids_elsewhere [OF s']
    by (auto simp: channels_def)
qed

lemma create_refined:
  assumes ch: "channels s A B C" and ids: "list_at event ''streams'' = Inr new" "stream_ids new = Inr ids" "distinct ids"
      "set ids \<inter> (A \<union> B \<union> C) = {}"
    and ok: "apply_stream_event db reg event s = Inr s'" and op: "map_of event ''op'' = Some (PStr ''create'')"
  shows "channels s' A (B \<union> {i \<in> set ids. once_subscribed db i}) (C \<union> {i \<in> set ids. \<not> once_subscribed db i})"
proof -
  from ok op ids(1) obtain s1 s2 s3 where
    s1: "efold (create_stream db reg) new s = Inr s1" and s2: "sort_by_name ''unsubscribed'' s1 = Inr s2"
    and s3: "sort_by_name ''never_subscribed'' s2 = Inr s3" and s': "when_present ''streams'' (sort_by_name ''streams'') s3 = Inr s'"
    by (auto simp: apply_stream_event_def getk_def res_simps)
  have e: "k \<noteq> ''streams'' \<Longrightarrow> lists k s' X \<longleftrightarrow> lists k s3 X" for k X
    using when_present_elsewhere [OF s' [unfolded sort_by_name_def]] .
  show ?thesis
    using create_all [OF ch s1 ids(2-4)] sort_here [OF _ s2] sort_here [OF _ s3] e
      on_list_elsewhere [OF s2 [unfolded sort_by_name_def]] on_list_elsewhere [OF s3 [unfolded sort_by_name_def]]
    by (auto simp: channels_def)
qed

lemma update_refined:
  assumes ch: "channels s A B C" and p: "map_of event ''property'' \<noteq> Some (PStr ''stream_id'')"
    and ok: "apply_stream_event db reg event s = Inr s'" and op: "map_of event ''op'' = Some (PStr ''update'')"
  shows "channels s' A B C"
proof -
  have step: "channels s A B C \<Longrightarrow> on_list k (each_dict (update_stream_dict b event)) s = Inr s' \<Longrightarrow> channels s' A B C"
    for k b s s'
    by (erule each_channels) (auto dest: update_stream_id [OF p])
  from ok op show ?thesis
    using ch by (auto simp: apply_stream_event_def getk_def res_simps when_present_def split: if_splits) (metis step)+
qed

lemma update_subscription_refined:
  assumes ch: "channels s A B C" and p: "map_of event ''property'' \<noteq> Some (PStr ''stream_id'')"
    and ok: "apply_subscription_event reg event s = Inr s'" and op: "map_of event ''op'' = Some (PStr ''update'')"
  shows "channels s' A B C"
proof -
  from ok op have "on_list ''subscriptions'' (each_dict (\<lambda>sub.
            ebind (getk sub ''stream_id'') (\<lambda>i.
            ebind (getk event ''stream_id'') (\<lambda>j.
            if py_eq i j
            then ebind (text_at event ''property'') (\<lambda>p. ebind (getk event ''value'') (\<lambda>v. Inr (dset p v sub)))
            else Inr sub)))) s = Inr s'"
    by (simp add: apply_subscription_event_def getk_def)
  then show ?thesis
    by (rule each_channels [OF ch]) (use p in \<open>auto simp: res_simps text_at_Inr split: if_splits\<close>)
qed


section \<open>Samples, and what repeated events do\<close>

definition sample_lists :: reg_state where
  "sample_lists = \<lparr>st = [(''subscriptions'', PList [PDict [(''stream_id'', PInt 1), (''name'', PStr ''a'')]]),
     (''unsubscribed'', PList []), (''never_subscribed'', PList [])],
     raw_users = None, raw_unread_msgs = None, raw_recents = None\<rparr>"

definition sample_creation :: dict where
  "sample_creation = [(''type'', PStr ''stream''), (''op'', PStr ''create''),
     (''streams'', PList [PDict [(''stream_id'', PInt 5), (''name'', PStr ''new'')]])]"

lemmas run_create = apply_event_def apply_other_event_def apply_stream_event_def create_stream_def append_to_def on_list_def
  sort_by_name_def sort_keyed_def when_present_def text_at_def list_at_def int_at_def as_dict_def getk_def has_key_def
  put_def sample_creation_def sample_lists_def sample_db_def sample_reg_def


text \<open>
  The creation of a channel that the fetched state already has: registering first creates the
  event queue and then reads the database, so an event can describe a change the state has
  seen.  The channel is then listed twice.
\<close>

theorem repeated_creation_duplicates:
  "case ebind (apply_event sample_db sample_reg sample_creation sample_lists) (apply_event sample_db sample_reg sample_creation) of
     Inr s' \<Rightarrow> ebind (list_at (st s') ''never_subscribed'') stream_ids = Inr [5, 5]
   | Inl _ \<Rightarrow> False"
  by (simp add: run_create stream_ids_def)

text \<open>
  A user who mutes a topic, then follows it, then removes the policy: the first two events add an
  entry each, the third removes the first of them, and the topic is left followed.
\<close>

definition topic_event :: "int \<Rightarrow> dict" where
  "topic_event policy = [(''type'', PStr ''user_topic''), (''stream_id'', PInt 5), (''topic_name'', PStr ''t''),
     (''visibility_policy'', PInt policy), (''last_updated'', PInt 0)]"

definition topic_entry :: "int \<Rightarrow> py" where
  "topic_entry policy = PDict [(''stream_id'', PInt 5), (''topic_name'', PStr ''t''),
     (''visibility_policy'', PInt policy), (''last_updated'', PInt 0)]"

theorem user_topic_stale:
  assumes "map_of (st s) ''user_topics'' = Some (PList [])"
  shows "case apply_events db reg None [topic_event 1, topic_event 3, topic_event 0] s of
     Inr s' \<Rightarrow> map_of (st s') ''user_topics'' = Some (PList [topic_entry 3])
   | Inl _ \<Rightarrow> False"
  using assms
  by (simp add: apply_events_def apply_event_def apply_other_event_def apply_user_topic_event_def topic_event_def
      topic_entry_def on_list_def list_at_def text_at_def getk_def as_dict_def put_def is_topic_def)

text \<open>
  An update of the policy on web-public channels recomputes the user's permission from the
  policy alone, without the test whether web-public channels are enabled at all.
\<close>

theorem web_public_permission_unguarded:
  assumes "can_create_web_public_streams (db_web_public_enabled db) (db_realm db) (db_now db) (db_user db) = Inr False"
    and "has_permission (db_realm db) (db_now db) (db_user db) ''create_web_public_stream_policy'' = Inr True"
    and "map_of (st s) ''can_create_web_public_streams'' = Some (PBool False)"
    and "map_of (st s) ''can_create_private_streams'' = Some (PBool b)"
    and "map_of (st s) ''can_create_public_streams'' = Some (PBool c)"
  shows "case apply_event db reg [(''type'', PStr ''realm''), (''op'', PStr ''update''),
      (''property'', PStr ''create_web_public_stream_policy''), (''value'', v)] s of
     Inr s' \<Rightarrow> map_of (st s') ''can_create_web_public_streams'' = Some (PBool True)
   | Inl _ \<Rightarrow> False"
  using assms
  by (simp add: apply_event_def apply_other_event_def apply_realm_event_def update_realm_def realm_update_extras_def
      refresh_permission_def refresh_can_create_streams_def policy_permission_dict_def own_def has_key_def text_at_def
      getk_def put_def)

theorem web_public_permission_unguarded_witness:
  "can_create_web_public_streams (db_web_public_enabled sample_db) (db_realm sample_db) (db_now sample_db) (db_user sample_db) = Inr False \<and>
   (case apply_event sample_db sample_reg [(''type'', PStr ''realm''), (''op'', PStr ''update''),
      (''property'', PStr ''create_web_public_stream_policy''), (''value'', PInt POLICY_MODERATORS_ONLY)]
      \<lparr>st = [(''can_create_web_public_streams'', PBool False), (''can_create_private_streams'', PBool False),
             (''can_create_public_streams'', PBool False)], raw_users = None, raw_unread_msgs = None, raw_recents = None\<rparr> of
     Inr s' \<Rightarrow> map_of (st s') ''can_create_web_public_streams'' = Some (PBool True)
   | Inl _ \<Rightarrow> False)"
proof -
  let ?s = "\<lparr>st = [(''can_create_web_public_streams'', PBool False), (''can_create_private_streams'', PBool False),
             (''can_create_public_streams'', PBool False)], raw_users = None, raw_unread_msgs = None, raw_recents = None\<rparr>"
  have c: "can_create_web_public_streams (db_web_public_enabled sample_db) (db_realm sample_db) (db_now sample_db) (db_user sample_db) = Inr False"
    by (simp add: can_create_web_public_streams_def web_public_streams_enabled_def sample_db_def sample_realm_def)
  have p: "has_permission (db_realm sample_db) (db_now sample_db) (db_user sample_db) ''create_web_public_stream_policy'' = Inr True"
    by (simp add: has_permission_def known_policies_def REALM_PERMISSION_GROUP_SETTINGS_def sample_db_def sample_realm_def
        sample_user_def policy_defs role_defs role_tests)
  show ?thesis
    using c web_public_permission_unguarded [OF c p, of ?s False False] by simp
qed


end
