(* ===== verification/NarrowPredicate.thy ===== *)
theory NarrowPredicate
  imports Prelude
begin

text \<open>
  Narrows of event queues: \<^verbatim>\<open>zerver/lib/narrow_predicate.py\<close>, the \<open>NarrowTerm\<close> of
  \<^verbatim>\<open>zerver/lib/narrow_helpers.py\<close> and the topic helpers of \<^verbatim>\<open>zerver/lib/topic.py\<close>
  it uses.  A message is the dictionary the event carries, its flags are strings.
\<close>

record narrow_term =
  operator :: string
  operand :: string

definition narrow_dataclasses_from_tuples :: "string list list \<Rightarrow> narrow_term list res" where
  "narrow_dataclasses_from_tuples tups =
     emap (\<lambda>tup. case tup of
         a # b # _ \<Rightarrow> Inr \<lparr>operator = a, operand = b\<rparr>
       | _ \<Rightarrow> Inl IndexError) tups"

definition channel_operators :: "string list" where
  "channel_operators = [''channel'', ''stream'']"

definition check_narrow_term :: "narrow_term \<Rightarrow> unit res" where
  "check_narrow_term t =
     (if operator t \<notin> set (channel_operators @ [''topic'', ''sender'', ''is''])
      then Inl (JsonableError (''Operator '' @ operator t @ '' not supported.''))
      else if operator t = ''is'' \<and> operand t \<in> set [''followed'']
      then Inl (JsonableError (''Operand '' @ operand t @ '' not supported.''))
      else Inr ())"

definition check_narrow_for_events :: "narrow_term list \<Rightarrow> unit res" where
  "check_narrow_for_events narrow = eiter check_narrow_term narrow"

text \<open>\<open>d[k]\<close> where the code goes on to call a string method on the value.\<close>

definition str_at :: "dict \<Rightarrow> string \<Rightarrow> string res" where
  "str_at d k = ebind (getk d k) (\<lambda>v. case v of PStr s \<Rightarrow> Inr s | _ \<Rightarrow> Inl AttributeError)"

definition RESOLVED_TOPIC_PREFIX :: string where
  "RESOLVED_TOPIC_PREFIX = [CHR 0xE2, CHR 0x9C, CHR 0x94, CHR '' '']"

definition get_topic_from_message_info :: "dict \<Rightarrow> string res" where
  "get_topic_from_message_info message_info =
     (if has_key message_info ''topic'' then str_at message_info ''topic''
      else str_at message_info ''subject'')"

definition get_topic_resolution_and_bare_name :: "string \<Rightarrow> bool \<times> string" where
  "get_topic_resolution_and_bare_name stored_name =
     (if startswith stored_name RESOLVED_TOPIC_PREFIX
      then (True, drop (length RESOLVED_TOPIC_PREFIX) stored_name)
      else (False, stored_name))"

definition satisfies_operator :: "dict \<Rightarrow> string list \<Rightarrow> narrow_term \<Rightarrow> bool res" where
  "satisfies_operator message flags t =
     (if operator t \<in> set channel_operators
      then ebind (getk message ''type'') (\<lambda>ty.
           if ty \<noteq> PStr ''stream'' then Inr False
           else ebind (str_at message ''display_recipient'') (\<lambda>r.
                Inr (lower (operand t) = lower r)))
      else if operator t = ''topic''
      then ebind (getk message ''type'') (\<lambda>ty.
           if ty \<noteq> PStr ''stream'' then Inr False
           else ebind (get_topic_from_message_info message) (\<lambda>topic_name.
                Inr (lower (operand t) = lower topic_name)))
      else if operator t = ''sender''
      then ebind (str_at message ''sender_email'') (\<lambda>e. Inr (lower (operand t) = lower e))
      else if operator t = ''is'' \<and> operand t \<in> set [''dm'', ''private'']
      then ebind (getk message ''type'') (\<lambda>ty. Inr (ty = PStr ''private''))
      else if operator t = ''is'' \<and> operand t \<in> set [''starred'']
      then Inr (operand t \<in> set flags)
      else if operator t = ''is'' \<and> operand t = ''unread''
      then Inr (''read'' \<notin> set flags)
      else if operator t = ''is'' \<and> operand t \<in> set [''alerted'', ''mentioned'']
      then Inr (''mentioned'' \<in> set flags)
      else if operator t = ''is'' \<and> operand t = ''resolved''
      then ebind (getk message ''type'') (\<lambda>ty.
           if ty \<noteq> PStr ''stream'' then Inr False
           else ebind (get_topic_from_message_info message) (\<lambda>topic_name.
                Inr (startswith topic_name RESOLVED_TOPIC_PREFIX)))
      else Inr True)"

fun narrow_predicate :: "narrow_term list \<Rightarrow> dict \<Rightarrow> string list \<Rightarrow> bool res" where
  "narrow_predicate [] message flags = Inr True"
| "narrow_predicate (t # narrow) message flags =
     ebind (satisfies_operator message flags t) (\<lambda>ok.
     if \<not> ok then Inr False else narrow_predicate narrow message flags)"

definition build_narrow_predicate :: "narrow_term list \<Rightarrow> (dict \<Rightarrow> string list \<Rightarrow> bool res) res" where
  "build_narrow_predicate narrow =
     ebind (check_narrow_for_events narrow) (\<lambda>_. Inr (narrow_predicate narrow))"

lemma check_narrow_term_Inr:
  "check_narrow_term t = Inr u \<longleftrightarrow>
     operator t \<in> {''channel'', ''stream'', ''topic'', ''sender'', ''is''} \<and>
     \<not> (operator t = ''is'' \<and> operand t = ''followed'')"
  by (auto simp: check_narrow_term_def channel_operators_def)

lemma narrow_predicate_True:
  "narrow_predicate narrow message flags = Inr True \<longleftrightarrow>
     (\<forall>t\<in>set narrow. satisfies_operator message flags t = Inr True)"
  by (induction narrow) (auto simp: res_simps)

text \<open>
  A message dictionary with the keys the server always sends: the type, the sender's address
  and, for a channel message, the channel's name and a topic.
\<close>

definition wf_message :: "dict \<Rightarrow> bool" where
  "wf_message m \<longleftrightarrow>
     (\<exists>ty e. map_of m ''type'' = Some (PStr ty) \<and> map_of m ''sender_email'' = Some (PStr e) \<and>
       (ty = ''stream'' \<longrightarrow> (\<exists>r s. map_of m ''display_recipient'' = Some (PStr r) \<and>
          (map_of m ''topic'' = Some (PStr s) \<or>
           map_of m ''topic'' = None \<and> map_of m ''subject'' = Some (PStr s)))))"

lemma satisfies_operator_total:
  "wf_message m \<Longrightarrow> satisfies_operator m flags t \<noteq> Inl e"
proof -
  assume "wf_message m"
  then obtain ty a where wf: "map_of m ''type'' = Some (PStr ty)" "map_of m ''sender_email'' = Some (PStr a)"
    "ty = ''stream'' \<longrightarrow> (\<exists>r s. map_of m ''display_recipient'' = Some (PStr r) \<and>
          (map_of m ''topic'' = Some (PStr s) \<or>
           map_of m ''topic'' = None \<and> map_of m ''subject'' = Some (PStr s)))"
    by (auto simp: wf_message_def)
  then have ty: "getk m ''type'' = Inr (PStr ty)" and a: "str_at m ''sender_email'' = Inr a"
    by (simp_all add: getk_def str_at_def)
  show ?thesis
  proof (cases "ty = ''stream''")
    case True
    with wf obtain r s where "str_at m ''display_recipient'' = Inr r"
      "get_topic_from_message_info m = Inr s"
      by (auto simp: getk_def str_at_def get_topic_from_message_info_def has_key_def)
    then show ?thesis by (simp add: satisfies_operator_def ty a)
  next
    case False
    then show ?thesis by (simp add: satisfies_operator_def ty a)
  qed
qed

lemma narrow_predicate_total:
  "wf_message m \<Longrightarrow> narrow_predicate narrow m flags \<noteq> Inl e"
  by (induction narrow) (auto simp: res_simps satisfies_operator_total)

lemma narrow_predicate_bool:
  "wf_message m \<Longrightarrow> \<exists>b. narrow_predicate narrow m flags = Inr b"
  using narrow_predicate_total by (cases "narrow_predicate narrow m flags") auto

lemma narrow_predicate_append:
  "wf_message m \<Longrightarrow> narrow_predicate (ts @ us) m flags = Inr True \<longleftrightarrow>
     narrow_predicate ts m flags = Inr True \<and> narrow_predicate us m flags = Inr True"
  by (auto simp: narrow_predicate_True)

lemma resolution_roundtrip:
  "get_topic_resolution_and_bare_name (RESOLVED_TOPIC_PREFIX @ t) = (True, t)"
  by (simp add: get_topic_resolution_and_bare_name_def)

section \<open>Properties\<close>

text \<open>
  On a well-formed message the predicate built from a narrow always answers, and it lets the
  message through exactly when every term does: a channel, topic or sender term compares
  without regard to case, \<open>is:unread\<close> is the absence of the read flag, and so on.
\<close>

theorem narrow_predicate_exact:
  assumes "wf_message m"
  shows "(\<exists>b. narrow_predicate narrow m flags = Inr b) \<and>
    (narrow_predicate narrow m flags = Inr True \<longleftrightarrow>
      (\<forall>t\<in>set narrow. satisfies_operator m flags t = Inr True)) \<and>
    satisfies_operator m flags \<lparr>operator = ''is'', operand = ''unread''\<rparr> = Inr (''read'' \<notin> set flags) \<and>
    (map_of m ''type'' = Some (PStr ''stream'') \<longrightarrow>
      satisfies_operator m flags \<lparr>operator = ''stream'', operand = c\<rparr> =
      satisfies_operator m flags \<lparr>operator = ''channel'', operand = lower c\<rparr>)"
proof -
  have "lower (lower c) = lower c"
    by (auto simp: lower_def lower_char_def Let_def)
  then show ?thesis
    using assms narrow_predicate_bool [OF assms]
    by (auto simp: narrow_predicate_True satisfies_operator_def channel_operators_def getk_def)
qed

definition sample_message :: dict where
  "sample_message = [(''type'', PStr ''stream''), (''sender_email'', PStr ''a@b''),
     (''display_recipient'', PStr ''Denmark''), (''subject'', PStr ''t'')]"

theorem narrow_predicate_exact_witness:
  "(\<exists>b. narrow_predicate [\<lparr>operator = ''stream'', operand = ''denmark''\<rparr>] sample_message [] = Inr b)"
proof -
  have "wf_message sample_message" by (simp add: wf_message_def sample_message_def)
  from narrow_predicate_exact [OF this] show ?thesis by blast
qed

end
