(* ===== verification/EventQueue.thy ===== *)
theory EventQueue
  imports NarrowPredicate "HOL-Library.Multiset"
begin

text \<open>
  The \<open>EventQueue\<close> class of \<^verbatim>\<open>zerver/tornado/event_queue.py\<close>: pushing, with the
  compression of flag events into virtual events, pruning what the client has acknowledged, and
  \<open>contents\<close>, which merges the virtual events into their place in the queue.

  A queued event is the event's dictionary with its \<open>id\<close> entry kept as a field of its own,
  because the queue writes that entry and orders by it.  The locale \<open>event_log\<close> is the
  contract the long-polling protocol of \<^verbatim>\<open>fetch_events\<close> relies on; exactly-once delivery
  to a client that acknowledges what it got is proved inside it, and the locale is interpreted
  on the queue.
\<close>

record qevent =
  ev_id :: int
  ev_body :: dict

definition ev_dict :: "qevent \<Rightarrow> dict" where
  "ev_dict e = dset ''id'' (PInt (ev_id e)) (ev_body e)"

record event_queue =
  equeue :: "qevent list"
  next_event_id :: int
  newest_pruned_id :: "int option"
  queue_id :: string
  virtual_events :: "(string \<times> qevent) list"

definition new_event_queue :: "string \<Rightarrow> event_queue" where
  "new_event_queue i = \<lparr>equeue = [], next_event_id = 0, newest_pruned_id = Some (-1),
     queue_id = i, virtual_events = []\<rparr>"

definition compute_full_event_type :: "dict \<Rightarrow> string res" where
  "compute_full_event_type event =
     ebind (getk event ''type'') (\<lambda>ty.
     if ty = PStr ''update_message_flags''
     then ebind (getk event ''all'') (\<lambda>a.
          ebind (str_at event ''flag'') (\<lambda>flag.
          ebind (str_at event ''operation'') (\<lambda>oper.
          if truthy a then Inr (''all_flags/'' @ flag @ ''/'' @ oper)
          else Inr (''flags/'' @ oper @ ''/'' @ flag))))
     else str_at event ''type'')"

definition compressible :: "string \<Rightarrow> bool" where
  "compressible full_event_type \<longleftrightarrow>
     startswith full_event_type ''flags/'' \<and> \<not> startswith full_event_type ''flags/remove/read''"

text \<open>
  \<open>push\<close> gives the event the next id before anything that can raise, so the counter moves
  even when the event is then refused.  When merging into a virtual event fails on its message
  list, the virtual event already has the new id.
\<close>

definition merge_messages :: "qevent \<Rightarrow> qevent \<Rightarrow> unit res \<times> qevent" where
  "merge_messages virtual_event event =
     (let v = virtual_event\<lparr>ev_id := ev_id event\<rparr>
      in case ebind (list_at (ev_body v) ''messages'') (\<lambda>ms.
              ebind (list_at (ev_body event) ''messages'') (\<lambda>ms'. Inr (ms @ ms'))) of
           Inl e \<Rightarrow> (Inl e, v)
         | Inr ms \<Rightarrow>
             (let b = dset ''messages'' (PList ms) (ev_body v)
              in (Inr (), v\<lparr>ev_body := (case map_of (ev_body event) ''timestamp'' of
                    None \<Rightarrow> b | Some t \<Rightarrow> dset ''timestamp'' t b)\<rparr>)))"

definition push :: "dict \<Rightarrow> event_queue \<Rightarrow> unit res \<times> event_queue" where
  "push orig_event q =
     (let event = \<lparr>ev_id = next_event_id q, ev_body = ddel ''id'' orig_event\<rparr>;
          q1 = q\<lparr>next_event_id := next_event_id q + 1\<rparr>
      in case compute_full_event_type (ev_body event) of
           Inl e \<Rightarrow> (Inl e, q1)
         | Inr full_event_type \<Rightarrow>
             if compressible full_event_type
             then (case map_of (virtual_events q1) full_event_type of
                     None \<Rightarrow>
                       (Inr (), q1\<lparr>virtual_events := dset full_event_type event (virtual_events q1)\<rparr>)
                   | Some virtual_event \<Rightarrow>
                       (let (r, v) = merge_messages virtual_event event
                        in (r, q1\<lparr>virtual_events := dset full_event_type v (virtual_events q1)\<rparr>)))
             else (Inr (), q1\<lparr>equeue := equeue q1 @ [event]\<rparr>))"

definition queue_empty :: "event_queue \<Rightarrow> bool" where
  "queue_empty q \<longleftrightarrow> equeue q = [] \<and> virtual_events q = []"

definition pop :: "event_queue \<Rightarrow> (qevent \<times> event_queue) res" where
  "pop q = (case equeue q of [] \<Rightarrow> Inl IndexError | e # es \<Rightarrow> Inr (e, q\<lparr>equeue := es\<rparr>))"

text \<open>The loop of \<open>prune\<close>: the events left and the newest pruned id.\<close>

fun prune_loop :: "int \<Rightarrow> qevent list \<Rightarrow> int option \<Rightarrow> qevent list \<times> int option" where
  "prune_loop through_id [] newest = ([], newest)"
| "prune_loop through_id (e # es) newest =
     (if ev_id e \<le> through_id then prune_loop through_id es (Some (ev_id e)) else (e # es, newest))"

definition prune :: "int \<Rightarrow> event_queue \<Rightarrow> event_queue" where
  "prune through_id q =
     (let (es, newest) = prune_loop through_id (equeue q) (newest_pruned_id q)
      in q\<lparr>equeue := es, newest_pruned_id := newest\<rparr>)"

definition virtual_id_map :: "(string \<times> qevent) list \<Rightarrow> (int \<times> qevent) list" where
  "virtual_id_map vs = fold (\<lambda>kv m. AList.update (ev_id (snd kv)) (snd kv) m) vs []"

fun merge_virtual :: "qevent list \<Rightarrow> qevent list \<Rightarrow> qevent list" where
  "merge_virtual vs [] = vs"
| "merge_virtual vs (e # es) =
     takeWhile (\<lambda>v. ev_id v < ev_id e) vs @ e # merge_virtual (dropWhile (\<lambda>v. ev_id v < ev_id e) vs) es"

definition merged_contents :: "event_queue \<Rightarrow> qevent list" where
  "merged_contents q =
     (let m = virtual_id_map (virtual_events q);
          virtual_ids = sort (map fst m)
      in merge_virtual (map (\<lambda>i. the (map_of m i)) virtual_ids) (equeue q))"

definition prune_internal_data :: "qevent list \<Rightarrow> qevent list" where
  \<comment> \<open>every queued event has a type: \<open>push\<close> has computed it\<close>
  "prune_internal_data events =
     map (\<lambda>e. if map_of (ev_body e) ''type'' = Some (PStr ''message'') \<and> has_key (ev_body e) ''internal_data''
              then e\<lparr>ev_body := ddel ''internal_data'' (ev_body e)\<rparr> else e) events"

definition contents :: "bool \<Rightarrow> event_queue \<Rightarrow> qevent list \<times> event_queue" where
  "contents include_internal_data q =
     (let cs = merged_contents q;
          q' = q\<lparr>virtual_events := [], equeue := cs\<rparr>
      in (if include_internal_data then cs else prune_internal_data cs, q'))"

text \<open>\<open>to_dict\<close> and \<open>from_dict\<close>, with the dictionary as a record of optional entries.\<close>

record queue_dict =
  qd_id :: string
  qd_next_event_id :: int
  qd_queue :: "qevent list"
  qd_virtual_events :: "(string \<times> qevent) list option"
  qd_newest_pruned_id :: "int option"

definition queue_to_dict :: "event_queue \<Rightarrow> queue_dict" where
  "queue_to_dict q = \<lparr>qd_id = queue_id q, qd_next_event_id = next_event_id q, qd_queue = equeue q,
     qd_virtual_events = Some (virtual_events q), qd_newest_pruned_id = newest_pruned_id q\<rparr>"

definition queue_from_dict :: "queue_dict \<Rightarrow> event_queue" where
  "queue_from_dict d = (new_event_queue (qd_id d))\<lparr>
     next_event_id := qd_next_event_id d,
     newest_pruned_id := qd_newest_pruned_id d,
     equeue := qd_queue d,
     virtual_events := (case qd_virtual_events d of None \<Rightarrow> [] | Some v \<Rightarrow> v)\<rparr>"

lemma queue_dict_roundtrip: "queue_from_dict (queue_to_dict q) = q"
  by (simp add: queue_from_dict_def queue_to_dict_def new_event_queue_def)

section \<open>Which events a queue takes\<close>

text \<open>
  A well-formed event has a computable type and, when it is compressible, a message list: then
  \<open>push\<close> does not raise.
\<close>

definition wf_event :: "dict \<Rightarrow> bool" where
  "wf_event ev \<longleftrightarrow>
     (case compute_full_event_type (ddel ''id'' ev) of
        Inl _ \<Rightarrow> False
      | Inr t \<Rightarrow> compressible t \<longrightarrow> (\<exists>ms. map_of ev ''messages'' = Some (PList ms)))"

definition wf_qevent :: "qevent \<Rightarrow> bool" where
  "wf_qevent e \<longleftrightarrow> wf_event (ev_body e) \<and> \<not> has_key (ev_body e) ''id''"

definition full_type :: "dict \<Rightarrow> string" where
  "full_type b = (case compute_full_event_type (ddel ''id'' b) of Inr t \<Rightarrow> t | Inl _ \<Rightarrow> [])"

fun py_elems :: "py option \<Rightarrow> py list" where
  "py_elems (Some (PList xs)) = xs"
| "py_elems _ = []"

text \<open>
  What an event tells its client: a compressible event, one fact per message id; any other
  event, itself.
\<close>

definition facts :: "dict \<Rightarrow> (string \<times> py) list" where
  "facts b = (if compressible (full_type b)
     then map (\<lambda>m. (full_type b, m)) (py_elems (map_of b ''messages''))
     else [(full_type b, PDict (ddel ''id'' b))])"

definition wf_queue :: "event_queue \<Rightarrow> bool" where
  "wf_queue q \<longleftrightarrow>
     sorted_wrt (<) (map ev_id (equeue q)) \<and>
     (\<forall>e\<in>set (equeue q). ev_id e < next_event_id q \<and> wf_qevent e) \<and>
     distinct (map fst (virtual_events q)) \<and>
     distinct (map (\<lambda>kv. ev_id (snd kv)) (virtual_events q)) \<and>
     (\<forall>(k, v)\<in>set (virtual_events q). ev_id v < next_event_id q \<and> wf_qevent v \<and>
        full_type (ev_body v) = k \<and> compressible k \<and> ev_id v \<notin> ev_id ` set (equeue q))"


section \<open>Well-formed queues stay well formed\<close>

lemma str_at_cong: "map_of b k = map_of b' k \<Longrightarrow> str_at b k = str_at b' k"
  by (simp add: str_at_def getk_def)

lemma compute_full_event_type_cong:
  assumes "\<And>k. k \<in> {''type'', ''all'', ''flag'', ''operation''} \<Longrightarrow> map_of b k = map_of b' k"
  shows "compute_full_event_type b = compute_full_event_type b'"
proof -
  have "str_at b ''type'' = str_at b' ''type''" "str_at b ''flag'' = str_at b' ''flag''"
    "str_at b ''operation'' = str_at b' ''operation''" "getk b ''type'' = getk b' ''type''"
    "getk b ''all'' = getk b' ''all''"
    using assms by (auto intro!: str_at_cong simp: getk_def)
  then show ?thesis by (simp add: compute_full_event_type_def cong: if_cong)
qed

lemma full_event_type_ddel_id [simp]:
  "compute_full_event_type (ddel ''id'' b) = compute_full_event_type b"
  by (rule compute_full_event_type_cong) auto

lemma full_type_Inr: "compute_full_event_type b = Inr t \<Longrightarrow> full_type b = t"
  by (simp add: full_type_def)

lemma full_type_ddel_id [simp]: "full_type (ddel ''id'' b) = full_type b"
  by (simp add: full_type_def)

lemma wf_event_iff: "wf_event b \<longleftrightarrow>
   (\<exists>t. compute_full_event_type b = Inr t \<and> (compressible t \<longrightarrow> (\<exists>ms. map_of b ''messages'' = Some (PList ms))))"
  by (auto simp: wf_event_def split: sum.splits)

lemma wf_event_ddel_id [simp]: "wf_event (ddel ''id'' b) = wf_event b"
  by (simp add: wf_event_iff)

lemma facts_ddel_id [simp]: "facts (ddel ''id'' b) = facts b"
  by (simp add: facts_def delete_idem)

text \<open>Merging a compressible event into the virtual event of its type.\<close>

lemma merge_messages_ok:
  assumes "wf_event (ev_body v)" "wf_event (ev_body e)" "\<not> has_key (ev_body v) ''id''"
    and "full_type (ev_body v) = t" "full_type (ev_body e) = t" "compressible t"
  obtains v' where "merge_messages v e = (Inr (), v')" "ev_id v' = ev_id e"
    "wf_qevent v'" "full_type (ev_body v') = t"
    "facts (ev_body v') = facts (ev_body v) @ facts (ev_body e)"
proof -
  from assms obtain ms where ms: "map_of (ev_body v) ''messages'' = Some (PList ms)"
    by (auto simp: wf_event_iff dest: full_type_Inr)
  from assms obtain ms' where ms': "map_of (ev_body e) ''messages'' = Some (PList ms')"
    by (auto simp: wf_event_iff dest: full_type_Inr)
  define b where "b = dset ''messages'' (PList (ms @ ms')) (ev_body v)"
  define b' where "b' = (case map_of (ev_body e) ''timestamp'' of None \<Rightarrow> b | Some x \<Rightarrow> dset ''timestamp'' x b)"
  define v' where "v' = v\<lparr>ev_id := ev_id e, ev_body := b'\<rparr>"
  have ty: "compute_full_event_type b' = compute_full_event_type (ev_body v)"
    by (rule compute_full_event_type_cong) (auto simp: b'_def b_def split: option.splits)
  then have ft: "full_type b' = t" using assms(4) by (simp add: full_type_def)
  have msb: "map_of b' ''messages'' = Some (PList (ms @ ms'))"
    by (auto simp: b'_def b_def split: option.splits)
  have "merge_messages v e = (Inr (), v')"
    by (simp add: merge_messages_def list_at_Inr ms ms' v'_def b'_def b_def Let_def split: option.split)
  moreover have "ev_id v' = ev_id e" by (simp add: v'_def)
  moreover have "\<not> has_key b' ''id''"
    using assms(3) by (auto simp: b'_def b_def split: option.splits)
  then have "wf_qevent v'"
    using assms(1) msb ty by (auto simp: wf_qevent_def v'_def wf_event_iff)
  moreover have "full_type (ev_body v') = t" by (simp add: v'_def ft)
  moreover have "facts (ev_body v') = facts (ev_body v) @ facts (ev_body e)"
    using assms by (simp add: facts_def v'_def ft msb ms ms')
  ultimately show thesis by (rule that)
qed

lemma merge_virtual_mset: "mset (merge_virtual vs es) = mset vs + mset es"
proof (induction vs es rule: merge_virtual.induct)
  case (2 vs e es)
  have "mset vs = mset (takeWhile (\<lambda>v. ev_id v < ev_id e) vs) + mset (dropWhile (\<lambda>v. ev_id v < ev_id e) vs)"
    by (metis mset_append takeWhile_dropWhile_id)
  with 2 show ?case by simp
qed simp

lemma merge_virtual_Nil [simp]: "merge_virtual [] es = es"
  by (induction es) simp_all

lemma merge_virtual_set: "set (merge_virtual vs es) = set vs \<union> set es"
  by (metis merge_virtual_mset set_mset_mset set_mset_union)

lemma sorted_dropWhile_ge:
  assumes "sorted_wrt (<) (map ev_id vs)" "v \<in> set (dropWhile (\<lambda>v. ev_id v < i) vs)"
  shows "i \<le> ev_id v"
  using assms by (induction vs) (auto split: if_splits)

lemma sorted_wrt_glue:
  fixes f :: "'a \<Rightarrow> int"
  assumes "sorted_wrt (<) (map f xs)" "sorted_wrt (<) (map f ys)"
    and "\<And>x. x \<in> set xs \<Longrightarrow> f x < f e" "\<And>y. y \<in> set ys \<Longrightarrow> f e < f y"
  shows "sorted_wrt (<) (map f (xs @ e # ys))"
  using assms by (fastforce simp: sorted_wrt_append)

lemma merge_virtual_sorted:
  assumes "sorted_wrt (<) (map ev_id vs)" "sorted_wrt (<) (map ev_id es)"
    and "ev_id ` set vs \<inter> ev_id ` set es = {}"
  shows "sorted_wrt (<) (map ev_id (merge_virtual vs es))"
  using assms
proof (induction vs es rule: merge_virtual.induct)
  case (2 vs e es)
  let ?t = "takeWhile (\<lambda>v. ev_id v < ev_id e) vs" and ?d = "dropWhile (\<lambda>v. ev_id v < ev_id e) vs"
  have split: "vs = ?t @ ?d" by simp
  have t: "sorted_wrt (<) (map ev_id ?t)" and d: "sorted_wrt (<) (map ev_id ?d)"
    using 2(2) by (metis split map_append sorted_wrt_append)+
  have dgt: "\<forall>v\<in>set ?d. ev_id e < ev_id v"
  proof
    fix v assume v: "v \<in> set ?d"
    then have "ev_id e \<le> ev_id v" using sorted_dropWhile_ge [OF 2(2)] by blast
    moreover have "v \<in> set vs" using v by (blast dest: set_dropWhileD)
    with 2(4) have "ev_id v \<noteq> ev_id e" by (force simp: image_iff)
    ultimately show "ev_id e < ev_id v" by simp
  qed
  have tlt: "\<forall>v\<in>set ?t. ev_id v < ev_id e" by (auto dest: set_takeWhileD)
  have egt: "\<forall>v\<in>set es. ev_id e < ev_id v" using 2(3) by auto
  have dis: "ev_id ` set ?d \<inter> ev_id ` set es = {}"
    using 2(4) by (auto dest: set_dropWhileD)
  have rest: "\<forall>v\<in>set (merge_virtual ?d es). ev_id e < ev_id v"
    using dgt egt by (auto simp: merge_virtual_set)
  from 2(1) [OF d _ dis] 2(3) have "sorted_wrt (<) (map ev_id (merge_virtual ?d es))" by simp
  with t tlt rest show ?case
    unfolding merge_virtual.simps by (intro sorted_wrt_glue) auto
qed simp


lemma virtual_id_map_distinct:
  assumes "distinct (map (\<lambda>kv. ev_id (snd kv)) vs)"
  shows "virtual_id_map vs = map (\<lambda>kv. (ev_id (snd kv), snd kv)) vs"
proof -
  have upd: "AList.update k v m = m @ [(k, v)]" if "k \<notin> fst ` set m" for k :: int and v :: qevent and m
    using that by (induction m) auto
  have "fold (\<lambda>kv m. AList.update (ev_id (snd kv)) (snd kv) m) vs m =
      m @ map (\<lambda>kv. (ev_id (snd kv), snd kv)) vs"
    if "fst ` set m \<inter> (\<lambda>kv. ev_id (snd kv)) ` set vs = {}"
       "distinct (map (\<lambda>kv. ev_id (snd kv)) vs)" for m
    using that by (induction vs arbitrary: m) (auto simp: upd)
  from this [of "[]"] assms show ?thesis by (simp add: virtual_id_map_def)
qed

definition sorted_virtual :: "event_queue \<Rightarrow> qevent list" where
  "sorted_virtual q = (let m = virtual_id_map (virtual_events q)
     in map (\<lambda>i. the (map_of m i)) (sort (map fst m)))"

lemma merged_contents_sorted_virtual: "merged_contents q = merge_virtual (sorted_virtual q) (equeue q)"
  by (simp add: merged_contents_def sorted_virtual_def Let_def)

lemma map_of_self:
  assumes "distinct (map f vs)"
  shows "map (\<lambda>i. the (map_of (map (\<lambda>v. (f v, v)) vs) i)) (map f vs) = vs"
proof -
  have "map_of (map (\<lambda>v. (f v, v)) vs) (f v) = Some v" if "v \<in> set vs" for v
    using that assms by (induction vs) (force simp: image_iff)+
  then show ?thesis by (simp add: map_idI)
qed

lemma sorted_virtual_props:
  assumes "wf_queue q"
  shows "mset (sorted_virtual q) = mset (map snd (virtual_events q))"
    and "sorted_wrt (<) (map ev_id (sorted_virtual q))"
proof -
  let ?vs = "map snd (virtual_events q)"
  have d: "distinct (map ev_id ?vs)" using assms by (simp add: wf_queue_def comp_def)
  have m: "virtual_id_map (virtual_events q) = map (\<lambda>v. (ev_id v, v)) ?vs"
    using d by (simp add: virtual_id_map_distinct comp_def)
  have sv: "sorted_virtual q = map (\<lambda>i. the (map_of (map (\<lambda>v. (ev_id v, v)) ?vs) i)) (sort (map ev_id ?vs))"
    by (simp add: sorted_virtual_def m comp_def)
  have "mset (sorted_virtual q) = mset (map (\<lambda>i. the (map_of (map (\<lambda>v. (ev_id v, v)) ?vs) i)) (map ev_id ?vs))"
    unfolding sv mset_map by (simp add: image_mset.compositionality comp_def)
  then show ms: "mset (sorted_virtual q) = mset ?vs" by (simp only: map_of_self [OF d])
  have self: "ev_id (the (map_of (map (\<lambda>v. (ev_id v, v)) ?vs) i)) = i" if i: "i \<in> ev_id ` set ?vs" for i
  proof -
    from i obtain v where "v \<in> set ?vs" "i = ev_id v" by auto
    then have "map_of (map (\<lambda>v. (ev_id v, v)) ?vs) i = Some v"
      using d by (intro map_of_is_SomeI) (auto simp: comp_def)
    then show ?thesis using \<open>i = ev_id v\<close> by simp
  qed
  have "map ev_id (sorted_virtual q) =
      map (\<lambda>i. ev_id (the (map_of (map (\<lambda>v. (ev_id v, v)) ?vs) i))) (sort (map ev_id ?vs))"
    unfolding sv by (simp add: comp_def)
  also have "\<dots> = sort (map ev_id ?vs)"
    by (rule map_idI, rule self) auto
  finally have "map ev_id (sorted_virtual q) = sort (map ev_id ?vs)" .
  moreover have "sorted_wrt (<) (sort (map ev_id ?vs))"
    using d by (simp add: strict_sorted_iff)
  ultimately show "sorted_wrt (<) (map ev_id (sorted_virtual q))" by simp
qed

lemma merged_contents_props:
  assumes "wf_queue q"
  shows "mset (merged_contents q) = mset (map snd (virtual_events q)) + mset (equeue q)"
    and "sorted_wrt (<) (map ev_id (merged_contents q))"
    and "set (merged_contents q) = snd ` set (virtual_events q) \<union> set (equeue q)"
proof -
  have set: "set (sorted_virtual q) = snd ` set (virtual_events q)"
    using sorted_virtual_props(1) [OF assms] by (metis list.set_map set_mset_mset)
  show "mset (merged_contents q) = mset (map snd (virtual_events q)) + mset (equeue q)"
    by (simp add: merged_contents_sorted_virtual merge_virtual_mset sorted_virtual_props(1) [OF assms])
  show "set (merged_contents q) = snd ` set (virtual_events q) \<union> set (equeue q)"
    by (simp add: merged_contents_sorted_virtual merge_virtual_set set)
  have "ev_id ` set (sorted_virtual q) \<inter> ev_id ` set (equeue q) = {}"
    using assms unfolding set wf_queue_def by fastforce
  with assms show "sorted_wrt (<) (map ev_id (merged_contents q))"
    unfolding merged_contents_sorted_virtual
    by (intro merge_virtual_sorted sorted_virtual_props) (auto simp: wf_queue_def)
qed

lemma wf_new_queue [simp]: "wf_queue (new_event_queue i)"
  by (simp add: wf_queue_def new_event_queue_def)

lemma wf_contents:
  assumes "wf_queue q"
  shows "wf_queue (snd (contents b q))"
  using assms merged_contents_props [OF assms]
  by (auto simp: contents_def Let_def wf_queue_def)

lemma prune_loop_filter:
  assumes "sorted_wrt (<) (map ev_id es)"
  shows "fst (prune_loop i es n) = filter (\<lambda>e. i < ev_id e) es"
  using assms
proof (induction i es n rule: prune_loop.induct)
  case (2 i e es n)
  then show ?case by (auto intro!: filter_True [symmetric])
qed simp

lemma equeue_prune:
  assumes "wf_queue q"
  shows "equeue (prune i q) = filter (\<lambda>e. i < ev_id e) (equeue q)"
  using assms prune_loop_filter [of "equeue q" i "newest_pruned_id q"]
  by (cases "prune_loop i (equeue q) (newest_pruned_id q)") (simp add: prune_def wf_queue_def)

lemma prune_simps [simp]:
  "virtual_events (prune i q) = virtual_events q" "next_event_id (prune i q) = next_event_id q"
  "queue_id (prune i q) = queue_id q"
  by (simp_all add: prune_def split: prod.splits)

lemma sorted_wrt_map_filter: "sorted_wrt P (map f xs) \<Longrightarrow> sorted_wrt P (map f (filter Q xs))"
  by (induction xs) auto

lemma wf_prune:
  assumes "wf_queue q"
  shows "wf_queue (prune i q)"
  using assms by (auto simp: wf_queue_def equeue_prune [OF assms] sorted_wrt_map_filter)

text \<open>\<open>prune\<close> removes the prefix it acknowledges and remembers the last id of it.\<close>

lemma newest_pruned_prune:
  assumes "wf_queue q"
  shows "newest_pruned_id (prune i q) = (let gone = filter (\<lambda>e. ev_id e \<le> i) (equeue q)
     in if gone = [] then newest_pruned_id q else Some (ev_id (last gone)))"
proof -
  have "snd (prune_loop i es n) = (if filter (\<lambda>e. ev_id e \<le> i) es = [] then n
      else Some (ev_id (last (filter (\<lambda>e. ev_id e \<le> i) es))))"
    if "sorted_wrt (<) (map ev_id es)" for es n
    using that
  proof (induction i es n rule: prune_loop.induct)
    case (2 i e es n)
    then show ?case by (auto simp: filter_empty_conv)
  qed simp
  from this [of "equeue q" "newest_pruned_id q"] assms show ?thesis
    by (cases "prune_loop i (equeue q) (newest_pruned_id q)") (simp add: prune_def wf_queue_def)
qed


section \<open>The contract of the event log\<close>

text \<open>
  Seen from the protocol, the queue is a log of entries, each an id and the facts the client
  learns from it.  \<open>facts_after i l\<close> are the facts a client that has read through \<open>i\<close> has
  still to learn.
\<close>

definition facts_after :: "int \<Rightarrow> (int \<times> 'f list) list \<Rightarrow> 'f multiset" where
  "facts_after i l = mset (concat (map snd (filter (\<lambda>p. i < fst p) l)))"

lemma facts_after_sum: "facts_after i l = (\<Sum>p\<in>#mset l. if i < fst p then mset (snd p) else {#})"
  by (induction l) (auto simp: facts_after_def)

lemma facts_after_mset: "mset l = mset l' \<Longrightarrow> facts_after i l = facts_after i l'"
  by (simp add: facts_after_sum)

lemma facts_after_append [simp]: "facts_after i (l @ l') = facts_after i l + facts_after i l'"
  by (simp add: facts_after_def)

lemma facts_after_Cons [simp]:
  "facts_after i [] = {#}" "facts_after i (p # l) = (if i < fst p then mset (snd p) else {#}) + facts_after i l"
  by (simp_all add: facts_after_def)

lemma facts_after_none: "(\<And>p. p \<in> set l \<Longrightarrow> fst p \<le> i) \<Longrightarrow> facts_after i l = {#}"
  by (induction l) (force simp: facts_after_def)+

text \<open>
  A client of the protocol: events are pushed while it polls with the id of the last event
  it has read; the answer to a poll can be lost on the way.
\<close>

datatype 'e log_op = Push 'e | Poll | LostPoll

definition last_id :: "int \<Rightarrow> (int \<times> 'f list) list \<Rightarrow> int" where
  "last_id i l = (if l = [] then i else fst (last l))"

fun log_step :: "('e \<Rightarrow> 'q \<Rightarrow> 'q) \<Rightarrow> (int \<Rightarrow> 'q \<Rightarrow> 'q) \<Rightarrow> ('q \<Rightarrow> 'q) \<Rightarrow> ('q \<Rightarrow> (int \<times> 'f list) list) \<Rightarrow>
    'e log_op \<Rightarrow> 'q \<times> int \<times> (int \<times> 'f list) list \<Rightarrow> 'q \<times> int \<times> (int \<times> 'f list) list" where
  "log_step add ack drain entries (Push e) (q, i, got) = (add e q, i, got)"
| "log_step add ack drain entries Poll (q, i, got) =
     (let q' = ack i q in (drain q', last_id i (entries q'), got @ entries q'))"
| "log_step add ack drain entries LostPoll (q, i, got) = (drain (ack i q), i, got)"

fun pushed :: "('e \<Rightarrow> 'f list) \<Rightarrow> 'e log_op list \<Rightarrow> 'f list" where
  "pushed fs [] = []"
| "pushed fs (Push e # ops) = fs e @ pushed fs ops"
| "pushed fs (_ # ops) = pushed fs ops"

lemma pushed_append: "pushed fs (xs @ ys) = pushed fs xs @ pushed fs ys"
  by (induction fs xs rule: pushed.induct) auto

locale event_log =
  fixes ok :: "'q \<Rightarrow> bool"
    and fresh :: "'q \<Rightarrow> int"
    and settled :: "int \<Rightarrow> 'q \<Rightarrow> bool"
    and entries :: "'q \<Rightarrow> (int \<times> 'f list) list"
    and okev :: "'e \<Rightarrow> bool"
    and facts_of :: "'e \<Rightarrow> 'f list"
    and add :: "'e \<Rightarrow> 'q \<Rightarrow> 'q"
    and ack :: "int \<Rightarrow> 'q \<Rightarrow> 'q"
    and drain :: "'q \<Rightarrow> 'q"
  assumes entries_sorted: "ok q \<Longrightarrow> sorted_wrt (<) (map fst (entries q))"
    and entries_fresh: "ok q \<Longrightarrow> p \<in> set (entries q) \<Longrightarrow> fst p < fresh q"
    and ok_add: "ok q \<Longrightarrow> okev e \<Longrightarrow> ok (add e q)"
    and ok_ack: "ok q \<Longrightarrow> ok (ack i q)"
    and ok_drain: "ok q \<Longrightarrow> ok (drain q)"
    and fresh_add: "fresh (add e q) = fresh q + 1"
    and fresh_ack: "fresh (ack i q) = fresh q"
    and fresh_drain: "fresh (drain q) = fresh q"
    and settled_add: "ok q \<Longrightarrow> okev e \<Longrightarrow> settled i q \<Longrightarrow> i < fresh q \<Longrightarrow> settled i (add e q)"
    and settled_drain: "settled i (drain q)"
    and entries_drain: "ok q \<Longrightarrow> entries (drain q) = entries q"
    and entries_ack: "ok q \<Longrightarrow> settled i q \<Longrightarrow> entries (ack i q) = filter (\<lambda>p. i < fst p) (entries q)"
    and facts_add: "ok q \<Longrightarrow> okev e \<Longrightarrow> settled i q \<Longrightarrow> i < fresh q \<Longrightarrow>
      facts_after i (entries (add e q)) = facts_after i (entries q) + mset (facts_of e)"
begin

definition sound :: "'f multiset \<Rightarrow> 'q \<times> int \<times> (int \<times> 'f list) list \<Rightarrow> bool" where
  "sound all = (\<lambda>(q, i, got). ok q \<and> settled i q \<and> i < fresh q \<and>
     mset (concat (map snd got)) + facts_after i (entries q) = all \<and>
     sorted_wrt (<) (map fst got) \<and> (\<forall>p\<in>set got. fst p \<le> i))"

lemma read_all:
  assumes "ok q"
  shows "facts_after (last_id i (entries q)) (entries q) = {#}"
proof (cases "entries q = []")
  case False
  then obtain xs p where x: "entries q = xs @ [p]" by (metis rev_exhaust)
  with entries_sorted [OF assms] show ?thesis
    by (intro facts_after_none) (auto simp: last_id_def sorted_wrt_append less_imp_le)
qed (simp add: facts_after_def)

lemma last_id_fresh:
  assumes "ok q" "i < fresh q"
  shows "last_id i (entries q) < fresh q"
  using assms entries_fresh [OF assms(1), of "last (entries q)"] by (simp add: last_id_def)

lemma sound_poll:
  assumes s: "sound all (q, i, got)"
  shows "sound all (log_step add ack drain entries Poll (q, i, got))"
    and "mset (concat (map snd (snd (snd (log_step add ack drain entries Poll (q, i, got)))))) = all"
proof -
  let ?q = "ack i q"
  have ok: "ok ?q" using s by (simp add: sound_def ok_ack)
  have e: "entries ?q = filter (\<lambda>p. i < fst p) (entries q)"
    using s by (simp add: sound_def entries_ack)
  have all: "mset (concat (map snd (got @ entries ?q))) = all"
    using s unfolding e sound_def facts_after_def by simp
  have le: "fst p \<le> last_id i (entries ?q)" if "p \<in> set got \<union> set (entries ?q)" for p
  proof (cases "entries ?q = []")
    case True
    then show ?thesis using that s by (auto simp: sound_def last_id_def)
  next
    case False
    then obtain xs l where x: "entries ?q = xs @ [l]" by (metis rev_exhaust)
    moreover have "l \<in> set (entries ?q)" by (simp add: x)
    then have "i < fst l" by (simp add: e)
    moreover have "\<forall>p\<in>set xs. fst p < fst l" using entries_sorted [OF ok] x by (simp add: sorted_wrt_append)
    ultimately show ?thesis using that s by (fastforce simp: sound_def last_id_def)
  qed
  have sort: "sorted_wrt (<) (map fst (got @ entries ?q))"
    using s entries_sorted [OF ok] unfolding e by (fastforce simp: sound_def sorted_wrt_append)
  show "sound all (log_step add ack drain entries Poll (q, i, got))"
    using ok le sort all s last_id_fresh [OF ok, of i]
    by (simp add: sound_def Let_def ok_drain settled_drain fresh_drain entries_drain read_all
        last_id_fresh fresh_ack)
  show "mset (concat (map snd (snd (snd (log_step add ack drain entries Poll (q, i, got)))))) = all"
    using all by (simp add: Let_def)
qed

lemma sound_lost_poll:
  "sound all (q, i, got) \<Longrightarrow> sound all (log_step add ack drain entries LostPoll (q, i, got))"
  by (auto simp: sound_def ok_ack ok_drain settled_drain fresh_ack fresh_drain entries_drain
      entries_ack facts_after_def)

lemma sound_push:
  "sound all (q, i, got) \<Longrightarrow> okev e \<Longrightarrow>
     sound (all + mset (facts_of e)) (log_step add ack drain entries (Push e) (q, i, got))"
  by (auto simp: sound_def ok_add settled_add fresh_add facts_add)

lemma sound_run:
  assumes "sound all s" "\<And>e. Push e \<in> set ops \<Longrightarrow> okev e"
  shows "sound (all + mset (pushed facts_of ops)) (fold (log_step add ack drain entries) ops s)"
  using assms
proof (induction ops arbitrary: all s)
  case (Cons oper ops)
  obtain q i got where s: "s = (q, i, got)" by (metis prod_cases3)
  show ?case
  proof (cases oper)
    case (Push e)
    then show ?thesis
      using Cons.IH [of "all + mset (facts_of e)"] sound_push [of all q i got e] Cons.prems s
      by (simp add: ac_simps)
  next
    case Poll
    with Cons sound_poll(1) [of all q i got] s show ?thesis by (simp del: log_step.simps)
  next
    case LostPoll
    with Cons sound_lost_poll [of all q i got] s show ?thesis by (simp del: log_step.simps)
  qed
qed simp

text \<open>Exactly once: after a poll that arrives, the client has learnt every fact pushed, once.\<close>

lemma exactly_once:
  assumes "ok q" "settled i q" "i < fresh q" "facts_after i (entries q) = {#}"
    and "\<And>e. Push e \<in> set ops \<Longrightarrow> okev e"
    and "fold (log_step add ack drain entries) (ops @ [Poll]) (q, i, []) = (q', i', got)"
  shows "mset (concat (map snd got)) = mset (pushed facts_of ops) \<and> sorted_wrt (<) (map fst got)"
proof -
  have "sound {#} (q, i, [])" using assms(1-4) by (simp add: sound_def)
  from sound_run [OF this, of ops] assms(5)
  have s: "sound (mset (pushed facts_of ops)) (fold (log_step add ack drain entries) ops (q, i, []))"
    by simp
  obtain q1 i1 got1 where m: "fold (log_step add ack drain entries) ops (q, i, []) = (q1, i1, got1)"
    by (metis prod_cases3)
  from sound_poll [OF s [unfolded m]] m assms(6) show ?thesis
    by (simp del: log_step.simps) (auto simp: sound_def)
qed

end


section \<open>The queue is such a log\<close>

definition entry :: "qevent \<Rightarrow> int \<times> (string \<times> py) list" where
  "entry e = (ev_id e, facts (ev_body e))"

definition entries :: "event_queue \<Rightarrow> (int \<times> (string \<times> py) list) list" where
  "entries q = map entry (merged_contents q)"

definition unmerged_after :: "int \<Rightarrow> event_queue \<Rightarrow> bool" where
  "unmerged_after i q \<longleftrightarrow> (\<forall>kv\<in>set (virtual_events q). i < ev_id (snd kv))"

abbreviation fst_entry :: "qevent \<Rightarrow> int" where
  "fst_entry e \<equiv> fst (entry e)"

lemma fst_entry [simp]: "fst (entry e) = ev_id e" "snd (entry e) = facts (ev_body e)"
  by (simp_all add: entry_def)

lemma facts_after_entries:
  assumes "wf_queue q"
  shows "facts_after i (entries q) =
    facts_after i (map entry (map snd (virtual_events q))) + facts_after i (map entry (equeue q))"
proof -
  have "mset (entries q) = mset (map entry (map snd (virtual_events q)) @ map entry (equeue q))"
    by (simp add: entries_def merged_contents_props(1) [OF assms] image_mset.compositionality comp_def)
  then have "facts_after i (entries q) =
      facts_after i (map entry (map snd (virtual_events q)) @ map entry (equeue q))"
    by (rule facts_after_mset)
  then show ?thesis by (simp add: facts_after_def)
qed

lemma facts_after_update:
  assumes "map_of m k = Some v" "i < ev_id v" "i < ev_id v'"
    and "facts (ev_body v') = facts (ev_body v) @ fs"
  shows "facts_after i (map entry (map snd (dset k v' m))) = facts_after i (map entry (map snd m)) + mset fs"
  using assms by (induction m) (auto simp: facts_after_def split: if_splits)

lemma facts_after_new:
  assumes "map_of m k = None" "i < ev_id e"
  shows "facts_after i (map entry (map snd (dset k e m))) =
    facts_after i (map entry (map snd m)) + mset (facts (ev_body e))"
  using assms by (induction m) (auto simp: facts_after_def split: if_splits)

lemma snd_set_dset: "set (AList.update k v m) \<subseteq> insert (k, v) (set m)"
  by (induction m) auto

lemma set_dset_distinct:
  "distinct (map fst m) \<Longrightarrow> set (AList.update k v m) = insert (k, v) {kv \<in> set m. fst kv \<noteq> k}"
  by (induction m) (auto simp: image_iff)

lemma distinct_dset_fst: "distinct (map fst m) \<Longrightarrow> distinct (map fst (AList.update k v m))"
  by (rule distinct_update)

lemma distinct_dset_ids:
  assumes "distinct (map (\<lambda>kv. g (snd kv)) m)" "g v \<notin> (\<lambda>kv. g (snd kv)) ` set m"
  shows "distinct (map (\<lambda>kv. g (snd kv)) (AList.update k v m))"
  using assms snd_set_dset [of k v] by (induction m) fastforce+

text \<open>A pushed event is accepted, and is in the log after every event the client has read.\<close>

lemma wf_queue_add_virtual:
  assumes q: "wf_queue q"
    and v: "ev_id v = next_event_id q" "wf_qevent v" "full_type (ev_body v) = t" "compressible t"
  shows "wf_queue (q\<lparr>next_event_id := next_event_id q + 1, virtual_events := dset t v (virtual_events q)\<rparr>)"
proof -
  have new: "ev_id v \<notin> (\<lambda>kv. ev_id (snd kv)) ` set (virtual_events q)" "ev_id v \<notin> ev_id ` set (equeue q)"
    using q v(1) by (auto simp: wf_queue_def)
  have ids: "distinct (map (\<lambda>kv. ev_id (snd kv)) (dset t v (virtual_events q)))"
    using q new(1) by (intro distinct_dset_ids) (auto simp: wf_queue_def)
  have vs: "case kv of (k, v') \<Rightarrow> ev_id v' < next_event_id q + 1 \<and> wf_qevent v' \<and>
      full_type (ev_body v') = k \<and> compressible k \<and> ev_id v' \<notin> ev_id ` set (equeue q)"
    if kv: "kv \<in> set (dset t v (virtual_events q))" for kv
  proof (cases "kv = (t, v)")
    case True
    with v new(2) show ?thesis by simp
  next
    case False
    with kv snd_set_dset [of t v "virtual_events q"] have "kv \<in> set (virtual_events q)" by blast
    with q show ?thesis unfolding wf_queue_def by fastforce
  qed
  have es: "\<forall>e\<in>set (equeue q). ev_id e < next_event_id q + 1 \<and> wf_qevent e"
    using q unfolding wf_queue_def by fastforce
  have keys: "distinct (map fst (dset t v (virtual_events q)))"
    and sorted: "sorted_wrt (<) (map ev_id (equeue q))"
    using q by (simp_all add: wf_queue_def distinct_dset_fst)
  show ?thesis
    unfolding wf_queue_def using vs es keys sorted ids by (intro conjI ballI) simp_all
qed


lemma push_step:
  assumes q: "wf_queue q" and e: "wf_event ev"
  shows "fst (push ev q) = Inr () \<and> wf_queue (snd (push ev q)) \<and>
    next_event_id (snd (push ev q)) = next_event_id q + 1 \<and>
    (\<forall>i. i < next_event_id q \<longrightarrow> unmerged_after i q \<longrightarrow>
       unmerged_after i (snd (push ev q)) \<and>
       facts_after i (entries (snd (push ev q))) = facts_after i (entries q) + mset (facts ev))"
proof -
  define b where "b = ddel ''id'' ev"
  define e' where "e' = \<lparr>ev_id = next_event_id q, ev_body = b\<rparr>"
  define q1 where "q1 = q\<lparr>next_event_id := next_event_id q + 1\<rparr>"
  from e obtain t where t: "compute_full_event_type ev = Inr t" by (auto simp: wf_event_iff)
  then have tb: "compute_full_event_type b = Inr t" by (simp add: b_def)
  have ft: "full_type b = t" "full_type ev = t" using t tb by (simp_all add: full_type_Inr)
  have we: "wf_qevent e'" using e by (simp add: e'_def b_def wf_qevent_def)
  have fb: "facts b = facts ev" by (simp add: b_def)
  note facts_q = facts_after_entries [OF q]
  have add: ?thesis
    if v: "ev_id v = next_event_id q" "wf_qevent v" "full_type (ev_body v) = t" "compressible t"
      and p: "push ev q = (Inr (), q1\<lparr>virtual_events := dset t v (virtual_events q)\<rparr>)"
      and f: "\<And>i. i < next_event_id q \<Longrightarrow> unmerged_after i q \<Longrightarrow>
        facts_after i (map entry (map snd (dset t v (virtual_events q)))) =
        facts_after i (map entry (map snd (virtual_events q))) + mset (facts ev)" for v
  proof -
    have w: "wf_queue (snd (push ev q))"
      using wf_queue_add_virtual [OF q v] p by (simp add: q1_def)
    have "unmerged_after i (snd (push ev q))" if "i < next_event_id q" "unmerged_after i q" for i
      using that p v(1) snd_set_dset [of t v "virtual_events q"] by (force simp: unmerged_after_def)
    with w p f show ?thesis
      by (simp add: facts_after_entries facts_q q1_def ac_simps)
  qed
  show ?thesis
  proof (cases "compressible t")
    case False
    then have p: "push ev q = (Inr (), q1\<lparr>equeue := equeue q @ [e']\<rparr>)"
      by (simp add: push_def b_def [symmetric] tb Let_def e'_def q1_def)
    have w: "wf_queue (snd (push ev q))"
      using q we unfolding p by (auto simp: wf_queue_def q1_def e'_def sorted_wrt_append)
    then show ?thesis
      using p fb by (auto simp: facts_after_entries facts_q q1_def e'_def unmerged_after_def ac_simps)
  next
    case True
    show ?thesis
    proof (cases "map_of (virtual_events q) t")
      case None
      show ?thesis
      proof (rule add [of e'])
        show "push ev q = (Inr (), q1\<lparr>virtual_events := dset t e' (virtual_events q)\<rparr>)"
          by (simp add: push_def b_def [symmetric] tb Let_def e'_def q1_def True None)
        show "facts_after i (map entry (map snd (dset t e' (virtual_events q)))) =
            facts_after i (map entry (map snd (virtual_events q))) + mset (facts ev)"
          if "i < next_event_id q" for i
          using that fb facts_after_new [OF None, of i e'] by (simp add: e'_def)
      qed (use True we ft in \<open>simp_all add: e'_def\<close>)
    next
      case (Some v)
      then have vm: "(t, v) \<in> set (virtual_events q)" by (rule map_of_SomeD)
      with q have wv: "wf_qevent v" "full_type (ev_body v) = t" by (auto simp: wf_queue_def)
      from merge_messages_ok [of v e' t] wv we ft True obtain v' where v':
        "merge_messages v e' = (Inr (), v')" "ev_id v' = ev_id e'" "wf_qevent v'"
        "full_type (ev_body v') = t" "facts (ev_body v') = facts (ev_body v) @ facts (ev_body e')"
        by (auto simp: wf_qevent_def e'_def)
      show ?thesis
      proof (rule add [of v'])
        show "push ev q = (Inr (), q1\<lparr>virtual_events := dset t v' (virtual_events q)\<rparr>)"
          using v'(1) by (simp add: push_def b_def [symmetric] tb Let_def e'_def q1_def True Some)
        show "facts_after i (map entry (map snd (dset t v' (virtual_events q)))) =
            facts_after i (map entry (map snd (virtual_events q))) + mset (facts ev)"
          if "i < next_event_id q" "unmerged_after i q" for i
          using that vm v' fb Some by (intro facts_after_update) (auto simp: unmerged_after_def e'_def)
      qed (use True v' in \<open>simp_all add: e'_def\<close>)
    qed
  qed
qed

lemma merge_virtual_filter:
  assumes "\<forall>v\<in>set vs. i < ev_id v" "sorted_wrt (<) (map ev_id es)"
  shows "merge_virtual vs (filter (\<lambda>e. i < ev_id e) es) = filter (\<lambda>e. i < ev_id e) (merge_virtual vs es)"
  using assms
proof (induction vs es rule: merge_virtual.induct)
  case (2 vs e es)
  show ?case
  proof (cases "i < ev_id e")
    case True
    have "filter (\<lambda>e. i < ev_id e) (takeWhile (\<lambda>v. ev_id v < ev_id e) vs) =
        takeWhile (\<lambda>v. ev_id v < ev_id e) vs"
      using 2(2) by (intro filter_True) (auto dest: set_takeWhileD)
    moreover have "\<forall>v\<in>set (dropWhile (\<lambda>v. ev_id v < ev_id e) vs). i < ev_id v"
      using 2(2) by (auto dest: set_dropWhileD)
    ultimately show ?thesis using 2 True by simp
  next
    case False
    with 2(2) have "takeWhile (\<lambda>v. ev_id v < ev_id e) vs = []" "dropWhile (\<lambda>v. ev_id v < ev_id e) vs = vs"
      by (cases vs; force)+
    with 2 False show ?thesis by simp
  qed
qed (simp add: filter_True)

lemma entries_prune:
  assumes "wf_queue q" "unmerged_after i q"
  shows "entries (prune i q) = filter (\<lambda>p. i < fst p) (entries q)"
proof -
  have "set (sorted_virtual q) = snd ` set (virtual_events q)"
    using sorted_virtual_props(1) [OF assms(1)] by (metis list.set_map set_mset_mset)
  with assms(2) have "\<forall>v\<in>set (sorted_virtual q). i < ev_id v" by (auto simp: unmerged_after_def)
  from merge_virtual_filter [OF this, of "equeue q"] assms(1)
  have "merged_contents (prune i q) = filter (\<lambda>e. i < ev_id e) (merged_contents q)"
    by (simp add: merged_contents_sorted_virtual equeue_prune sorted_virtual_def wf_queue_def)
  then show ?thesis by (simp add: entries_def filter_map comp_def)
qed

interpretation queue_log: event_log wf_queue next_event_id unmerged_after entries wf_event facts
  "\<lambda>ev q. snd (push ev q)" prune "\<lambda>q. snd (contents False q)"
proof
  fix q :: event_queue and i :: int
  assume q: "wf_queue q"
  show "sorted_wrt (<) (map fst (entries q))"
    using merged_contents_props(2) [OF q] by (simp add: entries_def comp_def)
  show "fst p < next_event_id q" if "p \<in> set (entries q)" for p
    using that q merged_contents_props(3) [OF q] by (fastforce simp: entries_def wf_queue_def)
  show "wf_queue (prune i q)" by (rule wf_prune) fact
  show "wf_queue (snd (contents False q))" by (rule wf_contents) fact
  show "entries (snd (contents False q)) = entries q"
    by (simp add: entries_def contents_def Let_def merged_contents_sorted_virtual sorted_virtual_def virtual_id_map_def)
  show "entries (prune i q) = filter (\<lambda>p. i < fst p) (entries q)" if "unmerged_after i q"
    by (rule entries_prune [OF q that])
  fix ev
  assume "wf_event ev"
  note step = push_step [OF q this]
  from step show "wf_queue (snd (push ev q))" by blast
  assume "unmerged_after i q" "i < next_event_id q"
  with step show "unmerged_after i (snd (push ev q))"
    and "facts_after i (entries (snd (push ev q))) = facts_after i (entries q) + mset (facts ev)" by blast+
qed (auto simp: push_def contents_def Let_def unmerged_after_def split: sum.splits option.splits prod.splits)


section \<open>Properties of the queue\<close>

definition client_step :: "dict log_op \<Rightarrow> event_queue \<times> int \<times> (int \<times> (string \<times> py) list) list \<Rightarrow>
    event_queue \<times> int \<times> (int \<times> (string \<times> py) list) list" where
  "client_step = log_step (\<lambda>ev q. snd (push ev q)) prune (\<lambda>q. snd (contents False q)) entries"

lemma entries_contents: "entries q = map entry (fst (contents True q))"
  by (simp add: entries_def contents_def Let_def)


definition flag_event :: "string \<Rightarrow> int list \<Rightarrow> dict" where
  "flag_event oper ms = [(''type'', PStr ''update_message_flags''), (''operation'', PStr oper),
     (''flag'', PStr ''read''), (''all'', PBool False), (''messages'', PList (map PInt ms))]"

lemmas queue_eval = push_def compute_full_event_type_def compressible_def startswith_def str_at_def
  getk_def flag_event_def new_event_queue_def Let_def merge_messages_def list_at_def
  contents_def merged_contents_def virtual_id_map_def prune_def facts_def full_type_def


text \<open>
  \<open>contents\<close> loses nothing and orders everything: the merged list holds the queued and the
  virtual events, strictly ordered by id; the queue then holds that list with no virtual event
  left, is still well formed, and a second call answers the same.
\<close>

theorem contents_exact:
  assumes "wf_queue q"
  shows "mset (fst (contents True q)) = mset (equeue q) + mset (map snd (virtual_events q)) \<and>
    sorted_wrt (<) (map ev_id (fst (contents True q))) \<and>
    equeue (snd (contents b q)) = fst (contents True q) \<and> virtual_events (snd (contents b q)) = [] \<and>
    wf_queue (snd (contents b q)) \<and>
    contents c (snd (contents b q)) = (fst (contents c q), snd (contents b q))"
  using merged_contents_props [OF assms] wf_contents [OF assms, of b]
  by (simp add: contents_def Let_def merged_contents_sorted_virtual sorted_virtual_def virtual_id_map_def ac_simps)

theorem contents_exact_witness:
  "mset (fst (contents True (snd (push (flag_event ''add'' [7]) (new_event_queue ''1:0'')))))
     = {#\<lparr>ev_id = 0, ev_body = flag_event ''add'' [7]\<rparr>#}"
proof -
  let ?q = "snd (push (flag_event ''add'' [7]) (new_event_queue ''1:0''))"
  have q: "?q = (new_event_queue ''1:0'')\<lparr>next_event_id := 1,
      virtual_events := [(''flags/add/read'', \<lparr>ev_id = 0, ev_body = flag_event ''add'' [7]\<rparr>)]\<rparr>"
    by (simp add: queue_eval)
  have "wf_queue ?q"
    by (rule push_step [THEN conjunct2, THEN conjunct1], rule wf_new_queue) (simp add: wf_event_iff queue_eval)
  from contents_exact [OF this] show ?thesis unfolding q by (simp add: new_event_queue_def)
qed

text \<open>
  \<open>prune\<close> removes exactly the events up to the acknowledged id, leaves the virtual events
  and the id counter alone, records the newest id it removed, and keeps the queue well formed.
\<close>

theorem prune_exact:
  assumes "wf_queue q"
  shows "equeue (prune i q) = filter (\<lambda>e. i < ev_id e) (equeue q) \<and>
    virtual_events (prune i q) = virtual_events q \<and> next_event_id (prune i q) = next_event_id q \<and>
    newest_pruned_id (prune i q) = (let gone = filter (\<lambda>e. ev_id e \<le> i) (equeue q)
      in if gone = [] then newest_pruned_id q else Some (ev_id (last gone))) \<and>
    wf_queue (prune i q)"
  by (simp add: assms equeue_prune newest_pruned_prune wf_prune)

theorem prune_exact_witness:
  "newest_pruned_id (prune 5 ((new_event_queue ''1:0'')\<lparr>next_event_id := 8,
     equeue := [\<lparr>ev_id = 3, ev_body = flag_event ''remove'' [1]\<rparr>, \<lparr>ev_id = 7, ev_body = flag_event ''remove'' [2]\<rparr>]\<rparr>)) = Some 3"
proof -
  let ?q = "(new_event_queue ''1:0'')\<lparr>next_event_id := 8,
     equeue := [\<lparr>ev_id = 3, ev_body = flag_event ''remove'' [1]\<rparr>, \<lparr>ev_id = 7, ev_body = flag_event ''remove'' [2]\<rparr>]\<rparr>"
  have "wf_queue ?q"
    by (simp add: wf_queue_def wf_qevent_def wf_event_iff queue_eval has_key_def)
  from prune_exact [OF this, of 5] show ?thesis by simp
qed

text \<open>
  C16. Pushing a well-formed event to a well-formed queue never raises, keeps the queue well
  formed, uses up one event id, and adds the event's facts, with an id above every id handed
  out before, to what the client has still to read.
\<close>

theorem push_accepts:
  assumes "wf_queue q" "wf_event ev"
  shows "fst (push ev q) = Inr () \<and> wf_queue (snd (push ev q)) \<and>
    next_event_id (snd (push ev q)) = next_event_id q + 1 \<and>
    (\<forall>i. i < next_event_id q \<longrightarrow> unmerged_after i q \<longrightarrow> unmerged_after i (snd (push ev q)) \<and>
       facts_after i (entries (snd (push ev q))) = facts_after i (entries q) + mset (facts ev))"
  by (rule push_step) fact+

theorem push_accepts_witness:
  "fst (push (flag_event ''add'' [1]) (new_event_queue ''1:0'')) = Inr ()"
  using push_accepts [of "new_event_queue ''1:0''" "flag_event ''add'' [1]"]
  by (simp add: wf_event_iff compute_full_event_type_def str_at_def getk_def flag_event_def)

text \<open>
  The compression does not respect the order of flag changes: message 1 is marked read,
  then unread, and then message 2 is marked read; the client is told of the unread first and
  then of both as read, so it ends with message 1 read.
\<close>

theorem flag_order_lost:
  "map entry (fst (contents True (fold (\<lambda>ev q. snd (push ev q))
      [flag_event ''add'' [1], flag_event ''remove'' [1], flag_event ''add'' [2]] (new_event_queue i)))) =
   [(1, [(''flags/remove/read'', PDict (flag_event ''remove'' [1]))]),
    (2, [(''flags/add/read'', PInt 1), (''flags/add/read'', PInt 2)])]"
  by (simp add: queue_eval entry_def)

end
