(* ===== verification/ClientDescriptor.thy ===== *)
theory ClientDescriptor
  imports EventQueue
begin

text \<open>
  The \<open>ClientDescriptor\<close> class of \<^verbatim>\<open>zerver/tornado/event_queue.py\<close>: one event queue of one
  user, the options its client registered with, and the long poll it may have open.  Here are
  its construction, its serialisation, and the tests that only read it; the methods that touch
  the server's tables are in the theory of the server state.
\<close>

definition DEFAULT_EVENT_QUEUE_TIMEOUT_SECS :: int where
  "DEFAULT_EVENT_QUEUE_TIMEOUT_SECS = 60 * 10"

definition MAX_QUEUE_TIMEOUT_SECS :: int where
  "MAX_QUEUE_TIMEOUT_SECS = 7 * 24 * 60 * 60"

definition create_heartbeat_event :: dict where
  "create_heartbeat_event = [(''type'', PStr ''heartbeat'')]"

text \<open>
  \<open>narrow_terms\<close> is the parsed narrow the predicate object closes over; \<open>timeout_handle\<close>
  names the pending heartbeat timer.
\<close>

record client_descriptor =
  user_profile_id :: int
  realm_id :: int
  current_handler_id :: "int option"
  current_client_name :: "string option"
  cqueue :: event_queue
  event_types :: "string list option"
  last_connection_time :: real
  apply_markdown :: bool
  client_gravatar :: bool
  slim_presence :: bool
  all_public_streams :: bool
  client_type_name :: string
  timeout_handle :: "nat option"
  narrow :: "string list list"
  narrow_terms :: "narrow_term list"
  bulk_message_deletion :: bool
  stream_typing_notifications :: bool
  user_settings_object :: bool
  pronouns_field_type_supported :: bool
  linkifier_url_template :: bool
  user_list_incomplete :: bool
  sender_apply_raw_content :: "string list"
  queue_timeout :: int

text \<open>
  The dictionary \<open>to_dict\<close> writes and \<open>from_dict\<close> reads: the entries read with a default, or
  migrated from an older format, are optional.
\<close>

record client_dict =
  d_user_profile_id :: int
  d_realm_id :: int
  d_event_queue :: queue_dict
  d_queue_timeout :: int
  d_event_types :: "string list option"
  d_last_connection_time :: real
  d_apply_markdown :: bool
  d_client_gravatar :: "bool option"
  d_slim_presence :: "bool option"
  d_all_public_streams :: bool
  d_narrow :: "string list list option"
  d_client_type :: "string option"
  d_client_type_name :: "string option"
  d_bulk_message_deletion :: "bool option"
  d_stream_typing_notifications :: "bool option"
  d_user_settings_object :: "bool option"
  d_pronouns_field_type_supported :: "bool option"
  d_linkifier_url_template :: "bool option"
  d_user_list_incomplete :: "bool option"
  d_sender_apply_raw_content :: "string list option"

definition compute_queue_timeout :: "int \<Rightarrow> int" where
  "compute_queue_timeout lifespan_secs =
     min (if lifespan_secs = 0 then DEFAULT_EVENT_QUEUE_TIMEOUT_SECS else lifespan_secs)
       MAX_QUEUE_TIMEOUT_SECS"

definition default_to :: "'a \<Rightarrow> 'a option \<Rightarrow> 'a" where
  "default_to d x = (case x of None \<Rightarrow> d | Some v \<Rightarrow> v)"

lemma default_to_simps [simp]: "default_to d None = d" "default_to d (Some v) = v"
  by (simp_all add: default_to_def)

text \<open>
  The constructor parses and checks the narrow and sets the connection time; the arguments it
  takes are those \<open>from_dict\<close> passes, which does not pass \<open>sender_apply_raw_content\<close>.
\<close>

definition client_type_of :: "client_dict \<Rightarrow> string res" where
  "client_type_of d = (case d_client_type d of
     Some t \<Rightarrow> Inr t
   | None \<Rightarrow> (case d_client_type_name d of None \<Rightarrow> Inl (KeyError ''client_type_name'') | Some t \<Rightarrow> Inr t))"

definition client_from_dict :: "client_dict \<Rightarrow> client_descriptor res" where
  "client_from_dict d =
     ebind (client_type_of d) (\<lambda>ctype.
     ebind (narrow_dataclasses_from_tuples (default_to [] (d_narrow d))) (\<lambda>modern_narrow.
     ebind (check_narrow_for_events modern_narrow) (\<lambda>_.
     Inr \<lparr>user_profile_id = d_user_profile_id d,
          realm_id = d_realm_id d,
          current_handler_id = None,
          current_client_name = None,
          cqueue = queue_from_dict (d_event_queue d),
          event_types = d_event_types d,
          last_connection_time = d_last_connection_time d,
          apply_markdown = d_apply_markdown d,
          client_gravatar = default_to False (d_client_gravatar d),
          slim_presence = default_to False (d_slim_presence d),
          all_public_streams = d_all_public_streams d,
          client_type_name = ctype,
          timeout_handle = None,
          narrow = default_to [] (d_narrow d),
          narrow_terms = modern_narrow,
          bulk_message_deletion = default_to False (d_bulk_message_deletion d),
          stream_typing_notifications = default_to False (d_stream_typing_notifications d),
          user_settings_object = default_to False (d_user_settings_object d),
          pronouns_field_type_supported = default_to True (d_pronouns_field_type_supported d),
          linkifier_url_template = default_to False (d_linkifier_url_template d),
          user_list_incomplete = default_to False (d_user_list_incomplete d),
          sender_apply_raw_content = [],
          queue_timeout = compute_queue_timeout (d_queue_timeout d)\<rparr>)))"

definition client_to_dict :: "client_descriptor \<Rightarrow> client_dict" where
  "client_to_dict c = \<lparr>
     d_user_profile_id = user_profile_id c,
     d_realm_id = realm_id c,
     d_event_queue = queue_to_dict (cqueue c),
     d_queue_timeout = queue_timeout c,
     d_event_types = event_types c,
     d_last_connection_time = last_connection_time c,
     d_apply_markdown = apply_markdown c,
     d_client_gravatar = Some (client_gravatar c),
     d_slim_presence = Some (slim_presence c),
     d_all_public_streams = all_public_streams c,
     d_narrow = Some (narrow c),
     d_client_type = None,
     d_client_type_name = Some (client_type_name c),
     d_bulk_message_deletion = Some (bulk_message_deletion c),
     d_stream_typing_notifications = Some (stream_typing_notifications c),
     d_user_settings_object = Some (user_settings_object c),
     d_pronouns_field_type_supported = Some (pronouns_field_type_supported c),
     d_linkifier_url_template = Some (linkifier_url_template c),
     d_user_list_incomplete = Some (user_list_incomplete c),
     d_sender_apply_raw_content = Some (sender_apply_raw_content c)\<rparr>"

section \<open>Which events a client takes\<close>

text \<open>The \<open>flags\<close> entry of a message event, a list of strings.\<close>

fun str_list :: "py list \<Rightarrow> string list" where
  "str_list [] = []"
| "str_list (PStr s # vs) = s # str_list vs"
| "str_list (_ # vs) = str_list vs"

definition narrow_accepts :: "client_descriptor \<Rightarrow> dict \<Rightarrow> bool res" where
  "narrow_accepts c event =
     ebind (getk event ''message'') (\<lambda>m.
     ebind (list_at event ''flags'') (\<lambda>flags.
     case m of
       PDict message \<Rightarrow> narrow_predicate (narrow_terms c) message (str_list flags)
     | _ \<Rightarrow> Inl TypeError))"

definition type_excluded :: "client_descriptor \<Rightarrow> py \<Rightarrow> bool" where
  "type_excluded c ty = (case event_types c of
     None \<Rightarrow> False
   | Some types \<Rightarrow> ty \<notin> PStr ` set types \<or> (ty = PStr ''muted_topics'' \<and> ''user_topic'' \<in> set types))"

definition accepts_event :: "client_descriptor \<Rightarrow> dict \<Rightarrow> bool res" where
  "accepts_event c event =
     ebind (getk event ''type'') (\<lambda>ty.
     if type_excluded c ty then Inr False
     else if ty = PStr ''message'' then narrow_accepts c event
     else if ty = PStr ''typing'' \<and> has_key event ''stream_id'' then Inr (stream_typing_notifications c)
     else if user_settings_object c \<and>
             ty \<in> {PStr ''update_display_settings'', PStr ''update_global_notifications''}
     then Inr False
     else Inr True)"

definition accepts_messages :: "client_descriptor \<Rightarrow> bool" where
  "accepts_messages c \<longleftrightarrow> (case event_types c of None \<Rightarrow> True | Some ts \<Rightarrow> ''message'' \<in> set ts)"

definition expired :: "real \<Rightarrow> client_descriptor \<Rightarrow> bool" where
  "expired now c \<longleftrightarrow>
     current_handler_id c = None \<and> now - last_connection_time c \<ge> of_int (queue_timeout c)"


section \<open>Serialisation\<close>

text \<open>What the constructor establishes.\<close>

definition wf_client :: "client_descriptor \<Rightarrow> bool" where
  "wf_client c \<longleftrightarrow>
     narrow_dataclasses_from_tuples (narrow c) = Inr (narrow_terms c) \<and>
     check_narrow_for_events (narrow_terms c) = Inr () \<and>
     queue_timeout c \<noteq> 0 \<and> queue_timeout c \<le> MAX_QUEUE_TIMEOUT_SECS"

definition idle_client :: "client_descriptor \<Rightarrow> client_descriptor" where
  "idle_client c = c\<lparr>current_handler_id := None, current_client_name := None, timeout_handle := None\<rparr>"

lemma compute_queue_timeout_fix:
  "t \<noteq> 0 \<Longrightarrow> t \<le> MAX_QUEUE_TIMEOUT_SECS \<Longrightarrow> compute_queue_timeout t = t"
  by (simp add: compute_queue_timeout_def)

lemma compute_queue_timeout_bounds:
  "compute_queue_timeout t \<noteq> 0 \<and> compute_queue_timeout t \<le> MAX_QUEUE_TIMEOUT_SECS"
  by (auto simp: compute_queue_timeout_def DEFAULT_EVENT_QUEUE_TIMEOUT_SECS_def
      MAX_QUEUE_TIMEOUT_SECS_def)

lemma wf_client_from_dict: "client_from_dict d = Inr c \<Longrightarrow> wf_client c \<and> idle_client c = c"
  by (auto simp: client_from_dict_def wf_client_def idle_client_def res_simps compute_queue_timeout_bounds)

text \<open>
  Dumping a client descriptor and loading it gives the client back without its open long poll,
  with every option it registered with and its event queue, except that
  \<open>sender_apply_raw_content\<close> is lost; and every loaded descriptor can be dumped and loaded
  again.
\<close>

theorem client_dict_roundtrip:
  assumes "wf_client c"
  shows "client_from_dict (client_to_dict c) = Inr (idle_client c\<lparr>sender_apply_raw_content := []\<rparr>) \<and>
    wf_client (idle_client c\<lparr>sender_apply_raw_content := []\<rparr>)"
  using assms
  by (simp add: client_from_dict_def client_to_dict_def client_type_of_def wf_client_def idle_client_def
      compute_queue_timeout_fix queue_dict_roundtrip)

definition sample_queue_data :: "int \<Rightarrow> int \<Rightarrow> queue_dict \<Rightarrow> client_dict" where
  "sample_queue_data u r q = \<lparr>d_user_profile_id = u, d_realm_id = r, d_event_queue = q, d_queue_timeout = 0,
     d_event_types = None, d_last_connection_time = 0, d_apply_markdown = True, d_client_gravatar = None,
     d_slim_presence = None, d_all_public_streams = False, d_narrow = Some [[''channel'', ''Verona'']],
     d_client_type = None, d_client_type_name = Some ''website'', d_bulk_message_deletion = None,
     d_stream_typing_notifications = None, d_user_settings_object = None,
     d_pronouns_field_type_supported = None, d_linkifier_url_template = None,
     d_user_list_incomplete = None, d_sender_apply_raw_content = Some [''bot'']\<rparr>"

definition sample_client :: client_descriptor where
  "sample_client = (case client_from_dict (sample_queue_data 10 2 (queue_to_dict (new_event_queue ''1:0''))) of
     Inr c \<Rightarrow> c\<lparr>sender_apply_raw_content := [''bot''], current_handler_id := Some 3\<rparr> | Inl _ \<Rightarrow> undefined)"

theorem client_dict_roundtrip_witness:
  "\<exists>c. client_from_dict (client_to_dict sample_client) = Inr c \<and> sender_apply_raw_content c = [] \<and>
     user_profile_id c = 10 \<and> queue_timeout c = 600"
proof -
  have "wf_client sample_client \<and> user_profile_id sample_client = 10 \<and> queue_timeout sample_client = 600"
    by (simp add: sample_client_def client_from_dict_def sample_queue_data_def client_type_of_def
        narrow_dataclasses_from_tuples_def check_narrow_for_events_def check_narrow_term_def
        channel_operators_def wf_client_def compute_queue_timeout_def DEFAULT_EVENT_QUEUE_TIMEOUT_SECS_def
        MAX_QUEUE_TIMEOUT_SECS_def)
  with client_dict_roundtrip [of sample_client] show ?thesis by (simp add: idle_client_def)
qed

end
