(* ===== verification/TornadoState.thy ===== *)
theory TornadoState
  imports ClientDescriptor Effects
begin

text \<open>
  The state of one Tornado process (\<^verbatim>\<open>zerver/tornado/event_queue.py\<close>,
  \<^verbatim>\<open>descriptors.py\<close> and \<^verbatim>\<open>handlers.py\<close>) and the operations on it.

  A \<open>ClientDescriptor\<close> object is shared between the tables, so the objects live in a heap and
  the tables hold references; an object is named by the id of its event queue, a uuid.
  \<open>clients\<close>, the dictionary from queue ids to descriptors, is then the list of its keys in
  insertion order, and likewise for the ordered set \<open>web_reload_clients\<close>.  \<open>timers\<close> are
  the pending callbacks of the event loop, \<open>responses\<close> the long polls answered so far, and
  \<open>published\<close> what was sent to the RabbitMQ queues, both in order.
\<close>

record world =
  heap :: "string \<Rightarrow> client_descriptor option"
  clients :: "string list"
  user_clients :: "int \<Rightarrow> string list option"
  realm_clients_all_streams :: "int \<Rightarrow> string list option"
  web_reload_clients :: "string list"
  descriptors_by_handler_id :: "int \<Rightarrow> string option"
  handlers :: "int list"
  next_handler_id :: int
  timers :: "(nat \<times> string) list"
  next_timer :: nat
  responses :: "(int \<times> string \<times> qevent list) list"
  published :: "(string \<times> dict) list"

definition init_world :: world where
  "init_world = \<lparr>heap = \<lambda>_. None, clients = [], user_clients = \<lambda>_. None,
     realm_clients_all_streams = \<lambda>_. None, web_reload_clients = [], descriptors_by_handler_id = \<lambda>_. None,
     handlers = [], next_handler_id = 0, timers = [], next_timer = 0, responses = [], published = []\<rparr>"

lemma bnd_run: "m w = (Inr x, w') \<Longrightarrow> bnd m f w = f x w'"
  by (simp add: bnd_def)

section \<open>Objects\<close>

text \<open>A reference always points to an object; the tables never hold any other.\<close>

definition obj :: "string \<Rightarrow> (world, client_descriptor) prog" where
  "obj qid = (\<lambda>w. case heap w qid of None \<Rightarrow> (Inl AttributeError, w) | Some c \<Rightarrow> (Inr c, w))"

definition set_obj :: "string \<Rightarrow> client_descriptor \<Rightarrow> (world, unit) prog" where
  "set_obj qid c = modify (\<lambda>w. w\<lparr>heap := (heap w)(qid \<mapsto> c)\<rparr>)"

definition upd_obj :: "string \<Rightarrow> (client_descriptor \<Rightarrow> client_descriptor) \<Rightarrow> (world, unit) prog" where
  "upd_obj qid f = bnd (obj qid) (\<lambda>c. set_obj qid (f c))"

lemma wp_obj [wp_simps]:
  "wp (obj q) Q w = (case heap w q of None \<Rightarrow> Q (Inl AttributeError) w | Some c \<Rightarrow> Q (Inr c) w)"
  by (simp add: wp_def obj_def split: option.split)

lemma wp_set_obj [wp_simps]:
  "wp (set_obj q c) Q w = Q (Inr ()) (w\<lparr>heap := (heap w)(q \<mapsto> c)\<rparr>)"
  by (simp add: set_obj_def wp_simps)

lemma wp_upd_obj [wp_simps]:
  "wp (upd_obj q f) Q w = (case heap w q of None \<Rightarrow> Q (Inl AttributeError) w
     | Some c \<Rightarrow> Q (Inr ()) (w\<lparr>heap := (heap w)(q \<mapsto> f c)\<rparr>))"
  by (simp add: upd_obj_def wp_simps split: option.split)

section \<open>Handlers\<close>

definition allocate_handler_id :: "(world, int) prog" where
  "allocate_handler_id =
     bnd (gets next_handler_id) (\<lambda>h.
     seq (modify (\<lambda>w. w\<lparr>handlers := handlers w @ [h], next_handler_id := h + 1\<rparr>)) (ret h))"

definition clear_handler_by_id :: "int \<Rightarrow> (world, unit) prog" where
  "clear_handler_by_id h = modify (\<lambda>w. w\<lparr>handlers := removeAll h (handlers w)\<rparr>)"

definition set_descriptor_by_handler_id :: "int \<Rightarrow> string \<Rightarrow> (world, unit) prog" where
  "set_descriptor_by_handler_id h qid =
     modify (\<lambda>w. w\<lparr>descriptors_by_handler_id := (descriptors_by_handler_id w)(h \<mapsto> qid)\<rparr>)"

definition clear_descriptor_by_handler_id :: "int \<Rightarrow> (world, unit) prog" where
  "clear_descriptor_by_handler_id h =
     (\<lambda>w. case descriptors_by_handler_id w h of
        None \<Rightarrow> (Inl (KeyError (str_of_int h)), w)
      | Some _ \<Rightarrow> (Inr (), w\<lparr>descriptors_by_handler_id := (descriptors_by_handler_id w)(h := None)\<rparr>))"

lemma wp_clear_descriptor [wp_simps]:
  "wp (clear_descriptor_by_handler_id h) Q w = (case descriptors_by_handler_id w h of
     None \<Rightarrow> Q (Inl (KeyError (str_of_int h))) w
   | Some _ \<Rightarrow> Q (Inr ()) (w\<lparr>descriptors_by_handler_id := (descriptors_by_handler_id w)(h := None)\<rparr>))"
  by (simp add: wp_def clear_descriptor_by_handler_id_def split: option.split)

text \<open>
  \<open>finish_handler\<close> answers the long poll, unless its handler is gone.  Every exception inside
  it is caught and logged; the one the modelled code can raise is the missing type of a single
  event, before the callback is queued.
\<close>

definition finish_handler :: "int \<Rightarrow> string \<Rightarrow> qevent list \<Rightarrow> (world, unit) prog" where
  "finish_handler handler_id event_queue_id cs =
     bnd (gets (\<lambda>w. handler_id \<in> set (handlers w))) (\<lambda>alive.
     if \<not> alive then ret ()
     else if length cs = 1 \<and> \<not> has_key (ev_body (hd cs)) ''type'' then ret ()
     else modify (\<lambda>w. w\<lparr>responses := responses w @ [(handler_id, event_queue_id, cs)]\<rparr>))"

section \<open>The long poll of a client\<close>

text \<open>
  \<open>disconnect_handler\<close>: the test \<open>if self.current_handler_id\<close> is false for \<open>None\<close> and
  for the handler id 0.
\<close>

definition disconnect_handler :: "string \<Rightarrow> (world, unit) prog" where
  "disconnect_handler qid =
     bnd (obj qid) (\<lambda>c.
     seq (case current_handler_id c of
            Some h \<Rightarrow> if h \<noteq> 0 then clear_descriptor_by_handler_id h else ret ()
          | None \<Rightarrow> ret ())
    (seq (upd_obj qid (\<lambda>c. c\<lparr>current_handler_id := None, current_client_name := None\<rparr>))
         (case timeout_handle c of
            None \<Rightarrow> ret ()
          | Some t \<Rightarrow>
              seq (modify (\<lambda>w. w\<lparr>timers := filter (\<lambda>tq. fst tq \<noteq> t) (timers w)\<rparr>))
                  (upd_obj qid (\<lambda>c. c\<lparr>timeout_handle := None\<rparr>)))))"

definition merge_queue :: "string \<Rightarrow> bool \<Rightarrow> (world, qevent list) prog" where
  "merge_queue qid include_internal_data =
     bnd (obj qid) (\<lambda>c.
     seq (set_obj qid (c\<lparr>cqueue := snd (contents include_internal_data (cqueue c))\<rparr>))
         (ret (fst (contents include_internal_data (cqueue c)))))"

definition finish_current_handler :: "string \<Rightarrow> (world, bool) prog" where
  "finish_current_handler qid =
     bnd (obj qid) (\<lambda>c.
     case current_handler_id c of
       None \<Rightarrow> ret False
     | Some h \<Rightarrow>
         seq (try_finally
                (bnd (merge_queue qid False) (\<lambda>cs. finish_handler h (queue_id (cqueue c)) cs))
                (disconnect_handler qid))
             (ret True))"

definition push_event :: "string \<Rightarrow> dict \<Rightarrow> (world, unit) prog" where
  "push_event qid event =
     bnd (obj qid) (\<lambda>c.
     seq (set_obj qid (c\<lparr>cqueue := snd (push event (cqueue c))\<rparr>))
         (lift (fst (push event (cqueue c)))))"

definition add_event :: "string \<Rightarrow> dict \<Rightarrow> (world, unit) prog" where
  "add_event qid event =
     seq (push_event qid event) (bnd (finish_current_handler qid) (\<lambda>_. ret ()))"

definition connect_handler :: "real \<Rightarrow> string \<Rightarrow> int \<Rightarrow> string \<Rightarrow> (world, unit) prog" where
  "connect_handler now qid handler_id client_name =
     seq (upd_obj qid (\<lambda>c. c\<lparr>current_handler_id := Some handler_id, current_client_name := Some client_name\<rparr>))
    (seq (set_descriptor_by_handler_id handler_id qid)
    (seq (upd_obj qid (\<lambda>c. c\<lparr>last_connection_time := now\<rparr>))
    (bnd (obj qid) (\<lambda>c.
     if client_type_name c = ''API: heartbeat test'' then ret ()
     else bnd (gets next_timer) (\<lambda>t.
          seq (modify (\<lambda>w. w\<lparr>timers := timers w @ [(t, qid)], next_timer := t + 1\<rparr>))
              (upd_obj qid (\<lambda>c. c\<lparr>timeout_handle := Some t\<rparr>)))))))"

text \<open>The callback of timer \<open>t\<close>, which the event loop runs once.\<close>

definition timeout_callback :: "nat \<Rightarrow> string \<Rightarrow> (world, unit) prog" where
  "timeout_callback t qid =
     seq (modify (\<lambda>w. w\<lparr>timers := filter (\<lambda>tq. fst tq \<noteq> t) (timers w)\<rparr>))
    (seq (upd_obj qid (\<lambda>c. c\<lparr>timeout_handle := None\<rparr>))
         (add_event qid create_heartbeat_event))"

definition on_finish :: "int \<Rightarrow> (world, unit) prog" where
  "on_finish h = clear_handler_by_id h"

definition on_connection_close :: "int \<Rightarrow> (world, unit) prog" where
  "on_connection_close h =
     seq (clear_handler_by_id h)
    (bnd (gets (\<lambda>w. descriptors_by_handler_id w h)) (\<lambda>d.
     case d of None \<Rightarrow> ret () | Some qid \<Rightarrow> disconnect_handler qid))"

section \<open>The tables of clients\<close>

definition client_at :: "string \<Rightarrow> (world, client_descriptor) prog" where
  "client_at qid =
     bnd (gets (\<lambda>w. qid \<in> set (clients w))) (\<lambda>b. if b then obj qid else raise (KeyError qid))"

definition access_client_descriptor :: "int \<Rightarrow> string \<Rightarrow> (world, string) prog" where
  "access_client_descriptor uid qid =
     bnd (gets (\<lambda>w. qid \<in> set (clients w))) (\<lambda>b.
     if b then bnd (obj qid) (\<lambda>c.
       if uid = user_profile_id c then ret qid else raise (BadEventQueueIdError qid))
     else raise (BadEventQueueIdError qid))"

definition table_at :: "(int \<Rightarrow> string list option) \<Rightarrow> int \<Rightarrow> string list" where
  "table_at m k = (case m k of None \<Rightarrow> [] | Some qs \<Rightarrow> qs)"

definition get_client_descriptors_for_user :: "int \<Rightarrow> world \<Rightarrow> string list" where
  "get_client_descriptors_for_user uid w = table_at (user_clients w) uid"

definition get_client_descriptors_for_realm_all_streams :: "int \<Rightarrow> world \<Rightarrow> string list" where
  "get_client_descriptors_for_realm_all_streams rid w = table_at (realm_clients_all_streams w) rid"

definition table_add :: "int \<Rightarrow> string \<Rightarrow> (int \<Rightarrow> string list option) \<Rightarrow> (int \<Rightarrow> string list option)" where
  "table_add k qid m = m(k \<mapsto> table_at m k @ [qid])"

definition all_streams_client :: "client_descriptor \<Rightarrow> bool" where
  "all_streams_client c \<longleftrightarrow> all_public_streams c \<or> narrow c \<noteq> []"

definition add_to_client_dicts :: "string \<Rightarrow> (world, unit) prog" where
  "add_to_client_dicts qid =
     bnd (obj qid) (\<lambda>c.
     seq (modify (\<lambda>w. w\<lparr>user_clients := table_add (user_profile_id c) qid (user_clients w)\<rparr>))
         (whenever (all_streams_client c)
           (modify (\<lambda>w. w\<lparr>realm_clients_all_streams :=
              table_add (realm_id c) qid (realm_clients_all_streams w)\<rparr>))))"

text \<open>\<open>clients[qid] = client\<close> for a new object: a present key keeps its place.\<close>

definition store_client :: "string \<Rightarrow> client_descriptor \<Rightarrow> (world, unit) prog" where
  "store_client qid c = modify (\<lambda>w. w\<lparr>heap := (heap w)(qid \<mapsto> c),
     clients := (if qid \<in> set (clients w) then clients w else clients w @ [qid])\<rparr>)"

definition allocate_client_descriptor :: "string \<Rightarrow> client_dict \<Rightarrow> (world, string) prog" where
  "allocate_client_descriptor uuid data =
     bnd (lift (client_from_dict (data\<lparr>d_event_queue := queue_to_dict (new_event_queue uuid)\<rparr>))) (\<lambda>c.
     seq (store_client uuid c)
    (seq (add_to_client_dicts uuid) (ret uuid)))"

section \<open>Garbage collection\<close>

text \<open>
  Sets are given as lists in the order they are iterated; a gc hook gets the user, the
  descriptor and whether this was the user's last queue.
\<close>

type_synonym gc_hook = "int \<Rightarrow> string \<Rightarrow> bool \<Rightarrow> (world, unit) prog"

definition filter_client_dict ::
    "string list \<Rightarrow> int \<Rightarrow> (int \<Rightarrow> string list option) \<Rightarrow> (int \<Rightarrow> string list option)" where
  "filter_client_dict to_remove key m = (case m key of
     None \<Rightarrow> m
   | Some qs \<Rightarrow>
       (let new_client_list = filter (\<lambda>q. q \<notin> set to_remove) qs
        in m(key := if new_client_list = [] then None else Some new_client_list)))"

definition run_gc_hook :: "string \<Rightarrow> gc_hook \<Rightarrow> (world, unit) prog" where
  "run_gc_hook qid cb =
     bnd (client_at qid) (\<lambda>c.
     bnd (gets (\<lambda>w. user_clients w (user_profile_id c) = None)) (\<lambda>last_for_client.
     cb (user_profile_id c) qid last_for_client))"

definition run_gc_hooks :: "gc_hook list \<Rightarrow> string \<Rightarrow> (world, unit) prog" where
  "run_gc_hooks gc_hooks qid = for_each (run_gc_hook qid) gc_hooks"

definition drop_client :: "gc_hook list \<Rightarrow> string \<Rightarrow> (world, unit) prog" where
  "drop_client gc_hooks qid =
     seq (modify (\<lambda>w. w\<lparr>web_reload_clients := removeAll qid (web_reload_clients w)\<rparr>))
    (seq (run_gc_hooks gc_hooks qid)
    (seq (client_at qid)
         (modify (\<lambda>w. w\<lparr>clients := removeAll qid (clients w)\<rparr>))))"

definition do_gc_event_queues ::
    "gc_hook list \<Rightarrow> string list \<Rightarrow> int list \<Rightarrow> int list \<Rightarrow> (world, unit) prog" where
  "do_gc_event_queues gc_hooks to_remove affected_users affected_realms =
     seq (modify (\<lambda>w. w\<lparr>user_clients := fold (filter_client_dict to_remove) affected_users (user_clients w)\<rparr>))
    (seq (modify (\<lambda>w. w\<lparr>realm_clients_all_streams :=
            fold (filter_client_dict to_remove) affected_realms (realm_clients_all_streams w)\<rparr>))
         (for_each (drop_client gc_hooks) to_remove))"

definition expired_clients :: "real \<Rightarrow> world \<Rightarrow> string list" where
  "expired_clients now w =
     filter (\<lambda>q. case heap w q of None \<Rightarrow> False | Some c \<Rightarrow> expired now c) (clients w)"

definition of_clients :: "(client_descriptor \<Rightarrow> int) \<Rightarrow> string list \<Rightarrow> world \<Rightarrow> int list" where
  "of_clients f qids w = remdups (map (\<lambda>q. f (the (heap w q))) qids)"

definition gc_event_queues :: "gc_hook list \<Rightarrow> real \<Rightarrow> (world, unit) prog" where
  "gc_event_queues gc_hooks now =
     bnd (gets (expired_clients now)) (\<lambda>to_remove.
     bnd (gets (of_clients user_profile_id to_remove)) (\<lambda>affected_users.
     bnd (gets (of_clients realm_id to_remove)) (\<lambda>affected_realms.
     do_gc_event_queues gc_hooks to_remove affected_users affected_realms)))"

definition cleanup :: "gc_hook list \<Rightarrow> string \<Rightarrow> (world, unit) prog" where
  "cleanup gc_hooks qid =
     seq (finish_current_handler qid)
    (bnd (obj qid) (\<lambda>c.
     do_gc_event_queues gc_hooks [queue_id (cqueue c)] [user_profile_id c] [realm_id c]))"

section \<open>Dump and load\<close>

definition dump_event_queues :: "world \<Rightarrow> (string \<times> client_dict) list" where
  "dump_event_queues w = map (\<lambda>q. (q, client_to_dict (the (heap w q)))) (clients w)"

definition web_reload_event :: dict where
  "web_reload_event = [(''type'', PStr ''web_reload_client'')]"

definition mark_clients_to_reload :: "string list \<Rightarrow> (world, unit) prog" where
  "mark_clients_to_reload queue_ids =
     bnd (gets (\<lambda>w. emap (\<lambda>q. if q \<in> set (clients w)
            then (case heap w q of
                    None \<Rightarrow> Inl AttributeError
                  | Some c \<Rightarrow> ebind (accepts_event c web_reload_event) (\<lambda>b. Inr (q, realm_id c, b)))
            else Inl (KeyError q)) queue_ids)) (\<lambda>r.
     bnd (lift r) (\<lambda>qs.
     modify (\<lambda>w. w\<lparr>web_reload_clients := fold (\<lambda>q ws. if q \<in> set ws then ws else ws @ [q])
        (map fst (sort_key (\<lambda>q. fst (snd q)) (filter (\<lambda>q. snd (snd q)) qs))) (web_reload_clients w)\<rparr>)))"

text \<open>
  The file holds what \<open>dump_event_queues\<close> wrote, or is missing or not JSON (\<open>None\<close>).  The
  dictionary comprehension is evaluated before \<open>clients\<close> is assigned, so a descriptor that
  cannot be built leaves \<open>clients\<close> as it was.
\<close>

definition load_clients :: "(string \<times> client_dict) list \<Rightarrow> (string \<times> client_descriptor) list res" where
  "load_clients data =
     ebind (emap (\<lambda>(qid, d). ebind (client_from_dict d) (\<lambda>c. Inr (qid, c))) data) (\<lambda>cs.
     Inr (fold (\<lambda>(q, c). AList.update q c) cs []))"

definition load_event_queues :: "(string \<times> client_dict) list option \<Rightarrow> (world, unit) prog" where
  "load_event_queues stored =
     seq (case stored of
            None \<Rightarrow> ret ()
          | Some data \<Rightarrow> (case load_clients data of
                Inl e \<Rightarrow> ret ()
              | Inr cs \<Rightarrow> modify (\<lambda>w. w\<lparr>heap := (\<lambda>q. case map_of cs q of None \<Rightarrow> heap w q | Some c \<Rightarrow> Some c),
                  clients := map fst cs\<rparr>)))
    (bnd (gets clients) (\<lambda>qids.
     seq (mark_clients_to_reload qids)
         (for_each add_to_client_dicts qids)))"

section \<open>Restart and reload events\<close>

definition deliver :: "dict \<Rightarrow> string \<Rightarrow> (world, unit) prog" where
  "deliver event qid =
     bnd (obj qid) (\<lambda>c.
     bnd (lift (accepts_event c event)) (\<lambda>b. whenever b (add_event qid event)))"

definition send_restart_events :: "dict \<Rightarrow> (world, unit) prog" where
  "send_restart_events server_info =
     bnd (gets clients) (for_each (deliver ((''type'', PStr ''restart'') # server_info)))"

definition web_reload_client_event :: "bool \<Rightarrow> dict" where
  "web_reload_client_event immediate = [(''type'', PStr ''web_reload_client''), (''immediate'', PBool immediate)]"

text \<open>A Python slice \<open>xs[:n]\<close>.\<close>

definition slice_to :: "'a list \<Rightarrow> int \<Rightarrow> 'a list" where
  "slice_to xs n = (if n \<ge> 0 then take (nat n) xs else take (length xs - nat (- n)) xs)"

definition send_web_reload_client_events :: "bool \<Rightarrow> int option \<Rightarrow> (world, int) prog" where
  "send_web_reload_client_events immediate limit =
     bnd (gets web_reload_clients) (\<lambda>wr.
     (let queue_ids = slice_to wr (case limit of None \<Rightarrow> int (length wr) | Some n \<Rightarrow> n)
      in seq (for_each (\<lambda>qid.
            seq (modify (\<lambda>w. w\<lparr>web_reload_clients := removeAll qid (web_reload_clients w)\<rparr>))
           (seq (client_at qid) (deliver (web_reload_client_event immediate) qid))) queue_ids)
         (ret (int (length queue_ids)))))"

section \<open>Long polling\<close>

datatype fetch_result =
    FetchError exn
  | FetchResponse "qevent list" "string option"
  | FetchAsync

definition is_json_error :: "exn \<Rightarrow> bool" where
  "is_json_error e = (case e of JsonableError _ \<Rightarrow> True | BadEventQueueIdError _ \<Rightarrow> True
     | RateLimitedError _ \<Rightarrow> True | _ \<Rightarrow> False)"

definition newest_pruned :: "string \<Rightarrow> (world, int option) prog" where
  "newest_pruned qid = bnd (obj qid) (\<lambda>c. ret (newest_pruned_id (cqueue c)))"

text \<open>The branch of \<open>fetch_events\<close> for an existing queue: the check and the acknowledgement.\<close>

definition acknowledge :: "string \<Rightarrow> int \<Rightarrow> (world, unit) prog" where
  "acknowledge qid last_event_id =
     bnd (newest_pruned qid) (\<lambda>p.
     seq (whenever (case p of None \<Rightarrow> False | Some n \<Rightarrow> last_event_id < n)
            (raise (JsonableError (''An event newer than '' @ str_of_int last_event_id @ '' has already been pruned!''))))
    (seq (upd_obj qid (\<lambda>c. c\<lparr>cqueue := prune last_event_id (cqueue c)\<rparr>))
    (bnd (newest_pruned qid) (\<lambda>p.
     whenever (case p of None \<Rightarrow> False | Some n \<Rightarrow> last_event_id \<noteq> n)
       (raise (JsonableError (''Event '' @ str_of_int last_event_id @ '' was not in this queue'')))))))"

definition select_queue ::
    "string \<Rightarrow> string option \<Rightarrow> bool \<Rightarrow> int option \<Rightarrow> int \<Rightarrow> client_dict option \<Rightarrow> (world, string) prog" where
  "select_queue uuid qid_arg dont_block last_event_id uid new_queue_data = (case qid_arg of
     None \<Rightarrow>
       if dont_block
       then (case new_queue_data of
               None \<Rightarrow> raise AssertionError
             | Some data \<Rightarrow> allocate_client_descriptor uuid data)
       else raise (JsonableError ''Missing 'queue_id' argument'')
   | Some q \<Rightarrow>
       (case last_event_id of
          None \<Rightarrow> raise (JsonableError ''Missing 'last_event_id' argument'')
        | Some i \<Rightarrow>
            bnd (access_client_descriptor uid q) (\<lambda>q.
            seq (acknowledge q i)
           (seq (finish_current_handler q) (ret q)))))"

text \<open>
  The log line of an answer names the type of its event when there is exactly one; an event
  without a type raises there.
\<close>

definition check_loggable :: "qevent list \<Rightarrow> unit res" where
  "check_loggable cs =
     (if length cs = 1 \<and> \<not> has_key (ev_body (hd cs)) ''type'' then Inl (KeyError ''type'') else Inr ())"

text \<open>The body of the \<open>try\<close>: an answer, or the queue to wait on.\<close>

definition fetch_body :: "string \<Rightarrow> string option \<Rightarrow> bool \<Rightarrow> int option \<Rightarrow> int \<Rightarrow>
    client_dict option \<Rightarrow> (world, fetch_result + string) prog" where
  "fetch_body uuid qid_arg dont_block last_event_id uid new_queue_data =
     bnd (select_queue uuid qid_arg dont_block last_event_id uid new_queue_data) (\<lambda>q.
     bnd (obj q) (\<lambda>c.
     if \<not> queue_empty (cqueue c) \<or> dont_block
     then bnd (merge_queue q False) (\<lambda>cs.
          seq (lift (check_loggable cs))
              (ret (Inl (FetchResponse cs (if qid_arg = None then Some q else None)))))
     else ret (Inr q)))"

definition fetch_events :: "real \<Rightarrow> string \<Rightarrow> string option \<Rightarrow> bool \<Rightarrow> int option \<Rightarrow> int \<Rightarrow>
    client_dict option \<Rightarrow> string \<Rightarrow> int \<Rightarrow> (world, fetch_result) prog" where
  "fetch_events now uuid qid_arg dont_block last_event_id uid new_queue_data client_type handler_id =
     bnd (try_except (fetch_body uuid qid_arg dont_block last_event_id uid new_queue_data)
            (\<lambda>e. if is_json_error e then ret (Inl (FetchError e)) else raise e)) (\<lambda>r.
     case r of
       Inl answer \<Rightarrow> ret answer
     | Inr q \<Rightarrow> seq (connect_handler now q handler_id client_type) (ret FetchAsync))"

section \<open>The invariant of the tables\<close>

text \<open>
  \<open>tables_ok\<close>: every table names live clients under the right user and realm, each once, and
  has no empty entry.  \<open>links_ok\<close>: an open long poll and its heartbeat timer are linked with
  the descriptor both ways; only the entry of handler id 0 may be stale.
\<close>

definition members :: "(client_descriptor \<Rightarrow> bool) \<Rightarrow> (client_descriptor \<Rightarrow> int) \<Rightarrow> world \<Rightarrow> int \<Rightarrow> string set" where
  "members P f w k = {q \<in> set (clients w). \<exists>c. heap w q = Some c \<and> P c \<and> f c = k}"

definition table_ok :: "(int \<Rightarrow> string list option) \<Rightarrow> (int \<Rightarrow> string set) \<Rightarrow> bool" where
  "table_ok m S \<longleftrightarrow> (\<forall>k. m k \<noteq> Some [] \<and> distinct (table_at m k) \<and> set (table_at m k) = S k)"

definition tables_ok :: "world \<Rightarrow> bool" where
  "tables_ok w \<longleftrightarrow>
     distinct (clients w) \<and> (\<forall>q\<in>set (clients w). heap w q \<noteq> None) \<and>
     (\<forall>q c. heap w q = Some c \<longrightarrow> queue_id (cqueue c) = q) \<and>
     table_ok (user_clients w) (members (\<lambda>_. True) user_profile_id w) \<and>
     table_ok (realm_clients_all_streams w) (members all_streams_client realm_id w) \<and>
     set (web_reload_clients w) \<subseteq> set (clients w)"

definition poll_linked :: "world \<Rightarrow> bool" where
  "poll_linked w \<longleftrightarrow> (\<forall>q c h. heap w q = Some c \<longrightarrow> current_handler_id c = Some h \<longrightarrow>
     descriptors_by_handler_id w h = Some q)"

definition descriptor_linked :: "world \<Rightarrow> bool" where
  "descriptor_linked w \<longleftrightarrow> (\<forall>h q. descriptors_by_handler_id w h = Some q \<longrightarrow> h < next_handler_id w \<and>
     (\<exists>c. heap w q = Some c \<and> (h = 0 \<or> current_handler_id c = Some h)))"

definition timer_linked :: "world \<Rightarrow> bool" where
  "timer_linked w \<longleftrightarrow> distinct (map fst (timers w)) \<and> (\<forall>t q. (t, q) \<in> set (timers w) \<longrightarrow> t < next_timer w \<and>
     (\<exists>c. heap w q = Some c \<and> timeout_handle c = Some t))"

definition timeout_linked :: "world \<Rightarrow> bool" where
  "timeout_linked w \<longleftrightarrow> (\<forall>q c t. heap w q = Some c \<longrightarrow> timeout_handle c = Some t \<longrightarrow>
     (t, q) \<in> set (timers w) \<and> current_handler_id c \<noteq> None)"

definition links_ok :: "world \<Rightarrow> bool" where
  "links_ok w \<longleftrightarrow> poll_linked w \<and> descriptor_linked w \<and> timer_linked w \<and> timeout_linked w"

lemmas links_defs = links_ok_def poll_linked_def descriptor_linked_def timer_linked_def timeout_linked_def

lemma poll_linkedD:
  "poll_linked w \<Longrightarrow> heap w q = Some c \<Longrightarrow> current_handler_id c = Some h \<Longrightarrow> descriptors_by_handler_id w h = Some q"
  by (simp add: poll_linked_def)

lemma timer_linkedD:
  assumes "timer_linked w" "(t, q) \<in> set (timers w)"
  shows "t < next_timer w" "\<exists>c. heap w q = Some c \<and> timeout_handle c = Some t"
  using assms by (simp_all add: timer_linked_def)

lemma timeout_linkedD:
  assumes "timeout_linked w" "heap w q = Some c" "timeout_handle c = Some t"
  shows "(t, q) \<in> set (timers w)" "current_handler_id c \<noteq> None"
  using assms unfolding timeout_linked_def by blast+

definition wf_world :: "world \<Rightarrow> bool" where
  "wf_world w \<longleftrightarrow> tables_ok w \<and> links_ok w"

lemma wf_init_world: "wf_world init_world"
  by (simp add: wf_world_def tables_ok_def links_defs init_world_def table_ok_def table_at_def members_def)

text \<open>What the tables depend on of a descriptor.\<close>

definition same_key :: "client_descriptor \<Rightarrow> client_descriptor \<Rightarrow> bool" where
  "same_key c c' \<longleftrightarrow> user_profile_id c = user_profile_id c' \<and> realm_id c = realm_id c' \<and>
     all_streams_client c = all_streams_client c' \<and> queue_id (cqueue c) = queue_id (cqueue c')"

lemma tables_ok_cong:
  assumes w: "tables_ok w"
    and eq: "clients w' = clients w" "user_clients w' = user_clients w"
      "realm_clients_all_streams w' = realm_clients_all_streams w" "web_reload_clients w' = web_reload_clients w"
    and rel: "\<And>q. rel_option same_key (heap w q) (heap w' q)"
  shows "tables_ok w'"
proof -
  have none: "heap w' q = None \<longleftrightarrow> heap w q = None" for q
    using rel [of q] by (cases "heap w q"; cases "heap w' q") auto
  have some: "\<exists>c. heap w q = Some c \<and> same_key c c'" if "heap w' q = Some c'" for q c'
    using rel [of q] that by (cases "heap w q") auto
  have some': "\<exists>c'. heap w' q = Some c' \<and> same_key c c'" if "heap w q = Some c" for q c
    using rel [of q] that by (cases "heap w' q") auto
  have "members P f w' k = members P f w k"
    if P: "\<And>c c'. same_key c c' \<Longrightarrow> P c = P c' \<and> f c = f c'" for P f k
  proof -
    have "(\<exists>c. heap w' q = Some c \<and> P c \<and> f c = k) \<longleftrightarrow> (\<exists>c. heap w q = Some c \<and> P c \<and> f c = k)" for q
      using rel [of q] by (cases "heap w q"; cases "heap w' q") (auto dest: P)
    then show ?thesis by (simp add: members_def eq(1))
  qed
  then have m: "members (\<lambda>_. True) user_profile_id w' = members (\<lambda>_. True) user_profile_id w"
    "members all_streams_client realm_id w' = members all_streams_client realm_id w"
    by (auto simp: fun_eq_iff same_key_def)
  have "\<forall>q c'. heap w' q = Some c' \<longrightarrow> queue_id (cqueue c') = q"
    using some w unfolding tables_ok_def same_key_def by metis
  with w show ?thesis
    unfolding tables_ok_def eq m none by blast
qed

lemma same_key_refl [simp]: "same_key c c"
  by (simp add: same_key_def)

lemma tables_ok_upd:
  assumes "tables_ok w" "heap w q = Some c" "same_key c c'"
    and "clients w' = clients w" "user_clients w' = user_clients w"
      "realm_clients_all_streams w' = realm_clients_all_streams w" "web_reload_clients w' = web_reload_clients w"
    and "heap w' = (heap w)(q \<mapsto> c')"
  shows "tables_ok w'"
proof (rule tables_ok_cong [OF assms(1,4-7)])
  show "rel_option same_key (heap w q') (heap w' q')" for q'
    by (cases "q' = q") (simp_all add: assms(2,3,8) option.rel_refl)
qed

lemma queue_id_contents [simp]: "queue_id (snd (contents b q)) = queue_id q"
  by (simp add: contents_def Let_def)

lemma queue_id_push [simp]: "queue_id (snd (push ev q)) = queue_id q"
  by (simp add: push_def Let_def split: sum.splits option.splits prod.splits)

section \<open>Answering and closing the long poll\<close>

text \<open>What \<open>disconnect_handler\<close> and \<open>finish_current_handler\<close> compute, in closed form.\<close>

definition disconnected :: "string \<Rightarrow> client_descriptor \<Rightarrow> world \<Rightarrow> world" where
  "disconnected qid c w = w\<lparr>
     heap := (heap w)(qid \<mapsto> idle_client c),
     descriptors_by_handler_id := (case current_handler_id c of
        Some h \<Rightarrow> if h \<noteq> 0 then (descriptors_by_handler_id w)(h := None) else descriptors_by_handler_id w
      | None \<Rightarrow> descriptors_by_handler_id w),
     timers := (case timeout_handle c of None \<Rightarrow> timers w | Some t \<Rightarrow> filter (\<lambda>tq. fst tq \<noteq> t) (timers w))\<rparr>"

lemma idle_no_timer:
  "timeout_handle c = None \<Longrightarrow>
     c\<lparr>current_handler_id := None, current_client_name := None\<rparr> = idle_client c"
  by (cases c) (simp add: idle_client_def)

lemma disconnect_handler_eq:
  assumes "links_ok w" "heap w qid = Some c"
  shows "disconnect_handler qid w = (Inr (), disconnected qid c w)"
proof -
  have "case current_handler_id c of None \<Rightarrow> True | Some h \<Rightarrow> descriptors_by_handler_id w h = Some qid"
    using assms by (auto simp: links_ok_def poll_linked_def split: option.split)
  with assms(2) show ?thesis
    by (cases "timeout_handle c"; cases "current_handler_id c")
      (simp_all add: disconnect_handler_def disconnected_def bnd_def obj_def upd_obj_def set_obj_def
        ret_def modify_def clear_descriptor_by_handler_id_def idle_no_timer,
       simp_all add: idle_client_def)
qed

lemma disconnected_simps [simp]:
  "clients (disconnected q c w) = clients w" "user_clients (disconnected q c w) = user_clients w"
  "realm_clients_all_streams (disconnected q c w) = realm_clients_all_streams w"
  "web_reload_clients (disconnected q c w) = web_reload_clients w"
  "heap (disconnected q c w) = (heap w)(q \<mapsto> idle_client c)"
  "responses (disconnected q c w) = responses w" "published (disconnected q c w) = published w"
  "handlers (disconnected q c w) = handlers w" "next_handler_id (disconnected q c w) = next_handler_id w"
  "next_timer (disconnected q c w) = next_timer w"
  by (simp_all add: disconnected_def)

lemma same_key_idle [simp]: "same_key c (idle_client c)"
  by (simp add: same_key_def idle_client_def all_streams_client_def)

lemma idle_client_simps [simp]:
  "current_handler_id (idle_client c) = None" "timeout_handle (idle_client c) = None"
  "user_profile_id (idle_client c) = user_profile_id c" "realm_id (idle_client c) = realm_id c"
  "cqueue (idle_client c) = cqueue c" "queue_timeout (idle_client c) = queue_timeout c"
  "event_types (idle_client c) = event_types c" "last_connection_time (idle_client c) = last_connection_time c"
  by (simp_all add: idle_client_def)

lemma descriptors_disconnected [simp]:
  "descriptors_by_handler_id (disconnected q c w) h =
     (if current_handler_id c = Some h \<and> h \<noteq> 0 then None else descriptors_by_handler_id w h)"
  by (simp add: disconnected_def split: option.split)

lemma timers_disconnected [simp]:
  "tq \<in> set (timers (disconnected q c w)) \<longleftrightarrow> tq \<in> set (timers w) \<and> timeout_handle c \<noteq> Some (fst tq)"
  by (auto simp: disconnected_def split: option.split)

lemma links_ok_disconnected:
  assumes "links_ok w" and c: "heap w q = Some c"
  shows "links_ok (disconnected q c w)"
  unfolding links_ok_def
proof (intro conjI)
  from assms(1) have p: "poll_linked w" and d: "descriptor_linked w" and t: "timer_linked w"
    and b: "timeout_linked w" by (simp_all add: links_ok_def)
  show "poll_linked (disconnected q c w)"
    unfolding poll_linked_def
  proof (intro allI impI)
    fix q' c' h
    assume h: "heap (disconnected q c w) q' = Some c'" "current_handler_id c' = Some h"
    then have q': "q' \<noteq> q" "heap w q' = Some c'" by (auto split: if_splits)
    with h(2) p have "descriptors_by_handler_id w h = Some q'" by (simp add: poll_linked_def)
    moreover have "current_handler_id c \<noteq> Some h"
      using p c q'(1) calculation unfolding poll_linked_def by force
    ultimately show "descriptors_by_handler_id (disconnected q c w) h = Some q'" by simp
  qed
  show "descriptor_linked (disconnected q c w)"
    unfolding descriptor_linked_def
  proof (intro allI impI)
    fix h q'
    assume "descriptors_by_handler_id (disconnected q c w) h = Some q'"
    then have h: "descriptors_by_handler_id w h = Some q'" "h = 0 \<or> current_handler_id c \<noteq> Some h"
      by (auto split: if_splits)
    with d c show "h < next_handler_id (disconnected q c w) \<and>
        (\<exists>c'. heap (disconnected q c w) q' = Some c' \<and> (h = 0 \<or> current_handler_id c' = Some h))"
      unfolding descriptor_linked_def by force
  qed
  have tD: "t' < next_timer w \<and> (\<exists>c'. heap w q' = Some c' \<and> timeout_handle c' = Some t')"
    if "(t', q') \<in> set (timers w)" for t' q'
    using t that by (simp add: timer_linked_def)
  have bD: "(t', q') \<in> set (timers w) \<and> current_handler_id c' \<noteq> None"
    if "heap w q' = Some c'" "timeout_handle c' = Some t'" for q' c' t'
    using b that by (simp add: timeout_linked_def)
  have dt: "distinct (map fst (timers w))" using t by (simp add: timer_linked_def)
  have "distinct (map fst (timers (disconnected q c w)))"
    using dt by (simp add: disconnected_def distinct_map_filter split: option.split)
  moreover have "t' < next_timer (disconnected q c w) \<and> (\<exists>c'. heap (disconnected q c w) q' = Some c' \<and> timeout_handle c' = Some t')"
    if "(t', q') \<in> set (timers (disconnected q c w))" for t' q'
    using tD [of t' q'] that c by (cases "q' = q") auto
  ultimately show "timer_linked (disconnected q c w)" unfolding timer_linked_def by blast
  show "timeout_linked (disconnected q c w)"
    unfolding timeout_linked_def
  proof (intro allI impI)
    fix q' c' t'
    assume h: "heap (disconnected q c w) q' = Some c'" "timeout_handle c' = Some t'"
    then have q': "q' \<noteq> q" "heap w q' = Some c'" by (auto split: if_splits)
    from bD [OF q'(2) h(2)] have m: "(t', q') \<in> set (timers w)" "current_handler_id c' \<noteq> None" by simp_all
    moreover have "timeout_handle c \<noteq> Some t'"
      using bD [OF c, of t'] m(1) dt q'(1) eq_key_imp_eq_value by fastforce
    ultimately show "(t', q') \<in> set (timers (disconnected q c w)) \<and> current_handler_id c' \<noteq> None"
      by simp
  qed
qed

lemma wf_disconnected:
  assumes "wf_world w" "heap w q = Some c"
  shows "wf_world (disconnected q c w)"
  using assms
  by (auto simp: wf_world_def intro: links_ok_disconnected tables_ok_upd [OF _ _ same_key_idle])


text \<open>Replacing an object by one with the same keys, poll and timer.\<close>

definition same_links :: "client_descriptor \<Rightarrow> client_descriptor \<Rightarrow> bool" where
  "same_links c c' \<longleftrightarrow> current_handler_id c = current_handler_id c' \<and> timeout_handle c = timeout_handle c'"

lemma links_ok_upd:
  assumes w: "links_ok w" and c: "heap w q = Some c" and l: "same_links c c'"
    and eq: "descriptors_by_handler_id w' = descriptors_by_handler_id w"
      "next_handler_id w' = next_handler_id w" "timers w' = timers w" "next_timer w' = next_timer w"
    and h: "heap w' = (heap w)(q \<mapsto> c')"
  shows "links_ok w'"
proof -
  have l': "current_handler_id c = current_handler_id c'" "timeout_handle c = timeout_handle c'"
    using l by (simp_all add: same_links_def)
  have prev: "\<exists>x. heap w p = Some x \<and> current_handler_id x = current_handler_id y \<and> timeout_handle x = timeout_handle y"
    if "heap w' p = Some y" for p y
    using that c l' by (auto simp: h split: if_splits)
  have succ: "\<exists>y. heap w' p = Some y \<and> current_handler_id x = current_handler_id y \<and> timeout_handle x = timeout_handle y"
    if "heap w p = Some x" for p x
    using that c l' by (auto simp: h split: if_splits)
  have "poll_linked w'"
    using w prev unfolding links_ok_def poll_linked_def eq by metis
  moreover have "descriptor_linked w'"
    using w succ unfolding links_ok_def descriptor_linked_def eq by metis
  moreover have "timer_linked w'"
    using w succ unfolding links_ok_def timer_linked_def eq by metis
  moreover have "timeout_linked w'"
    using w prev unfolding links_ok_def timeout_linked_def eq by metis
  ultimately show ?thesis by (simp add: links_ok_def)
qed

definition merged :: "bool \<Rightarrow> client_descriptor \<Rightarrow> client_descriptor" where
  "merged b c = c\<lparr>cqueue := snd (contents b (cqueue c))\<rparr>"

lemma merged_simps [simp]:
  "same_key c (merged b c)" "same_links c (merged b c)"
  "current_handler_id (merged b c) = current_handler_id c" "timeout_handle (merged b c) = timeout_handle c"
  "user_profile_id (merged b c) = user_profile_id c" "realm_id (merged b c) = realm_id c"
  "cqueue (merged b c) = snd (contents b (cqueue c))"
  by (simp_all add: merged_def same_key_def same_links_def all_streams_client_def)

definition respond :: "int \<Rightarrow> string \<Rightarrow> qevent list \<Rightarrow> world \<Rightarrow> world" where
  "respond h qid cs w =
     (if h \<in> set (handlers w) \<and> \<not> (length cs = 1 \<and> \<not> has_key (ev_body (hd cs)) ''type'')
      then w\<lparr>responses := responses w @ [(h, qid, cs)]\<rparr> else w)"

lemma finish_handler_eq: "finish_handler h qid cs w = (Inr (), respond h qid cs w)"
  by (simp add: finish_handler_def respond_def bnd_def gets_def ret_def modify_def)

lemma respond_simps [simp]:
  "clients (respond h q cs w) = clients w" "user_clients (respond h q cs w) = user_clients w"
  "realm_clients_all_streams (respond h q cs w) = realm_clients_all_streams w"
  "web_reload_clients (respond h q cs w) = web_reload_clients w" "heap (respond h q cs w) = heap w"
  "descriptors_by_handler_id (respond h q cs w) = descriptors_by_handler_id w"
  "timers (respond h q cs w) = timers w" "next_timer (respond h q cs w) = next_timer w"
  "handlers (respond h q cs w) = handlers w" "next_handler_id (respond h q cs w) = next_handler_id w"
  "published (respond h q cs w) = published w"
  by (simp_all add: respond_def)

definition finished :: "string \<Rightarrow> client_descriptor \<Rightarrow> world \<Rightarrow> world" where
  "finished qid c w = (case current_handler_id c of
     None \<Rightarrow> w
   | Some h \<Rightarrow> disconnected qid (merged False c)
       (respond h (queue_id (cqueue c)) (fst (contents False (cqueue c))) (w\<lparr>heap := (heap w)(qid \<mapsto> merged False c)\<rparr>)))"

lemma wf_upd:
  assumes "wf_world w" "heap w q = Some c" "same_key c c'" "same_links c c'"
  shows "wf_world (w\<lparr>heap := (heap w)(q \<mapsto> c')\<rparr>)"
  using assms links_ok_upd [of w q c c' "w\<lparr>heap := (heap w)(q \<mapsto> c')\<rparr>"]
    tables_ok_upd [of w q c c' "w\<lparr>heap := (heap w)(q \<mapsto> c')\<rparr>"]
  by (simp add: wf_world_def)

lemma wf_respond: "wf_world (respond h q cs w) = wf_world w"
proof -
  have "members P f (respond h q cs w) = members P f w" for P f
    by (simp add: members_def fun_eq_iff)
  then show ?thesis by (simp add: wf_world_def tables_ok_def links_defs)
qed

lemma finish_current_handler_eq:
  assumes w: "wf_world w" and c: "heap w q = Some c"
  shows "finish_current_handler q w = (Inr (current_handler_id c \<noteq> None), finished q c w)"
proof (cases "current_handler_id c")
  case None
  with c show ?thesis by (simp add: finish_current_handler_def bnd_def obj_def ret_def finished_def)
next
  case (Some h)
  let ?w = "respond h (queue_id (cqueue c)) (fst (contents False (cqueue c))) (w\<lparr>heap := (heap w)(q \<mapsto> merged False c)\<rparr>)"
  have "wf_world ?w"
    using wf_upd [OF w c, of "merged False c"] by (simp add: wf_respond)
  then have d: "disconnect_handler q ?w = (Inr (), disconnected q (merged False c) ?w)"
    by (intro disconnect_handler_eq) (auto simp: wf_world_def)
  have m: "merge_queue q False w =
      (Inr (fst (contents False (cqueue c))), w\<lparr>heap := (heap w)(q \<mapsto> merged False c)\<rparr>)"
    using c by (simp add: merge_queue_def bnd_def obj_def set_obj_def modify_def ret_def merged_def)
  show ?thesis
    using c by (simp add: finish_current_handler_def bnd_def obj_def Some try_finally_def m finish_handler_eq
        d ret_def finished_def)
qed

lemma wf_finished:
  assumes w: "wf_world w" and c: "heap w q = Some c"
  shows "wf_world (finished q c w)"
proof (cases "current_handler_id c")
  case (Some h)
  with wf_upd [OF w c, of "merged False c"] show ?thesis
    by (simp add: finished_def) (rule wf_disconnected, simp_all add: wf_respond)
qed (simp add: finished_def w)

lemma finished_simps [simp]:
  "clients (finished q c w) = clients w" "user_clients (finished q c w) = user_clients w"
  "realm_clients_all_streams (finished q c w) = realm_clients_all_streams w"
  "web_reload_clients (finished q c w) = web_reload_clients w"
  "published (finished q c w) = published w" "handlers (finished q c w) = handlers w"
  "next_handler_id (finished q c w) = next_handler_id w"
  by (simp_all add: finished_def split: option.split)

lemma descriptors_finished:
  "descriptors_by_handler_id w h = None \<Longrightarrow> descriptors_by_handler_id (finished q c w) h = None"
  by (simp add: finished_def split: option.split)

lemma heap_finished: "heap w q = Some c \<Longrightarrow> heap (finished q c w) = (heap w)(q \<mapsto>
    (if current_handler_id c = None then c else idle_client (merged False c)))"
  by (auto simp: finished_def split: option.split)

text \<open>
  \<open>add_event\<close>: the event is pushed, and a waiting long poll is answered with everything pending.
\<close>

definition pushed_client :: "dict \<Rightarrow> client_descriptor \<Rightarrow> client_descriptor" where
  "pushed_client ev c = c\<lparr>cqueue := snd (push ev (cqueue c))\<rparr>"

lemma pushed_client_simps [simp]:
  "same_key c (pushed_client ev c)" "same_links c (pushed_client ev c)"
  "current_handler_id (pushed_client ev c) = current_handler_id c"
  "user_profile_id (pushed_client ev c) = user_profile_id c" "realm_id (pushed_client ev c) = realm_id c"
  "cqueue (pushed_client ev c) = snd (push ev (cqueue c))" "event_types (pushed_client ev c) = event_types c"
  by (simp_all add: pushed_client_def same_key_def same_links_def all_streams_client_def)

definition added :: "string \<Rightarrow> dict \<Rightarrow> client_descriptor \<Rightarrow> world \<Rightarrow> world" where
  "added qid ev c w = finished qid (pushed_client ev c) (w\<lparr>heap := (heap w)(qid \<mapsto> pushed_client ev c)\<rparr>)"

lemma add_event_eq:
  assumes w: "wf_world w" and c: "heap w q = Some c" and "fst (push ev (cqueue c)) = Inr ()"
  shows "add_event q ev w = (Inr (), added q ev c w)"
proof -
  have p: "push_event q ev w = (Inr (), w\<lparr>heap := (heap w)(q \<mapsto> pushed_client ev c)\<rparr>)"
    using c assms(3)
    by (simp add: push_event_def bnd_def obj_def set_obj_def modify_def lift_def pushed_client_def)
  have "wf_world (w\<lparr>heap := (heap w)(q \<mapsto> pushed_client ev c)\<rparr>)"
    by (rule wf_upd [OF w c]) simp_all
  from finish_current_handler_eq [OF this, of q "pushed_client ev c"]
  show ?thesis by (simp add: add_event_def bnd_def p ret_def added_def)
qed

lemma wf_added:
  assumes "wf_world w" "heap w q = Some c"
  shows "wf_world (added q ev c w)"
  unfolding added_def using wf_upd [OF assms, of "pushed_client ev c"] by (intro wf_finished) simp_all

lemma add_event_refused:
  assumes "heap w q = Some c" "fst (push ev (cqueue c)) = Inl e"
  shows "add_event q ev w = (Inl e, w\<lparr>heap := (heap w)(q \<mapsto> pushed_client ev c)\<rparr>)"
  using assms
  by (simp add: add_event_def push_event_def bnd_def obj_def set_obj_def modify_def lift_def pushed_client_def)


section \<open>Opening a long poll, closing connections, heartbeats\<close>

definition polling_client :: "real \<Rightarrow> nat \<Rightarrow> int \<Rightarrow> string \<Rightarrow> client_descriptor \<Rightarrow> client_descriptor" where
  "polling_client now t h name c = c\<lparr>current_handler_id := Some h, current_client_name := Some name,
     last_connection_time := now,
     timeout_handle := (if client_type_name c = ''API: heartbeat test'' then timeout_handle c else Some t)\<rparr>"

definition connected :: "real \<Rightarrow> string \<Rightarrow> int \<Rightarrow> string \<Rightarrow> client_descriptor \<Rightarrow> world \<Rightarrow> world" where
  "connected now q h name c w = w\<lparr>
     heap := (heap w)(q \<mapsto> polling_client now (next_timer w) h name c),
     descriptors_by_handler_id := (descriptors_by_handler_id w)(h \<mapsto> q),
     timers := (if client_type_name c = ''API: heartbeat test'' then timers w else timers w @ [(next_timer w, q)]),
     next_timer := (if client_type_name c = ''API: heartbeat test'' then next_timer w else next_timer w + 1)\<rparr>"

lemma connect_handler_eq:
  assumes "heap w q = Some c"
  shows "connect_handler now q h name w = (Inr (), connected now q h name c w)"
proof (cases "client_type_name c = ''API: heartbeat test''")
  case True
  have "c\<lparr>timeout_handle := timeout_handle c\<rparr> = c" by simp
  with True assms show ?thesis
    by (cases c) (simp add: connect_handler_def connected_def polling_client_def bnd_def upd_obj_def obj_def set_obj_def
        modify_def set_descriptor_by_handler_id_def ret_def)
next
  case False
  with assms show ?thesis
    by (simp add: connect_handler_def connected_def polling_client_def bnd_def upd_obj_def obj_def set_obj_def
        modify_def set_descriptor_by_handler_id_def ret_def gets_def)
qed

lemma polling_client_simps [simp]:
  "same_key c (polling_client now t h name c)"
  "current_handler_id (polling_client now t h name c) = Some h"
  "timeout_handle (polling_client now t h name c) =
     (if client_type_name c = ''API: heartbeat test'' then timeout_handle c else Some t)"
  "cqueue (polling_client now t h name c) = cqueue c"
  by (simp_all add: polling_client_def same_key_def all_streams_client_def)

lemma connected_simps [simp]:
  "heap (connected now q h name c w) = (heap w)(q \<mapsto> polling_client now (next_timer w) h name c)"
  "descriptors_by_handler_id (connected now q h name c w) = (descriptors_by_handler_id w)(h \<mapsto> q)"
  "clients (connected now q h name c w) = clients w"
  "user_clients (connected now q h name c w) = user_clients w"
  "realm_clients_all_streams (connected now q h name c w) = realm_clients_all_streams w"
  "web_reload_clients (connected now q h name c w) = web_reload_clients w"
  "next_handler_id (connected now q h name c w) = next_handler_id w"
  "responses (connected now q h name c w) = responses w"
  by (simp_all add: connected_def)

lemma wf_connected:
  assumes w: "wf_world w" and c: "heap w q = Some c" and idle: "current_handler_id c = None"
    and h: "h < next_handler_id w" "descriptors_by_handler_id w h = None"
  shows "wf_world (connected now q h name c w)"
proof -
  let ?w = "connected now q h name c w"
  from w have l: "poll_linked w" "descriptor_linked w" "timer_linked w" "timeout_linked w"
    by (simp_all add: wf_world_def links_ok_def)
  have noto: "timeout_handle c = None"
    using timeout_linkedD(2) [OF l(4) c] idle by (cases "timeout_handle c") auto
  have "tables_ok ?w"
    by (rule tables_ok_upd [OF _ c, where c' = "polling_client now (next_timer w) h name c"])
      (use w in \<open>simp_all add: wf_world_def\<close>)
  moreover have "poll_linked ?w"
    using l(1) h c by (auto simp: poll_linked_def)
  moreover have "descriptor_linked ?w"
    unfolding descriptor_linked_def
  proof (intro allI impI)
    fix h' q'
    assume "descriptors_by_handler_id ?w h' = Some q'"
    then consider "h' = h" "q' = q" | "h' \<noteq> h" "descriptors_by_handler_id w h' = Some q'"
      by (auto split: if_splits)
    then show "h' < next_handler_id ?w \<and> (\<exists>c'. heap ?w q' = Some c' \<and> (h' = 0 \<or> current_handler_id c' = Some h'))"
    proof cases
      case 1
      with h show ?thesis by simp
    next
      case 2
      from l(2) 2(2) have "h' < next_handler_id w" "\<exists>c'. heap w q' = Some c' \<and> (h' = 0 \<or> current_handler_id c' = Some h')"
        unfolding descriptor_linked_def by blast+
      with c idle show ?thesis by (cases "q' = q") auto
    qed
  qed
  moreover have "timer_linked ?w"
  proof (cases "client_type_name c = ''API: heartbeat test''")
    case True
    then have t: "timers ?w = timers w" "next_timer ?w = next_timer w" by (simp_all add: connected_def)
    have "\<exists>c'. heap ?w q' = Some c' \<and> timeout_handle c' = Some t'" if "(t', q') \<in> set (timers w)" for t' q'
      using timer_linkedD(2) [OF l(3) that] c True by (cases "q' = q") auto
    with l(3) show ?thesis unfolding timer_linked_def t by blast
  next
    case False
    then have t: "timers ?w = timers w @ [(next_timer w, q)]" "next_timer ?w = next_timer w + 1"
      by (simp_all add: connected_def)
    have "next_timer w \<notin> fst ` set (timers w)"
      using timer_linkedD(1) [OF l(3)] by fastforce
    moreover have "(t', q) \<notin> set (timers w)" for t'
      using timer_linkedD(2) [OF l(3)] c noto by fastforce
    moreover have "t' < next_timer w + 1 \<and> (\<exists>c'. heap ?w q' = Some c' \<and> timeout_handle c' = Some t')"
      if tq: "(t', q') \<in> set (timers w @ [(next_timer w, q)])" for t' q'
    proof (cases "(t', q') \<in> set (timers w)")
      case True
      with timer_linkedD [OF l(3) True] calculation(2) show ?thesis by (cases "q' = q") auto
    next
      case F: False
      with tq False show ?thesis by simp
    qed
    ultimately show ?thesis
      using l(3) unfolding timer_linked_def t by simp
  qed
  moreover have "timeout_linked ?w"
    using l(4) noto unfolding timeout_linked_def connected_def
    by (auto split: if_splits)
  ultimately show ?thesis by (simp add: wf_world_def links_ok_def)
qed

text \<open>A heartbeat: its timer is used up, then the event is added.\<close>

definition timer_fired :: "nat \<Rightarrow> string \<Rightarrow> client_descriptor \<Rightarrow> world \<Rightarrow> world" where
  "timer_fired t q c w = w\<lparr>timers := filter (\<lambda>tq. fst tq \<noteq> t) (timers w),
     heap := (heap w)(q \<mapsto> c\<lparr>timeout_handle := None\<rparr>)\<rparr>"

lemma wf_timer_fired:
  assumes w: "wf_world w" and t: "(t, q) \<in> set (timers w)" and c: "heap w q = Some c"
  shows "wf_world (timer_fired t q c w)"
proof -
  let ?w = "timer_fired t q c w"
  from w have l: "poll_linked w" "descriptor_linked w" "timer_linked w" "timeout_linked w"
    by (simp_all add: wf_world_def links_ok_def)
  have "tables_ok ?w"
    by (rule tables_ok_upd [OF _ c, where c' = "c\<lparr>timeout_handle := None\<rparr>"])
      (use w in \<open>simp_all add: wf_world_def timer_fired_def same_key_def all_streams_client_def\<close>)
  moreover have "poll_linked ?w"
    using l(1) c by (auto simp: poll_linked_def timer_fired_def)
  moreover have "descriptor_linked ?w"
    unfolding descriptor_linked_def
  proof (intro allI impI)
    fix h q'
    assume "descriptors_by_handler_id ?w h = Some q'"
    with l(2) have "h < next_handler_id w" "\<exists>c'. heap w q' = Some c' \<and> (h = 0 \<or> current_handler_id c' = Some h)"
      unfolding descriptor_linked_def timer_fired_def by auto
    with c show "h < next_handler_id ?w \<and> (\<exists>c'. heap ?w q' = Some c' \<and> (h = 0 \<or> current_handler_id c' = Some h))"
      by (cases "q' = q") (auto simp: timer_fired_def)
  qed
  moreover have "timer_linked ?w"
  proof -
    have own: "t' = t" if "(t', q) \<in> set (timers w)" for t'
    proof -
      have "timeout_handle c = Some t'" "timeout_handle c = Some t"
        using timer_linkedD(2) [OF l(3) that] timer_linkedD(2) [OF l(3) t] c by auto
      then show ?thesis by simp
    qed
    have "distinct (map fst (filter (\<lambda>tq. fst tq \<noteq> t) (timers w)))"
      using l(3) by (simp add: timer_linked_def distinct_map_filter)
    moreover have "t' < next_timer w \<and> (\<exists>c'. heap ?w q' = Some c' \<and> timeout_handle c' = Some t')"
      if "(t', q') \<in> set (timers w)" "t' \<noteq> t" for t' q'
      using timer_linkedD [OF l(3) that(1)] own that
      by (cases "q' = q") (auto simp: timer_fired_def)
    ultimately show ?thesis unfolding timer_linked_def by (auto simp: timer_fired_def)
  qed
  moreover have "timeout_linked ?w"
  proof -
    have "t' \<noteq> t" if "heap w q' = Some c'" "timeout_handle c' = Some t'" "q' \<noteq> q" for q' c' t'
    proof
      assume "t' = t"
      moreover have "(t', q') \<in> set (timers w)" using l(4) that by (simp add: timeout_linked_def)
      moreover have "distinct (map fst (timers w))" using l(3) by (simp add: timer_linked_def)
      ultimately show False using t that(3) by (metis eq_key_imp_eq_value)
    qed
    with l(4) show ?thesis unfolding timeout_linked_def timer_fired_def by (auto split: if_splits)
  qed
  ultimately show ?thesis by (simp add: wf_world_def links_ok_def)
qed

lemma wf_event_heartbeat: "wf_event create_heartbeat_event"
  by (simp add: wf_event_iff create_heartbeat_event_def compute_full_event_type_def str_at_def getk_def
      compressible_def startswith_def)

lemma push_heartbeat: "fst (push create_heartbeat_event q) = Inr ()"
  by (simp add: push_def create_heartbeat_event_def compute_full_event_type_def str_at_def getk_def
      compressible_def startswith_def Let_def)

lemma timeout_callback_eq:
  assumes w: "wf_world w" and t: "(t, q) \<in> set (timers w)" and c: "heap w q = Some c"
  shows "timeout_callback t q w =
    (Inr (), added q create_heartbeat_event (c\<lparr>timeout_handle := None\<rparr>) (timer_fired t q c w))"
proof -
  have "add_event q create_heartbeat_event (timer_fired t q c w) =
      (Inr (), added q create_heartbeat_event (c\<lparr>timeout_handle := None\<rparr>) (timer_fired t q c w))"
    by (rule add_event_eq [OF wf_timer_fired [OF w t c]]) (simp_all add: timer_fired_def push_heartbeat)
  with c show ?thesis
    by (simp add: timeout_callback_def bnd_def modify_def upd_obj_def obj_def set_obj_def timer_fired_def)
qed

lemma on_connection_close_eq:
  assumes "wf_world w"
  shows "on_connection_close h w = (Inr (),
    (let w1 = w\<lparr>handlers := removeAll h (handlers w)\<rparr>
     in case descriptors_by_handler_id w h of None \<Rightarrow> w1 | Some q \<Rightarrow> disconnected q (the (heap w q)) w1))"
proof (cases "descriptors_by_handler_id w h")
  case None
  then show ?thesis
    by (simp add: on_connection_close_def clear_handler_by_id_def bnd_def modify_def gets_def ret_def)
next
  case (Some q)
  with assms obtain c where c: "heap w q = Some c"
    by (auto simp: wf_world_def links_ok_def descriptor_linked_def)
  have "links_ok (w\<lparr>handlers := removeAll h (handlers w)\<rparr>)"
    using assms by (simp add: wf_world_def links_defs)
  from disconnect_handler_eq [OF this, of q c] c Some show ?thesis
    by (simp add: on_connection_close_def clear_handler_by_id_def bnd_def modify_def gets_def Let_def)
qed

lemma members_cong: "heap w' = heap w \<Longrightarrow> clients w' = clients w \<Longrightarrow> members P f w' = members P f w"
  by (simp add: members_def fun_eq_iff)

lemma wf_handlers_upd [simp]:
  "wf_world (w\<lparr>handlers := hs\<rparr>) = wf_world w"
  by (simp add: wf_world_def tables_ok_def links_defs members_cong [of "w\<lparr>handlers := hs\<rparr>" w])

lemma wf_published_upd [simp]:
  "wf_world (w\<lparr>published := ps\<rparr>) = wf_world w"
  by (simp add: wf_world_def tables_ok_def links_defs members_cong [of "w\<lparr>published := ps\<rparr>" w])


section \<open>Garbage collection removes exactly the expired clients\<close>

text \<open>
  What garbage collection relies on of its hooks: on an acceptable client a hook returns, and
  changes nothing but that client's queue and what is published.
\<close>

locale gc_contract =
  fixes gc_hooks :: "gc_hook list"
    and acceptable :: "client_descriptor \<Rightarrow> bool"
  assumes hook: "cb \<in> set gc_hooks \<Longrightarrow> heap w q = Some c \<Longrightarrow> acceptable c \<Longrightarrow> u = user_profile_id c \<Longrightarrow>
    \<exists>c' ps. cb u q l w = (Inr (), w\<lparr>heap := (heap w)(q \<mapsto> c'), published := ps\<rparr>) \<and>
      same_key c c' \<and> same_links c c' \<and> acceptable c'"

text \<open>Worlds that differ only in one object, up to what the tables and links see, and in what is published.\<close>

definition touched :: "string set \<Rightarrow> world \<Rightarrow> world \<Rightarrow> bool" where
  "touched qs w w' \<longleftrightarrow>
     (\<exists>hp ps. w' = w\<lparr>heap := hp, published := ps\<rparr> \<and> (\<forall>q. q \<notin> qs \<longrightarrow> hp q = heap w q) \<and>
        (\<forall>q. rel_option (\<lambda>c c'. same_key c c' \<and> same_links c c') (heap w q) (hp q)))"

lemma same_trans:
  "same_key a b \<Longrightarrow> same_key b c \<Longrightarrow> same_key a c" "same_links a b \<Longrightarrow> same_links b c \<Longrightarrow> same_links a c"
  by (simp_all add: same_key_def same_links_def)

lemma same_links_refl [simp]: "same_links c c"
  by (simp add: same_links_def)

lemma touched_refl: "touched qs w w"
  unfolding touched_def by (rule exI [of _ "heap w"], rule exI [of _ "published w"]) (simp add: option.rel_refl)

lemma touched_one:
  assumes "heap w q = Some c" "same_key c c'" "same_links c c'"
  shows "touched {q} w (w\<lparr>heap := (heap w)(q \<mapsto> c'), published := ps\<rparr>)"
  unfolding touched_def using assms
  by (intro exI [of _ "(heap w)(q \<mapsto> c')"] exI [of _ ps]) (simp add: option.rel_refl)

lemma touched_trans:
  assumes "touched qs w w'" "touched rs w' w''"
  shows "touched (qs \<union> rs) w w''"
proof -
  from assms(1) obtain hp ps where 1: "w' = w\<lparr>heap := hp, published := ps\<rparr>" "\<forall>q. q \<notin> qs \<longrightarrow> hp q = heap w q"
    "\<forall>q. rel_option (\<lambda>c c'. same_key c c' \<and> same_links c c') (heap w q) (hp q)" by (auto simp: touched_def)
  from assms(2) obtain hp' ps' where 2: "w'' = w'\<lparr>heap := hp', published := ps'\<rparr>" "\<forall>q. q \<notin> rs \<longrightarrow> hp' q = hp q"
    "\<forall>q. rel_option (\<lambda>c c'. same_key c c' \<and> same_links c c') (hp q) (hp' q)" by (auto simp: touched_def 1)
  have "rel_option (\<lambda>c c'. same_key c c' \<and> same_links c c') (heap w q) (hp' q)" for q
    using 1(3) 2(3) by (cases "heap w q"; cases "hp q"; cases "hp' q")
      (auto dest!: spec [of _ q] intro: same_trans)
  then show ?thesis
    unfolding touched_def using 1(1,2) 2(1,2)
    by (intro exI [of _ hp'] exI [of _ ps']) auto
qed

context gc_contract
begin

definition ready :: "world \<Rightarrow> string \<Rightarrow> bool" where
  "ready w q \<longleftrightarrow> q \<in> set (clients w) \<and> (\<exists>c. heap w q = Some c \<and> acceptable c)"

lemma run_hooks:
  assumes "set hs \<subseteq> set gc_hooks" "ready w q"
  shows "\<exists>w'. run_gc_hooks hs q w = (Inr (), w') \<and> touched {q} w w' \<and> ready w' q"
  using assms
proof (induction hs arbitrary: w)
  case Nil
  then show ?case by (auto simp: run_gc_hooks_def ret_def touched_refl)
next
  case (Cons cb hs)
  then obtain c where c: "q \<in> set (clients w)" "heap w q = Some c" "acceptable c" by (auto simp: ready_def)
  obtain c' ps where h: "cb (user_profile_id c) q (user_clients w (user_profile_id c) = None) w =
      (Inr (), w\<lparr>heap := (heap w)(q \<mapsto> c'), published := ps\<rparr>)" "same_key c c'" "same_links c c'" "acceptable c'"
    using hook [OF _ c(2,3) refl, of cb] Cons.prems(1) by (meson list.set_intros(1) subsetD)
  let ?w = "w\<lparr>heap := (heap w)(q \<mapsto> c'), published := ps\<rparr>"
  have t: "touched {q} w ?w" using c(2) h(2,3) by (rule touched_one)
  have r: "ready ?w q" using c h(4) by (simp add: ready_def)
  obtain w' where w': "run_gc_hooks hs q ?w = (Inr (), w')" "touched {q} ?w w'" "ready w' q"
    using Cons.IH [OF _ r] Cons.prems(1) by auto
  have "run_gc_hook q cb w = (Inr (), ?w)"
    using c h(1) by (simp add: run_gc_hook_def client_at_def bnd_def gets_def obj_def)
  then have run: "run_gc_hooks (cb # hs) q w = (Inr (), w')"
    using w'(1) by (simp add: run_gc_hooks_def bnd_run)
  from touched_trans [OF t w'(2)] run w'(3) show ?case by auto
qed

lemma drop_client_ok:
  assumes "ready w q"
  shows "\<exists>w'. drop_client gc_hooks q w = (Inr (), w') \<and>
    touched {q} (w\<lparr>web_reload_clients := removeAll q (web_reload_clients w), clients := removeAll q (clients w)\<rparr>) w'"
proof -
  let ?w = "w\<lparr>web_reload_clients := removeAll q (web_reload_clients w)\<rparr>"
  have "ready ?w q" using assms by (simp add: ready_def)
  from run_hooks [OF subset_refl this] obtain w1 where w1: "run_gc_hooks gc_hooks q ?w = (Inr (), w1)"
    "touched {q} ?w w1" "ready w1 q" by blast
  from w1(3) obtain c1 where "q \<in> set (clients w1)" "heap w1 q = Some c1" by (auto simp: ready_def)
  then have "client_at q w1 = (Inr c1, w1)" by (simp add: client_at_def bnd_def gets_def obj_def)
  moreover have "modify (\<lambda>w. w\<lparr>web_reload_clients := removeAll q (web_reload_clients w)\<rparr>) w = (Inr (), ?w)"
    by (simp add: modify_def)
  ultimately have "drop_client gc_hooks q w = (Inr (), w1\<lparr>clients := removeAll q (clients w1)\<rparr>)"
    using w1(1) by (simp add: drop_client_def bnd_run modify_def)
  moreover have "touched {q} (?w\<lparr>clients := removeAll q (clients w)\<rparr>) (w1\<lparr>clients := removeAll q (clients w1)\<rparr>)"
  proof -
    from w1(2) obtain hp ps where hp: "w1 = ?w\<lparr>heap := hp, published := ps\<rparr>" "\<forall>p. p \<noteq> q \<longrightarrow> hp p = heap w p"
      "\<forall>q. rel_option (\<lambda>c c'. same_key c c' \<and> same_links c c') (heap w q) (hp q)"
      by (auto simp: touched_def)
    show ?thesis
      unfolding touched_def by (rule exI [of _ hp], rule exI [of _ ps]) (use hp in simp)
  qed
  ultimately show ?thesis by auto
qed

lemma drop_clients_ok:
  assumes "distinct qs" "\<forall>q\<in>set qs. ready w q"
  shows "\<exists>w'. for_each (drop_client gc_hooks) qs w = (Inr (), w') \<and>
    touched (set qs) (w\<lparr>web_reload_clients := filter (\<lambda>q. q \<notin> set qs) (web_reload_clients w),
       clients := filter (\<lambda>q. q \<notin> set qs) (clients w)\<rparr>) w'"
  using assms
proof (induction qs arbitrary: w)
  case Nil
  show ?case by (simp add: ret_def touched_refl)
next
  case (Cons q qs)
  from drop_client_ok [of w q] Cons.prems(2) obtain w1 where w1: "drop_client gc_hooks q w = (Inr (), w1)"
    "touched {q} (w\<lparr>web_reload_clients := removeAll q (web_reload_clients w), clients := removeAll q (clients w)\<rparr>) w1"
    by auto
  have "\<forall>p\<in>set qs. ready w1 p"
    using w1(2) Cons.prems unfolding touched_def ready_def by fastforce
  with Cons.IH [of w1] Cons.prems(1) obtain w2 where w2: "for_each (drop_client gc_hooks) qs w1 = (Inr (), w2)"
    "touched (set qs) (w1\<lparr>web_reload_clients := filter (\<lambda>q. q \<notin> set qs) (web_reload_clients w1),
       clients := filter (\<lambda>q. q \<notin> set qs) (clients w1)\<rparr>) w2" by auto
  have f: "filter (\<lambda>p. p \<notin> set qs) (removeAll q xs) = filter (\<lambda>p. p \<noteq> q \<and> p \<notin> set qs) xs" for xs
    by (induction xs) auto
  have "touched {q} (w\<lparr>web_reload_clients := filter (\<lambda>p. p \<notin> set (q # qs)) (web_reload_clients w),
       clients := filter (\<lambda>p. p \<notin> set (q # qs)) (clients w)\<rparr>)
     (w1\<lparr>web_reload_clients := filter (\<lambda>q. q \<notin> set qs) (web_reload_clients w1),
       clients := filter (\<lambda>q. q \<notin> set qs) (clients w1)\<rparr>)"
  proof -
    from w1(2) obtain hp ps where hp: "w1 = w\<lparr>web_reload_clients := removeAll q (web_reload_clients w),
        clients := removeAll q (clients w), heap := hp, published := ps\<rparr>" "\<forall>p. p \<noteq> q \<longrightarrow> hp p = heap w p"
      "\<forall>q. rel_option (\<lambda>c c'. same_key c c' \<and> same_links c c') (heap w q) (hp q)"
      by (auto simp: touched_def)
    show ?thesis
      unfolding touched_def by (rule exI [of _ hp], rule exI [of _ ps]) (use hp in \<open>simp add: f\<close>)
  qed
  from touched_trans [OF this w2(2)] w1(1) w2(1) show ?case by (auto simp: bnd_def)
qed

end


lemma filter_client_dict_at:
  "filter_client_dict rm k m k' = (if k' = k then
     (case m k of None \<Rightarrow> None
      | Some qs \<Rightarrow> if filter (\<lambda>q. q \<notin> set rm) qs = [] then None else Some (filter (\<lambda>q. q \<notin> set rm) qs))
     else m k')"
  by (auto simp: filter_client_dict_def Let_def split: option.split)

lemma fold_filter_client_dict:
  "fold (filter_client_dict rm) ks m k = (if k \<in> set ks then
     (case m k of None \<Rightarrow> None
      | Some qs \<Rightarrow> if filter (\<lambda>q. q \<notin> set rm) qs = [] then None else Some (filter (\<lambda>q. q \<notin> set rm) qs))
     else m k)"
  by (induction ks arbitrary: m) (auto simp: filter_client_dict_at split: option.splits)

lemma table_ok_gc:
  assumes "table_ok m S" and "\<And>k. S k \<inter> set rm \<noteq> {} \<Longrightarrow> k \<in> set ks"
  shows "table_ok (fold (filter_client_dict rm) ks m) (\<lambda>k. S k - set rm)"
  unfolding table_ok_def
proof (intro allI)
  fix k
  have k: "m k \<noteq> Some []" "distinct (table_at m k)" "set (table_at m k) = S k"
    using assms(1) by (simp_all add: table_ok_def)
  show "fold (filter_client_dict rm) ks m k \<noteq> Some [] \<and>
      distinct (table_at (fold (filter_client_dict rm) ks m) k) \<and>
      set (table_at (fold (filter_client_dict rm) ks m) k) = S k - set rm"
  proof (cases "k \<in> set ks")
    case True
    with k show ?thesis
      by (cases "m k") (auto simp: table_at_def fold_filter_client_dict filter_empty_conv)
  next
    case False
    with assms(2) [of k] k show ?thesis by (auto simp: table_at_def fold_filter_client_dict)
  qed
qed

lemma members_remove:
  "clients w' = filter (\<lambda>q. q \<notin> R) (clients w) \<Longrightarrow> heap w' = heap w \<Longrightarrow>
     members P f w' = (\<lambda>k. members P f w k - R)"
  by (auto simp: members_def fun_eq_iff)

lemma wf_touched:
  assumes "wf_world w" "touched qs w w'"
  shows "wf_world w'"
proof -
  from assms(2) obtain hp ps where w': "w' = w\<lparr>heap := hp, published := ps\<rparr>"
    and rel: "\<And>q. rel_option (\<lambda>c c'. same_key c c' \<and> same_links c c') (heap w q) (hp q)"
    by (auto simp: touched_def)
  have "tables_ok w'"
    by (rule tables_ok_cong [of w]) (use assms(1) rel in \<open>auto simp: w' wf_world_def intro: option.rel_mono_strong\<close>)
  moreover have "links_ok w'"
  proof -
    from assms(1) have l: "poll_linked w" "descriptor_linked w" "timer_linked w" "timeout_linked w"
      by (simp_all add: wf_world_def links_ok_def)
    have prev: "\<exists>x. heap w p = Some x \<and> current_handler_id x = current_handler_id y \<and> timeout_handle x = timeout_handle y"
      if "heap w' p = Some y" for p y
      using that rel [of p] by (cases "heap w p") (auto simp: w' same_links_def)
    have succ: "\<exists>y. heap w' p = Some y \<and> current_handler_id x = current_handler_id y \<and> timeout_handle x = timeout_handle y"
      if "heap w p = Some x" for p x
      using that rel [of p] by (cases "hp p") (auto simp: w' same_links_def)
    have eq: "descriptors_by_handler_id w' = descriptors_by_handler_id w" "next_handler_id w' = next_handler_id w"
      "timers w' = timers w" "next_timer w' = next_timer w" by (simp_all add: w')
    have "poll_linked w'" using l(1) prev unfolding poll_linked_def eq by metis
    moreover have "descriptor_linked w'" using l(2) succ unfolding descriptor_linked_def eq by metis
    moreover have "timer_linked w'" using l(3) succ unfolding timer_linked_def eq by metis
    moreover have "timeout_linked w'" using l(4) prev unfolding timeout_linked_def eq by metis
    ultimately show ?thesis by (simp add: links_ok_def)
  qed
  ultimately show ?thesis by (simp add: wf_world_def)
qed

text \<open>What a garbage collection of the queues \<open>rm\<close> leaves.\<close>

definition collected :: "string set \<Rightarrow> world \<Rightarrow> world \<Rightarrow> bool" where
  "collected rm w w' \<longleftrightarrow> wf_world w' \<and>
     clients w' = filter (\<lambda>q. q \<notin> rm) (clients w) \<and>
     web_reload_clients w' = filter (\<lambda>q. q \<notin> rm) (web_reload_clients w) \<and>
     (\<forall>u. table_at (user_clients w') u = filter (\<lambda>q. q \<notin> rm) (table_at (user_clients w) u)) \<and>
     responses w' = responses w \<and> (\<forall>q. q \<notin> rm \<longrightarrow> heap w' q = heap w q)"

context gc_contract
begin

lemma do_gc_ok:
  assumes w: "wf_world w" and rm: "distinct rm" "\<forall>q\<in>set rm. ready w q"
    and us: "\<forall>q\<in>set rm. \<forall>c. heap w q = Some c \<longrightarrow> user_profile_id c \<in> set us \<and> realm_id c \<in> set rs"
  shows "\<exists>w'. do_gc_event_queues gc_hooks rm us rs w = (Inr (), w') \<and> collected (set rm) w w'"
proof -
  let ?u = "fold (filter_client_dict rm) us (user_clients w)"
  let ?r = "fold (filter_client_dict rm) rs (realm_clients_all_streams w)"
  let ?w = "w\<lparr>user_clients := ?u, realm_clients_all_streams := ?r\<rparr>"
  let ?d = "?w\<lparr>web_reload_clients := filter (\<lambda>q. q \<notin> set rm) (web_reload_clients w),
       clients := filter (\<lambda>q. q \<notin> set rm) (clients w)\<rparr>"
  have "\<forall>q\<in>set rm. ready ?w q" using rm(2) by (simp add: ready_def)
  from drop_clients_ok [OF rm(1) this] obtain w' where
    w': "for_each (drop_client gc_hooks) rm ?w = (Inr (), w')" "touched (set rm) ?d w'" by auto
  have run: "do_gc_event_queues gc_hooks rm us rs w = (Inr (), w')"
    using w'(1) by (simp add: do_gc_event_queues_def bnd_def modify_def)
  have m: "members P f ?d = (\<lambda>k. members P f w k - set rm)" for P f
    by (rule members_remove) simp_all
  from w have t: "tables_ok w" by (simp add: wf_world_def)
  then have tu: "table_ok (user_clients w) (members (\<lambda>_. True) user_profile_id w)"
    and tr: "table_ok (realm_clients_all_streams w) (members all_streams_client realm_id w)"
    by (simp_all add: tables_ok_def)
  have "table_ok ?u (\<lambda>k. members (\<lambda>_. True) user_profile_id w k - set rm)"
    by (rule table_ok_gc [OF tu]) (use us in \<open>auto simp: members_def\<close>)
  moreover have "table_ok ?r (\<lambda>k. members all_streams_client realm_id w k - set rm)"
    by (rule table_ok_gc [OF tr]) (use us in \<open>auto simp: members_def\<close>)
  ultimately have "tables_ok ?d"
    using t unfolding tables_ok_def m by auto
  moreover have "links_ok ?d" using w by (simp add: wf_world_def links_defs)
  ultimately have "wf_world w'" using wf_touched [OF _ w'(2)] by (simp add: wf_world_def)
  moreover have "table_at ?u u = filter (\<lambda>q. q \<notin> set rm) (table_at (user_clients w) u)" for u
  proof (cases "u \<in> set us")
    case False
    have "set (table_at (user_clients w) u) = members (\<lambda>_. True) user_profile_id w u"
      using t by (simp add: tables_ok_def table_ok_def)
    with False us have "\<forall>q\<in>set (table_at (user_clients w) u). q \<notin> set rm"
      by (auto simp: members_def)
    with False show ?thesis by (simp add: table_at_def fold_filter_client_dict)
  qed (auto simp: table_at_def fold_filter_client_dict split: option.split)
  ultimately have "collected (set rm) w w'"
    using w'(2) by (auto simp: collected_def touched_def)
  with run show ?thesis by blast
qed

lemma gc_event_queues_ok:
  assumes w: "wf_world w" and ok: "\<forall>q\<in>set (expired_clients now w). ready w q"
  shows "\<exists>w'. gc_event_queues gc_hooks now w = (Inr (), w') \<and> collected (set (expired_clients now w)) w w'"
proof -
  have "distinct (expired_clients now w)"
    using w by (simp add: wf_world_def tables_ok_def expired_clients_def)
  from do_gc_ok [OF w this ok, of "of_clients user_profile_id (expired_clients now w) w"
      "of_clients realm_id (expired_clients now w) w"]
  show ?thesis
    by (simp add: gc_event_queues_def bnd_def gets_def of_clients_def) (force simp: image_iff)
qed

end

end
