(* ===== verification/LongPoll.thy ===== *)
theory LongPoll
  imports TornadoState
begin

text \<open>
  Long polling seen from the protocol: what \<open>fetch_events\<close> answers to a client that polls with
  the id of the last event it has read, to one that uses another user's queue, and that every
  step of the server keeps its tables consistent.
\<close>

section \<open>A queue in step with its client\<close>

text \<open>
  \<open>synced i q\<close>: the client has read through event \<open>i\<close>, which is still in the queue or is the
  newest event pruned from it.
\<close>

definition synced :: "int \<Rightarrow> event_queue \<Rightarrow> bool" where
  "synced i q \<longleftrightarrow> wf_queue q \<and> i < next_event_id q \<and> unmerged_after i q \<and>
     (\<exists>p. newest_pruned_id q = Some p \<and> (\<forall>e\<in>set (equeue q). p < ev_id e) \<and>
          (p = i \<or> i \<in> ev_id ` set (equeue q)))"

lemma synced_new: "synced (-1) (new_event_queue i)"
  by (simp add: synced_def unmerged_after_def new_event_queue_def) (simp add: new_event_queue_def [symmetric])

lemma synced_push:
  assumes "synced i q" "wf_event ev"
  shows "synced i (snd (push ev q))"
proof -
  from assms have q: "wf_queue q" "i < next_event_id q" "unmerged_after i q" by (simp_all add: synced_def)
  note step = push_step [OF q(1) assms(2)]
  obtain p where p: "newest_pruned_id q = Some p" "\<forall>e\<in>set (equeue q). p < ev_id e" "p = i \<or> i \<in> ev_id ` set (equeue q)"
    using assms(1) by (auto simp: synced_def)
  have pi: "p \<le> i" using p(2,3) by force
  let ?q = "snd (push ev q)"
  have n: "newest_pruned_id ?q = Some p"
    using p(1) by (simp add: push_def Let_def split: sum.split option.split prod.split)
  have sub: "set (equeue q) \<subseteq> set (equeue ?q)"
    and sup: "set (equeue ?q) \<subseteq> insert \<lparr>ev_id = next_event_id q, ev_body = ddel ''id'' ev\<rparr> (set (equeue q))"
    by (auto simp: push_def Let_def split: sum.split option.split prod.split)
  have gt: "\<forall>e\<in>set (equeue ?q). p < ev_id e"
    using sup p(2) pi q(2) by fastforce
  have mem: "p = i \<or> i \<in> ev_id ` set (equeue ?q)" using p(3) sub by blast
  have "wf_queue ?q" "next_event_id ?q = next_event_id q + 1" "unmerged_after i ?q"
    using step q(2,3) by blast+
  with n gt mem q(2) show ?thesis unfolding synced_def by simp
qed

lemma synced_prune:
  assumes "synced i q"
  shows "synced i (prune i q)" and "newest_pruned_id (prune i q) = Some i"
proof -
  from assms have q: "wf_queue q" "i < next_event_id q" "unmerged_after i q" by (simp_all add: synced_def)
  obtain p where p: "newest_pruned_id q = Some p" "\<forall>e\<in>set (equeue q). p < ev_id e" "p = i \<or> i \<in> ev_id ` set (equeue q)"
    using assms(1) by (auto simp: synced_def)
  let ?g = "filter (\<lambda>e. ev_id e \<le> i) (equeue q)"
  show n: "newest_pruned_id (prune i q) = Some i"
  proof (cases "?g = []")
    case True
    then have "p = i" using p(3) by (auto simp: filter_empty_conv)
    with True p(1) show ?thesis by (simp add: newest_pruned_prune [OF q(1)])
  next
    case False
    then obtain xs l where g: "?g = xs @ [l]" by (metis rev_exhaust)
    have "sorted_wrt (<) (map ev_id ?g)" using q(1) by (simp add: wf_queue_def sorted_wrt_map_filter)
    then have lt: "\<forall>x\<in>set xs. ev_id x < ev_id l" unfolding g by (simp add: sorted_wrt_append)
    have "l \<in> set ?g" by (simp add: g)
    then have l: "ev_id l \<le> i" "l \<in> set (equeue q)" by simp_all
    then have "p \<noteq> i" using p(2) by force
    with p(3) obtain e where "e \<in> set (equeue q)" "ev_id e = i" by auto
    then have "e \<in> set ?g" by simp
    then have "ev_id e \<le> ev_id l" using lt unfolding g by auto
    with l(1) \<open>ev_id e = i\<close> have "ev_id l = i" by simp
    with False g show ?thesis by (simp add: newest_pruned_prune [OF q(1)])
  qed
  have "unmerged_after i (prune i q)" using q(3) by (simp add: unmerged_after_def)
  with n q wf_prune [OF q(1), of i] show "synced i (prune i q)"
    by (simp add: synced_def equeue_prune)
qed

definition last_read :: "int \<Rightarrow> qevent list \<Rightarrow> int" where
  "last_read i cs = (if cs = [] then i else ev_id (last cs))"

lemma contents_queue_simps:
  "newest_pruned_id (snd (contents b q)) = newest_pruned_id q"
  "next_event_id (snd (contents b q)) = next_event_id q"
  "equeue (snd (contents b q)) = merged_contents q" "virtual_events (snd (contents b q)) = []"
  by (simp_all add: contents_def Let_def)

lemma ids_contents: "map ev_id (fst (contents b q)) = map ev_id (merged_contents q)"
  by (simp add: contents_def Let_def prune_internal_data_def comp_def)

text \<open>Reading the contents moves the client to their last event.\<close>

lemma synced_contents:
  assumes "synced i q"
  shows "synced i (snd (contents b q))" and "synced (last_read i (fst (contents b q))) (snd (contents b q))"
proof -
  from assms have q: "wf_queue q" "i < next_event_id q" "unmerged_after i q" by (simp_all add: synced_def)
  obtain p where p: "newest_pruned_id q = Some p" "\<forall>e\<in>set (equeue q). p < ev_id e" "p = i \<or> i \<in> ev_id ` set (equeue q)"
    using assms(1) by (auto simp: synced_def)
  have pi: "p \<le> i" using p(2,3) by force
  note m = merged_contents_props(3) [OF q(1)]
  have gt: "\<forall>e\<in>set (merged_contents q). p < ev_id e"
    using p(2) pi q(3) unfolding m unmerged_after_def by fastforce
  have lt: "\<forall>e\<in>set (merged_contents q). ev_id e < next_event_id q"
    using q(1) unfolding m wf_queue_def by fastforce
  have i: "p = i \<or> i \<in> ev_id ` set (merged_contents q)" using p(3) m by auto
  note w = wf_contents [OF q(1), of b]
  show "synced i (snd (contents b q))"
    using w q(2) p(1) gt i by (simp add: synced_def contents_queue_simps unmerged_after_def)
  show "synced (last_read i (fst (contents b q))) (snd (contents b q))"
  proof (cases "fst (contents b q) = []")
    case True
    then show ?thesis
      using w q(2) p(1) gt i by (simp add: synced_def contents_queue_simps unmerged_after_def last_read_def)
  next
    case False
    then have ne: "merged_contents q \<noteq> []" using ids_contents [of b q] by force
    have "ev_id (last (fst (contents b q))) = last (map ev_id (fst (contents b q)))"
      using False by (simp add: last_map)
    also have "\<dots> = ev_id (last (merged_contents q))"
      using ne by (simp add: ids_contents last_map)
    finally have l: "last_read i (fst (contents b q)) = ev_id (last (merged_contents q))"
      using False by (simp add: last_read_def)
    have "last (merged_contents q) \<in> set (merged_contents q)" using ne by simp
    with w lt gt p(1) show ?thesis
      unfolding synced_def l by (auto simp: contents_queue_simps unmerged_after_def)
  qed
qed


section \<open>Polling an existing queue\<close>

definition acked :: "int \<Rightarrow> client_descriptor \<Rightarrow> client_descriptor" where
  "acked i c = c\<lparr>cqueue := prune i (cqueue c)\<rparr>"

lemma acked_simps [simp]:
  "same_key c (acked i c)" "same_links c (acked i c)" "cqueue (acked i c) = prune i (cqueue c)"
  "current_handler_id (acked i c) = current_handler_id c" "user_profile_id (acked i c) = user_profile_id c"
  by (simp_all add: acked_def same_key_def same_links_def all_streams_client_def)

lemma acknowledge_synced:
  assumes c: "heap w q = Some c" and s: "synced i (cqueue c)"
  shows "acknowledge q i w = (Inr (), w\<lparr>heap := (heap w)(q \<mapsto> acked i c)\<rparr>)"
proof -
  obtain p where p: "newest_pruned_id (cqueue c) = Some p" "p \<le> i"
    using s unfolding synced_def by force
  show ?thesis
    using c p synced_prune(2) [OF s]
    by (simp add: acknowledge_def newest_pruned_def bnd_def obj_def ret_def whenever_def upd_obj_def
        set_obj_def modify_def acked_def)
qed

lemma wf_event_type: "wf_event b \<Longrightarrow> has_key b ''type''"
  by (auto simp: wf_event_iff compute_full_event_type_def has_key_def res_simps getk_def str_at_def
      split: option.splits if_splits)

lemma loggable_contents:
  assumes "wf_queue q"
  shows "check_loggable (fst (contents b q)) = Inr ()"
proof -
  have "has_key (ev_body e) ''type''" if "e \<in> set (merged_contents q)" for e
    using that wf_contents [OF assms, of b]
    by (auto intro!: wf_event_type simp: contents_def Let_def wf_queue_def wf_qevent_def)
  then have "has_key (ev_body e) ''type''" if "e \<in> set (fst (contents b q))" for e
    using that by (auto simp: contents_def Let_def prune_internal_data_def split: if_splits)
  then show ?thesis
    by (cases "fst (contents b q)") (auto simp: check_loggable_def)
qed

lemma loggable_Nil [simp]: "check_loggable [] = Inr ()"
  by (simp add: check_loggable_def)

definition poll_state :: "string \<Rightarrow> int \<Rightarrow> client_descriptor \<Rightarrow> world \<Rightarrow> world" where
  "poll_state q i c w = finished q (acked i c) (w\<lparr>heap := (heap w)(q \<mapsto> acked i c)\<rparr>)"

definition polled :: "int \<Rightarrow> client_descriptor \<Rightarrow> client_descriptor" where
  "polled i c = (if current_handler_id c = None then acked i c else idle_client (merged False (acked i c)))"

lemma heap_poll_state: "heap (poll_state q i c w) = (heap w)(q \<mapsto> polled i c)"
  by (simp add: poll_state_def heap_finished polled_def)

lemma wf_poll_state:
  assumes "wf_world w" "heap w q = Some c"
  shows "wf_world (poll_state q i c w)"
  unfolding poll_state_def using wf_upd [OF assms, of "acked i c"] by (intro wf_finished) simp_all

lemma synced_polled: "synced i (cqueue c) \<Longrightarrow> synced i (cqueue (polled i c))"
  by (simp add: polled_def synced_prune synced_contents)

lemma polled_idle: "current_handler_id (polled i c) = None"
  by (simp add: polled_def)

lemma select_existing:
  assumes w: "wf_world w" and q: "q \<in> set (clients w)" "heap w q = Some c" "user_profile_id c = u"
    and s: "synced i (cqueue c)"
  shows "select_queue uuid (Some q) db (Some i) u nd w = (Inr q, poll_state q i c w)"
proof -
  let ?w = "w\<lparr>heap := (heap w)(q \<mapsto> acked i c)\<rparr>"
  have a: "access_client_descriptor u q w = (Inr q, w)"
    using q by (simp add: access_client_descriptor_def bnd_def gets_def obj_def ret_def)
  have "wf_world ?w" using wf_upd [OF w q(2), of "acked i c"] by simp
  from finish_current_handler_eq [OF this, of q "acked i c"]
  have f: "finish_current_handler q ?w = (Inr (current_handler_id c \<noteq> None), poll_state q i c w)"
    by (simp add: poll_state_def)
  show ?thesis
    using a acknowledge_synced [OF q(2) s] f by (simp add: select_queue_def bnd_run ret_def)
qed

lemma fetch_events_ok:
  "fetch_body uuid qa db li u nd w = (Inr r, w') \<Longrightarrow>
     fetch_events now uuid qa db li u nd ct h w = (case r of Inl a \<Rightarrow> (Inr a, w')
       | Inr q \<Rightarrow> seq (connect_handler now q h ct) (ret FetchAsync) w')"
  by (simp add: fetch_events_def try_except_def bnd_def ret_def split: sum.split)

lemma fetch_events_err:
  "fetch_body uuid qa db li u nd w = (Inl e, w') \<Longrightarrow>
     fetch_events now uuid qa db li u nd ct h w =
       (if is_json_error e then (Inr (FetchError e), w') else (Inl e, w'))"
  by (simp add: fetch_events_def try_except_def bnd_def ret_def raise_def)

lemma fetch_existing:
  assumes w: "wf_world w" and q: "q \<in> set (clients w)" "heap w q = Some c" "user_profile_id c = u"
    and s: "synced i (cqueue c)"
  shows "fetch_events now uuid (Some q) db (Some i) u nd ct h w =
    (if \<not> queue_empty (cqueue (polled i c)) \<or> db
     then (Inr (FetchResponse (fst (contents False (cqueue (polled i c)))) None),
           (poll_state q i c w)\<lparr>heap := (heap w)(q \<mapsto> merged False (polled i c))\<rparr>)
     else (Inr FetchAsync, connected now q h ct (polled i c) (poll_state q i c w)))"
proof -
  let ?p = "polled i c" and ?w = "poll_state q i c w"
  have p: "heap ?w q = Some ?p" by (simp add: heap_poll_state)
  note sel = select_existing [OF w q s, of uuid db nd]
  have o: "obj q ?w = (Inr ?p, ?w)" using p by (simp add: obj_def)
  show ?thesis
  proof (cases "\<not> queue_empty (cqueue ?p) \<or> db")
    case True
    let ?w' = "?w\<lparr>heap := (heap w)(q \<mapsto> merged False ?p)\<rparr>"
    have "check_loggable (fst (contents False (cqueue ?p))) = Inr ()"
      using synced_polled [OF s] by (intro loggable_contents) (simp add: synced_def)
    moreover have "merge_queue q False ?w = (Inr (fst (contents False (cqueue ?p))), ?w')"
      using p by (simp add: merge_queue_def bnd_def obj_def set_obj_def modify_def ret_def merged_def heap_poll_state)
    ultimately have "fetch_body uuid (Some q) db (Some i) u nd w =
        (Inr (Inl (FetchResponse (fst (contents False (cqueue ?p))) None)), ?w')"
      using True by (simp add: fetch_body_def bnd_run sel o) (simp add: ret_def lift_def bnd_run)
    from fetch_events_ok [OF this] True show ?thesis by simp
  next
    case False
    then have "fetch_body uuid (Some q) db (Some i) u nd w = (Inr (Inr q), ?w)"
      by (simp add: fetch_body_def bnd_run select_existing [OF w q s] o) (simp add: ret_def)
    from fetch_events_ok [OF this] False show ?thesis
      by (simp add: bnd_run connect_handler_eq [OF p]) (simp add: ret_def)
  qed
qed



section \<open>Registering a queue\<close>

lemma table_ok_add:
  assumes "table_ok m S" "q \<notin> S k"
  shows "table_ok (table_add k q m) (S(k := insert q (S k)))"
  using assms by (auto simp: table_ok_def table_add_def table_at_def split: option.splits)

lemma members_new:
  assumes "q \<notin> set (clients w)" "clients w' = clients w @ [q]" "heap w' = (heap w)(q \<mapsto> c)"
  shows "members P f w' = (if P c then (members P f w)(f c := insert q (members P f w (f c))) else members P f w)"
  using assms by (auto simp: members_def fun_eq_iff split: if_splits)

definition registered :: "string \<Rightarrow> client_descriptor \<Rightarrow> world \<Rightarrow> world" where
  "registered q c w = w\<lparr>heap := (heap w)(q \<mapsto> c), clients := clients w @ [q],
     user_clients := table_add (user_profile_id c) q (user_clients w),
     realm_clients_all_streams := (if all_streams_client c
        then table_add (realm_id c) q (realm_clients_all_streams w) else realm_clients_all_streams w)\<rparr>"

lemma wf_registered:
  assumes w: "wf_world w" and q: "heap w q = None"
    and c: "queue_id (cqueue c) = q" "current_handler_id c = None" "timeout_handle c = None"
  shows "wf_world (registered q c w)"
proof -
  let ?w = "registered q c w"
  have t: "tables_ok w" and l: "links_ok w" using w by (simp_all add: wf_world_def)
  have nq: "q \<notin> set (clients w)" using t q by (auto simp: tables_ok_def)
  have m: "members P f ?w = (if P c then (members P f w)(f c := insert q (members P f w (f c))) else members P f w)" for P f
    by (rule members_new [OF nq]) (simp_all add: registered_def)
  have tu: "table_ok (user_clients w) (members (\<lambda>_. True) user_profile_id w)"
    and tr: "table_ok (realm_clients_all_streams w) (members all_streams_client realm_id w)"
    using t by (simp_all add: tables_ok_def)
  have "table_ok (user_clients ?w) (members (\<lambda>_. True) user_profile_id ?w)"
    unfolding m using table_ok_add [OF tu, of q] nq by (simp add: registered_def members_def)
  moreover have "table_ok (realm_clients_all_streams ?w) (members all_streams_client realm_id ?w)"
    unfolding m using table_ok_add [OF tr, of q "realm_id c"] tr nq by (simp add: registered_def members_def)
  ultimately have "tables_ok ?w"
    using t nq c(1) unfolding tables_ok_def by (auto simp: registered_def)
  moreover have "poll_linked ?w" using l c unfolding links_ok_def poll_linked_def registered_def by auto
  moreover have "descriptor_linked ?w"
  proof -
    have "heap w p = Some c' \<Longrightarrow> p \<noteq> q" for p c' using q by auto
    with l show ?thesis unfolding links_ok_def descriptor_linked_def registered_def by fastforce
  qed
  moreover have "timer_linked ?w"
  proof -
    have "heap w p = Some c' \<Longrightarrow> p \<noteq> q" for p c' using q by auto
    with l show ?thesis unfolding links_ok_def timer_linked_def registered_def by fastforce
  qed
  moreover have "timeout_linked ?w" using l c unfolding links_ok_def timeout_linked_def registered_def by auto
  ultimately show ?thesis by (simp add: wf_world_def links_ok_def)
qed

lemma client_from_new_dict:
  assumes "client_from_dict (data\<lparr>d_event_queue := queue_to_dict (new_event_queue q)\<rparr>) = Inr c"
  shows "cqueue c = new_event_queue q" "current_handler_id c = None" "timeout_handle c = None"
    "user_profile_id c = d_user_profile_id data"
  using assms by (auto simp: client_from_dict_def res_simps queue_dict_roundtrip)

lemma allocate_eq:
  assumes "wf_world w" "heap w q = None"
  shows "allocate_client_descriptor q data w =
    (case client_from_dict (data\<lparr>d_event_queue := queue_to_dict (new_event_queue q)\<rparr>) of
       Inl e \<Rightarrow> (Inl e, w) | Inr c \<Rightarrow> (Inr q, registered q c w))"
proof -
  have "q \<notin> set (clients w)" using assms by (auto simp: wf_world_def tables_ok_def)
  then show ?thesis
    by (auto simp: allocate_client_descriptor_def bnd_def lift_def store_client_def modify_def
        add_to_client_dicts_def obj_def whenever_def ret_def registered_def split: sum.split)
qed

lemma contents_new [simp]: "contents b (new_event_queue q) = ([], new_event_queue q)"
  by (simp add: new_event_queue_def contents_def merged_contents_def virtual_id_map_def Let_def prune_internal_data_def)

lemma fetch_new:
  assumes "wf_world w" "heap w uuid = None"
  shows "fetch_events now uuid None True last_event_id u (Some data) ct h w =
    (case client_from_dict (data\<lparr>d_event_queue := queue_to_dict (new_event_queue uuid)\<rparr>) of
       Inl e \<Rightarrow> (if is_json_error e then Inr (FetchError e) else Inl e, w)
     | Inr c \<Rightarrow> (Inr (FetchResponse [] (Some uuid)), registered uuid c w))"
proof (cases "client_from_dict (data\<lparr>d_event_queue := queue_to_dict (new_event_queue uuid)\<rparr>)")
  case (Inl e)
  then have "fetch_body uuid None True last_event_id u (Some data) w = (Inl e, w)"
    by (simp add: fetch_body_def select_queue_def allocate_eq [OF assms] bnd_def)
  from fetch_events_err [OF this] Inl show ?thesis by simp
next
  case (Inr c)
  note c = client_from_new_dict [OF Inr]
  have same: "c\<lparr>cqueue := new_event_queue uuid\<rparr> = c" by (simp add: c(1) [symmetric])
  have "fetch_body uuid None True last_event_id u (Some data) w =
      (Inr (Inl (FetchResponse [] (Some uuid))), registered uuid c w)"
    by (simp add: fetch_body_def select_queue_def allocate_eq [OF assms] Inr bnd_def obj_def c(1)
        merge_queue_def set_obj_def modify_def ret_def lift_def registered_def same)
  from fetch_events_ok [OF this] Inr show ?thesis by simp
qed

text \<open>
  C27. Registering a queue with a fresh id either fails on the registration data and changes
  nothing, or returns the id of a new queue of that user, empty and in step with a client that
  has read nothing; every other client and queue is untouched and the tables stay consistent.
\<close>

theorem registration:
  assumes "wf_world w" "heap w uuid = None"
  shows "case fetch_events now uuid None True last_event_id u (Some data) ct h w of
      (Inl e, w') \<Rightarrow> w' = w
    | (Inr (FetchError e), w') \<Rightarrow> w' = w
    | (Inr FetchAsync, w') \<Rightarrow> False
    | (Inr (FetchResponse cs new_id), w') \<Rightarrow> cs = [] \<and> new_id = Some uuid \<and> wf_world w' \<and>
        clients w' = clients w @ [uuid] \<and> (\<forall>q. q = uuid \<or> heap w' q = heap w q) \<and>
        (\<exists>c. heap w' uuid = Some c \<and> user_profile_id c = d_user_profile_id data \<and> synced (-1) (cqueue c))"
proof (cases "client_from_dict (data\<lparr>d_event_queue := queue_to_dict (new_event_queue uuid)\<rparr>)")
  case (Inr c)
  note c = client_from_new_dict [OF Inr]
  have "wf_world (registered uuid c w)"
    by (rule wf_registered) (use assms c in \<open>simp_all add: new_event_queue_def\<close>)
  then show ?thesis
    using synced_new [of uuid] by (simp add: fetch_new [OF assms] Inr registered_def c)
qed (simp add: fetch_new [OF assms])


section \<open>Every step keeps the tables consistent\<close>

lemma acknowledge_cases:
  assumes "heap w q = Some c"
  shows "(\<exists>e. acknowledge q i w = (Inl e, w)) \<or>
    (\<exists>r. acknowledge q i w = (r, w\<lparr>heap := (heap w)(q \<mapsto> acked i c)\<rparr>))"
  using assms
  by (cases "newest_pruned_id (cqueue c)"; cases "newest_pruned_id (prune i (cqueue c))")
    (auto simp: acknowledge_def newest_pruned_def bnd_def obj_def ret_def raise_def whenever_def upd_obj_def
      set_obj_def modify_def acked_def)

definition fetch_ok :: "world \<Rightarrow> (fetch_result + string) res \<Rightarrow> world \<Rightarrow> bool" where
  "fetch_ok w r w' \<longleftrightarrow> wf_world w' \<and> next_handler_id w' = next_handler_id w \<and>
     (\<forall>h. descriptors_by_handler_id w h = None \<longrightarrow> descriptors_by_handler_id w' h = None) \<and>
     (\<forall>q. r = Inr (Inr q) \<longrightarrow> (\<exists>c. heap w' q = Some c \<and> current_handler_id c = None))"

lemma select_queue_ok:
  assumes w: "wf_world w" and fresh: "heap w uuid = None"
  shows "case select_queue uuid qa db li u nd w of (r, w') \<Rightarrow> wf_world w' \<and>
    next_handler_id w' = next_handler_id w \<and>
    (\<forall>h. descriptors_by_handler_id w h = None \<longrightarrow> descriptors_by_handler_id w' h = None) \<and>
    (\<forall>q. r = Inr q \<longrightarrow> (\<exists>c. heap w' q = Some c \<and> current_handler_id c = None))"
proof (cases qa)
  case None
  show ?thesis
  proof (cases "db \<and> nd \<noteq> None")
    case True
    then obtain data where d: "db" "nd = Some data" by auto
    show ?thesis
    proof (cases "client_from_dict (data\<lparr>d_event_queue := queue_to_dict (new_event_queue uuid)\<rparr>)")
      case (Inl e)
      then show ?thesis by (simp add: None d select_queue_def allocate_eq [OF w fresh] w)
    next
      case (Inr c)
      note c = client_from_new_dict [OF Inr]
      have "wf_world (registered uuid c w)"
        by (rule wf_registered) (use w fresh c in \<open>simp_all add: new_event_queue_def\<close>)
      with Inr c show ?thesis
        by (simp add: None d select_queue_def allocate_eq [OF w fresh]) (simp add: registered_def)
    qed
  next
    case False
    with None w show ?thesis by (auto simp: select_queue_def raise_def split: option.split)
  qed
next
  case (Some q)
  show ?thesis
  proof (cases "li = None \<or> q \<notin> set (clients w) \<or> (\<exists>c. heap w q = Some c \<and> user_profile_id c \<noteq> u)")
    case True
    have "heap w q \<noteq> None" if "q \<in> set (clients w)" using w that by (simp add: wf_world_def tables_ok_def)
    with True Some w show ?thesis
      by (auto simp: select_queue_def raise_def access_client_descriptor_def bnd_def gets_def obj_def split: option.split)
  next
    case False
    then obtain i where i: "li = Some i" "q \<in> set (clients w)" by auto
    with w obtain c where c: "heap w q = Some c" by (auto simp: wf_world_def tables_ok_def)
    with False have u: "user_profile_id c = u" by auto
    have a: "access_client_descriptor u q w = (Inr q, w)"
      using i c u by (simp add: access_client_descriptor_def bnd_def gets_def obj_def ret_def)
    let ?w = "w\<lparr>heap := (heap w)(q \<mapsto> acked i c)\<rparr>"
    have wf: "wf_world ?w" using wf_upd [OF w c, of "acked i c"] by simp
    have p: "wf_world (poll_state q i c w)" by (rule wf_poll_state [OF w c])
    from acknowledge_cases [OF c, of i] consider e where "acknowledge q i w = (Inl e, w)"
      | e where "acknowledge q i w = (Inl e, ?w)" | "acknowledge q i w = (Inr (), ?w)"
      by (metis sum.exhaust unit.exhaust)
    then show ?thesis
    proof cases
      case 3
      from finish_current_handler_eq [OF wf, of q "acked i c"]
      have "finish_current_handler q ?w = (Inr (current_handler_id c \<noteq> None), poll_state q i c w)"
        by (simp add: poll_state_def)
      then have "select_queue uuid qa db li u nd w = (Inr q, poll_state q i c w)"
        using a 3 by (simp add: Some i select_queue_def bnd_run ret_def)
      then show ?thesis
        using p polled_idle [of i c] by (simp add: heap_poll_state) (simp add: poll_state_def descriptors_finished)
    qed (use a w wf in \<open>simp_all add: Some i select_queue_def bnd_run bnd_def\<close>)
  qed
qed

lemma fetch_body_ok:
  assumes "wf_world w" "heap w uuid = None" "fetch_body uuid qa db li u nd w = (r, w')"
  shows "fetch_ok w r w'"
proof (cases "select_queue uuid qa db li u nd w")
  case (Pair r1 w1)
  note s = select_queue_ok [OF assms(1,2), of qa db li u nd, unfolded Pair prod.case]
  show ?thesis
  proof (cases r1)
    case (Inl e)
    with s assms(3) Pair show ?thesis by (auto simp: fetch_ok_def fetch_body_def bnd_def)
  next
    case (Inr q)
    with s obtain c where c: "heap w1 q = Some c" "current_handler_id c = None" by auto
    have sel: "select_queue uuid qa db li u nd w = (Inr q, w1)" using Pair Inr by simp
    have o: "obj q w1 = (Inr c, w1)" using c by (simp add: obj_def)
    have body: "fetch_body uuid qa db li u nd w =
        (if \<not> queue_empty (cqueue c) \<or> db
         then bnd (merge_queue q False) (\<lambda>cs. seq (lift (check_loggable cs))
                (ret (Inl (FetchResponse cs (if qa = None then Some q else None))))) w1
         else (Inr (Inr q), w1))"
      unfolding fetch_body_def by (subst bnd_run, rule sel, subst bnd_run, rule o) (simp add: ret_def)
    show ?thesis
    proof (cases "\<not> queue_empty (cqueue c) \<or> db")
      case True
      have "wf_world (w1\<lparr>heap := (heap w1)(q \<mapsto> merged False c)\<rparr>)"
        by (rule wf_upd [OF _ c(1)]) (use s in auto)
      moreover have "merge_queue q False w1 = (Inr (fst (contents False (cqueue c))), w1\<lparr>heap := (heap w1)(q \<mapsto> merged False c)\<rparr>)"
        using c by (simp add: merge_queue_def bnd_def obj_def set_obj_def modify_def ret_def merged_def)
      ultimately show ?thesis
        using assms(3) s True by (cases "check_loggable (fst (contents False (cqueue c)))")
            (auto simp: body bnd_run ret_def lift_def bnd_def fetch_ok_def)
    next
      case False
      with assms(3) s c show ?thesis
        by (auto simp: body fetch_ok_def)
    qed
  qed
qed

lemma wf_fetch_events:
  assumes "wf_world w" "heap w uuid = None" "h < next_handler_id w" "descriptors_by_handler_id w h = None"
  shows "wf_world (snd (fetch_events now uuid qa db li u nd ct h w))"
proof (cases "fetch_body uuid qa db li u nd w")
  case (Pair r w')
  note f = fetch_body_ok [OF assms(1,2) Pair]
  show ?thesis
  proof (cases r)
    case (Inl e)
    with f Pair fetch_events_err show ?thesis by (simp add: fetch_ok_def)
  next
    case (Inr x)
    show ?thesis
    proof (cases x)
      case (Inl a)
      with Inr f Pair fetch_events_ok show ?thesis by (simp add: fetch_ok_def)
    next
      case r: (Inr q)
      with Inr f obtain c where c: "heap w' q = Some c" "current_handler_id c = None" by (auto simp: fetch_ok_def)
      have "wf_world (connected now q h ct c w')"
        by (rule wf_connected) (use f c assms(3,4) in \<open>auto simp: fetch_ok_def\<close>)
      with fetch_events_ok [OF Pair [unfolded Inr r]] show ?thesis
        by (simp add: bnd_run connect_handler_eq [OF c(1)]) (simp add: ret_def)
    qed
  qed
qed

lemma wf_add_event:
  assumes "wf_world w" "heap w q = Some c"
  shows "wf_world (snd (add_event q ev w))"
proof (cases "fst (push ev (cqueue c))")
  case (Inl e)
  with add_event_refused [OF assms(2)] wf_upd [OF assms, of "pushed_client ev c"] show ?thesis by simp
next
  case (Inr u)
  with add_event_eq [OF assms, of ev] wf_added [OF assms, of ev] show ?thesis by simp
qed


lemma wf_web_reload:
  "wf_world w \<Longrightarrow> wf_world (w\<lparr>web_reload_clients := removeAll q (web_reload_clients w)\<rparr>)"
  by (auto simp: wf_world_def tables_ok_def links_defs
      members_cong [of "w\<lparr>web_reload_clients := removeAll q (web_reload_clients w)\<rparr>" w])

lemma stable_obj [intro]: "stable I (obj q)"
  by (auto simp: stable_def obj_def split: option.split)

lemma stable_client_at [intro]: "stable I (client_at q)"
  unfolding client_at_def by (intro stable_bnd) auto

lemma stable_add_event:
  "stable wf_world (add_event q ev)"
proof (rule stableI)
  fix w assume w: "wf_world w"
  show "wf_world (snd (add_event q ev w))"
  proof (cases "heap w q")
    case None
    with w show ?thesis by (simp add: add_event_def push_event_def bnd_def obj_def)
  next
    case (Some c)
    with w show ?thesis by (rule wf_add_event)
  qed
qed

lemma stable_deliver: "stable wf_world (deliver ev q)"
  unfolding deliver_def by (intro stable_bnd stable_whenever stable_add_event stable_obj stable_basic)

lemma stable_web_reload: "stable wf_world (send_web_reload_client_events immediate limit)"
  unfolding send_web_reload_client_events_def Let_def
  by (intro stable_bnd stable_for_each stable_deliver stable_client_at stable_basic)
    (auto intro!: stableI wf_web_reload simp: modify_def)

lemma stable_restart: "stable wf_world (send_restart_events info)"
  unfolding send_restart_events_def by (intro stable_bnd stable_for_each stable_deliver stable_basic)

lemma wf_next_handler:
  assumes "wf_world w" "next_handler_id w \<le> n"
  shows "wf_world (w\<lparr>handlers := hs, next_handler_id := n\<rparr>)"
proof -
  let ?w = "w\<lparr>handlers := hs, next_handler_id := n\<rparr>"
  have m: "members P f ?w = members P f w" for P f by (rule members_cong) simp_all
  have "tables_ok ?w" using assms(1) by (simp add: wf_world_def tables_ok_def m)
  moreover have "descriptor_linked w" using assms(1) by (simp add: wf_world_def links_ok_def)
  then have "descriptor_linked ?w" using assms(2) unfolding descriptor_linked_def by force
  ultimately show ?thesis
    using assms(1) by (simp add: wf_world_def links_ok_def poll_linked_def timer_linked_def timeout_linked_def)
qed

lemma wf_allocate_handler: "wf_world w \<Longrightarrow> wf_world (snd (allocate_handler_id w))"
  by (simp add: allocate_handler_id_def bnd_def gets_def modify_def ret_def wf_next_handler)

lemma wf_on_connection_close:
  assumes "wf_world w"
  shows "wf_world (snd (on_connection_close h w))"
proof (cases "descriptors_by_handler_id w h")
  case (Some q)
  with assms obtain c where c: "heap w q = Some c"
    by (auto simp: wf_world_def links_ok_def descriptor_linked_def)
  then show ?thesis
    using assms by (simp add: on_connection_close_eq Some Let_def wf_disconnected)
qed (simp add: assms on_connection_close_eq Let_def)

text \<open>
  The steps of a running server: a request gets a handler, fetches events (once, with the handler
  it was given, registering only under a fresh uuid), events are delivered, heartbeat timers
  fire, connections close or finish, clients are reloaded, expired or cleaned-up clients are
  collected.
\<close>

inductive server_step :: "gc_hook list \<Rightarrow> (client_descriptor \<Rightarrow> bool) \<Rightarrow> world \<Rightarrow> world \<Rightarrow> bool"
  for hooks :: "gc_hook list" and acceptable :: "client_descriptor \<Rightarrow> bool" where
  request: "server_step hooks acceptable w (snd (allocate_handler_id w))"
| fetch: "h < next_handler_id w \<Longrightarrow> descriptors_by_handler_id w h = None \<Longrightarrow> heap w uuid = None \<Longrightarrow>
    server_step hooks acceptable w (snd (fetch_events now uuid qa db li u nd ct h w))"
| delivery: "server_step hooks acceptable w (snd (add_event q ev w))"
| heartbeat: "(t, q) \<in> set (timers w) \<Longrightarrow> server_step hooks acceptable w (snd (timeout_callback t q w))"
| close: "server_step hooks acceptable w (snd (on_connection_close h w))"
| finish: "server_step hooks acceptable w (snd (on_finish h w))"
| reload: "server_step hooks acceptable w (snd (send_web_reload_client_events im n w))"
| collect: "\<forall>q\<in>set (expired_clients now w). \<exists>c. heap w q = Some c \<and> acceptable c \<Longrightarrow>
    server_step hooks acceptable w (snd (gc_event_queues hooks now w))"
| cleaning: "q \<in> set (clients w) \<Longrightarrow> heap (snd (finish_current_handler q w)) q = Some c \<Longrightarrow> acceptable c \<Longrightarrow>
    server_step hooks acceptable w (snd (cleanup hooks q w))"

context gc_contract
begin

lemma cleanup_ok:
  assumes w: "wf_world w" and q: "q \<in> set (clients w)"
    and c: "heap (snd (finish_current_handler q w)) q = Some c" "acceptable c"
  shows "\<exists>w'. cleanup gc_hooks q w = (Inr (), w') \<and> collected {q} (snd (finish_current_handler q w)) w'"
proof -
  from w q obtain c0 where c0: "heap w q = Some c0" by (auto simp: wf_world_def tables_ok_def)
  note f = finish_current_handler_eq [OF w c0]
  let ?w = "finished q c0 w"
  have wf: "wf_world ?w" by (rule wf_finished [OF w c0])
  have hq: "heap ?w q = Some c" using c(1) f by simp
  with wf have qid: "queue_id (cqueue c) = q" by (simp add: wf_world_def tables_ok_def)
  have r: "ready ?w q" using q hq c(2) by (simp add: ready_def)
  from do_gc_ok [OF wf, of "[q]" "[user_profile_id c]" "[realm_id c]"] r hq
  obtain w' where w': "do_gc_event_queues gc_hooks [q] [user_profile_id c] [realm_id c] ?w = (Inr (), w')"
    "collected {q} ?w w'" by auto
  have o: "obj q ?w = (Inr c, ?w)" using hq by (simp add: obj_def)
  have "cleanup gc_hooks q w = (Inr (), w')"
    unfolding cleanup_def by (subst bnd_run, rule f, subst bnd_run, rule o) (simp add: qid w'(1))
  with w'(2) f show ?thesis by simp
qed

lemma wf_server_step:
  assumes "server_step gc_hooks acceptable w w'" "wf_world w"
  shows "wf_world w'"
  using assms
proof (induction rule: server_step.induct)
  case (collect now w)
  have "\<forall>q\<in>set (expired_clients now w). ready w q"
    using collect(1) by (auto simp: ready_def expired_clients_def)
  from gc_event_queues_ok [OF collect(2) this] show ?case by (auto simp: collected_def)
next
  case (cleaning q w c)
  from cleanup_ok [OF cleaning(4) cleaning(1-3)] show ?case by (auto simp: collected_def)
next
  case (heartbeat t q w)
  then obtain c where c: "heap w q = Some c"
    by (auto simp: wf_world_def links_ok_def timer_linked_def)
  from timeout_callback_eq [OF heartbeat(2,1) c] wf_timer_fired [OF heartbeat(2,1) c]
  show ?case using wf_added [of "timer_fired t q c w" q] by (simp add: timer_fired_def)
next
  case (finish h w)
  then show ?case by (simp add: on_finish_def clear_handler_by_id_def modify_def)
qed (auto intro: wf_allocate_handler wf_fetch_events wf_on_connection_close
      stableD [OF stable_add_event] stableD [OF stable_web_reload])

lemma wf_reachable:
  assumes "(server_step gc_hooks acceptable)\<^sup>*\<^sup>* w w'" "wf_world w"
  shows "wf_world w'"
  using assms by (induction rule: rtranclp_induct) (auto intro: wf_server_step)

end


section \<open>Properties of the protocol\<close>

lemma event_has_type: "wf_qevent e \<Longrightarrow> has_key (ev_body e) ''type''"
  by (auto simp: wf_qevent_def wf_event_iff compute_full_event_type_def res_simps has_key_def)

lemma contents_have_type:
  assumes "wf_queue q" "e \<in> set (fst (contents b q))"
  shows "has_key (ev_body e) ''type''"
proof -
  have "wf_qevent m" if "m \<in> set (merged_contents q)" for m
    using assms(1) that unfolding merged_contents_props(3) [OF assms(1)] wf_queue_def by fastforce
  with assms(2) show ?thesis
    by (auto simp: contents_def Let_def prune_internal_data_def event_has_type split: if_splits)
qed

lemma respond_contents:
  assumes "wf_queue q" "h \<in> set (handlers w)"
  shows "respond h i (fst (contents b q)) w = w\<lparr>responses := responses w @ [(h, i, fst (contents b q))]\<rparr>"
proof -
  have "\<not> (length (fst (contents b q)) = 1 \<and> \<not> has_key (ev_body (hd (fst (contents b q)))) ''type'')"
    using contents_have_type [OF assms(1), of _ b] by (cases "fst (contents b q)") auto
  with assms(2) show ?thesis by (simp add: respond_def)
qed


text \<open>
  C28. A queue belongs to one user: polling with a queue id that does not exist, or is another
  user's, is answered with the bad-queue-id error and changes nothing at all.
\<close>

theorem foreign_queue_refused:
  assumes "wf_world w" and "q \<notin> set (clients w) \<or> (\<exists>c. heap w q = Some c \<and> user_profile_id c \<noteq> u)"
  shows "fetch_events now uuid (Some q) dont_block (Some i) u new_queue_data ct h w =
      (Inr (FetchError (BadEventQueueIdError q)), w)"
proof -
  have "access_client_descriptor u q w = (Inl (BadEventQueueIdError q), w)"
    using assms by (auto simp: access_client_descriptor_def bnd_def gets_def obj_def raise_def
        wf_world_def tables_ok_def)
  then have "fetch_body uuid (Some q) dont_block (Some i) u new_queue_data w = (Inl (BadEventQueueIdError q), w)"
    by (simp add: fetch_body_def select_queue_def bnd_def)
  from fetch_events_err [OF this] show ?thesis by (simp add: is_json_error_def)
qed

section \<open>A small server\<close>

text \<open>User 10 has one queue, \<open>q1\<close>, with an open long poll on handler 4.\<close>

definition first_client :: client_descriptor where
  "first_client = idle_client (sample_client\<lparr>cqueue := new_event_queue ''q1''\<rparr>)"

definition one_client :: world where
  "one_client = registered ''q1'' first_client (init_world\<lparr>handlers := [3, 4], next_handler_id := 5\<rparr>)"

definition one_poll :: world where
  "one_poll = connected 100 ''q1'' 4 ''website'' first_client one_client"

lemma first_client_simps [simp]:
  "cqueue first_client = new_event_queue ''q1''" "current_handler_id first_client = None"
  "timeout_handle first_client = None" "user_profile_id first_client = 10" "realm_id first_client = 2"
  "event_types first_client = None" "client_type_name first_client = ''website''"
  "narrow first_client = [[''channel'', ''Verona'']]" "last_connection_time first_client = 0" "queue_timeout first_client = 600"
  "slim_presence first_client = False"
  by (simp_all add: first_client_def idle_client_def sample_client_def client_from_dict_def
      sample_queue_data_def client_type_of_def narrow_dataclasses_from_tuples_def check_narrow_for_events_def
      check_narrow_term_def channel_operators_def compute_queue_timeout_def DEFAULT_EVENT_QUEUE_TIMEOUT_SECS_def
      MAX_QUEUE_TIMEOUT_SECS_def)

lemma queue_id_new [simp]: "queue_id (new_event_queue i) = i"
  by (simp add: new_event_queue_def)

lemma wf_one_client: "wf_world one_client"
  unfolding one_client_def
  by (rule wf_registered, rule wf_next_handler, rule wf_init_world) (simp_all add: init_world_def)

lemma heap_one_client: "heap one_client ''q1'' = Some first_client" "clients one_client = [''q1'']"
  "descriptors_by_handler_id one_client h = None" "next_handler_id one_client = 5" "handlers one_client = [3, 4]"
  "responses one_client = []" "next_timer one_client = 0" "timers one_client = []"
  by (simp_all add: one_client_def registered_def init_world_def)

lemma wf_one_poll: "wf_world one_poll"
  unfolding one_poll_def
  by (rule wf_connected) (simp_all add: wf_one_client heap_one_client)


theorem registration_witness:
  "\<exists>w'. fetch_events 100 ''u'' None True None 10 (Some (sample_queue_data 10 2 (queue_to_dict (new_event_queue ''''))))
     ''website'' 3 one_client = (Inr (FetchResponse [] (Some ''u'')), w') \<and> clients w' = [''q1'', ''u'']"
proof -
  have "heap one_client ''u'' = None" by (simp add: one_client_def registered_def init_world_def)
  note r = registration [OF wf_one_client this, where now = 100 and last_event_id = None and u = 10
      and data = "sample_queue_data 10 2 (queue_to_dict (new_event_queue ''''))" and ct = "''website''" and h = 3]
  obtain x w' where f: "fetch_events 100 ''u'' None True None 10 (Some (sample_queue_data 10 2 (queue_to_dict (new_event_queue ''''))))
     ''website'' 3 one_client = (Inr x, w')" and x: "\<exists>cs i. x = FetchResponse cs i"
  proof -
    have "\<exists>c. client_from_dict ((sample_queue_data 10 2 (queue_to_dict (new_event_queue '''')))\<lparr>d_event_queue := queue_to_dict (new_event_queue ''u'')\<rparr>) = Inr c"
      by (simp add: client_from_dict_def sample_queue_data_def client_type_of_def narrow_dataclasses_from_tuples_def
          check_narrow_for_events_def check_narrow_term_def channel_operators_def)
    then obtain c where Inr: "client_from_dict ((sample_queue_data 10 2 (queue_to_dict (new_event_queue '''')))\<lparr>d_event_queue := queue_to_dict (new_event_queue ''u'')\<rparr>) = Inr c" ..
    have "check_loggable (fst (contents False (cqueue c))) = Inr ()"
      by (rule loggable_contents) (simp add: client_from_new_dict [OF Inr])
    with Inr show thesis
      using that allocate_eq [OF wf_one_client \<open>heap one_client ''u'' = None\<close>]
      by (auto simp: fetch_events_def fetch_body_def select_queue_def bnd_def try_except_def obj_def registered_def
          merge_queue_def set_obj_def modify_def ret_def lift_def)
  qed
  with r show ?thesis by (auto simp: heap_one_client)
qed

theorem foreign_queue_refused_witness:
  "fst (fetch_events 100 ''u'' (Some ''q1'') False (Some 5) 11 None ''website'' 3 one_client) =
     Inr (FetchError (BadEventQueueIdError ''q1''))"
  using foreign_queue_refused [OF wf_one_client, of "''q1''" 11] by (simp add: heap_one_client)


text \<open>
  The descriptor of handler 0 is never cleared: after the long poll on handler 0 has been
  answered, the entry still names the client, and when the connection of handler 0 closes, the
  long poll that client has opened since on another handler is dropped without an answer.
\<close>

theorem handler_zero_leak:
  "let w0 = registered ''q1'' first_client (init_world\<lparr>handlers := [0, 1], next_handler_id := 2\<rparr>);
       w1 = snd (connect_handler 100 ''q1'' 0 ''website'' w0);
       w2 = snd (add_event ''q1'' create_heartbeat_event w1);
       w3 = snd (connect_handler 130 ''q1'' 1 ''website'' w2);
       w4 = snd (on_connection_close 0 w3)
   in map fst (responses w2) = [0] \<and> descriptors_by_handler_id w2 0 = Some ''q1'' \<and>
      descriptors_by_handler_id w3 1 = Some ''q1'' \<and>
      descriptors_by_handler_id w4 1 = None \<and> responses w4 = responses w2 \<and>
      map_option current_handler_id (heap w4 ''q1'') = Some None"
  by (simp add: Let_def connect_handler_eq connected_def registered_def polling_client_def init_world_def
      add_event_def push_event_def bnd_def obj_def set_obj_def modify_def lift_def finish_current_handler_def
      try_finally_def merge_queue_def ret_def finish_handler_def gets_def disconnect_handler_def upd_obj_def
      on_connection_close_def clear_handler_by_id_def clear_descriptor_by_handler_id_def
      push_heartbeat push_def create_heartbeat_event_def compute_full_event_type_def str_at_def getk_def
      compressible_def startswith_def contents_def merged_contents_def virtual_id_map_def
      prune_internal_data_def new_event_queue_def has_key_def)

end
