(* ===== verification/MissedMessages.thy ===== *)
theory MissedMessages
  imports NotificationData LongPoll
begin

text \<open>
  Mobile and e-mail notifications from the event server (\<^verbatim>\<open>zerver/tornado/event_queue.py\<close>):
  \<open>maybe_enqueue_notifications\<close>, the check whether a user is off Zulip, and
  \<open>missedmessage_hook\<close>, the garbage-collection hook that makes up for notifications withheld
  while a queue of the user still looked alive.  The number of mobile-notification shards, a
  setting, is a parameter.

  The hook discharges the contract of garbage collection on clients whose queued messages are
  well formed, which is where the properties of collection and of reachable states come from.
\<close>

section \<open>Publishing notifications\<close>

definition publish :: "string \<times> dict \<Rightarrow> (world, unit) prog" where
  "publish n = modify (\<lambda>w. w\<lparr>published := published w @ [n]\<rparr>)"

definition build_offline_notification :: "int \<Rightarrow> py \<Rightarrow> dict" where
  "build_offline_notification uid message_id = [(''user_profile_id'', PInt uid), (''message_id'', message_id)]"

definition trigger_py :: "trigger option \<Rightarrow> py" where
  "trigger_py t = (case t of None \<Rightarrow> PNone | Some t \<Rightarrow> PStr (trigger_name t))"

definition push_queue_name :: "int \<Rightarrow> int \<Rightarrow> string" where
  "push_queue_name shards uid =
     (if shards > 1 then ''missedmessage_mobile_notifications_shard'' @ str_of_int (uid mod shards + 1)
      else ''missedmessage_mobile_notifications'')"

definition push_notice :: "notif \<Rightarrow> int \<Rightarrow> py \<Rightarrow> py \<Rightarrow> bool \<Rightarrow> dict" where
  "push_notice n acting_user_id message_id group_id idle =
     dset ''mentioned_user_group_id'' group_id
       (dset ''type'' (PStr ''add'')
         (dset ''trigger'' (trigger_py (get_push_notification_trigger n acting_user_id idle))
           (build_offline_notification (user_id n) message_id)))"

definition email_notice :: "notif \<Rightarrow> int \<Rightarrow> py \<Rightarrow> py \<Rightarrow> bool \<Rightarrow> dict" where
  "email_notice n acting_user_id message_id group_id idle =
     dset ''mentioned_user_group_id'' group_id
       (dset ''trigger'' (trigger_py (get_email_notification_trigger n acting_user_id idle))
         (build_offline_notification (user_id n) message_id))"

definition maybe_enqueue_notifications ::
    "int \<Rightarrow> notif \<Rightarrow> int \<Rightarrow> py \<Rightarrow> py \<Rightarrow> bool \<Rightarrow> dict \<Rightarrow> (world, dict) prog" where
  "maybe_enqueue_notifications shards n acting_user_id message_id group_id idle already_notified =
     (let push = is_push_notifiable n acting_user_id idle \<and> \<not> truthy_at already_notified ''push_notified'';
          email = is_email_notifiable n acting_user_id idle \<and> \<not> truthy_at already_notified ''email_notified''
      in seq (whenever push (publish (push_queue_name shards (user_id n),
                                      push_notice n acting_user_id message_id group_id idle)))
        (seq (whenever email (publish (''missedmessage_emails'',
                                       email_notice n acting_user_id message_id group_id idle)))
             (ret ((if push then [(''push_notified'', PBool True)] else []) @
                   (if email then [(''email_notified'', PBool True)] else [])))))"

definition receiver_is_off_zulip :: "int \<Rightarrow> world \<Rightarrow> bool" where
  "receiver_is_off_zulip uid w =
     (filter (\<lambda>q. case heap w q of None \<Rightarrow> False | Some c \<Rightarrow> accepts_messages c)
        (get_client_descriptors_for_user uid w) = [])"

definition maybe_enqueue_notifications_for_message_update ::
    "int \<Rightarrow> notif \<Rightarrow> py \<Rightarrow> int \<Rightarrow> bool \<Rightarrow> bool \<Rightarrow> bool \<Rightarrow> (world, unit) prog" where
  "maybe_enqueue_notifications_for_message_update shards n message_id acting_user_id private_message
     presence_idle prior_mentioned =
     (if sender_is_muted n then ret ()
      else if private_message then ret ()
      else if prior_mentioned then ret ()
      else if stream_push_notify n \<or> stream_email_notify n \<or> followed_topic_push_notify n
              \<or> followed_topic_email_notify n then ret ()
      else
        bnd (gets (\<lambda>w. presence_idle \<or> receiver_is_off_zulip (user_id n) w)) (\<lambda>idle.
        bnd (maybe_enqueue_notifications shards n acting_user_id message_id PNone idle []) (\<lambda>_. ret ())))"

section \<open>The hook of garbage collection\<close>

text \<open>An entry under its new name or, after an upgrade, its old one.\<close>

definition renamed_at :: "dict \<Rightarrow> string \<Rightarrow> string \<Rightarrow> bool" where
  "renamed_at d new old =
     (if has_key d new then truthy_at d new else if has_key d old then truthy_at d old else False)"

definition notif_of_internal_data :: "int \<Rightarrow> dict \<Rightarrow> notif" where
  "notif_of_internal_data uid d = \<lparr>
     user_id = uid,
     online_push_enabled = False,
     dm_email_notify = renamed_at d ''dm_email_notify'' ''pm_email_notify'',
     dm_push_notify = renamed_at d ''dm_push_notify'' ''pm_push_notify'',
     mention_email_notify = truthy_at d ''mention_email_notify'',
     mention_push_notify = truthy_at d ''mention_push_notify'',
     topic_wildcard_mention_email_notify = truthy_at d ''topic_wildcard_mention_email_notify'',
     topic_wildcard_mention_push_notify = truthy_at d ''topic_wildcard_mention_push_notify'',
     stream_wildcard_mention_email_notify =
       renamed_at d ''stream_wildcard_mention_email_notify'' ''wildcard_mention_email_notify'',
     stream_wildcard_mention_push_notify =
       renamed_at d ''stream_wildcard_mention_push_notify'' ''wildcard_mention_push_notify'',
     stream_push_notify = truthy_at d ''stream_push_notify'',
     stream_email_notify = truthy_at d ''stream_email_notify'',
     followed_topic_push_notify = truthy_at d ''followed_topic_push_notify'',
     followed_topic_email_notify = truthy_at d ''followed_topic_email_notify'',
     topic_wildcard_mention_in_followed_topic_push_notify =
       truthy_at d ''topic_wildcard_mention_in_followed_topic_push_notify'',
     topic_wildcard_mention_in_followed_topic_email_notify =
       truthy_at d ''topic_wildcard_mention_in_followed_topic_email_notify'',
     stream_wildcard_mention_in_followed_topic_push_notify =
       truthy_at d ''stream_wildcard_mention_in_followed_topic_push_notify'',
     stream_wildcard_mention_in_followed_topic_email_notify =
       truthy_at d ''stream_wildcard_mention_in_followed_topic_email_notify'',
     sender_is_muted = truthy_at d ''sender_is_muted'',
     disable_external_notifications = truthy_at d ''disable_external_notifications''\<rparr>"

definition internal_data_of :: "dict \<Rightarrow> dict res" where
  "internal_data_of event = (case get_or event ''internal_data'' (PDict []) of
     PDict d \<Rightarrow> Inr d | _ \<Rightarrow> Inl AttributeError)"

definition missed_message :: "int \<Rightarrow> int \<Rightarrow> dict \<Rightarrow> (world, unit) prog" where
  "missed_message shards uid event =
     bnd (lift (getk event ''type'')) (\<lambda>ty.
     if ty \<noteq> PStr ''message'' then ret ()
     else
       bnd (lift (internal_data_of event)) (\<lambda>d.
       bnd (lift (dict_at event ''message'')) (\<lambda>m.
       bnd (lift (int_at m ''sender_id'')) (\<lambda>sender_id.
       bnd (lift (make_notif (notif_of_internal_data uid d))) (\<lambda>n.
       bnd (lift (getk m ''id'')) (\<lambda>message_id.
       bnd (maybe_enqueue_notifications shards n sender_id message_id
              (get_or d ''mentioned_user_group_id'' PNone) True
              [(''push_notified'', PBool (truthy_at d ''push_notified'')),
               (''email_notified'', PBool (truthy_at d ''email_notified''))]) (\<lambda>_. ret ())))))))"

definition missedmessage_hook :: "int \<Rightarrow> int \<Rightarrow> string \<Rightarrow> bool \<Rightarrow> (world, unit) prog" where
  "missedmessage_hook shards uid qid last_for_client =
     (if \<not> last_for_client then ret ()
      else bnd (merge_queue qid True) (\<lambda>events.
           for_each (\<lambda>e. missed_message shards uid (ev_body e)) events))"

section \<open>What is published\<close>

text \<open>The notices one call publishes.\<close>

definition enqueued :: "int \<Rightarrow> notif \<Rightarrow> int \<Rightarrow> py \<Rightarrow> py \<Rightarrow> bool \<Rightarrow> dict \<Rightarrow> (string \<times> dict) list" where
  "enqueued shards n acting mid g idle already =
     (if is_push_notifiable n acting idle \<and> \<not> truthy_at already ''push_notified''
      then [(push_queue_name shards (user_id n), push_notice n acting mid g idle)] else []) @
     (if is_email_notifiable n acting idle \<and> \<not> truthy_at already ''email_notified''
      then [(''missedmessage_emails'', email_notice n acting mid g idle)] else [])"

definition notified :: "notif \<Rightarrow> int \<Rightarrow> bool \<Rightarrow> dict \<Rightarrow> dict" where
  "notified n acting idle already =
     (if is_push_notifiable n acting idle \<and> \<not> truthy_at already ''push_notified''
      then [(''push_notified'', PBool True)] else []) @
     (if is_email_notifiable n acting idle \<and> \<not> truthy_at already ''email_notified''
      then [(''email_notified'', PBool True)] else [])"

lemma maybe_enqueue_eq:
  "maybe_enqueue_notifications shards n acting mid g idle already w =
    (Inr (notified n acting idle already),
     w\<lparr>published := published w @ enqueued shards n acting mid g idle already\<rparr>)"
  by (simp add: maybe_enqueue_notifications_def Let_def bnd_def whenever_def ret_def publish_def modify_def
      notified_def enqueued_def)

text \<open>What \<open>missed_message\<close> appends, when the event is well formed.\<close>

definition missed_ok :: "int \<Rightarrow> dict \<Rightarrow> bool" where
  "missed_ok uid event \<longleftrightarrow> (case map_of event ''type'' of
     None \<Rightarrow> False
   | Some ty \<Rightarrow> if ty \<noteq> PStr ''message'' then True
       else (case (internal_data_of event, map_of event ''message'') of
           (Inr d, Some (PDict m)) \<Rightarrow>
             post_init_ok (notif_of_internal_data uid d) \<and> has_key m ''id'' \<and>
             (case map_of m ''sender_id'' of Some (PInt _) \<Rightarrow> True | _ \<Rightarrow> False)
         | _ \<Rightarrow> False))"

lemma missed_ok_cases:
  assumes "missed_ok uid event"
  obtains ty where "map_of event ''type'' = Some ty" "ty \<noteq> PStr ''message''"
  | d m s i where "map_of event ''type'' = Some (PStr ''message'')" "internal_data_of event = Inr d"
      "map_of event ''message'' = Some (PDict m)" "map_of m ''sender_id'' = Some (PInt s)"
      "map_of m ''id'' = Some i" "post_init_ok (notif_of_internal_data uid d)"
proof (cases "map_of event ''type''")
  case None
  with assms show thesis by (simp add: missed_ok_def)
next
  case (Some ty)
  show thesis
  proof (cases "ty = PStr ''message''")
    case False
    with Some that(1) show thesis by simp
  next
    case True
    with assms Some obtain d where d: "internal_data_of event = Inr d"
      by (cases "internal_data_of event") (simp_all add: missed_ok_def)
    with assms Some True obtain v where v: "map_of event ''message'' = Some v"
      by (cases "map_of event ''message''") (simp_all add: missed_ok_def)
    with assms Some True d obtain m where m: "v = PDict m"
      by (cases v) (simp_all add: missed_ok_def)
    with assms Some True d v have ok: "post_init_ok (notif_of_internal_data uid d)" "has_key m ''id''"
      and "case map_of m ''sender_id'' of Some (PInt _) \<Rightarrow> True | _ \<Rightarrow> False"
      by (simp_all add: missed_ok_def)
    moreover obtain x where x: "map_of m ''sender_id'' = Some x" using calculation(3) by (cases "map_of m ''sender_id''") simp_all
    ultimately obtain s where "x = PInt s" by (cases x) simp_all
    with that(2) Some True d v m x ok show thesis by (auto simp: has_key_def)
  qed
qed

lemma missed_message_ok:
  assumes "missed_ok uid event"
  shows "\<exists>ps. missed_message shards uid event w = (Inr (), w\<lparr>published := published w @ ps\<rparr>)"
  using assms
proof (cases rule: missed_ok_cases)
  case (1 ty)
  then have "missed_message shards uid event w = (Inr (), w\<lparr>published := published w @ []\<rparr>)"
    by (simp add: missed_message_def bnd_def lift_def getk_def ret_def)
  then show ?thesis by blast
next
  case (2 d m s i)
  then show ?thesis
    by (simp add: missed_message_def bnd_def lift_def getk_def ret_def dict_at_def int_at_def make_notif_def
        maybe_enqueue_eq) blast
qed

lemma for_each_missed:
  assumes "\<forall>e\<in>set es. missed_ok uid (ev_body e)"
  shows "\<exists>ps. for_each (\<lambda>e. missed_message shards uid (ev_body e)) es w = (Inr (), w\<lparr>published := published w @ ps\<rparr>)"
  using assms
proof (induction es arbitrary: w)
  case Nil
  have "for_each (\<lambda>e. missed_message shards uid (ev_body e)) [] w = (Inr (), w\<lparr>published := published w @ []\<rparr>)"
    by (simp add: ret_def)
  then show ?case by blast
next
  case (Cons e es)
  then obtain ps where ps: "missed_message shards uid (ev_body e) w = (Inr (), w\<lparr>published := published w @ ps\<rparr>)"
    using missed_message_ok [of uid "ev_body e" shards w] by auto
  obtain qs where "for_each (\<lambda>e. missed_message shards uid (ev_body e)) es (w\<lparr>published := published w @ ps\<rparr>) =
      (Inr (), w\<lparr>published := (published w @ ps) @ qs\<rparr>)"
    using Cons.IH [of "w\<lparr>published := published w @ ps\<rparr>"] Cons.prems by auto
  then have "for_each (\<lambda>e. missed_message shards uid (ev_body e)) (e # es) w =
      (Inr (), w\<lparr>published := published w @ (ps @ qs)\<rparr>)"
    using ps by (simp add: bnd_def)
  then show ?case by blast
qed

text \<open>A client whose queue \<open>missedmessage_hook\<close> can read.\<close>

definition missed_client :: "client_descriptor \<Rightarrow> bool" where
  "missed_client c \<longleftrightarrow> wf_queue (cqueue c) \<and>
     (\<forall>e\<in>set (merged_contents (cqueue c)). missed_ok (user_profile_id c) (ev_body e))"

lemma merged_contents_again: "merged_contents (snd (contents b q)) = merged_contents q"
  by (simp add: contents_def Let_def merged_contents_sorted_virtual sorted_virtual_def virtual_id_map_def)

interpretation missed_gc: gc_contract "[missedmessage_hook shards]" missed_client for shards
proof
  fix cb :: gc_hook and w :: world and q c u l
  assume cb: "cb \<in> set [missedmessage_hook shards]" and c: "heap w q = Some c" "missed_client c" "u = user_profile_id c"
  show "\<exists>c' ps. cb u q l w = (Inr (), w\<lparr>heap := (heap w)(q \<mapsto> c'), published := ps\<rparr>) \<and>
      same_key c c' \<and> same_links c c' \<and> missed_client c'"
  proof (cases l)
    case False
    with cb have "cb u q l w = (Inr (), w)" by (simp add: missedmessage_hook_def ret_def)
    moreover have "w = w\<lparr>heap := (heap w)(q \<mapsto> c), published := published w\<rparr>"
      using c(1) by (simp add: fun_upd_idem)
    ultimately show ?thesis using c(2) same_key_refl same_links_refl by metis
  next
    case True
    let ?w = "w\<lparr>heap := (heap w)(q \<mapsto> merged True c)\<rparr>"
    have m: "merge_queue q True w = (Inr (fst (contents True (cqueue c))), ?w)"
      using c(1) by (simp add: merge_queue_def bnd_def obj_def set_obj_def modify_def ret_def merged_def)
    have "\<forall>e\<in>set (fst (contents True (cqueue c))). missed_ok u (ev_body e)"
      using c(2,3) by (simp add: contents_def Let_def missed_client_def)
    from for_each_missed [OF this, of shards ?w] obtain ps where
      "for_each (\<lambda>e. missed_message shards u (ev_body e)) (fst (contents True (cqueue c))) ?w =
        (Inr (), ?w\<lparr>published := published w @ ps\<rparr>)" by auto
    then have "cb u q l w = (Inr (), w\<lparr>heap := (heap w)(q \<mapsto> merged True c), published := published w @ ps\<rparr>)"
      using cb True m by (simp add: missedmessage_hook_def bnd_run)
    moreover have "missed_client (merged True c)"
      using c(2) wf_contents [of "cqueue c" True] by (simp add: missed_client_def merged_contents_again)
    ultimately show ?thesis using merged_simps(1,2) by metis
  qed
qed


section \<open>Properties\<close>

lemma truthy_at_notified [simp]:
  "truthy_at (notified n acting idle []) ''push_notified'' = is_push_notifiable n acting idle"
  "truthy_at (notified n acting idle []) ''email_notified'' = is_email_notifiable n acting idle"
  by (auto simp: notified_def truthy_at_def get_or_def)

lemma truthy_at_Nil [simp]: "truthy_at [] k = False"
  by (simp add: truthy_at_def get_or_def)

lemma push_queue_not_email [simp]: "push_queue_name shards u \<noteq> ''missedmessage_emails''"
  by (auto simp: push_queue_name_def)


text \<open>
  C29. A garbage-collection pass, with the notification hook, removes exactly the expired clients,
  those without an open long poll that were last connected at least their timeout ago: the other
  clients keep their place, their descriptor and their queue, the per-user lists and the reload
  list lose exactly the removed ones, and the tables stay consistent.
\<close>

theorem gc_removes_expired:
  assumes "wf_world w"
    and "\<forall>q\<in>set (expired_clients now w). \<exists>c. heap w q = Some c \<and> missed_client c"
  shows "\<exists>w'. gc_event_queues [missedmessage_hook shards] now w = (Inr (), w') \<and> wf_world w' \<and>
    clients w' = filter (\<lambda>q. q \<notin> set (expired_clients now w)) (clients w) \<and>
    web_reload_clients w' = filter (\<lambda>q. q \<notin> set (expired_clients now w)) (web_reload_clients w) \<and>
    (\<forall>u. get_client_descriptors_for_user u w' =
       filter (\<lambda>q. q \<notin> set (expired_clients now w)) (get_client_descriptors_for_user u w)) \<and>
    (\<forall>q. q \<notin> set (expired_clients now w) \<longrightarrow> heap w' q = heap w q) \<and>
    (\<forall>q\<in>set (expired_clients now w). \<exists>c. heap w q = Some c \<and> current_handler_id c = None \<and>
       now - last_connection_time c \<ge> of_int (queue_timeout c))"
proof -
  have "\<forall>q\<in>set (expired_clients now w). missed_gc.ready w q"
    using assms(2) by (auto simp: missed_gc.ready_def expired_clients_def)
  from missed_gc.gc_event_queues_ok [OF assms(1) this, of shards] obtain w' where
    w': "gc_event_queues [missedmessage_hook shards] now w = (Inr (), w')"
      "collected (set (expired_clients now w)) w w'" by auto
  have "\<forall>q\<in>set (expired_clients now w). \<exists>c. heap w q = Some c \<and> current_handler_id c = None \<and>
       now - last_connection_time c \<ge> of_int (queue_timeout c)"
    by (auto simp: expired_clients_def expired_def split: option.splits)
  with w' show ?thesis
    by (auto simp: collected_def get_client_descriptors_for_user_def)
qed

text \<open>
  In every state the server can reach from its start, whatever requests, deliveries, heartbeats,
  closed connections and collections happen in whatever order, the tables are consistent: each
  live client is listed once under its user and, if it listens to all streams, its realm, and
  every open long poll and heartbeat timer is linked with its descriptor.
\<close>

theorem reachable_consistent:
  assumes "(server_step [missedmessage_hook shards] missed_client)\<^sup>*\<^sup>* init_world w"
  shows "wf_world w"
  using missed_gc.wf_reachable [OF assms wf_init_world] .

theorem gc_removes_expired_witness:
  "\<exists>w'. gc_event_queues [missedmessage_hook 1] 1000 one_client = (Inr (), w') \<and> clients w' = []"
proof -
  have e: "expired_clients 1000 one_client = [''q1'']"
    by (simp add: expired_clients_def heap_one_client expired_def)
  have "missed_client first_client"
    by (simp add: missed_client_def merged_contents_def virtual_id_map_def Let_def new_event_queue_def)
       (simp add: new_event_queue_def [symmetric])
  with gc_removes_expired [OF wf_one_client, of 1000 1] show ?thesis
    by (auto simp: e heap_one_client)
qed

theorem reachable_consistent_witness:
  "wf_world (snd (fetch_events 5 ''u'' None True None 10 (Some (sample_queue_data 10 2 (queue_to_dict (new_event_queue '''')))) ''website'' 0 (snd (allocate_handler_id init_world))))"
proof -
  let ?w1 = "snd (allocate_handler_id init_world)"
  have 1: "server_step [missedmessage_hook 1] missed_client init_world ?w1" by (rule server_step.request)
  have "server_step [missedmessage_hook 1] missed_client ?w1
      (snd (fetch_events 5 ''u'' None True None 10 (Some (sample_queue_data 10 2 (queue_to_dict (new_event_queue '''')))) ''website'' 0 ?w1))"
    by (rule server_step.fetch) (simp_all add: allocate_handler_id_def bnd_def gets_def modify_def ret_def init_world_def)
  with 1 have "(server_step [missedmessage_hook 1] missed_client)\<^sup>*\<^sup>* init_world
      (snd (fetch_events 5 ''u'' None True None 10 (Some (sample_queue_data 10 2 (queue_to_dict (new_event_queue '''')))) ''website'' 0 ?w1))"
    by (rule converse_rtranclp_into_rtranclp [OF _ r_into_rtranclp])
  then show ?thesis by (rule reachable_consistent)
qed

definition waiting_message :: dict where
  "waiting_message = [(''type'', PStr ''message''),
     (''message'', PDict [(''id'', PInt 7), (''sender_id'', PInt 11)]),
     (''internal_data'', PDict [(''dm_email_notify'', PBool True)])]"

definition waiting_client :: "string \<Rightarrow> client_descriptor" where
  "waiting_client q = first_client\<lparr>cqueue := (new_event_queue q)\<lparr>next_event_id := 1,
     equeue := [\<lparr>ev_id = 0, ev_body = waiting_message\<rparr>]\<rparr>\<rparr>"

text \<open>
  When two queues of a user expire in the same pass, both are reported to the hook as the
  user's last: a message waiting in both is published for notification twice.
\<close>

theorem two_queues_notify_twice:
  "let w = registered ''q2'' (waiting_client ''q2'') (registered ''q1'' (waiting_client ''q1'') init_world)
   in map (\<lambda>p. (fst p, map_of (snd p) ''message_id''))
        (published (snd (gc_event_queues [missedmessage_hook 1] 1000 w))) =
      [(''missedmessage_emails'', Some (PInt 7)), (''missedmessage_emails'', Some (PInt 7))]"
proof -
  let ?w = "registered ''q2'' (waiting_client ''q2'') (registered ''q1'' (waiting_client ''q1'') init_world)"
  have c: "user_profile_id (waiting_client q) = 10" "realm_id (waiting_client q) = 2"
    "all_streams_client (waiting_client q)" "expired 1000 (waiting_client q)"
    "cqueue (waiting_client q) = (new_event_queue q)\<lparr>next_event_id := 1,
      equeue := [\<lparr>ev_id = 0, ev_body = waiting_message\<rparr>]\<rparr>" for q
    by (simp_all add: waiting_client_def all_streams_client_def expired_def)
  have e: "expired_clients 1000 ?w = [''q1'', ''q2'']"
    by (simp add: expired_clients_def registered_def init_world_def c)
  have m: "missed_message 1 10 waiting_message w = (Inr (), w\<lparr>published := published w @
      [(''missedmessage_emails'', email_notice (notif_of_internal_data 10 [(''dm_email_notify'', PBool True)]) 11 (PInt 7) PNone True)]\<rparr>)" for w
    by (simp add: missed_message_def waiting_message_def bnd_def lift_def getk_def internal_data_of_def get_or_def
        dict_at_def int_at_def make_notif_def post_init_ok_def notif_of_internal_data_def ret_def maybe_enqueue_eq
        enqueued_def is_push_notifiable_def is_email_notifiable_def get_push_notification_trigger_def
        get_email_notification_trigger_def trivially_should_not_notify_def truthy_at_def renamed_at_def has_key_def)
  have n: "map_of (email_notice n a (PInt 7) g i) ''message_id'' = Some (PInt 7)" for n a g i
    by (simp add: email_notice_def build_offline_notification_def)
  show ?thesis
    by (simp add: Let_def gc_event_queues_def bnd_def gets_def expired_clients_def of_clients_def registered_def c
        do_gc_event_queues_def modify_def table_add_def table_at_def filter_client_dict_def init_world_def
        drop_client_def run_gc_hooks_def run_gc_hook_def client_at_def obj_def missedmessage_hook_def
        merge_queue_def set_obj_def ret_def contents_def merged_contents_def virtual_id_map_def new_event_queue_def m n)
qed

end
