(* ===== verification/MessagePayload.thy ===== *)
theory MessagePayload
  imports Prelude
begin

text \<open>
  \<open>MessageDict.finalize_payload\<close> of \<^verbatim>\<open>zerver/lib/message_cache.py\<close>: the last step
  from the message dictionary kept in the cache to the one a client gets.  It chooses the
  rendered or the raw content, hides a sender the client may not see, and removes the entries
  that are internal to the server.

  The avatar URLs (gravatar hashes, upload paths), which come from libraries and settings, and
  the realm's fake e-mail domain are parameters, grouped in \<open>payload_env\<close>.
\<close>

record payload_env =
  avatar_for_inaccessible_user :: py
  get_avatar_field :: "py \<Rightarrow> py \<Rightarrow> py \<Rightarrow> py \<Rightarrow> py \<Rightarrow> bool \<Rightarrow> py"
  get_fake_email_domain :: "string \<Rightarrow> string res"

definition EMAIL_ADDRESS_VISIBILITY_EVERYONE :: py where
  "EMAIL_ADDRESS_VISIBILITY_EVERYONE = PInt 1"

definition INACCESSIBLE_USER_NAME :: string where
  "INACCESSIBLE_USER_NAME = ''Unknown user''"

text \<open>\<open>del d[k]\<close>\<close>

definition del_key :: "string \<Rightarrow> dict \<Rightarrow> dict res" where
  "del_key k d = (if has_key d k then Inr (ddel k d) else Inl (KeyError k))"

definition set_sender_avatar :: "payload_env \<Rightarrow> bool \<Rightarrow> bool \<Rightarrow> dict \<Rightarrow> dict res" where
  "set_sender_avatar env client_gravatar can_access_sender m =
     (if \<not> can_access_sender then Inr (dset ''avatar_url'' (avatar_for_inaccessible_user env) m)
      else
        ebind (getk m ''sender_id'') (\<lambda>sender_id.
        ebind (getk m ''sender_realm_id'') (\<lambda>sender_realm_id.
        ebind (getk m ''sender_delivery_email'') (\<lambda>sender_delivery_email.
        ebind (getk m ''sender_avatar_source'') (\<lambda>sender_avatar_source.
        ebind (getk m ''sender_avatar_version'') (\<lambda>sender_avatar_version.
        Inr (dset ''avatar_url'' (get_avatar_field env sender_id sender_realm_id sender_delivery_email
              sender_avatar_source sender_avatar_version client_gravatar) m)))))))"

text \<open>The f-string \<open>user{sender_id}\<close>; the id is an integer.\<close>

definition id_text :: "py \<Rightarrow> string res" where
  "id_text v = (case v of PInt n \<Rightarrow> Inr (str_of_int n) | _ \<Rightarrow> Inl TypeError)"

lemma id_text_Inr: "id_text v = Inr s \<longleftrightarrow> (\<exists>n. v = PInt n \<and> s = str_of_int n)"
  by (auto simp: id_text_def split: py.split)

definition hide_sender :: "payload_env \<Rightarrow> string \<Rightarrow> dict \<Rightarrow> dict res" where
  "hide_sender env realm_host m =
     (let m1 = dset ''sender_full_name'' (PStr INACCESSIBLE_USER_NAME) m
      in ebind (getk m1 ''sender_id'') (\<lambda>sender_id.
         ebind (id_text sender_id) (\<lambda>sid.
         ebind (get_fake_email_domain env realm_host) (\<lambda>domain.
         Inr (dset ''sender_email'' (PStr (''user'' @ sid @ ''@'' @ domain)) m1)))))"

definition internal_keys :: "string list" where
  "internal_keys = [''sender_realm_id'', ''sender_avatar_source'', ''sender_delivery_email'',
     ''sender_avatar_version'', ''recipient_type'', ''recipient_type_id'', ''sender_is_mirror_dummy'',
     ''sender_email_address_visibility'']"

definition choose_content :: "bool \<Rightarrow> string list \<Rightarrow> dict \<Rightarrow> dict res" where
  "choose_content apply_markdown sender_apply_raw_content m =
     ebind (if apply_markdown then getk m ''sender_full_name'' else Inr PNone) (\<lambda>name.
     if apply_markdown \<and> name \<notin> PStr ` set sender_apply_raw_content
     then let m1 = dset ''content_type'' (PStr ''text/html'') m
          in ebind (getk m1 ''rendered_content'') (\<lambda>r. Inr (dset ''content'' r m1))
     else Inr (dset ''content_type'' (PStr ''text/x-markdown'') m))"

definition finalize_payload ::
    "payload_env \<Rightarrow> dict \<Rightarrow> bool \<Rightarrow> bool \<Rightarrow> bool \<Rightarrow> bool \<Rightarrow> string \<Rightarrow> string list \<Rightarrow> dict res" where
  "finalize_payload env m apply_markdown client_gravatar keep_rendered_content can_access_sender
     realm_host sender_apply_raw_content =
     ebind (getk m ''sender_email_address_visibility'') (\<lambda>visibility.
     ebind (if can_access_sender then Inr m else hide_sender env realm_host m) (\<lambda>m1.
     ebind (set_sender_avatar env (client_gravatar \<and> visibility = EMAIL_ADDRESS_VISIBILITY_EVERYONE)
              can_access_sender m1) (\<lambda>m2.
     ebind (choose_content apply_markdown sender_apply_raw_content m2) (\<lambda>m3.
     ebind (if keep_rendered_content then Inr m3 else del_key ''rendered_content'' m3) (\<lambda>m4.
     ebind (efold del_key internal_keys m4) (\<lambda>m5.
     Inr (ddel ''can_access_sender'' m5)))))))"

section \<open>What a client gets\<close>

lemma del_key_Inr: "del_key k d = Inr d' \<longleftrightarrow> has_key d k \<and> d' = ddel k d"
  by (auto simp: del_key_def)

lemma efold_del_keys:
  "efold del_key ks d = Inr d' \<Longrightarrow> map_of d' k = (if k \<in> set ks then None else map_of d k)"
  by (induction ks arbitrary: d) (auto simp: res_simps del_key_Inr)

lemma set_sender_avatar_map_of:
  "set_sender_avatar env g a m = Inr m' \<Longrightarrow> k \<noteq> ''avatar_url'' \<Longrightarrow> map_of m' k = map_of m k"
  by (auto simp: set_sender_avatar_def res_simps split: if_splits)

lemma choose_content_map_of:
  "choose_content am names m = Inr m' \<Longrightarrow> k \<notin> {''content'', ''content_type''} \<Longrightarrow> map_of m' k = map_of m k"
  by (auto simp: choose_content_def res_simps Let_def split: if_splits)

text \<open>
  C40. No payload carries the entries internal to the server, nor the rendered content unless it was
  asked for; and the payload for a client that may not see the sender shows the placeholder
  name, the fake address and the placeholder avatar.
\<close>

theorem payload_hides:
  assumes "finalize_payload env m am cg keep acc host names = Inr p"
  shows "\<not> has_key p ''sender_delivery_email'' \<and> \<not> has_key p ''sender_realm_id'' \<and>
    \<not> has_key p ''sender_avatar_source'' \<and> \<not> has_key p ''sender_avatar_version'' \<and>
    \<not> has_key p ''recipient_type'' \<and> \<not> has_key p ''recipient_type_id'' \<and>
    \<not> has_key p ''sender_is_mirror_dummy'' \<and> \<not> has_key p ''sender_email_address_visibility'' \<and>
    \<not> has_key p ''can_access_sender'' \<and>
    (\<not> keep \<longrightarrow> \<not> has_key p ''rendered_content'') \<and>
    (\<not> acc \<longrightarrow> map_of p ''sender_full_name'' = Some (PStr ''Unknown user'') \<and>
       map_of p ''avatar_url'' = Some (avatar_for_inaccessible_user env) \<and>
       (\<exists>n d. map_of m ''sender_id'' = Some (PInt n) \<and> get_fake_email_domain env host = Inr d \<and>
          map_of p ''sender_email'' = Some (PStr (''user'' @ str_of_int n @ ''@'' @ d))))"
proof -
  from assms obtain v m1 m2 m3 m4 m5 where
    1: "(if acc then Inr m else hide_sender env host m) = Inr m1" and
    2: "set_sender_avatar env (cg \<and> v = EMAIL_ADDRESS_VISIBILITY_EVERYONE) acc m1 = Inr m2" and
    3: "choose_content am names m2 = Inr m3" and
    4: "(if keep then Inr m3 else del_key ''rendered_content'' m3) = Inr m4" and
    5: "efold del_key internal_keys m4 = Inr m5" and p: "p = ddel ''can_access_sender'' m5"
    by (auto simp: finalize_payload_def res_simps)
  have at: "map_of p k = (if k \<in> set internal_keys \<or> k = ''can_access_sender'' then None else map_of m4 k)" for k
    using efold_del_keys [OF 5, of k] by (simp add: p)
  have at4: "map_of m4 k = (if \<not> keep \<and> k = ''rendered_content'' then None else map_of m3 k)" for k
    using 4 by (auto simp: del_key_Inr split: if_splits)
  have keys: "''sender_full_name'' \<notin> set internal_keys" "''sender_email'' \<notin> set internal_keys"
    "''avatar_url'' \<notin> set internal_keys" "''rendered_content'' \<notin> set internal_keys"
    by (simp_all add: internal_keys_def)
  have hidden: "map_of p ''sender_full_name'' = Some (PStr ''Unknown user'') \<and>
       map_of p ''avatar_url'' = Some (avatar_for_inaccessible_user env) \<and>
       (\<exists>n d. map_of m ''sender_id'' = Some (PInt n) \<and> get_fake_email_domain env host = Inr d \<and>
          map_of p ''sender_email'' = Some (PStr (''user'' @ str_of_int n @ ''@'' @ d)))" if "\<not> acc"
  proof -
    from 1 that have h: "hide_sender env host m = Inr m1" by simp
    then obtain n d where nd: "map_of m ''sender_id'' = Some (PInt n)" "get_fake_email_domain env host = Inr d"
      "map_of m1 ''sender_full_name'' = Some (PStr ''Unknown user'')"
      "map_of m1 ''sender_email'' = Some (PStr (''user'' @ str_of_int n @ ''@'' @ d))"
      by (auto simp: hide_sender_def Let_def res_simps id_text_Inr INACCESSIBLE_USER_NAME_def)
    from 2 that have "map_of m2 ''avatar_url'' = Some (avatar_for_inaccessible_user env)"
      by (auto simp: set_sender_avatar_def)
    then show ?thesis
      using nd keys set_sender_avatar_map_of [OF 2] choose_content_map_of [OF 3] by (simp add: at at4)
  qed
  show ?thesis
    using hidden keys by (auto simp: has_key_def at at4 internal_keys_def)
qed

definition sample_env :: payload_env where
  "sample_env = \<lparr>avatar_for_inaccessible_user = PStr ''/static/inaccessible.png'',
     get_avatar_field = (\<lambda>_ _ _ _ _ g. if g then PNone else PStr ''/avatar''),
     get_fake_email_domain = (\<lambda>h. Inr h)\<rparr>"

definition sample_payload :: dict where
  "sample_payload = [(''id'', PInt 7), (''sender_id'', PInt 10), (''sender_full_name'', PStr ''Iago''),
     (''sender_email'', PStr ''iago@zulip.com''), (''content'', PStr ''*hi*''), (''rendered_content'', PStr ''<p>hi</p>''),
     (''sender_realm_id'', PInt 2), (''sender_avatar_source'', PStr ''G''), (''sender_delivery_email'', PStr ''iago@zulip.com''),
     (''sender_avatar_version'', PInt 1), (''recipient_type'', PInt 2), (''recipient_type_id'', PInt 5),
     (''sender_is_mirror_dummy'', PBool False), (''sender_email_address_visibility'', PInt 1)]"

theorem payload_hides_witness:
  "\<exists>p. finalize_payload sample_env sample_payload True True False False ''example.com'' [] = Inr p \<and>
     \<not> has_key p ''sender_delivery_email'' \<and> map_of p ''sender_full_name'' = Some (PStr ''Unknown user'')"
proof -
  obtain p where p: "finalize_payload sample_env sample_payload True True False False ''example.com'' [] = Inr p"
    by (simp add: finalize_payload_def sample_payload_def sample_env_def getk_def hide_sender_def id_text_def
        set_sender_avatar_def choose_content_def del_key_def has_key_def internal_keys_def Let_def INACCESSIBLE_USER_NAME_def)
  from payload_hides [OF p] p show ?thesis by auto
qed

end
