(* ===== verification/EventProcessing.thy ===== *)
theory EventProcessing
  imports MissedMessages MessagePayload
begin

text \<open>
  The consumers of the \<open>notify_tornado\<close> queue in \<^verbatim>\<open>zerver/tornado/event_queue.py\<close>:
  \<open>process_notification\<close> and the handlers it dispatches to, which turn one notice from Django
  into events on the queues of the clients that are to see it, and the wrapper that retries a
  notice whose processing raised.

  A notice is a dictionary with an \<open>event\<close> dictionary and a list \<open>users\<close> of user ids or of
  dictionaries with an \<open>id\<close>; ids are integers.  Lookups of a user id that is not an integer
  find no client.
\<close>

definition for_user :: "py \<Rightarrow> world \<Rightarrow> string list" where
  "for_user v w = (case v of PInt n \<Rightarrow> get_client_descriptors_for_user n w | _ \<Rightarrow> [])"

text \<open>\<open>set(d.get(k, []))\<close> for a list of user ids.\<close>

fun ids_of :: "py list \<Rightarrow> int list" where
  "ids_of [] = []"
| "ids_of (PInt n # vs) = n # ids_of vs"
| "ids_of (_ # vs) = ids_of vs"

definition id_set :: "dict \<Rightarrow> string \<Rightarrow> int set res" where
  "id_set d k = (case get_or d k (PList []) of PList vs \<Rightarrow> Inr (set (ids_of vs)) | _ \<Rightarrow> Inl TypeError)"

definition renamed_id_set :: "dict \<Rightarrow> string \<Rightarrow> string \<Rightarrow> int set res" where
  "renamed_id_set d new old =
     (if has_key d new then id_set d new else if has_key d old then id_set d old else Inr {})"

section \<open>Events for every client of a user\<close>

definition for_each_client :: "py list \<Rightarrow> (string \<Rightarrow> (world, unit) prog) \<Rightarrow> (world, unit) prog" where
  "for_each_client users f = for_each (\<lambda>u. bnd (gets (for_user u)) (for_each f)) users"

definition process_event :: "dict \<Rightarrow> py list \<Rightarrow> (world, unit) prog" where
  "process_event event users = for_each_client users (deliver event)"

text \<open>The test and the delivery of an event that depends on the client.\<close>

definition deliver_as :: "dict \<Rightarrow> (client_descriptor \<Rightarrow> string \<Rightarrow> (world, unit) prog) \<Rightarrow> string \<Rightarrow> (world, unit) prog" where
  "deliver_as event f qid =
     bnd (obj qid) (\<lambda>c. bnd (lift (accepts_event c event)) (\<lambda>b. whenever b (f c qid)))"

definition presence_events :: "dict \<Rightarrow> (dict \<times> dict) res" where
  "presence_events event =
     ebind (getk event ''user_id'') (\<lambda>uid.
     ebind (getk event ''server_timestamp'') (\<lambda>ts.
     ebind (getk event ''presence'') (\<lambda>presence.
     ebind (getk event ''email'') (\<lambda>email.
     Inr ([(''type'', PStr ''presence''), (''user_id'', uid), (''server_timestamp'', ts), (''presence'', presence)],
          [(''type'', PStr ''presence''), (''user_id'', uid), (''email'', email), (''server_timestamp'', ts),
           (''presence'', presence)])))))"

definition process_presence_event :: "dict \<Rightarrow> py list \<Rightarrow> (world, unit) prog" where
  "process_presence_event event users =
     bnd (lift (presence_events event)) (\<lambda>(slim_event, legacy_event).
     for_each_client users (deliver_as event (\<lambda>c q.
       if slim_presence c then add_event q slim_event else add_event q legacy_event)))"

definition compatibility_event :: "dict \<Rightarrow> py \<Rightarrow> dict res" where
  "compatibility_event event message_id = del_key ''message_ids'' (dset ''message_id'' message_id event)"

definition process_deletion_event :: "dict \<Rightarrow> py list \<Rightarrow> (world, unit) prog" where
  "process_deletion_event event users =
     for_each_client users (deliver_as event (\<lambda>c q.
       if bulk_message_deletion c then add_event q event
       else bnd (lift (list_at event ''message_ids'')) (\<lambda>ids.
            for_each (\<lambda>m. bnd (lift (compatibility_event event m)) (add_event q)) ids)))"

text \<open>\<open>CustomProfileField.PRONOUNS\<close> is 8, \<open>SHORT_TEXT\<close> is 1.\<close>

definition plain_field :: "py \<Rightarrow> py res" where
  "plain_field field =
     ebind (as_dict field) (\<lambda>d.
     ebind (getk d ''type'') (\<lambda>ty.
     Inr (PDict (if ty = PInt 8 then dset ''type'' (PInt 1) d else d))))"

definition process_custom_profile_fields_event :: "dict \<Rightarrow> py list \<Rightarrow> (world, unit) prog" where
  "process_custom_profile_fields_event event users =
     bnd (lift (ebind (list_at event ''fields'') (emap plain_field))) (\<lambda>fields.
     for_each_client users (deliver_as event (\<lambda>c q.
       if \<not> pronouns_field_type_supported c
       then add_event q [(''type'', PStr ''custom_profile_fields''), (''fields'', PList fields)]
       else add_event q event)))"

definition process_realm_user_add_event :: "dict \<Rightarrow> py list \<Rightarrow> (world, unit) prog" where
  "process_realm_user_add_event event users =
     (let user_add_event = ddel ''inaccessible_user'' event;
          event_for_inaccessible_user = truthy_at event ''inaccessible_user''
      in for_each_client users (deliver_as user_add_event (\<lambda>c q.
           if event_for_inaccessible_user \<and> user_list_incomplete c then ret ()
           else add_event q user_add_event)))"

section \<open>New messages\<close>

text \<open>An entry of \<open>send_to_clients\<close>; the descriptor is named by its queue.\<close>

record client_info =
  ci_client :: string
  ci_flags :: py
  ci_is_sender :: bool

definition own_queue_id :: "world \<Rightarrow> string \<Rightarrow> string" where
  "own_queue_id w q = (case heap w q of None \<Rightarrow> q | Some c \<Rightarrow> queue_id (cqueue c))"

definition is_sender_client :: "dict \<Rightarrow> string \<Rightarrow> bool" where
  "is_sender_client event_template qid =
     (case map_of event_template ''sender_queue_id'' of Some (PStr s) \<Rightarrow> qid = s | _ \<Rightarrow> False)"

definition put_client :: "dict \<Rightarrow> world \<Rightarrow> py \<Rightarrow> string \<Rightarrow> (string \<times> client_info) list \<Rightarrow> (string \<times> client_info) list" where
  "put_client event_template w flags q m =
     (let i = own_queue_id w q
      in dset i \<lparr>ci_client = q, ci_flags = flags, ci_is_sender = is_sender_client event_template i\<rparr> m)"

definition is_public_message :: "dict \<Rightarrow> bool" where
  "is_public_message event_template \<longleftrightarrow>
     has_key event_template ''stream_name'' \<and> \<not> truthy (get_or event_template ''invite_only'' PNone)"

definition realm_listeners :: "dict \<Rightarrow> world \<Rightarrow> string list res" where
  "realm_listeners event_template w =
     (if is_public_message event_template
      then ebind (getk event_template ''realm_id'') (\<lambda>r.
           Inr (case r of PInt n \<Rightarrow> get_client_descriptors_for_realm_all_streams n w | _ \<Rightarrow> []))
      else Inr [])"

definition add_user_clients ::
    "dict \<Rightarrow> world \<Rightarrow> dict \<Rightarrow> (string \<times> client_info) list \<Rightarrow> (string \<times> client_info) list res" where
  "add_user_clients event_template w user_data m =
     ebind (getk user_data ''id'') (\<lambda>uid.
     Inr (fold (put_client event_template w (get_or user_data ''flags'' (PList []))) (for_user uid w) m))"

definition get_client_info_for_message_event ::
    "dict \<Rightarrow> dict list \<Rightarrow> world \<Rightarrow> (string \<times> client_info) list res" where
  "get_client_info_for_message_event event_template users w =
     ebind (realm_listeners event_template w) (\<lambda>qs.
     efold (add_user_clients event_template w) users
       (fold (put_client event_template w (PList [])) qs []))"

text \<open>
  The user-id sets of the event, under their names before and after the renamings that running
  upgrades have to bridge.
\<close>

definition message_user_id_sets :: "dict \<Rightarrow> user_id_sets res" where
  "message_user_id_sets t =
     ebind (id_set t ''online_push_user_ids'') (\<lambda>online.
     ebind (renamed_id_set t ''dm_mention_push_disabled_user_ids'' ''pm_mention_push_disabled_user_ids'') (\<lambda>dmp.
     ebind (renamed_id_set t ''dm_mention_email_disabled_user_ids'' ''pm_mention_email_disabled_user_ids'') (\<lambda>dme.
     ebind (id_set t ''stream_push_user_ids'') (\<lambda>sp.
     ebind (id_set t ''stream_email_user_ids'') (\<lambda>se.
     ebind (id_set t ''topic_wildcard_mention_user_ids'') (\<lambda>tw.
     ebind (renamed_id_set t ''stream_wildcard_mention_user_ids'' ''wildcard_mention_user_ids'') (\<lambda>sw.
     ebind (id_set t ''followed_topic_push_user_ids'') (\<lambda>fp.
     ebind (id_set t ''followed_topic_email_user_ids'') (\<lambda>fe.
     ebind (id_set t ''topic_wildcard_mention_in_followed_topic_user_ids'') (\<lambda>twf.
     ebind (id_set t ''stream_wildcard_mention_in_followed_topic_user_ids'') (\<lambda>swf.
     ebind (id_set t ''muted_sender_user_ids'') (\<lambda>muted.
     ebind (id_set t ''all_bot_user_ids'') (\<lambda>bots.
     Inr \<lparr>online_push_user_ids = online,
          dm_mention_push_disabled_user_ids = dmp,
          dm_mention_email_disabled_user_ids = dme,
          stream_push_user_ids = sp,
          stream_email_user_ids = se,
          topic_wildcard_mention_user_ids = tw,
          stream_wildcard_mention_user_ids = sw,
          followed_topic_push_user_ids = fp,
          followed_topic_email_user_ids = fe,
          topic_wildcard_mention_in_followed_topic_user_ids = twf,
          stream_wildcard_mention_in_followed_topic_user_ids = swf,
          muted_sender_user_ids = muted,
          all_bot_user_ids = bots\<rparr>)))))))))))))"

text \<open>\<open>vars(user_notifications_data)\<close> without the user id.\<close>

definition notif_fields :: "notif \<Rightarrow> dict" where
  "notif_fields n = map (\<lambda>(k, b). (k, PBool b))
     [(''online_push_enabled'', online_push_enabled n),
      (''dm_email_notify'', dm_email_notify n),
      (''dm_push_notify'', dm_push_notify n),
      (''mention_email_notify'', mention_email_notify n),
      (''mention_push_notify'', mention_push_notify n),
      (''topic_wildcard_mention_email_notify'', topic_wildcard_mention_email_notify n),
      (''topic_wildcard_mention_push_notify'', topic_wildcard_mention_push_notify n),
      (''stream_wildcard_mention_email_notify'', stream_wildcard_mention_email_notify n),
      (''stream_wildcard_mention_push_notify'', stream_wildcard_mention_push_notify n),
      (''stream_push_notify'', stream_push_notify n),
      (''stream_email_notify'', stream_email_notify n),
      (''followed_topic_push_notify'', followed_topic_push_notify n),
      (''followed_topic_email_notify'', followed_topic_email_notify n),
      (''topic_wildcard_mention_in_followed_topic_push_notify'', topic_wildcard_mention_in_followed_topic_push_notify n),
      (''topic_wildcard_mention_in_followed_topic_email_notify'', topic_wildcard_mention_in_followed_topic_email_notify n),
      (''stream_wildcard_mention_in_followed_topic_push_notify'', stream_wildcard_mention_in_followed_topic_push_notify n),
      (''stream_wildcard_mention_in_followed_topic_email_notify'', stream_wildcard_mention_in_followed_topic_email_notify n),
      (''sender_is_muted'', sender_is_muted n),
      (''disable_external_notifications'', disable_external_notifications n)]"

text \<open>What the loop over the users reads of the message.\<close>

record message_head =
  mh_sender_id :: int
  mh_message_id :: py
  mh_private :: bool
  mh_client :: string

definition flag_names :: "py \<Rightarrow> string list" where
  "flag_names v = (case v of PList fs \<Rightarrow> str_list fs | _ \<Rightarrow> [])"

definition notify_user :: "int \<Rightarrow> dict \<Rightarrow> user_id_sets \<Rightarrow> int set \<Rightarrow> message_head \<Rightarrow> dict \<Rightarrow>
    (int \<times> dict) list \<Rightarrow> (world, (int \<times> dict) list) prog" where
  "notify_user shards t sets presence_idle h user_data extra =
     bnd (lift (int_at user_data ''id'')) (\<lambda>uid.
     bnd (lift (from_user_id_sets uid (flag_names (get_or user_data ''flags'' (PList []))) (mh_private h)
            (truthy_at t ''disable_external_notifications'') sets)) (\<lambda>n.
     let internal_data = dset ''mentioned_user_group_id''
           (get_or user_data ''mentioned_user_group_id'' PNone) (notif_fields n)
     in if \<not> is_notifiable n (mh_sender_id h) True then ret (AList.update uid internal_data extra)
        else
          bnd (gets (\<lambda>w. receiver_is_off_zulip uid w \<or> uid \<in> presence_idle)) (\<lambda>idle.
          bnd (maybe_enqueue_notifications shards n (mh_sender_id h) (mh_message_id h)
                 (get_or user_data ''mentioned_user_group_id'' PNone) idle []) (\<lambda>done.
          ret (AList.update uid (fold (\<lambda>(k, v). dset k v) done internal_data) extra)))))"

text \<open>The event for one client.\<close>

fun is_infix :: "string \<Rightarrow> string \<Rightarrow> bool" where
  "is_infix p s \<longleftrightarrow> (case s of [] \<Rightarrow> p = [] | c # s' \<Rightarrow> startswith s p \<or> is_infix p s')"

definition message_event :: "dict \<Rightarrow> client_descriptor \<Rightarrow> client_info \<Rightarrow> dict option \<Rightarrow> dict \<Rightarrow> dict" where
  "message_event t c info internal_data payload =
     (let m = (if is_infix ''mirror'' (client_type_name c) \<and> truthy (get_or t ''invite_only'' PNone)
               then dset ''invite_only_stream'' (PBool True) payload else payload);
          e1 = [(''type'', PStr ''message''), (''message'', PDict m), (''flags'', ci_flags info)];
          e2 = (case internal_data of None \<Rightarrow> e1 | Some d \<Rightarrow> dset ''internal_data'' (PDict d) e1)
      in if ci_is_sender info
         then (case get_or t ''local_id'' PNone of PNone \<Rightarrow> e2 | l \<Rightarrow> dset ''local_message_id'' l e2)
         else e2)"

definition send_to_client :: "payload_env \<Rightarrow> dict \<Rightarrow> dict \<Rightarrow> message_head \<Rightarrow> int set \<Rightarrow> string \<Rightarrow>
    (int \<times> dict) list \<Rightarrow> client_info \<Rightarrow> (world, unit) prog" where
  "send_to_client env t wide_dict h without_access realm_host extra info =
     bnd (obj (ci_client info)) (\<lambda>c.
     if \<not> accepts_messages c then ret ()
     else
       bnd (lift (finalize_payload env wide_dict (apply_markdown c) (client_gravatar c) False
              (user_profile_id c \<notin> without_access) realm_host (sender_apply_raw_content c))) (\<lambda>payload.
       let user_event = message_event t c info (map_of extra (user_profile_id c)) payload
       in bnd (lift (accepts_event c user_event)) (\<lambda>b.
          if \<not> b then ret ()
          else if is_infix ''mirror'' (mh_client h) \<and> lower (mh_client h) = lower (client_type_name c) then ret ()
          else add_event (ci_client info) user_event)))"

definition read_message_head :: "dict \<Rightarrow> (dict \<times> message_head) res" where
  "read_message_head t =
     ebind (dict_at t ''message_dict'') (\<lambda>d0.
     ebind (if has_key d0 ''sender_delivery_email'' then Inr d0
            else ebind (getk d0 ''sender_email'') (\<lambda>e. Inr (dset ''sender_delivery_email'' e d0))) (\<lambda>wide_dict.
     ebind (int_at wide_dict ''sender_id'') (\<lambda>sender_id.
     ebind (getk wide_dict ''id'') (\<lambda>message_id.
     ebind (getk wide_dict ''type'') (\<lambda>ty.
     ebind (str_at wide_dict ''client'') (\<lambda>cl.
     Inr (wide_dict, \<lparr>mh_sender_id = sender_id, mh_message_id = message_id,
            mh_private = (ty = PStr ''private''), mh_client = cl\<rparr>)))))))"

definition process_message_event :: "int \<Rightarrow> payload_env \<Rightarrow> dict \<Rightarrow> dict list \<Rightarrow> (world, unit) prog" where
  "process_message_event shards env t users =
     bnd (gets (get_client_info_for_message_event t users)) (\<lambda>r.
     bnd (lift r) (\<lambda>send_to_clients.
     bnd (lift (id_set t ''presence_idle_user_ids'')) (\<lambda>presence_idle.
     bnd (lift (message_user_id_sets t)) (\<lambda>sets.
     bnd (lift (id_set t ''user_ids_without_access_to_sender'')) (\<lambda>without_access.
     bnd (lift (if has_key t ''realm_host'' then str_at t ''realm_host'' else Inr [])) (\<lambda>realm_host.
     bnd (lift (read_message_head t)) (\<lambda>(wide_dict, h).
     bnd (for_fold (notify_user shards t sets presence_idle h) users []) (\<lambda>extra.
     for_each (send_to_client env t wide_dict h without_access realm_host extra) (map snd send_to_clients)))))))))"


section \<open>Message edits\<close>

text \<open>
  The parameters of the handler that travel in the event; they are removed from it.  A set under
  its old name is read, and removed, only when the new name is absent.
\<close>

definition pop_renamed :: "string \<Rightarrow> string \<Rightarrow> dict \<Rightarrow> dict" where
  "pop_renamed new old t = (if has_key t new then ddel new t else if has_key t old then ddel old t else t)"

definition update_parameters :: "string list" where
  "update_parameters = [''prior_mention_user_ids'', ''presence_idle_user_ids'', ''stream_push_user_ids'',
     ''stream_email_user_ids'', ''topic_wildcard_mention_user_ids'', ''followed_topic_push_user_ids'',
     ''followed_topic_email_user_ids'', ''topic_wildcard_mention_in_followed_topic_user_ids'',
     ''stream_wildcard_mention_in_followed_topic_user_ids'', ''muted_sender_user_ids'', ''all_bot_user_ids'',
     ''disable_external_notifications'']"

definition strip_update_parameters :: "dict \<Rightarrow> dict" where
  "strip_update_parameters t =
     pop_renamed ''online_push_user_ids'' ''push_notify_user_ids''
       (pop_renamed ''stream_wildcard_mention_user_ids'' ''wildcard_mention_user_ids''
         (pop_renamed ''dm_mention_email_disabled_user_ids'' ''pm_mention_email_disabled_user_ids''
           (pop_renamed ''dm_mention_push_disabled_user_ids'' ''pm_mention_push_disabled_user_ids''
             (fold ddel update_parameters t))))"

definition update_user_id_sets :: "dict \<Rightarrow> user_id_sets res" where
  "update_user_id_sets t =
     ebind (renamed_id_set t ''online_push_user_ids'' ''push_notify_user_ids'') (\<lambda>online.
     ebind (message_user_id_sets t) (\<lambda>s. Inr (s\<lparr>online_push_user_ids := online\<rparr>)))"

definition merge_user_data :: "dict \<Rightarrow> dict \<Rightarrow> dict" where
  "merge_user_data user_data event =
     fold (\<lambda>(k, v) e. if k \<noteq> ''id'' then dset k v e else e) user_data event"

definition notify_update :: "int \<Rightarrow> user_id_sets \<Rightarrow> bool \<Rightarrow> dict \<Rightarrow> dict \<Rightarrow> int \<Rightarrow> int set \<Rightarrow> int set \<Rightarrow>
    (world, unit) prog" where
  "notify_update shards sets disable_external template user_event uid presence_idle prior_mention =
     bnd (lift (int_at template ''user_id'')) (\<lambda>acting_user_id.
     bnd (lift (list_at user_event ''flags'')) (\<lambda>flags.
     bnd (lift (from_user_id_sets uid (str_list flags) (get_or template ''stream_name'' PNone = PNone)
            disable_external sets)) (\<lambda>n.
     bnd (lift (getk template ''message_id'')) (\<lambda>message_id.
     maybe_enqueue_notifications_for_message_update shards n message_id acting_user_id
       (get_or template ''stream_name'' PNone = PNone) (uid \<in> presence_idle) (uid \<in> prior_mention)))))"

definition update_for_user :: "int \<Rightarrow> user_id_sets \<Rightarrow> bool \<Rightarrow> bool \<Rightarrow> dict \<Rightarrow> int set \<Rightarrow> int set \<Rightarrow> dict \<Rightarrow>
    (world, unit) prog" where
  "update_for_user shards sets disable_external rendering_only template presence_idle prior_mention user_data =
     bnd (lift (int_at user_data ''id'')) (\<lambda>uid.
     let user_event = merge_user_data user_data template
     in seq (whenever (\<not> rendering_only)
               (notify_update shards sets disable_external template user_event uid presence_idle prior_mention))
            (bnd (gets (get_client_descriptors_for_user uid)) (for_each (deliver user_event))))"

definition process_message_update_event :: "int \<Rightarrow> dict \<Rightarrow> dict list \<Rightarrow> (world, unit) prog" where
  "process_message_update_event shards orig_event users =
     bnd (lift (id_set orig_event ''prior_mention_user_ids'')) (\<lambda>prior_mention.
     bnd (lift (id_set orig_event ''presence_idle_user_ids'')) (\<lambda>presence_idle.
     bnd (lift (update_user_id_sets orig_event)) (\<lambda>sets.
     let template = strip_update_parameters orig_event
     in seq (lift (getk template ''message_id''))
            (for_each (update_for_user shards sets (truthy_at orig_event ''disable_external_notifications'')
               (if has_key template ''rendering_only'' then truthy_at template ''rendering_only''
                else \<not> has_key template ''user_id'')
               template presence_idle prior_mention) users))))"

section \<open>Notices\<close>

text \<open>
  \<open>reformat_legacy_send_message_event\<close>: the per-user booleans of an old event become the lists
  of the new one.
\<close>

definition legacy_keys :: "(string \<times> string) list" where
  "legacy_keys = [(''stream_push_notify'', ''stream_push_user_ids''),
     (''stream_email_notify'', ''stream_email_user_ids''),
     (''wildcard_mention_notify'', ''stream_wildcard_mention_user_ids''),
     (''sender_is_muted'', ''muted_sender_user_ids'')]"

definition append_id :: "string \<Rightarrow> py \<Rightarrow> dict \<Rightarrow> dict" where
  "append_id k uid event = (case map_of event k of Some (PList vs) \<Rightarrow> dset k (PList (vs @ [uid])) event | _ \<Rightarrow> event)"

definition collect_legacy :: "dict \<Rightarrow> py \<Rightarrow> dict \<Rightarrow> dict" where
  "collect_legacy user uid event =
     (let e = fold (\<lambda>(old, new) e. if truthy_at user old then append_id new uid e else e) legacy_keys event
      in if truthy_at user ''online_push_enabled'' \<or> truthy_at user ''always_push_notify''
         then append_id ''online_push_user_ids'' uid e else e)"

definition strip_legacy :: "dict \<Rightarrow> dict" where
  "strip_legacy user =
     (let u = ddel ''online_push_enabled'' (fold (\<lambda>(old, new). ddel old) legacy_keys user)
      in ddel ''mentioned'' (if truthy_at user ''online_push_enabled'' then u else ddel ''always_push_notify'' u))"

definition reformat_legacy_send_message_event :: "dict \<Rightarrow> dict list \<Rightarrow> (dict \<times> dict list) res" where
  "reformat_legacy_send_message_event event users =
     (let start = fold (\<lambda>k. dset k (PList [])) [''online_push_user_ids'', ''stream_push_user_ids'',
            ''stream_email_user_ids'', ''stream_wildcard_mention_user_ids'', ''muted_sender_user_ids''] event
      in ebind (efold (\<lambda>u e. ebind (getk u ''id'') (\<lambda>uid. Inr (collect_legacy u uid e))) users start) (\<lambda>e.
         Inr (e, map strip_legacy users)))"

text \<open>The branch of \<open>process_notification\<close> for a request to clean up a queue.\<close>

definition cleanup_notice :: "int \<Rightarrow> dict \<Rightarrow> py list \<Rightarrow> (world, unit) prog" where
  "cleanup_notice shards event users =
     (case users of
        [] \<Rightarrow> raise IndexError
      | u # _ \<Rightarrow> (case u of
          PInt uid \<Rightarrow>
            bnd (lift (getk event ''queue_id'')) (\<lambda>q.
            bnd (try_except
                   (bnd (case q of PStr s \<Rightarrow> access_client_descriptor uid s
                         | _ \<Rightarrow> raise (BadEventQueueIdError [])) (\<lambda>q. ret (Some q)))
                   (\<lambda>e. case e of BadEventQueueIdError _ \<Rightarrow> ret None | _ \<Rightarrow> raise e)) (\<lambda>r.
            case r of None \<Rightarrow> ret () | Some q \<Rightarrow> cleanup [missedmessage_hook shards] q))
        | _ \<Rightarrow> raise AssertionError))"

definition deletion_users :: "py list \<Rightarrow> py list res" where
  "deletion_users users = (case users of
     PDict _ # _ \<Rightarrow> emap (\<lambda>u. ebind (as_dict u) (\<lambda>d. getk d ''id'')) users
   | _ \<Rightarrow> Inr users)"

definition process_message_notice :: "int \<Rightarrow> payload_env \<Rightarrow> dict \<Rightarrow> py list \<Rightarrow> (world, unit) prog" where
  "process_message_notice shards env event users =
     bnd (lift (emap as_dict users)) (\<lambda>us.
     case us of
       u # _ \<Rightarrow>
         if has_key u ''stream_push_notify''
         then bnd (lift (reformat_legacy_send_message_event event us)) (\<lambda>(e, us'). process_message_event shards env e us')
         else process_message_event shards env event us
     | [] \<Rightarrow> process_message_event shards env event us)"

definition process_notification :: "int \<Rightarrow> payload_env \<Rightarrow> dict \<Rightarrow> (world, unit) prog" where
  "process_notification shards env notice =
     bnd (lift (dict_at notice ''event'')) (\<lambda>event.
     bnd (lift (list_at notice ''users'')) (\<lambda>users.
     bnd (lift (getk event ''type'')) (\<lambda>ty.
     if ty = PStr ''message'' then process_message_notice shards env event users
     else if ty = PStr ''update_message''
       then bnd (lift (emap as_dict users)) (process_message_update_event shards event)
     else if ty = PStr ''delete_message''
       then bnd (lift (deletion_users users)) (process_deletion_event event)
     else if ty = PStr ''presence'' then process_presence_event event users
     else if ty = PStr ''custom_profile_fields'' then process_custom_profile_fields_event event users
     else
       bnd (lift (if ty = PStr ''realm_user'' then getk event ''op'' else Inr PNone)) (\<lambda>oper.
       if oper = PStr ''add'' then process_realm_user_add_event event users
       else if ty = PStr ''cleanup_queue'' then cleanup_notice shards event users
       else process_event event users))))"

text \<open>
  \<open>retry_event\<close> of \<^verbatim>\<open>zerver/lib/queue.py\<close>, and the consumer: a notice whose processing raised
  is published again with its count of failures, at most three times.  The failure processor only
  logs.  A notice in the legacy message format is republished as it came; the code republishes it
  already converted, which its next processing treats the same way.
\<close>

definition MAX_REQUEST_RETRIES :: int where
  "MAX_REQUEST_RETRIES = 3"

definition failed_tries :: "dict \<Rightarrow> int" where
  "failed_tries notice = (case map_of notice ''failed_tries'' of Some (PInt n) \<Rightarrow> n | _ \<Rightarrow> 0)"

definition retry_event :: "string \<Rightarrow> dict \<Rightarrow> (world, unit) prog" where
  "retry_event queue_name notice =
     (let n = failed_tries notice + 1
      in if n > MAX_REQUEST_RETRIES then ret ()
         else publish (queue_name, dset ''failed_tries'' (PInt n) notice))"

definition wrapped_process_notification :: "int \<Rightarrow> payload_env \<Rightarrow> string \<Rightarrow> dict list \<Rightarrow> (world, unit) prog" where
  "wrapped_process_notification shards env queue_name notices =
     for_each (\<lambda>notice. try_except (process_notification shards env notice)
        (\<lambda>_. retry_event queue_name notice)) notices"


section \<open>Who sees what\<close>

text \<open>
  The frame of event delivery: from \<open>w0\<close>, only the queues in \<open>S\<close> have changed, only long
  polls of those queues were answered, and only notices about the users in \<open>U\<close> were published.
\<close>

definition about_user :: "int set \<Rightarrow> string \<times> dict \<Rightarrow> bool" where
  "about_user U p \<longleftrightarrow> (\<exists>u\<in>U. map_of (snd p) ''user_profile_id'' = Some (PInt u))"

definition confined :: "string set \<Rightarrow> int set \<Rightarrow> world \<Rightarrow> world \<Rightarrow> bool" where
  "confined S U w0 w \<longleftrightarrow> wf_world w \<and> clients w = clients w0 \<and> user_clients w = user_clients w0 \<and>
     realm_clients_all_streams w = realm_clients_all_streams w0 \<and> web_reload_clients w = web_reload_clients w0 \<and>
     (\<forall>q. q \<notin> S \<longrightarrow> heap w q = heap w0 q) \<and> (\<forall>q. rel_option same_key (heap w0 q) (heap w q)) \<and>
     appended (\<lambda>r. fst (snd r) \<in> S) (responses w0) (responses w) \<and>
     appended (about_user U) (published w0) (published w)"

lemma confined_refl: "wf_world w \<Longrightarrow> confined S U w w"
  by (simp add: confined_def option.rel_refl)

lemma confinedD:
  assumes "confined S U w0 w"
  shows "wf_world w" "user_clients w = user_clients w0"
    "realm_clients_all_streams w = realm_clients_all_streams w0"
  using assms by (simp_all add: confined_def)

lemma confined_mono: "confined S U w0 w \<Longrightarrow> S \<subseteq> S' \<Longrightarrow> U \<subseteq> U' \<Longrightarrow> confined S' U' w0 w"
  unfolding confined_def about_user_def by (auto elim!: appended_mono)

lemma confined_trans:
  assumes "confined S U w0 w" "confined S U w w'"
  shows "confined S U w0 w'"
proof -
  have "rel_option same_key (heap w0 q) (heap w' q)" for q
  proof -
    have "rel_option same_key (heap w0 q) (heap w q)" "rel_option same_key (heap w q) (heap w' q)"
      using assms by (simp_all add: confined_def)
    then show ?thesis
      by (cases "heap w0 q"; cases "heap w q"; cases "heap w' q") (auto intro: same_trans)
  qed
  then show ?thesis
    using assms unfolding confined_def by (auto intro: appended_trans)
qed

text \<open>A program is confined when every run of it from a consistent state is.\<close>

lemma stable_confined:
  assumes "\<And>w. confined S U w0 w \<Longrightarrow> confined S U w (snd (m w))"
  shows "stable (confined S U w0) m"
  by (rule stableI) (auto intro: assms confined_trans)

lemma confined_upd:
  assumes "wf_world w" "heap w q = Some c" "same_key c c'" "same_links c c'" "q \<in> S"
  shows "confined S U w (w\<lparr>heap := (heap w)(q \<mapsto> c')\<rparr>)"
  unfolding confined_def using assms wf_upd [OF assms(1-4)] by (auto simp: option.rel_refl)

lemma confined_finished:
  assumes w: "wf_world w" and c: "heap w q = Some c" and q: "q \<in> S"
  shows "confined S U w (finished q c w)"
proof -
  have "queue_id (cqueue c) = q" using w c by (simp add: wf_world_def tables_ok_def)
  then have "appended (\<lambda>r. fst (snd r) \<in> S) (responses w) (responses (finished q c w))"
    using q by (cases "current_handler_id c") (simp_all add: finished_def respond_def)
  moreover have "same_key c (idle_client (merged False c))"
    by (rule same_trans(1) [of _ "merged False c"]) simp_all
  ultimately show ?thesis
    unfolding confined_def using wf_finished [OF w c] c q
    by (auto simp: heap_finished option.rel_refl)
qed

lemma confined_add_event:
  assumes w: "wf_world w" and q: "q \<in> S"
  shows "confined S U w (snd (add_event q ev w))"
proof (cases "heap w q")
  case None
  with w show ?thesis by (simp add: add_event_def push_event_def bnd_def obj_def confined_refl)
next
  case (Some c)
  have p: "confined S U w (w\<lparr>heap := (heap w)(q \<mapsto> pushed_client ev c)\<rparr>)"
    by (rule confined_upd [OF w Some]) (simp_all add: q)
  show ?thesis
  proof (cases "fst (push ev (cqueue c))")
    case (Inl e)
    with add_event_refused [OF Some] p show ?thesis by simp
  next
    case (Inr u)
    have "confined S U (w\<lparr>heap := (heap w)(q \<mapsto> pushed_client ev c)\<rparr>) (added q ev c w)"
      unfolding added_def by (rule confined_finished) (use p q in \<open>simp_all add: confined_def\<close>)
    with p add_event_eq [OF w Some, of ev] Inr show ?thesis by (auto intro: confined_trans)
  qed
qed


text \<open>The clients events for the users \<open>U\<close> may reach, with the listeners \<open>L\<close> of a public message.\<close>

lemma stable_add_confined: "q \<in> S \<Longrightarrow> stable (confined S U w0) (add_event q ev)"
  by (rule stable_confined) (auto intro: confined_add_event dest: confinedD)

lemma stable_deliver_confined: "q \<in> S \<Longrightarrow> stable (confined S U w0) (deliver ev q)"
  unfolding deliver_def by (intro stable_bnd stable_whenever stable_add_confined stable_obj stable_basic)

lemma stable_deliver_as:
  "(\<And>c. stable I (f c q)) \<Longrightarrow> stable I (deliver_as event f q)"
  unfolding deliver_as_def by (intro stable_bnd stable_whenever stable_obj stable_basic)

lemma for_user_cong: "user_clients w = user_clients w0 \<Longrightarrow> for_user u w = for_user u w0"
  by (simp add: for_user_def get_client_descriptors_for_user_def split: py.split)

lemma stable_for_each_client:
  assumes "\<And>u q. u \<in> set users \<Longrightarrow> q \<in> set (for_user u w0) \<Longrightarrow> stable (confined S U w0) (f q)"
  shows "stable (confined S U w0) (for_each_client users f)"
  unfolding for_each_client_def
  by (intro stable_for_each stable_bnd_gets)
     (simp add: for_user_cong [OF confinedD(2)] assms)

definition reaches :: "world \<Rightarrow> string set \<Rightarrow> py list \<Rightarrow> bool" where
  "reaches w S users \<longleftrightarrow> (\<forall>u\<in>set users. set (for_user u w) \<subseteq> S)"

lemma stable_process_event:
  assumes "reaches w0 S users"
  shows "stable (confined S U w0) (process_event event users)"
    and "stable (confined S U w0) (process_presence_event event users)"
    and "stable (confined S U w0) (process_deletion_event event users)"
    and "stable (confined S U w0) (process_custom_profile_fields_event event users)"
    and "stable (confined S U w0) (process_realm_user_add_event event users)"
proof -
  have q: "q \<in> S" if "u \<in> set users" "q \<in> set (for_user u w0)" for u q
    using assms that by (auto simp: reaches_def)
  show "stable (confined S U w0) (process_event event users)"
    unfolding process_event_def by (intro stable_for_each_client stable_deliver_confined q)
  show "stable (confined S U w0) (process_presence_event event users)"
    unfolding process_presence_event_def
    by (intro stable_bnd stable_basic)
       (auto intro!: stable_for_each_client stable_deliver_as stable_add_confined q)
  show "stable (confined S U w0) (process_deletion_event event users)"
    unfolding process_deletion_event_def
    by (auto intro!: stable_for_each_client stable_deliver_as stable_add_confined stable_bnd stable_for_each q)
  show "stable (confined S U w0) (process_custom_profile_fields_event event users)"
    unfolding process_custom_profile_fields_event_def
    by (intro stable_bnd stable_basic)
       (auto intro!: stable_for_each_client stable_deliver_as stable_add_confined q)
  show "stable (confined S U w0) (process_realm_user_add_event event users)"
    unfolding process_realm_user_add_event_def Let_def
    by (auto intro!: stable_for_each_client stable_deliver_as stable_add_confined q)
qed

section \<open>Notifications name their user\<close>

lemma about_notice [simp]:
  "about_user U (queue, push_notice n a mid g idle) \<longleftrightarrow> user_id n \<in> U"
  "about_user U (queue, email_notice n a mid g idle) \<longleftrightarrow> user_id n \<in> U"
  by (auto simp: about_user_def push_notice_def email_notice_def build_offline_notification_def)

lemma confined_publish: "wf_world w \<Longrightarrow> \<forall>p\<in>set ps. about_user U p \<Longrightarrow>
    confined S U w (w\<lparr>published := published w @ ps\<rparr>)"
  by (simp add: confined_def option.rel_refl)

lemma stable_maybe_enqueue:
  assumes "user_id n \<in> U"
  shows "stable (confined S U w0) (maybe_enqueue_notifications shards n a mid g idle already)"
proof (rule stable_confined)
  fix w assume "confined S U w0 w"
  then show "confined S U w (snd (maybe_enqueue_notifications shards n a mid g idle already w))"
    using assms by (auto simp: maybe_enqueue_eq enqueued_def dest: confinedD intro!: confined_publish confined_refl)
qed

lemma stable_update_notification:
  "user_id n \<in> U \<Longrightarrow> stable (confined S U w0)
     (maybe_enqueue_notifications_for_message_update shards n mid a private_message idle prior)"
  unfolding maybe_enqueue_notifications_for_message_update_def
  by (auto intro!: stable_bnd stable_maybe_enqueue)

definition user_named :: "int set \<Rightarrow> dict \<Rightarrow> bool" where
  "user_named U d \<longleftrightarrow> (\<forall>n. map_of d ''id'' = Some (PInt n) \<longrightarrow> n \<in> U)"

lemma stable_notify_user:
  "user_named U d \<Longrightarrow> stable (confined S U w0) (notify_user shards t sets idle h d extra)"
  unfolding notify_user_def Let_def
  by (intro stable_bnd_lift)
     (auto simp: res_simps user_named_def intro!: stable_bnd stable_maybe_enqueue dest: from_user_id_sets_user_id)


section \<open>Confinement of messages and edits\<close>

text \<open>The queues \<open>send_to_clients\<close> can name.\<close>

lemma put_client_clients: "ci_client ` snd ` set (put_client t w fl q m) \<subseteq> insert q (ci_client ` snd ` set m)"
proof -
  have "snd ` set (AList.update k v m) \<subseteq> insert v (snd ` set m)" for k v
    by (induction m) auto
  then have "ci_client ` snd ` set (AList.update k v m) \<subseteq> ci_client ` insert v (snd ` set m)" for k v
    by (rule image_mono)
  from this [of "own_queue_id w q" "\<lparr>ci_client = q, ci_flags = fl, ci_is_sender = is_sender_client t (own_queue_id w q)\<rparr>"]
  show ?thesis by (simp add: put_client_def Let_def)
qed

lemma fold_put_client: "ci_client ` snd ` set (fold (put_client t w fl) qs m) \<subseteq> set qs \<union> ci_client ` snd ` set m"
proof (induction qs arbitrary: m)
  case (Cons q qs)
  from Cons.IH [of "put_client t w fl q m"] put_client_clients [of t w fl q m] show ?case by auto
qed simp

lemma client_info_reaches:
  assumes "get_client_info_for_message_event t users w = Inr m"
    and "\<And>d u. d \<in> set users \<Longrightarrow> map_of d ''id'' = Some u \<Longrightarrow> set (for_user u w) \<subseteq> S"
    and "\<And>qs. realm_listeners t w = Inr qs \<Longrightarrow> set qs \<subseteq> S"
  shows "ci_client ` snd ` set m \<subseteq> S"
proof -
  from assms(1) obtain qs where qs: "realm_listeners t w = Inr qs"
    "efold (add_user_clients t w) users (fold (put_client t w (PList [])) qs []) = Inr m"
    by (auto simp: get_client_info_for_message_event_def res_simps)
  from qs(2) show ?thesis
  proof (rule efold_invariant)
    show "ci_client ` snd ` set (fold (put_client t w (PList [])) qs []) \<subseteq> S"
      using fold_put_client [of t w "PList []" qs "[]"] assms(3) [OF qs(1)] by simp
  next
    fix d m m'
    assume d: "d \<in> set users" and m: "ci_client ` snd ` set m \<subseteq> S" and r: "add_user_clients t w d m = Inr m'"
    from r obtain u where u: "map_of d ''id'' = Some u"
      "m' = fold (put_client t w (get_or d ''flags'' (PList []))) (for_user u w) m"
      by (auto simp: add_user_clients_def res_simps)
    with fold_put_client [of t w "get_or d ''flags'' (PList [])" "for_user u w" m] assms(2) [OF d u(1)] m
    show "ci_client ` snd ` set m' \<subseteq> S" unfolding u(2) by (meson Un_least order_trans)
  qed
qed

lemma stable_send_to_client:
  "ci_client info \<in> S \<Longrightarrow> stable (confined S U w0) (send_to_client env t wd h noacc host extra info)"
  unfolding send_to_client_def Let_def by (auto intro!: stable_bnd stable_add_confined)

text \<open>The audience of a notice about the users \<open>ids\<close>.\<close>

definition dict_ids :: "dict list \<Rightarrow> int set" where
  "dict_ids users = {n. \<exists>d\<in>set users. map_of d ''id'' = Some (PInt n)}"

definition audience :: "dict option \<Rightarrow> int set \<Rightarrow> world \<Rightarrow> string set" where
  "audience message ids w = {q. \<exists>c. heap w q = Some c \<and> (user_profile_id c \<in> ids \<or>
     (case message of None \<Rightarrow> False
      | Some t \<Rightarrow> is_public_message t \<and> all_streams_client c \<and> map_of t ''realm_id'' = Some (PInt (realm_id c))))}"

lemma for_user_audience:
  assumes "wf_world w"
  shows "set (for_user u w) \<subseteq> {q. \<exists>c. heap w q = Some c \<and> u = PInt (user_profile_id c)}"
proof -
  have "set (table_at (user_clients w) n) = members (\<lambda>_. True) user_profile_id w n" for n
    using assms by (simp add: wf_world_def tables_ok_def table_ok_def)
  then show ?thesis
    by (auto simp: for_user_def get_client_descriptors_for_user_def members_def split: py.split)
qed

lemma for_user_subset:
  "wf_world w \<Longrightarrow> (\<And>n. u = PInt n \<Longrightarrow> n \<in> ids) \<Longrightarrow> set (for_user u w) \<subseteq> audience message ids w"
  using for_user_audience [of w u] by (auto simp: audience_def)

lemma listeners_subset:
  assumes "wf_world w" "realm_listeners t w = Inr qs"
  shows "set qs \<subseteq> audience (Some t) ids w"
proof -
  have "set (table_at (realm_clients_all_streams w) n) = members all_streams_client realm_id w n" for n
    using assms(1) by (simp add: wf_world_def tables_ok_def table_ok_def)
  note m = this
  show ?thesis
  proof (cases "is_public_message t")
    case True
    with assms(2) obtain r where r: "map_of t ''realm_id'' = Some r"
      and qs: "qs = (case r of PInt n \<Rightarrow> table_at (realm_clients_all_streams w) n | _ \<Rightarrow> [])"
      by (auto simp: realm_listeners_def get_client_descriptors_for_realm_all_streams_def res_simps cong: py.case_cong)
    with True m show ?thesis by (cases r) (auto simp: members_def audience_def)
  next
    case False
    with assms(2) show ?thesis by (simp add: realm_listeners_def)
  qed
qed


lemma stable_process_message:
  assumes w0: "wf_world w0" and ids: "dict_ids users \<subseteq> ids"
  shows "stable (confined (audience (Some t) ids w0) ids w0) (process_message_event shards env t users)"
proof -
  let ?S = "audience (Some t) ids w0"
  have named: "user_named ids d" if "d \<in> set users" for d
    using ids that by (auto simp: user_named_def dict_ids_def)
  have info: "ci_client ` snd ` set m \<subseteq> ?S"
    if w: "confined ?S ids w0 w" and m: "get_client_info_for_message_event t users w = Inr m" for w m
  proof (rule client_info_reaches [OF m])
    fix d u assume "d \<in> set users" "map_of d ''id'' = Some u"
    with ids show "set (for_user u w) \<subseteq> ?S"
      unfolding for_user_cong [OF confinedD(2) [OF w]]
      by (intro for_user_subset [OF w0]) (auto simp: dict_ids_def)
  next
    fix qs assume "realm_listeners t w = Inr qs"
    then have "realm_listeners t w0 = Inr qs"
      unfolding realm_listeners_def get_client_descriptors_for_realm_all_streams_def confinedD(3) [OF w] .
    then show "set qs \<subseteq> ?S" by (rule listeners_subset [OF w0])
  qed
  show ?thesis
    unfolding process_message_event_def
  proof (intro stable_bnd_gets stable_bnd_lift)
    fix w m presence_idle sets noacc host x
    assume w: "confined ?S ids w0 w" and m: "get_client_info_for_message_event t users w = Inr m"
    have "stable (confined ?S ids w0) (bnd (for_fold (notify_user shards t sets presence_idle h) users []) (\<lambda>extra.
        for_each (send_to_client env t wd h noacc host extra) (map snd m)))" for h wd
      using info [OF w m]
      by (intro stable_bnd stable_for_fold stable_for_each stable_notify_user stable_send_to_client named) auto
    then show "stable (confined ?S ids w0) (case x of (wide_dict, h) \<Rightarrow>
        bnd (for_fold (notify_user shards t sets presence_idle h) users []) (\<lambda>extra.
        for_each (send_to_client env t wide_dict h noacc host extra) (map snd m)))"
      by (simp split: prod.split)
  qed
qed

lemma stable_notify_update:
  "uid \<in> U \<Longrightarrow> stable (confined S U w0) (notify_update shards sets de template ue uid idle prior)"
  unfolding notify_update_def
  by (intro stable_bnd_lift stable_update_notification) (auto dest: from_user_id_sets_user_id)

lemma stable_message_update:
  assumes w0: "wf_world w0" and ids: "dict_ids users \<subseteq> ids"
  shows "stable (confined (audience None ids w0) ids w0) (process_message_update_event shards event users)"
proof -
  let ?I = "confined (audience None ids w0) ids w0"
  have "stable ?I (update_for_user shards sets de ro template idle prior d)" if d: "d \<in> set users"
    for sets de ro template idle prior d
    unfolding update_for_user_def
  proof (intro stable_bnd_lift)
    fix uid assume "int_at d ''id'' = Inr uid"
    with ids d have uid: "uid \<in> ids" by (auto simp: res_simps dict_ids_def)
    have "stable ?I (bnd (gets (get_client_descriptors_for_user uid)) (for_each (deliver ev)))" for ev
    proof (intro stable_bnd_gets stable_for_each stable_deliver_confined)
      fix w q assume w: "?I w" and q: "q \<in> set (get_client_descriptors_for_user uid w)"
      have "set (for_user (PInt uid) w0) \<subseteq> audience None ids w0"
        by (rule for_user_subset [OF w0]) (simp add: uid)
      with q show "q \<in> audience None ids w0"
        using for_user_cong [OF confinedD(2) [OF w], of "PInt uid"] by (auto simp: for_user_def)
    qed
    then show "stable ?I (let user_event = merge_user_data d template
         in seq (whenever (\<not> ro) (notify_update shards sets de template user_event uid idle prior))
              (bnd (gets (get_client_descriptors_for_user uid)) (for_each (deliver user_event))))"
      unfolding Let_def by (intro stable_bnd [OF stable_whenever [OF stable_notify_update [OF uid]]])
  qed
  then show ?thesis
    unfolding process_message_update_event_def Let_def
    by (intro stable_bnd stable_basic stable_for_each)
qed

lemma audience_mono: "ids \<subseteq> ids' \<Longrightarrow> audience None ids w \<subseteq> audience m ids' w"
  by (auto simp: audience_def)

lemma append_id_map_of: "k' \<noteq> k \<Longrightarrow> map_of (append_id k uid e) k' = map_of e k'"
  by (simp add: append_id_def split: option.split py.split)


section \<open>Confinement of notices\<close>

lemma map_of_fold_dset: "map_of (fold (\<lambda>k. dset k v) ks e) k' = (if k' \<in> set ks then Some v else map_of e k')"
  by (induction ks arbitrary: e) auto

lemma collect_legacy_map_of:
  assumes "k \<notin> {''online_push_user_ids'', ''stream_push_user_ids'', ''stream_email_user_ids'',
    ''stream_wildcard_mention_user_ids'', ''muted_sender_user_ids''}"
  shows "map_of (collect_legacy u uid e) k = map_of e k"
  using assms by (simp add: collect_legacy_def legacy_keys_def Let_def append_id_map_of)

lemma reformat_legacy_map_of:
  assumes "reformat_legacy_send_message_event event us = Inr (e, us')"
    and k: "k \<notin> {''online_push_user_ids'', ''stream_push_user_ids'', ''stream_email_user_ids'',
      ''stream_wildcard_mention_user_ids'', ''muted_sender_user_ids''}"
  shows "map_of e k = map_of event k" "us' = map strip_legacy us"
proof -
  let ?start = "fold (\<lambda>k. dset k (PList [])) [''online_push_user_ids'', ''stream_push_user_ids'',
      ''stream_email_user_ids'', ''stream_wildcard_mention_user_ids'', ''muted_sender_user_ids''] event"
  from assms(1) have e: "efold (\<lambda>u e. ebind (getk u ''id'') (\<lambda>uid. Inr (collect_legacy u uid e))) us ?start = Inr e"
    and us': "us' = map strip_legacy us"
    by (simp_all only: reformat_legacy_send_message_event_def Let_def res_simps) auto
  show "us' = map strip_legacy us" by (rule us')
  have "map_of ?start k = map_of event k" using k by (auto simp: map_of_fold_dset)
  from e this show "map_of e k = map_of event k"
    by (rule efold_invariant) (auto simp: res_simps collect_legacy_map_of [OF k])
qed

lemma strip_legacy_id: "map_of (strip_legacy u) ''id'' = map_of u ''id''"
  by (simp add: strip_legacy_def legacy_keys_def Let_def)

lemma dict_ids_strip: "dict_ids (map strip_legacy us) = dict_ids us"
  by (auto simp: dict_ids_def strip_legacy_id)

lemma audience_cong:
  assumes "map_of e ''stream_name'' = map_of e' ''stream_name''" "map_of e ''invite_only'' = map_of e' ''invite_only''"
    "map_of e ''realm_id'' = map_of e' ''realm_id''"
  shows "audience (Some e) ids w = audience (Some e') ids w"
  using assms by (simp add: audience_def is_public_message_def has_key_def get_or_def)

text \<open>The users a notice is about.\<close>

definition entry_ids :: "py list \<Rightarrow> int set" where
  "entry_ids vs = {n. PInt n \<in> set vs} \<union> {n. \<exists>d. PDict d \<in> set vs \<and> map_of d ''id'' = Some (PInt n)}"

definition notice_ids :: "dict \<Rightarrow> int set" where
  "notice_ids notice = (case list_at notice ''users'' of Inr vs \<Rightarrow> entry_ids vs | Inl _ \<Rightarrow> {})"

lemma dict_ids_entries: "emap as_dict vs = Inr us \<Longrightarrow> dict_ids us \<subseteq> entry_ids vs"
  by (fastforce simp: dict_ids_def entry_ids_def as_dict_Inr dest: emap_Inr_mem)

lemma reaches_audience:
  assumes "wf_world w" "\<And>n. PInt n \<in> set vs \<Longrightarrow> n \<in> ids"
  shows "reaches w (audience m ids w) vs"
  unfolding reaches_def using assms by (auto dest!: for_user_subset [of w _ ids m, THEN subsetD, rotated -1])

lemma deletion_users_entries:
  assumes "deletion_users vs = Inr us" "PInt n \<in> set us"
  shows "n \<in> entry_ids vs"
proof (cases "\<exists>d vs'. vs = PDict d # vs'")
  case True
  then have "emap (\<lambda>u. ebind (as_dict u) (\<lambda>d. getk d ''id'')) vs = Inr us"
    using assms(1) by (auto simp: deletion_users_def)
  from emap_Inr_mem [OF this assms(2)] show ?thesis
    by (auto simp: res_simps as_dict_Inr entry_ids_def)
next
  case False
  with assms(1) have "us = vs" by (auto simp: deletion_users_def split: list.splits py.splits)
  with assms(2) show ?thesis by (simp add: entry_ids_def)
qed

lemma stable_message_notice:
  assumes w0: "wf_world w0"
  shows "stable (confined (audience (Some event) (entry_ids vs) w0) (entry_ids vs) w0)
    (process_message_notice shards env event vs)"
proof -
  let ?ids = "entry_ids vs"
  have m: "stable (confined (audience (Some event) ?ids w0) ?ids w0) (process_message_event shards env event us)"
    if "emap as_dict vs = Inr us" for us
    by (rule stable_process_message [OF w0 dict_ids_entries [OF that]])
  have l: "stable (confined (audience (Some event) ?ids w0) ?ids w0) (process_message_event shards env e us')"
    if us: "emap as_dict vs = Inr us" and e: "reformat_legacy_send_message_event event us = Inr (e, us')" for us e us'
  proof -
    have "audience (Some e) ?ids w0 = audience (Some event) ?ids w0"
      by (rule audience_cong) (simp_all add: reformat_legacy_map_of(1) [OF e])
    moreover have "dict_ids us' \<subseteq> ?ids"
      using dict_ids_entries [OF us] reformat_legacy_map_of(2) [OF e, of "[]"] by (simp add: dict_ids_strip)
    ultimately show ?thesis using stable_process_message [OF w0, of us' ?ids e shards env] by simp
  qed
  show ?thesis
    unfolding process_message_notice_def
    by (intro stable_bnd_lift) (auto split: list.split intro!: stable_bnd_lift m l)
qed


lemma confined_notice:
  assumes "wf_world w" "dict_at notice ''event'' = Inr event"
    and "map_of event ''type'' \<noteq> Some (PStr ''cleanup_queue'')"
  shows "confined
    (audience (if map_of event ''type'' = Some (PStr ''message'') then Some event else None) (notice_ids notice) w)
    (notice_ids notice) w (snd (process_notification shards env notice w))"
proof -
  define m where "m = (if map_of event ''type'' = Some (PStr ''message'') then Some event else None)"
  let ?I = "confined (audience m (notice_ids notice) w) (notice_ids notice) w"
  have "stable ?I (process_notification shards env notice)"
    unfolding process_notification_def assms(2)
  proof (intro stable_bnd_lift)
    fix ev vs ty
    assume "Inr event = Inr ev" and vs: "list_at notice ''users'' = Inr vs" and "getk ev ''type'' = Inr ty"
    then have ev: "ev = event" and ty: "map_of event ''type'' = Some ty" by (simp_all add: res_simps)
    have ids: "notice_ids notice = entry_ids vs" by (simp add: notice_ids_def vs)
    have r: "reaches w (audience m (entry_ids vs) w) us" if "\<And>n. PInt n \<in> set us \<Longrightarrow> n \<in> entry_ids vs" for us
      by (rule reaches_audience [OF assms(1) that])
    have plain: "reaches w (audience m (entry_ids vs) w) vs" by (rule r) (simp add: entry_ids_def)
    have msg: "stable ?I (process_message_notice shards env event vs)" if "ty = PStr ''message''"
      unfolding ids m_def using stable_message_notice [OF assms(1), of event vs] ty that by simp
    have upd: "stable ?I (process_message_update_event shards event us)"
      if "ty = PStr ''update_message''" "emap as_dict vs = Inr us" for us
      using stable_message_update [OF assms(1) dict_ids_entries [OF that(2)], of shards event] ty that(1)
      by (simp add: m_def ids)
    have del: "stable ?I (process_deletion_event event us)" if "deletion_users vs = Inr us" for us
      unfolding ids by (rule stable_process_event(3)) (auto intro: r deletion_users_entries [OF that])
    show "stable ?I (if ty = PStr ''message'' then process_message_notice shards env ev vs
      else if ty = PStr ''update_message''
        then bnd (lift (emap as_dict vs)) (process_message_update_event shards ev)
      else if ty = PStr ''delete_message'' then bnd (lift (deletion_users vs)) (process_deletion_event ev)
      else if ty = PStr ''presence'' then process_presence_event ev vs
      else if ty = PStr ''custom_profile_fields'' then process_custom_profile_fields_event ev vs
      else bnd (lift (if ty = PStr ''realm_user'' then getk ev ''op'' else Inr PNone)) (\<lambda>oper.
        if oper = PStr ''add'' then process_realm_user_add_event ev vs
        else if ty = PStr ''cleanup_queue'' then cleanup_notice shards ev vs
        else process_event ev vs))"
      unfolding ev
      by (intro stable_if stable_bnd_lift msg upd del stable_process_event(1,2,4,5))
        (use ty assms(3) plain in \<open>simp_all add: ids\<close>)
  qed
  from stableD [OF this confined_refl [OF assms(1)]] show ?thesis by (simp add: m_def)
qed

text \<open>
  C11. Events reach only their audience: whatever happens while a notice other than a queue
  cleanup is processed, errors included, the tables stay consistent; only queues of the users
  the notice names change, for a message to a public channel also those of the clients of the
  realm that listen to every public channel; only their long polls are answered; and only
  notifications about the named users are published.
\<close>

theorem notice_confined:
  assumes "wf_world w" "dict_at notice ''event'' = Inr event"
    and "map_of event ''type'' \<noteq> Some (PStr ''cleanup_queue'')"
  shows "confined
    (audience (if map_of event ''type'' = Some (PStr ''message'') then Some event else None) (notice_ids notice) w)
    (notice_ids notice) w (snd (process_notification shards env notice w))"
  using assms by (rule confined_notice)

section \<open>Retries\<close>

lemma wrapped_one:
  "wrapped_process_notification shards env queue [notice] w =
     (case process_notification shards env notice w of
        (Inr _, w') \<Rightarrow> (Inr (), w')
      | (Inl _, w') \<Rightarrow> (Inr (), if failed_tries notice \<ge> MAX_REQUEST_RETRIES then w'
          else w'\<lparr>published := published w' @ [(queue, dset ''failed_tries'' (PInt (failed_tries notice + 1)) notice)]\<rparr>))"
  by (simp add: wrapped_process_notification_def bnd_def try_except_def retry_event_def publish_def modify_def
      ret_def Let_def split: prod.split sum.split)


text \<open>
  C33. The consumer never raises.  A notice whose processing fails is published once more, with its
  failure counted, until it has failed \<open>MAX_REQUEST_RETRIES\<close> times; then it is dropped.  So the
  failures left to count decrease and no notice is retried forever.
\<close>

theorem failing_notice_retried:
  "(case process_notification shards env notice w of
      (Inr _, w') \<Rightarrow> wrapped_process_notification shards env queue [notice] w = (Inr (), w')
    | (Inl _, w') \<Rightarrow>
        if failed_tries notice < MAX_REQUEST_RETRIES
        then \<exists>retry. wrapped_process_notification shards env queue [notice] w =
               (Inr (), w'\<lparr>published := published w' @ [(queue, retry)]\<rparr>) \<and>
             failed_tries retry = failed_tries notice + 1 \<and>
             ddel ''failed_tries'' retry = ddel ''failed_tries'' notice
        else wrapped_process_notification shards env queue [notice] w = (Inr (), w'))"
proof -
  have d: "ddel k (dset k v d) = ddel k d" for k :: string and v :: py and d
    by (induction d) auto
  have "failed_tries (dset ''failed_tries'' (PInt n) notice) = n" for n
    by (simp add: failed_tries_def)
  then show ?thesis
    by (auto simp: wrapped_one d split: prod.split sum.split)
qed

text \<open>
  An obsolete presence event, one without a user id, is not dropped as the code's comment says:
  its processing raises, nothing is delivered, and the notice is published again.
\<close>

theorem obsolete_presence_retried:
  assumes "dict_at notice ''event'' = Inr event" "list_at notice ''users'' = Inr users"
    and "map_of event ''type'' = Some (PStr ''presence'')" "\<not> has_key event ''user_id''"
    and "failed_tries notice < MAX_REQUEST_RETRIES"
  shows "wrapped_process_notification shards env queue [notice] w =
    (Inr (), w\<lparr>published := published w @ [(queue, dset ''failed_tries'' (PInt (failed_tries notice + 1)) notice)]\<rparr>)"
proof -
  have "presence_events event = Inl (KeyError ''user_id'')"
    using assms(4) by (simp add: presence_events_def getk_def has_key_def)
  moreover have "getk event ''type'' = Inr (PStr ''presence'')" using assms(3) by (simp add: res_simps)
  ultimately have "process_notification shards env notice w = (Inl (KeyError ''user_id''), w)"
    by (simp add: process_notification_def assms(1,2) bnd_def lift_def process_presence_event_def)
  with assms(5) show ?thesis by (simp add: wrapped_one)
qed

section \<open>One event per client\<close>

definition pushed_count :: "world \<Rightarrow> string \<Rightarrow> int" where
  "pushed_count w q = (case heap w q of None \<Rightarrow> 0 | Some c \<Rightarrow> next_event_id (cqueue c))"

lemma next_id_push: "next_event_id (snd (push ev q)) = next_event_id q + 1"
  by (simp add: push_def Let_def split: sum.splits option.splits prod.splits)

lemma next_id_contents [simp]: "next_event_id (snd (contents b q)) = next_event_id q"
  by (simp add: contents_def Let_def)

lemma pushed_count_add:
  assumes w: "wf_world w"
  shows "pushed_count (snd (add_event q ev w)) q' \<le> pushed_count w q' + (if q' = q then 1 else 0)"
proof (cases "heap w q")
  case None
  then show ?thesis by (simp add: add_event_def push_event_def bnd_def obj_def)
next
  case (Some c)
  show ?thesis
  proof (cases "fst (push ev (cqueue c))")
    case (Inl e)
    with add_event_refused [OF Some] Some show ?thesis by (simp add: pushed_count_def next_id_push)
  next
    case (Inr u)
    with add_event_eq [OF w Some, of ev] Some show ?thesis
      by (simp add: pushed_count_def added_def heap_finished next_id_push)
  qed
qed

text \<open>Since \<open>w0\<close>, each queue in \<open>D\<close> was given at most one event, no other any.\<close>

definition at_most_one :: "string set \<Rightarrow> world \<Rightarrow> world \<Rightarrow> bool" where
  "at_most_one D w0 w \<longleftrightarrow> wf_world w \<and>
     (\<forall>q. pushed_count w q \<le> pushed_count w0 q + (if q \<in> D then 1 else 0))"

lemma at_most_one_mono: "at_most_one D w0 w \<Longrightarrow> D \<subseteq> D' \<Longrightarrow> at_most_one D' w0 w"
proof -
  assume w: "at_most_one D w0 w" and D: "D \<subseteq> D'"
  have "pushed_count w q \<le> pushed_count w0 q + (if q \<in> D' then 1 else 0)" for q
  proof -
    have "pushed_count w q \<le> pushed_count w0 q + (if q \<in> D then 1 else 0)"
      using w by (simp add: at_most_one_def)
    also have "\<dots> \<le> pushed_count w0 q + (if q \<in> D' then 1 else 0)" using D by auto
    finally show ?thesis .
  qed
  with w show ?thesis by (simp add: at_most_one_def)
qed

lemma at_most_one_send:
  assumes "at_most_one D w0 w" "ci_client info \<notin> D"
  shows "at_most_one (insert (ci_client info) D) w0 (snd (send_to_client env t wd h noacc host extra info w))"
proof -
  have w: "wf_world w" using assms(1) by (simp add: at_most_one_def)
  have "snd (send_to_client env t wd h noacc host extra info w) \<in>
      insert w ((\<lambda>ev. snd (add_event (ci_client info) ev w)) ` UNIV)"
    by (auto simp: send_to_client_def Let_def bnd_def lift_def obj_def ret_def split: option.split sum.split)
  then consider "snd (send_to_client env t wd h noacc host extra info w) = w"
    | ev where "snd (send_to_client env t wd h noacc host extra info w) = snd (add_event (ci_client info) ev w)"
    by blast
  then show ?thesis
  proof cases
    case 1
    with assms(1) show ?thesis by (auto intro: at_most_one_mono)
  next
    case 2
    have "pushed_count (snd (add_event (ci_client info) ev w)) q \<le>
        pushed_count w0 q + (if q \<in> insert (ci_client info) D then 1 else 0)" for q
    proof -
      have "pushed_count w q \<le> pushed_count w0 q + (if q \<in> D then 1 else 0)"
        using assms(1) by (simp add: at_most_one_def)
      with pushed_count_add [OF w, of "ci_client info" ev q] assms(2) show ?thesis
        by (cases "q = ci_client info") simp_all
    qed
    with stableD [OF stable_add_event w] show ?thesis by (simp add: 2 at_most_one_def)
  qed
qed


lemma at_most_one_loop:
  assumes "at_most_one D w0 w" "distinct (map ci_client infos)" "D \<inter> ci_client ` set infos = {}"
  shows "at_most_one (D \<union> ci_client ` set infos) w0
    (snd (for_each (send_to_client env t wd h noacc host extra) infos w))"
  using assms
proof (induction infos arbitrary: D w)
  case Nil
  then show ?case by (simp add: ret_def)
next
  case (Cons i infos)
  obtain r w1 where s: "send_to_client env t wd h noacc host extra i w = (r, w1)" by fastforce
  have one: "at_most_one (insert (ci_client i) D) w0 w1"
    using at_most_one_send [of D w0 w i env t wd h noacc host extra] Cons.prems s by simp
  show ?case
  proof (cases r)
    case (Inl e)
    with one s show ?thesis by (auto simp: bnd_def intro: at_most_one_mono)
  next
    case (Inr u)
    from Cons.IH [OF one] Cons.prems s Inr show ?thesis by (simp add: bnd_def)
  qed
qed

lemma own_queue_id_eq: "wf_world w \<Longrightarrow> own_queue_id w q = q"
  by (auto simp: own_queue_id_def wf_world_def tables_ok_def split: option.split)

definition keyed :: "(string \<times> client_info) list \<Rightarrow> bool" where
  "keyed m \<longleftrightarrow> distinct (map fst m) \<and> (\<forall>(k, i)\<in>set m. ci_client i = k)"

lemma keyed_put:
  assumes "keyed m" "wf_world w"
  shows "keyed (put_client t w fl q m)"
proof -
  have sub: "set (AList.update k v m) \<subseteq> insert (k, v) (set m)" for k v
    by (induction m) auto
  show ?thesis
    unfolding keyed_def put_client_def Let_def own_queue_id_eq [OF assms(2)]
  proof (intro conjI ballI)
    fix p assume "p \<in> set (dset q \<lparr>ci_client = q, ci_flags = fl, ci_is_sender = is_sender_client t q\<rparr> m)"
    with sub consider "p = (q, \<lparr>ci_client = q, ci_flags = fl, ci_is_sender = is_sender_client t q\<rparr>)" | "p \<in> set m"
      by blast
    then show "case p of (k, i) \<Rightarrow> ci_client i = k"
      using assms(1) by cases (auto simp: keyed_def)
  qed (use assms(1) in \<open>simp add: keyed_def distinct_update\<close>)
qed

lemma keyed_fold_put: "keyed m \<Longrightarrow> wf_world w \<Longrightarrow> keyed (fold (put_client t w fl) qs m)"
  by (induction qs arbitrary: m) (auto intro: keyed_put)

lemma keyed_client_info:
  assumes "get_client_info_for_message_event t users w = Inr m" "wf_world w"
  shows "distinct (map ci_client (map snd m))"
proof -
  from assms(1) obtain qs where
    "efold (add_user_clients t w) users (fold (put_client t w (PList [])) qs []) = Inr m"
    by (auto simp: get_client_info_for_message_event_def res_simps)
  then have "keyed m"
  proof (rule efold_invariant)
    show "keyed (fold (put_client t w (PList [])) qs [])"
      by (rule keyed_fold_put) (simp_all add: keyed_def assms(2))
  qed (auto simp: add_user_clients_def res_simps intro: keyed_fold_put assms(2))
  then have "distinct (map fst m)" "map ci_client (map snd m) = map fst m"
    by (auto simp: keyed_def)
  then show ?thesis by metis
qed

lemma stable_notify_at_most_one:
  "stable (at_most_one {} w0) (for_fold (notify_user shards t sets idle h) users extra)"
proof (intro stable_for_fold)
  fix d extra
  show "stable (at_most_one {} w0) (notify_user shards t sets idle h d extra)"
  proof (rule stableI)
    fix w assume w: "at_most_one {} w0 w"
    let ?w = "snd (notify_user shards t sets idle h d extra w)"
    have "wf_world w" using w by (simp add: at_most_one_def)
    then have "confined {} UNIV w ?w"
      by (intro stableD [OF stable_notify_user confined_refl]) (simp_all add: user_named_def)
    then have "wf_world ?w" "pushed_count ?w = pushed_count w"
      by (auto simp: confined_def pushed_count_def)
    with w show "at_most_one {} w0 ?w" by (simp add: at_most_one_def)
  qed
qed

lemma run_then:
  assumes "stable I m" "I s" "\<And>s. I s \<Longrightarrow> J s" "\<And>x s. I s \<Longrightarrow> J (snd (f x s))"
  shows "J (snd (bnd m f s))"
  using stableD [OF assms(1,2)] assms(3,4) by (auto simp: bnd_def split: prod.split sum.split)

text \<open>
  C23. A message is pushed at most once to every client, also when its user is named twice, or is
  named and listens to every public channel; and only to queues that exist.
\<close>

theorem message_pushed_once:
  assumes "wf_world w" "heap w q = Some c"
  shows "\<exists>c'. heap (snd (process_message_event shards env t users w)) q = Some c' \<and>
    next_event_id (cqueue c') \<le> next_event_id (cqueue c) + 1"
proof -
  let ?J = "at_most_one UNIV w"
  have J: "at_most_one {} w s \<Longrightarrow> ?J s" for s by (rule at_most_one_mono) auto
  have start: "at_most_one {} w w" using assms(1) by (simp add: at_most_one_def)
  have loop: "?J (snd (for_each (send_to_client env t wd h noacc host extra) (map snd m) s))"
    if m: "get_client_info_for_message_event t users w = Inr m" and s: "at_most_one {} w s" for wd h noacc host extra m s
    by (rule at_most_one_mono [OF at_most_one_loop [OF s keyed_client_info [OF m assms(1)]]]) auto
  have "?J (snd (process_message_event shards env t users w))"
  proof (cases "get_client_info_for_message_event t users w")
    case (Inl e)
    with J [OF start] show ?thesis by (simp add: process_message_event_def bnd_def gets_def lift_def)
  next
    case (Inr m)
    note run = run_then [of "at_most_one {} w", where J = ?J, OF _ _ J]
    show ?thesis
      unfolding process_message_event_def
      by (subst bnd_run [of "gets f" for f], simp add: gets_def, subst bnd_run [of "lift r" for r], simp add: lift_def Inr,
          intro run [OF stable_basic(4) start] run [OF stable_basic(4)])
        (auto split: prod.split intro!: run [OF stable_notify_at_most_one] loop [OF Inr])
  qed
  then have le: "pushed_count (snd (process_message_event shards env t users w)) q \<le> pushed_count w q + 1"
    by (simp add: at_most_one_def)
  have "confined (audience (Some t) UNIV w) UNIV w (snd (process_message_event shards env t users w))"
    by (rule stableD [OF stable_process_message confined_refl]) (simp_all add: assms(1))
  then have "rel_option same_key (heap w q) (heap (snd (process_message_event shards env t users w)) q)"
    by (simp add: confined_def)
  with assms(2) obtain c' where "heap (snd (process_message_event shards env t users w)) q = Some c'"
    by (auto simp: option_rel_Some1)
  with le assms(2) show ?thesis by (simp add: pushed_count_def)
qed


section \<open>Concrete notices\<close>

definition typing_notice :: dict where
  "typing_notice = [(''event'', PDict [(''type'', PStr ''typing''), (''op'', PStr ''start'')]), (''users'', PList [PInt 10])]"

theorem notice_confined_witness:
  "confined (audience None {10} one_client) {10} one_client
     (snd (process_notification 1 sample_env typing_notice one_client))"
proof -
  have e: "dict_at typing_notice ''event'' = Inr [(''type'', PStr ''typing''), (''op'', PStr ''start'')]"
    by (simp add: dict_at_def getk_def typing_notice_def)
  have "notice_ids typing_notice = {10}"
    by (simp add: notice_ids_def list_at_def getk_def typing_notice_def entry_ids_def)
  with notice_confined [OF wf_one_client e, of 1 sample_env] show ?thesis by simp
qed

definition obsolete_presence :: dict where
  "obsolete_presence = [(''event'', PDict [(''type'', PStr ''presence''), (''email'', PStr ''a@b.c'')]), (''users'', PList [PInt 10])]"

theorem obsolete_presence_retried_witness:
  "published (snd (wrapped_process_notification 1 sample_env ''notify_tornado'' [obsolete_presence] one_client)) =
     published one_client @ [(''notify_tornado'', obsolete_presence @ [(''failed_tries'', PInt 1)])]"
proof -
  have "wrapped_process_notification 1 sample_env ''notify_tornado'' [obsolete_presence] one_client =
    (Inr (), one_client\<lparr>published := published one_client @
      [(''notify_tornado'', dset ''failed_tries'' (PInt (failed_tries obsolete_presence + 1)) obsolete_presence)]\<rparr>)"
    by (rule obsolete_presence_retried [where event = "[(''type'', PStr ''presence''), (''email'', PStr ''a@b.c'')]"
          and users = "[PInt 10]"])
      (simp_all add: dict_at_def list_at_def getk_def obsolete_presence_def has_key_def failed_tries_def MAX_REQUEST_RETRIES_def)
  then show ?thesis by (simp add: obsolete_presence_def failed_tries_def)
qed

definition direct_message :: dict where
  "direct_message = [(''type'', PStr ''message''), (''message_dict'', PDict [(''sender_delivery_email'', PStr ''a@b.c''),
     (''sender_email'', PStr ''a@b.c''), (''sender_id'', PInt 11), (''id'', PInt 7), (''type'', PStr ''private''),
     (''client'', PStr ''website''), (''sender_full_name'', PStr ''A''), (''sender_realm_id'', PInt 2),
     (''sender_avatar_source'', PStr ''G''), (''sender_avatar_version'', PInt 1), (''recipient_type'', PInt 1),
     (''recipient_type_id'', PInt 10), (''sender_is_mirror_dummy'', PBool False),
     (''sender_email_address_visibility'', PInt 1), (''rendered_content'', PStr ''<p>hi</p>''), (''content'', PStr ''hi'')])]"

theorem message_pushed_once_witness:
  "\<exists>c'. heap (snd (process_message_event 1 sample_env direct_message [[(''id'', PInt 10)], [(''id'', PInt 10)]] one_client))
      ''q1'' = Some c' \<and> next_event_id (cqueue c') \<le> next_event_id (cqueue first_client) + 1"
  by (rule message_pushed_once [OF wf_one_client heap_one_client(1)])

end
