(* ===== verification/TornadoServer.thy ===== *)
theory TornadoServer
  imports EventProcessing
begin

text \<open>
  One Tornado process as a whole: the requests, timers and collections of \<open>server_step\<close> together
  with the consumer of the \<^verbatim>\<open>notify_tornado\<close> queue.
\<close>

text \<open>A notice that asks to clean up a queue, and its queue.\<close>

definition cleanup_request :: "dict \<Rightarrow> string \<Rightarrow> bool" where
  "cleanup_request notice q \<longleftrightarrow> (\<exists>event. dict_at notice ''event'' = Inr event \<and>
     map_of event ''type'' = Some (PStr ''cleanup_queue'') \<and> map_of event ''queue_id'' = Some (PStr q))"

inductive tornado_step :: "int \<Rightarrow> payload_env \<Rightarrow> world \<Rightarrow> world \<Rightarrow> bool"
  for shards :: int and env :: payload_env where
  serve: "server_step [missedmessage_hook shards] missed_client w w' \<Longrightarrow> tornado_step shards env w w'"
| consume: "(\<And>q c. cleanup_request notice q \<Longrightarrow> heap (snd (finish_current_handler q w)) q = Some c \<Longrightarrow>
      missed_client c) \<Longrightarrow>
    tornado_step shards env w (snd (wrapped_process_notification shards env queue [notice] w))"

lemma wf_publish [simp]: "wf_world (w\<lparr>published := ps\<rparr>) = wf_world w"
  by (simp add: wf_world_def tables_ok_def links_defs members_def [abs_def])

lemma wf_wrapped:
  assumes "wf_world (snd (process_notification shards env notice w))"
  shows "wf_world (snd (wrapped_process_notification shards env queue [notice] w))"
  using assms by (auto simp: wrapped_one split: prod.split sum.split)

text \<open>A clean-up notice does nothing, or collects the queue it names, which is a step of the server.\<close>

lemma wf_cleanup_notice:
  assumes w: "wf_world w"
    and ok: "\<And>q c. map_of event ''queue_id'' = Some (PStr q) \<Longrightarrow>
      heap (snd (finish_current_handler q w)) q = Some c \<Longrightarrow> missed_client c"
  shows "wf_world (snd (cleanup_notice shards event users w))"
proof -
  have "snd (cleanup_notice shards event users w) = w \<or>
    (\<exists>q c. map_of event ''queue_id'' = Some (PStr q) \<and> q \<in> set (clients w) \<and> heap w q = Some c \<and>
       snd (cleanup_notice shards event users w) = snd (cleanup [missedmessage_hook shards] q w))"
    by (auto simp: cleanup_notice_def access_client_descriptor_def bnd_def lift_def getk_def try_except_def
        raise_def gets_def obj_def ret_def split: list.split py.split option.split)
  then show ?thesis
  proof (elim disjE exE conjE)
    fix q c
    assume q: "map_of event ''queue_id'' = Some (PStr q)" "q \<in> set (clients w)" "heap w q = Some c"
      "snd (cleanup_notice shards event users w) = snd (cleanup [missedmessage_hook shards] q w)"
    obtain c' where c': "heap (snd (finish_current_handler q w)) q = Some c'"
      using finish_current_handler_eq [OF w q(3)] wf_finished [OF w q(3)] q(2)
      by (fastforce simp: wf_world_def tables_ok_def)
    from q(2) c' ok [OF q(1) c']
    have "server_step [missedmessage_hook shards] missed_client w (snd (cleanup [missedmessage_hook shards] q w))"
      by (rule server_step.cleaning)
    from missed_gc.wf_server_step [OF this w] show ?thesis using q(4) by simp
  qed (simp add: w)
qed

lemma wf_process_notification:
  assumes w: "wf_world w"
    and ok: "\<And>q c. cleanup_request notice q \<Longrightarrow> heap (snd (finish_current_handler q w)) q = Some c \<Longrightarrow> missed_client c"
  shows "wf_world (snd (process_notification shards env notice w))"
proof (cases "dict_at notice ''event''")
  case (Inl e)
  then show ?thesis using w by (simp add: process_notification_def bnd_def lift_def)
next
  case (Inr event)
  show ?thesis
  proof (cases "map_of event ''type'' = Some (PStr ''cleanup_queue'')")
    case True
    with Inr have "snd (process_notification shards env notice w) = w \<or>
      (\<exists>vs. snd (process_notification shards env notice w) = snd (cleanup_notice shards event vs w))"
      by (auto simp: process_notification_def bnd_def lift_def getk_def split: sum.split)
    moreover have "wf_world (snd (cleanup_notice shards event vs w))" for vs
      using w by (rule wf_cleanup_notice) (rule ok, auto simp: cleanup_request_def Inr True)
    ultimately show ?thesis using w by auto
  next
    case False
    from confined_notice [OF w Inr False] show ?thesis by (simp add: confined_def)
  qed
qed

lemma wf_tornado_step: "tornado_step shards env w w' \<Longrightarrow> wf_world w \<Longrightarrow> wf_world w'"
  by (induction rule: tornado_step.induct)
    (auto intro: missed_gc.wf_server_step wf_wrapped wf_process_notification)



end
