(* ===== verification/Sharding.thy ===== *)
theory Sharding
  imports TornadoServer Permissions
begin

text \<open>
  How Django and the Tornado processes find each other: the ports of a realm and of a user
  (\<^verbatim>\<open>zerver/tornado/sharding.py\<close>), the events sent to each process (\<open>send_event\<close> and the internal
  requests of \<^verbatim>\<open>zerver/tornado/django_api.py\<close>), and the views that answer clients
  (\<^verbatim>\<open>zerver/tornado/views.py\<close>).

  The sharding file is a table of hosts and a list of patterns; a compiled pattern is the function
  that says which hosts it matches.
\<close>

datatype shard_ports = Port int | Ports "int list"

record deployment =
  shard_map :: "(string \<times> shard_ports) list"
  shard_regexes :: "((string \<Rightarrow> bool) \<times> shard_ports) list"
  TORNADO_PORTS :: "int list"
  USING_TORNADO :: bool
  USING_RABBITMQ :: bool

section \<open>Ports\<close>

definition port_list :: "shard_ports \<Rightarrow> int list" where
  "port_list ps = (case ps of Port p \<Rightarrow> [p] | Ports ps \<Rightarrow> ps)"

definition get_realm_tornado_ports :: "deployment \<Rightarrow> string \<Rightarrow> int list res" where
  "get_realm_tornado_ports cfg host = (case map_of (shard_map cfg) host of
     Some ports \<Rightarrow> Inr (port_list ports)
   | None \<Rightarrow> (case find (\<lambda>(regex, ports). regex host) (shard_regexes cfg) of
       Some (regex, ports) \<Rightarrow> Inr (port_list ports)
     | None \<Rightarrow> (case TORNADO_PORTS cfg of [] \<Rightarrow> Inl IndexError | p # _ \<Rightarrow> Inr [p])))"

definition get_user_id_tornado_port :: "int list \<Rightarrow> int \<Rightarrow> int res" where
  "get_user_id_tornado_port realm_ports uid =
     (if realm_ports = [] then Inl ZeroDivisionError
      else Inr (realm_ports ! nat (uid mod int (length realm_ports))))"

definition get_user_tornado_port :: "deployment \<Rightarrow> string \<Rightarrow> int \<Rightarrow> int res" where
  "get_user_tornado_port cfg host uid =
     ebind (get_realm_tornado_ports cfg host) (\<lambda>ports. get_user_id_tornado_port ports uid)"

definition notify_tornado_queue_name :: "deployment \<Rightarrow> int \<Rightarrow> string" where
  "notify_tornado_queue_name cfg port =
     (if length (TORNADO_PORTS cfg) = 1 then ''notify_tornado''
      else ''notify_tornado_port_'' @ str_of_int port)"

definition is_current_port :: "int option \<Rightarrow> int \<Rightarrow> bool" where
  "is_current_port current_port port \<longleftrightarrow> current_port = Some port"

section \<open>Sending events\<close>

text \<open>A user is an id or, when more is sent with it, a dictionary.\<close>

definition user_id_of :: "py \<Rightarrow> int res" where
  "user_id_of user = (case user of
     PInt n \<Rightarrow> Inr n
   | PBool b \<Rightarrow> Inr (of_bool b)
   | v \<Rightarrow> ebind (as_dict v) (\<lambda>d. int_at d ''id''))"

definition add_to_port :: "int list \<Rightarrow> py \<Rightarrow> (int \<times> py list) list \<Rightarrow> (int \<times> py list) list res" where
  "add_to_port realm_ports user m =
     ebind (user_id_of user) (\<lambda>uid.
     ebind (get_user_id_tornado_port realm_ports uid) (\<lambda>port.
     Inr (AList.update port (get_or m port [] @ [user]) m)))"

definition port_user_map :: "int list \<Rightarrow> py list \<Rightarrow> (int \<times> py list) list res" where
  "port_user_map realm_ports users = (case realm_ports of
     [p] \<Rightarrow> Inr [(p, users)]
   | _ \<Rightarrow> efold (add_to_port realm_ports) users [])"

definition tornado_notice :: "dict \<Rightarrow> py list \<Rightarrow> dict" where
  "tornado_notice event users = [(''event'', PDict event), (''users'', PList users)]"

definition send_event :: "deployment \<Rightarrow> string \<Rightarrow> dict \<Rightarrow> py list \<Rightarrow> (world, unit) prog" where
  "send_event cfg host event users =
     bnd (lift (get_realm_tornado_ports cfg host)) (\<lambda>realm_ports.
     bnd (lift (port_user_map realm_ports users)) (\<lambda>m.
     for_each (\<lambda>(port, port_users).
       publish (notify_tornado_queue_name cfg port, tornado_notice event port_users)) m))"

section \<open>Views\<close>

text \<open>
  The arguments of \<open>get_events_backend\<close> that only registration uses, and the user who asks.
\<close>

record queue_options =
  o_event_types :: "string list option"
  o_apply_markdown :: bool
  o_client_gravatar :: bool
  o_slim_presence :: bool
  o_all_public_streams :: bool
  o_narrow :: "string list list"
  o_lifespan_secs :: int
  o_bulk_message_deletion :: bool
  o_stream_typing_notifications :: bool
  o_user_settings_object :: bool
  o_pronouns_field_type_supported :: bool
  o_linkifier_url_template :: bool
  o_user_list_incomplete :: bool
  o_sender_apply_raw_content :: "string list"

definition no_queue :: queue_dict where
  "no_queue = queue_to_dict (new_event_queue [])"

definition new_queue_data :: "real \<Rightarrow> realm \<Rightarrow> user_profile \<Rightarrow> string \<Rightarrow> queue_options \<Rightarrow> client_dict" where
  "new_queue_data now r u client_name opts =
     \<lparr>d_user_profile_id = profile_id u, d_realm_id = realm.realm_id r, d_event_queue = no_queue,
      d_queue_timeout = o_lifespan_secs opts, d_event_types = o_event_types opts,
      d_last_connection_time = now, d_apply_markdown = o_apply_markdown opts,
      d_client_gravatar = Some (o_client_gravatar opts), d_slim_presence = Some (o_slim_presence opts),
      d_all_public_streams = o_all_public_streams opts, d_narrow = Some (o_narrow opts),
      d_client_type = None, d_client_type_name = Some client_name,
      d_bulk_message_deletion = Some (o_bulk_message_deletion opts),
      d_stream_typing_notifications = Some (o_stream_typing_notifications opts),
      d_user_settings_object = Some (o_user_settings_object opts),
      d_pronouns_field_type_supported = Some (o_pronouns_field_type_supported opts),
      d_linkifier_url_template = Some (o_linkifier_url_template opts),
      d_user_list_incomplete = Some (o_user_list_incomplete opts),
      d_sender_apply_raw_content = Some (o_sender_apply_raw_content opts)\<rparr>"

definition get_events_backend :: "real \<Rightarrow> string \<Rightarrow> realm \<Rightarrow> user_profile \<Rightarrow> int option \<Rightarrow> string option \<Rightarrow>
    string option \<Rightarrow> int option \<Rightarrow> string option \<Rightarrow> bool \<Rightarrow> queue_options \<Rightarrow> (world, fetch_result) prog" where
  "get_events_backend now uuid r u handler_id request_client user_client last_event_id qid dont_block opts =
     (if o_all_public_streams opts \<and> \<not> can_access_public_streams r u
      then raise (JsonableError ''User not authorized for this query'')
      else case handler_id of None \<Rightarrow> raise AssertionError | Some h \<Rightarrow>
        (case (case user_client of None \<Rightarrow> request_client | Some c \<Rightarrow> Some c) of
           None \<Rightarrow> raise AssertionError
         | Some client_name \<Rightarrow>
             bnd (fetch_events now uuid qid dont_block last_event_id (profile_id u)
                    (if qid = None then Some (new_queue_data now r u client_name opts) else None)
                    client_name h) (\<lambda>result.
             case result of FetchError e \<Rightarrow> raise e | _ \<Rightarrow> ret result)))"

datatype events_answer = Redirect int | Answer fetch_result

definition get_events :: "deployment \<Rightarrow> string \<Rightarrow> int option \<Rightarrow> real \<Rightarrow> string \<Rightarrow> realm \<Rightarrow> user_profile \<Rightarrow>
    int option \<Rightarrow> string option \<Rightarrow> string option \<Rightarrow> int option \<Rightarrow> string option \<Rightarrow> bool \<Rightarrow> queue_options \<Rightarrow>
    (world, events_answer) prog" where
  "get_events cfg host current now uuid r u h request_client user_client last_event_id qid dont_block opts =
     bnd (lift (get_user_tornado_port cfg host (profile_id u))) (\<lambda>user_port.
     if \<not> is_current_port current user_port then ret (Redirect user_port)
     else bnd (get_events_backend now uuid r u h request_client user_client last_event_id qid dont_block opts)
            (\<lambda>a. ret (Answer a)))"

definition get_events_internal :: "deployment \<Rightarrow> string \<Rightarrow> int option \<Rightarrow> real \<Rightarrow> string \<Rightarrow> realm \<Rightarrow> user_profile \<Rightarrow>
    int option \<Rightarrow> string option \<Rightarrow> int option \<Rightarrow> string option \<Rightarrow> bool \<Rightarrow> queue_options \<Rightarrow>
    (world, fetch_result) prog" where
  "get_events_internal cfg host current now uuid r u h user_client last_event_id qid dont_block opts =
     bnd (lift (get_user_tornado_port cfg host (profile_id u))) (\<lambda>user_port.
     bnd (lift (py_assert (is_current_port current user_port))) (\<lambda>_.
     get_events_backend now uuid r u h (Some ''internal'') user_client last_event_id qid dont_block opts))"

definition cleanup_event :: "string \<Rightarrow> dict" where
  "cleanup_event qid = [(''type'', PStr ''cleanup_queue''), (''queue_id'', PStr qid)]"

definition cleanup_event_queue :: "deployment \<Rightarrow> string \<Rightarrow> int option \<Rightarrow> int \<Rightarrow> int \<Rightarrow> string \<Rightarrow> (world, unit) prog" where
  "cleanup_event_queue cfg host current shards uid qid =
     bnd (lift (get_user_tornado_port cfg host uid)) (\<lambda>user_port.
     if \<not> is_current_port current user_port
     then seq (lift (py_assert (USING_RABBITMQ cfg)))
            (publish (notify_tornado_queue_name cfg user_port, tornado_notice (cleanup_event qid) [PInt uid]))
     else bnd (access_client_descriptor uid qid) (cleanup [missedmessage_hook shards]))"

text \<open>The answer to \<open>web_reload_clients\<close>: what was sent, and whether no clients are left.\<close>

definition web_reload_clients_view :: "int option \<Rightarrow> bool \<Rightarrow> (world, int \<times> bool) prog" where
  "web_reload_clients_view client_count immediate =
     bnd (send_web_reload_client_events immediate client_count) (\<lambda>sent_events.
     ret (sent_events, client_count = None \<or> client_count \<noteq> Some sent_events))"

section \<open>Requests from Django\<close>

text \<open>
  A request to the process at a port, the model's world: the process allocates a handler for it, and
  whatever it answers but success is raised as an HTTP error.
\<close>

definition internal_request :: "(int option \<Rightarrow> (world, fetch_result) prog) \<Rightarrow> (world, fetch_result) prog" where
  "internal_request view =
     bnd allocate_handler_id (\<lambda>h. try_except (view (Some h)) (\<lambda>_. raise HTTPError))"

definition request_event_queue :: "deployment \<Rightarrow> string \<Rightarrow> real \<Rightarrow> string \<Rightarrow> realm \<Rightarrow> user_profile \<Rightarrow> string \<Rightarrow>
    queue_options \<Rightarrow> (world, string option) prog" where
  "request_event_queue cfg host now uuid r u user_client opts =
     (if \<not> USING_TORNADO cfg then ret None
      else bnd (lift (get_user_tornado_port cfg host (profile_id u))) (\<lambda>port.
        bnd (internal_request (\<lambda>h. get_events_internal cfg host (Some port) now uuid r u h (Some user_client)
               None None True opts)) (\<lambda>resp.
        case resp of FetchResponse _ (Some q) \<Rightarrow> ret (Some q) | _ \<Rightarrow> raise (KeyError ''queue_id''))))"

definition default_options :: queue_options where
  "default_options = \<lparr>o_event_types = None, o_apply_markdown = False, o_client_gravatar = False,
     o_slim_presence = False, o_all_public_streams = False, o_narrow = [], o_lifespan_secs = 0,
     o_bulk_message_deletion = False, o_stream_typing_notifications = False, o_user_settings_object = False,
     o_pronouns_field_type_supported = True, o_linkifier_url_template = False,
     o_user_list_incomplete = False, o_sender_apply_raw_content = []\<rparr>"

definition get_user_events :: "deployment \<Rightarrow> string \<Rightarrow> real \<Rightarrow> string \<Rightarrow> realm \<Rightarrow> user_profile \<Rightarrow> string \<Rightarrow> int \<Rightarrow>
    (world, qevent list) prog" where
  "get_user_events cfg host now uuid r u qid last_event_id =
     (if \<not> USING_TORNADO cfg then ret []
      else bnd (lift (get_user_tornado_port cfg host (profile_id u))) (\<lambda>port.
        bnd (internal_request (\<lambda>h. get_events_internal cfg host (Some port) now uuid r u h None
               (Some last_event_id) (Some qid) True default_options)) (\<lambda>resp.
        case resp of FetchResponse cs _ \<Rightarrow> ret cs | _ \<Rightarrow> raise (KeyError ''events''))))"

section \<open>Every user's events go to the process of the user's queues\<close>

definition user_port :: "int list \<Rightarrow> py \<Rightarrow> int res" where
  "user_port realm_ports user = ebind (user_id_of user) (get_user_id_tornado_port realm_ports)"

lemma update_map:
  "distinct T \<Longrightarrow> AList.update p v (map (\<lambda>p. (p, f p)) T) =
     map (\<lambda>p'. (p', if p' = p then v else f p')) (if p \<in> set T then T else T @ [p])"
  by (induction T) auto

lemma get_or_map: "get_or (map (\<lambda>p. (p, f p)) T) p d = (if p \<in> set T then f p else d)"
  by (induction T) (auto simp: get_or_def)

lemma add_to_port_eq:
  "user_port ps u = Inr p \<Longrightarrow> add_to_port ps u m = Inr (AList.update p (get_or m p [] @ [u]) m)"
  by (cases "user_id_of u") (simp_all add: add_to_port_def user_port_def)

text \<open>The loop over the users: the ports in the order they come up, each with its users in order.\<close>

lemma add_to_port_loop:
  assumes "\<forall>u\<in>set users. \<exists>p. user_port ps u = Inr p"
    and "distinct T" "set T = {p. \<exists>u\<in>set seen. user_port ps u = Inr p}"
  shows "\<exists>T'. distinct T' \<and> set T' = {p. \<exists>u\<in>set (seen @ users). user_port ps u = Inr p} \<and>
    efold (add_to_port ps) users (map (\<lambda>p. (p, filter (\<lambda>u. user_port ps u = Inr p) seen)) T) =
      Inr (map (\<lambda>p. (p, filter (\<lambda>u. user_port ps u = Inr p) (seen @ users))) T')"
  using assms
proof (induction users arbitrary: seen T)
  case Nil
  then show ?case by auto
next
  case (Cons u us)
  then obtain p where p: "user_port ps u = Inr p" by auto
  let ?T = "if p \<in> set T then T else T @ [p]"
  have none: "filter (\<lambda>u. user_port ps u = Inr p) seen = []" if "p \<notin> set T"
    using that Cons.prems(3) by (auto simp: filter_empty_conv)
  have "add_to_port ps u (map (\<lambda>p. (p, filter (\<lambda>u. user_port ps u = Inr p) seen)) T) =
      Inr (map (\<lambda>p. (p, filter (\<lambda>u. user_port ps u = Inr p) (seen @ [u]))) ?T)"
    unfolding add_to_port_eq [OF p] update_map [OF Cons.prems(2)] get_or_map
    using none p by (auto simp del: map_append)
  moreover have "set ?T = {p. \<exists>u\<in>set (seen @ [u]). user_port ps u = Inr p}" "distinct ?T"
    using Cons.prems(2,3) p by auto
  note Cons.IH [OF _ this(2,1)]
  ultimately show ?case using Cons.prems(1) by simp
qed

lemma publish_all:
  "for_each (\<lambda>(port, port_users). publish (name port, notice port_users)) m w =
     (Inr (), w\<lparr>published := published w @ map (\<lambda>(port, port_users). (name port, notice port_users)) m\<rparr>)"
  by (induction m arbitrary: w) (auto simp: publish_def bnd_def modify_def ret_def)

text \<open>
  C31. An event is published for each of its users exactly once, on the queue of the process that
  holds the user's event queues; a process gets one notice, with its users in their order.  A realm
  with one process gets its notice also when no user is named.
\<close>

theorem send_event_partition:
  assumes "get_realm_tornado_ports cfg host = Inr ps" "ps \<noteq> []" "emap user_id_of users = Inr ids"
  shows "\<exists>targets. distinct targets \<and>
    set targets = (if length ps = 1 then set ps
      else {p. \<exists>i\<in>set ids. get_user_id_tornado_port ps i = Inr p}) \<and>
    send_event cfg host event users w = (Inr (), w\<lparr>published := published w @
      map (\<lambda>p. (notify_tornado_queue_name cfg p,
             tornado_notice event (filter (\<lambda>u. \<exists>i. user_id_of u = Inr i \<and> get_user_id_tornado_port ps i = Inr p) users)))
        targets\<rparr>)"
proof -
  have ids: "\<exists>i\<in>set ids. user_id_of u = Inr i" if "u \<in> set users" for u
    using assms(3) that by (induction users arbitrary: ids) (fastforce simp: res_simps)+
  have ids': "\<exists>u\<in>set users. user_id_of u = Inr i" if "i \<in> set ids" for i
    by (rule emap_Inr_mem [OF assms(3) that])
  have up: "user_port ps u = Inr p \<longleftrightarrow> (\<exists>i. user_id_of u = Inr i \<and> get_user_id_tornado_port ps i = Inr p)" for u p
    by (simp add: user_port_def res_simps)
  show ?thesis
  proof (cases "\<exists>p. ps = [p]")
    case True
    then obtain p where p: "ps = [p]" by auto
    have "filter (\<lambda>u. \<exists>i. user_id_of u = Inr i \<and> get_user_id_tornado_port ps i = Inr p) users = users"
      using ids by (auto simp: filter_id_conv get_user_id_tornado_port_def p)
    with p assms(1) show ?thesis
      by (intro exI [of _ "[p]"]) (simp add: send_event_def bnd_def lift_def port_user_map_def publish_def modify_def ret_def)
  next
    case False
    then have n: "length ps \<noteq> 1" by (cases ps) auto
    from ids assms(2) have "\<forall>u\<in>set users. \<exists>p. user_port ps u = Inr p"
      by (fastforce simp: up get_user_id_tornado_port_def)
    moreover have "port_user_map ps users = efold (add_to_port ps) users []"
      using False by (auto simp: port_user_map_def split: list.split)
    ultimately obtain T where
      T: "distinct T" "set T = {p. \<exists>u\<in>set users. user_port ps u = Inr p}"
        "port_user_map ps users = Inr (map (\<lambda>p. (p, filter (\<lambda>u. user_port ps u = Inr p) users)) T)"
      using add_to_port_loop [of users ps "[]" "[]"] by auto
    have "set T = {p. \<exists>i\<in>set ids. get_user_id_tornado_port ps i = Inr p}"
      unfolding T(2) up using ids ids' by fastforce
    with n T(1,3) assms(1) show ?thesis
      by (intro exI [of _ T]) (simp add: send_event_def bnd_def lift_def publish_all comp_def up)
  qed
qed

text \<open>
  C32. A request to delete a queue that reaches the wrong process has there no effect but the notice
  it sends, and consuming that notice at the right process does exactly what the request would have
  done there; only a queue that does not exist or is another user's is then passed over in silence.
\<close>

theorem remote_cleanup:
  assumes "get_user_tornado_port cfg host uid = Inr port" "USING_RABBITMQ cfg" "\<not> is_current_port current port"
    and "wf_world w'"
  shows "\<exists>notice. cleanup_event_queue cfg host current shards uid qid w =
      (Inr (), w\<lparr>published := published w @ [(notify_tornado_queue_name cfg port, notice)]\<rparr>) \<and>
    (if qid \<in> set (clients w') \<and> map_option user_profile_id (heap w' qid) = Some uid
     then process_notification shards env notice w' = cleanup_event_queue cfg host (Some port) shards uid qid w'
     else process_notification shards env notice w' = (Inr (), w') \<and>
       cleanup_event_queue cfg host (Some port) shards uid qid w' = (Inl (BadEventQueueIdError qid), w'))"
proof (intro exI conjI)
  let ?n = "tornado_notice (cleanup_event qid) [PInt uid]"
  show "cleanup_event_queue cfg host current shards uid qid w =
      (Inr (), w\<lparr>published := published w @ [(notify_tornado_queue_name cfg port, ?n)]\<rparr>)"
    using assms by (simp add: cleanup_event_queue_def bnd_def lift_def publish_def modify_def)
  have n: "process_notification shards env ?n = cleanup_notice shards (cleanup_event qid) [PInt uid]"
    by (simp add: process_notification_def bnd_def lift_def dict_at_def list_at_def getk_def tornado_notice_def
        cleanup_event_def fun_eq_iff)
  have "qid \<in> set (clients w') \<Longrightarrow> heap w' qid \<noteq> None"
    using assms(4) by (simp add: wf_world_def tables_ok_def)
  then show "if qid \<in> set (clients w') \<and> map_option user_profile_id (heap w' qid) = Some uid
     then process_notification shards env ?n w' = cleanup_event_queue cfg host (Some port) shards uid qid w'
     else process_notification shards env ?n w' = (Inr (), w') \<and>
       cleanup_event_queue cfg host (Some port) shards uid qid w' = (Inl (BadEventQueueIdError qid), w')"
    using assms(1) unfolding n
    by (auto simp: cleanup_event_queue_def is_current_port_def cleanup_notice_def access_client_descriptor_def
        bnd_def lift_def gets_def obj_def raise_def ret_def try_except_def getk_def cleanup_event_def
        split: option.splits sum.splits prod.splits)
qed

section \<open>A realm with two processes\<close>

definition sample_deployment :: deployment where
  "sample_deployment = \<lparr>shard_map = [(''zulip.example'', Ports [9801, 9802])], shard_regexes = [],
     TORNADO_PORTS = [9800, 9801, 9802], USING_TORNADO = True, USING_RABBITMQ = True\<rparr>"

lemma sample_ports: "get_realm_tornado_ports sample_deployment ''zulip.example'' = Inr [9801, 9802]"
  by (simp add: get_realm_tornado_ports_def sample_deployment_def port_list_def)

theorem send_event_partition_witness:
  "\<exists>targets. set targets = {9801, 9802} \<and>
     snd (send_event sample_deployment ''zulip.example'' [(''type'', PStr ''typing'')] [PInt 10, PInt 7, PInt 12] init_world) =
       init_world\<lparr>published := published init_world @ map (\<lambda>p. (''notify_tornado_port_'' @ str_of_int p,
         tornado_notice [(''type'', PStr ''typing'')] (if p = 9801 then [PInt 10, PInt 12] else [PInt 7]))) targets\<rparr>"
proof -
  have "emap user_id_of [PInt 10, PInt 7, PInt 12] = Inr [10, 7, 12]" by (simp add: user_id_of_def)
  from send_event_partition [OF sample_ports _ this, of "[(''type'', PStr ''typing'')]" init_world] obtain T where
    T: "set T = {p. \<exists>i\<in>{10, 7, 12}. get_user_id_tornado_port [9801, 9802] i = Inr p}"
    "snd (send_event sample_deployment ''zulip.example'' [(''type'', PStr ''typing'')] [PInt 10, PInt 7, PInt 12] init_world) =
       init_world\<lparr>published := published init_world @ map (\<lambda>p. (notify_tornado_queue_name sample_deployment p,
         tornado_notice [(''type'', PStr ''typing'')] (filter (\<lambda>u. \<exists>i. user_id_of u = Inr i \<and>
           get_user_id_tornado_port [9801, 9802] i = Inr p) [PInt 10, PInt 7, PInt 12]))) T\<rparr>" by auto
  have ports: "get_user_id_tornado_port [9801, 9802] 10 = Inr 9801" "get_user_id_tornado_port [9801, 9802] 7 = Inr 9802"
    "get_user_id_tornado_port [9801, 9802] 12 = Inr 9801"
    by (simp_all add: get_user_id_tornado_port_def)
  have "set T = {9801, 9802}" unfolding T(1) by (auto simp: ports)
  moreover from this have "map (\<lambda>p. (notify_tornado_queue_name sample_deployment p,
         tornado_notice [(''type'', PStr ''typing'')] (filter (\<lambda>u. \<exists>i. user_id_of u = Inr i \<and>
           get_user_id_tornado_port [9801, 9802] i = Inr p) [PInt 10, PInt 7, PInt 12]))) T =
      map (\<lambda>p. (''notify_tornado_port_'' @ str_of_int p,
         tornado_notice [(''type'', PStr ''typing'')] (if p = 9801 then [PInt 10, PInt 12] else [PInt 7]))) T"
    by (intro map_cong) (auto simp: notify_tornado_queue_name_def sample_deployment_def user_id_of_def ports)
  ultimately show ?thesis using T(2) by auto
qed

theorem remote_cleanup_witness:
  "clients (snd (process_notification 1 sample_env
     (snd (hd (published (snd (cleanup_event_queue sample_deployment ''zulip.example'' (Some 9802) 1 10 ''q1'' init_world)))))
     one_client)) = clients (snd (cleanup_event_queue sample_deployment ''zulip.example'' (Some 9801) 1 10 ''q1'' one_client))"
proof -
  have "get_user_tornado_port sample_deployment ''zulip.example'' 10 = Inr 9801"
    by (simp add: get_user_tornado_port_def sample_ports get_user_id_tornado_port_def)
  then have "\<exists>notice. cleanup_event_queue sample_deployment ''zulip.example'' (Some 9802) 1 10 ''q1'' init_world =
      (Inr (), init_world\<lparr>published := published init_world @ [(notify_tornado_queue_name sample_deployment 9801, notice)]\<rparr>) \<and>
    process_notification 1 sample_env notice one_client =
      cleanup_event_queue sample_deployment ''zulip.example'' (Some 9801) 1 10 ''q1'' one_client"
    using remote_cleanup [of sample_deployment "''zulip.example''" 10 9801 "Some 9802" one_client 1 "''q1''" init_world sample_env]
    by (auto simp: sample_deployment_def is_current_port_def wf_one_client heap_one_client)
  then show ?thesis by (auto simp: init_world_def)
qed

end
