(* ===== verification/RegisterEvents.thy ===== *)
theory RegisterEvents
  imports ApplyEvents
begin

text \<open>
  What \<open>apply_events\<close> does to the state of a registering client: it refines a small specification
  of the unread messages, and keeps the three lists of channels apart.
\<close>

section \<open>What leaves the unread messages alone\<close>

definition keeps_unread :: "(reg_state \<Rightarrow> reg_state res) \<Rightarrow> bool" where
  "keeps_unread f \<longleftrightarrow> (\<forall>s s'. f s = Inr s' \<longrightarrow> raw_unread_msgs s' = raw_unread_msgs s)"

named_theorems keeps \<open>operations that leave the unread messages alone\<close>

lemma keeps_unreadD: "keeps_unread f \<Longrightarrow> f s = Inr s' \<Longrightarrow> raw_unread_msgs s' = raw_unread_msgs s"
  by (simp add: keeps_unread_def)

lemma keeps_unreadI: "(\<And>s s'. f s = Inr s' \<Longrightarrow> raw_unread_msgs s' = raw_unread_msgs s) \<Longrightarrow> keeps_unread f"
  by (simp add: keeps_unread_def)

lemma unread_put [simp]: "raw_unread_msgs (put k v s) = raw_unread_msgs s"
  by (simp add: put_def)

lemma keeps_Inr [keeps]: "(\<And>s. raw_unread_msgs (g s) = raw_unread_msgs s) \<Longrightarrow> keeps_unread (\<lambda>s. Inr (g s))"
  by (simp add: keeps_unread_def)

lemma keeps_Inl [keeps]: "keeps_unread (\<lambda>s. Inl (e s))"
  by (simp add: keeps_unread_def)

lemma keeps_id [keeps]: "keeps_unread Inr"
  by (simp add: keeps_unread_def)

lemma keeps_read [keeps]: "(\<And>x. keeps_unread (f x)) \<Longrightarrow> keeps_unread (\<lambda>s. ebind (r s) (\<lambda>x. f x s))"
  by (auto simp: keeps_unread_def res_simps)

lemma keeps_seq [keeps]: "keeps_unread f \<Longrightarrow> keeps_unread g \<Longrightarrow> keeps_unread (\<lambda>s. ebind (f s) g)"
  unfolding keeps_unread_def res_simps by metis

lemma keeps_if [keeps]: "keeps_unread f \<Longrightarrow> keeps_unread g \<Longrightarrow> keeps_unread (\<lambda>s. if b s then f s else g s)"
  by (simp add: keeps_unread_def)

lemma keeps_option [keeps]: "keeps_unread f \<Longrightarrow> (\<And>x. keeps_unread (g x)) \<Longrightarrow>
    keeps_unread (\<lambda>s. case r s of None \<Rightarrow> f s | Some x \<Rightarrow> g x s)"
  by (auto simp: keeps_unread_def split: option.splits)

lemma keeps_on_list [keeps]: "keeps_unread (on_list k f)"
  by (auto simp: keeps_unread_def on_list_def res_simps)

lemma keeps_on_dict [keeps]: "keeps_unread (on_dict k f)"
  by (auto simp: keeps_unread_def on_dict_def res_simps)

lemma keeps_when_present [keeps]: "keeps_unread f \<Longrightarrow> keeps_unread (when_present k f)"
  by (auto simp: keeps_unread_def when_present_def split: if_splits)

lemma keeps_efold [keeps]: "(\<And>x. keeps_unread (f x)) \<Longrightarrow> keeps_unread (efold f xs)"
proof (induction xs)
  case Nil
  show ?case by (simp add: keeps_unread_def)
next
  case (Cons x xs)
  then show ?case unfolding keeps_unread_def efold.simps res_simps by metis
qed

lemma keeps_append_to [keeps]: "keeps_unread (append_to k v)"
  unfolding append_to_def by (intro keeps)

lemma keeps_sort_by_name [keeps]: "keeps_unread (sort_by_name k)"
  unfolding sort_by_name_def by (intro keeps)

lemma keeps_drop_ids [keeps]: "keeps_unread (drop_ids k vs f)"
  unfolding drop_ids_def by (intro keeps)

lemma keeps_drop_subscriber [keeps]: "keeps_unread (drop_subscriber uid)"
  unfolding drop_subscriber_def by (intro keeps)

lemma keeps_for_group [keeps]: "keeps_unread (for_group e f)"
  unfolding for_group_def by (intro keeps)

lemma keeps_replace_entry [keeps]: "keeps_unread (replace_entry e a b)"
  unfolding replace_entry_def [abs_def] by (intro keeps unread_put)

lemma keeps_drafts [keeps]: "keeps_unread (apply_drafts_event event)"
  unfolding apply_drafts_event_def [abs_def] by (intro keeps)

lemma keeps_scheduled [keeps]: "keeps_unread (apply_scheduled_messages_event event)"
  unfolding apply_scheduled_messages_event_def [abs_def] by (intro keeps)

lemma keeps_bots [keeps]: "keeps_unread (apply_realm_bot_event event)"
  unfolding apply_realm_bot_event_def [abs_def] by (intro keeps)

lemma keeps_create_stream [keeps]: "keeps_unread (create_stream db reg v)"
  unfolding create_stream_def [abs_def] Let_def by (intro keeps)

lemma keeps_stream [keeps]: "keeps_unread (apply_stream_event db reg event)"
  unfolding apply_stream_event_def [abs_def] by (intro keeps)

lemma keeps_refresh_permission [keeps]: "keeps_unread (refresh_permission db pp)"
  unfolding refresh_permission_def [abs_def] by (intro keeps unread_put)

lemma keeps_refresh_can_create [keeps]: "keeps_unread refresh_can_create_streams"
  unfolding refresh_can_create_streams_def [abs_def] by (intro keeps unread_put)

text \<open>The remaining operations begin with an entry of their own: run them.\<close>

lemmas keeps_calls = keeps_unreadD [OF keeps_refresh_permission] keeps_unreadD [OF keeps_efold [OF keeps_refresh_permission]]
  keeps_unreadD [OF keeps_refresh_can_create] keeps_unreadD [OF keeps_drop_subscriber] keeps_unreadD [OF keeps_on_list] keeps_unreadD [OF keeps_on_dict]
  keeps_unreadD [OF keeps_drop_ids] keeps_unreadD [OF keeps_append_to]

lemma keeps_realm_extras: "realm_update_extras event p v s = Inr s' \<Longrightarrow> raw_unread_msgs s' = raw_unread_msgs s"
  unfolding realm_update_extras_def by (auto simp: res_simps split: if_splits)

lemma keeps_update_realm [keeps]: "keeps_unread (update_realm db event)"
  unfolding keeps_unread_def update_realm_def
  by (auto simp: res_simps split: if_splits option.splits dest!: keeps_calls keeps_realm_extras)

lemma keeps_update_realm_entry [keeps]: "keeps_unread (update_realm_entry db kv)"
  unfolding keeps_unread_def update_realm_entry_def refresh_create_permission_def Let_def
  by (auto simp: res_simps split: if_splits dest!: keeps_calls)

lemma keeps_realm [keeps]: "keeps_unread (apply_realm_event db event)"
  unfolding apply_realm_event_def [abs_def] by (intro keeps)

lemma keeps_own_fields [simp]: "raw_unread_msgs (set_own_fields person s) = raw_unread_msgs s"
  by (simp add: set_own_fields_def split: option.split)

lemma keeps_own_avatar [keeps]: "keeps_unread (set_own_avatar person)"
  unfolding set_own_avatar_def [abs_def] by (intro keeps unread_put) simp

lemma keeps_own_role [keeps]: "keeps_unread (set_own_role db role)"
  unfolding set_own_role_def [abs_def] by (intro keeps) simp

lemma keeps_own_bots [keeps]: "keeps_unread (set_own_bots db reg person)"
  unfolding set_own_bots_def [abs_def] by (intro keeps) simp

lemma keeps_own_user: "update_own_user db reg person s = Inr s' \<Longrightarrow> raw_unread_msgs s' = raw_unread_msgs s"
  unfolding update_own_user_def Let_def
  by (auto simp: res_simps split: option.splits
      dest!: keeps_unreadD [OF keeps_own_avatar] keeps_unreadD [OF keeps_own_role] keeps_unreadD [OF keeps_own_bots])

lemma keeps_drop_deactivated [keeps]: "keeps_unread (drop_deactivated reg uid person)"
  unfolding drop_deactivated_def [abs_def] by (intro keeps)

lemma keeps_update_user: "update_user db reg uid person s = Inr s' \<Longrightarrow> raw_unread_msgs s' = raw_unread_msgs s"
  unfolding update_user_def Let_def
  by (auto simp: res_simps split: if_splits option.splits
      dest!: keeps_unreadD [OF keeps_drop_deactivated] keeps_own_user)

lemma keeps_add_user [keeps]: "keeps_unread (add_user db reg uid person)"
  unfolding add_user_def [abs_def] Let_def by (intro keeps) simp

lemma keeps_remove_user: "remove_user db reg uid s = Inr s' \<Longrightarrow> raw_unread_msgs s' = raw_unread_msgs s"
  unfolding remove_user_def Let_def
  by (auto simp: res_simps split: if_splits dest!: keeps_unreadD [OF keeps_drop_subscriber])

lemma keeps_users [keeps]: "keeps_unread (apply_realm_user_event db reg event)"
  unfolding apply_realm_user_event_def [abs_def]
  by (intro keeps) (auto simp: keeps_unread_def dest: keeps_update_user keeps_remove_user)

lemma keeps_profile_fields [keeps]: "keeps_unread (apply_custom_profile_fields_event event)"
  unfolding keeps_unread_def apply_custom_profile_fields_event_def Let_def
  by (auto simp: res_simps split: option.splits)

lemma keeps_add_subscriptions [keeps]: "keeps_unread (add_subscriptions reg event)"
  unfolding keeps_unread_def add_subscriptions_def
  by (auto simp: res_simps dest!: keeps_unreadD [OF keeps_drop_ids])

lemma keeps_remove_subscriptions [keeps]: "keeps_unread (remove_subscriptions reg event)"
  unfolding remove_subscriptions_def [abs_def] by (intro keeps)

lemma keeps_peers [keeps]: "keeps_unread (apply_peers reg f event)"
  unfolding apply_peers_def [abs_def] Let_def by (intro keeps)

lemma keeps_subscription [keeps]: "keeps_unread (apply_subscription_event reg event)"
  unfolding apply_subscription_event_def [abs_def] by (intro keeps)

lemma keeps_settings [keeps]:
  "keeps_unread (apply_display_settings_event event)"
  "keeps_unread (apply_global_notifications_event event)"
  "keeps_unread (apply_user_settings_event event)"
  unfolding keeps_unread_def apply_display_settings_event_def apply_global_notifications_event_def
    apply_user_settings_event_def
  by (auto simp: res_simps split: if_splits dest!: keeps_calls)

lemma keeps_rest [keeps]:
  "keeps_unread (apply_realm_user_settings_defaults_event event)"
  "keeps_unread (apply_presence_event db reg event)"
  "keeps_unread (apply_realm_domains_event event)"
  "keeps_unread (apply_user_group_event event)"
  "keeps_unread (apply_user_topic_event event)"
  unfolding apply_realm_user_settings_defaults_event_def [abs_def] apply_presence_event_def [abs_def]
    apply_realm_domains_event_def [abs_def] apply_user_group_event_def [abs_def] apply_user_topic_event_def [abs_def]
  by (intro keeps)+

lemma keeps_status [keeps]: "keeps_unread (apply_user_status_event event)"
  unfolding keeps_unread_def apply_user_status_event_def Let_def
  by (auto simp: res_simps dest!: keeps_calls)

section \<open>The unread messages refine their specification\<close>

text \<open>
  The contract: an event's effect on the map of unread messages.  An unread message that arrives
  is entered at its place, a move changes the place of the unread messages it names, reading
  or deleting messages removes them, marking messages unread enters what the event says of them.
\<close>

definition arriving :: "database \<Rightarrow> registration \<Rightarrow> int set \<Rightarrow> dict \<Rightarrow> (int \<times> place \<times> bool) option" where
  "arriving db reg muted event = (case (dict_at event ''message'', list_at event ''flags'') of
     (Inr message, Inr flags) \<Rightarrow>
       if ''read'' \<in> set (strings flags) then None
       else (case (int_at message ''id'', message_place (db_topic_policy db) muted (my_id reg) message) of
               (Inr mid, Inr p) \<Rightarrow> Some (mid, p, counts_mention (strings flags) p)
             | _ \<Rightarrow> None)
   | _ \<Rightarrow> None)"

definition named_ids :: "dict \<Rightarrow> string \<Rightarrow> int set" where
  "named_ids event k = (case int_list_at event k of Inr ids \<Rightarrow> set ids | Inl _ \<Rightarrow> {})"

fun moved :: "dict \<Rightarrow> place \<Rightarrow> place" where
  "moved event (InChannel i t u) = InChannel
     (case map_of event ''new_stream_id'' of Some (PInt n) \<Rightarrow> n | _ \<Rightarrow> i)
     (case map_of event ''subject'' of Some (PStr t') \<Rightarrow> t' | _ \<Rightarrow> t) u"
| "moved event p = p"

definition deleted_ids :: "dict \<Rightarrow> int set" where
  "deleted_ids event = (case map_of event ''message_id'' of
     Some (PInt i) \<Rightarrow> {i} | _ \<Rightarrow> named_ids event ''message_ids'')"

definition parse_details :: "string \<times> py \<Rightarrow> (int \<times> message_details) res" where
  "parse_details kv = (case py_int (fst kv) of
     None \<Rightarrow> Inl (ValueError ''invalid literal for int() with base 10'')
   | Some mid \<Rightarrow> ebind (as_dict (snd kv)) (\<lambda>d. ebind (details_of_dict d) (\<lambda>details. Inr (mid, details))))"

definition marked :: "dict \<Rightarrow> (int \<times> message_details) list" where
  "marked event = (case ebind (dict_at event ''message_details'') (emap parse_details) of Inr ds \<Rightarrow> ds | Inl _ \<Rightarrow> [])"

definition unread_step :: "database \<Rightarrow> registration \<Rightarrow> int set \<Rightarrow> dict \<Rightarrow> unread_view \<Rightarrow> unread_view" where
  "unread_step db reg muted event v =
     (let ty = map_of event ''type''; read = (map_of event ''flag'' = Some (PStr ''read''))
      in if ty = Some (PStr ''message'')
         then (case arriving db reg muted event of None \<Rightarrow> v | Some (mid, e) \<Rightarrow> v(mid \<mapsto> e))
         else if ty = Some (PStr ''update_message'')
         then (\<lambda>m. if m \<in> named_ids event ''message_ids'' then map_option (apfst (moved event)) (v m) else v m)
         else if ty = Some (PStr ''delete_message'') then v |` (- deleted_ids event)
         else if ty = Some (PStr ''update_message_flags'') \<and> read \<and> map_of event ''op'' = Some (PStr ''add'')
         then v |` (- named_ids event ''messages'')
         else if ty = Some (PStr ''update_message_flags'') \<and> read \<and> map_of event ''op'' = Some (PStr ''remove'')
         then v ++ (\<lambda>m. case map_of (marked event) m of None \<Rightarrow> None | Some d \<Rightarrow> details_entry (my_id reg) d)
         else v)"

text \<open>
  What is asked of the events: a message that is already unread comes with the data it has, and
  an event that marks messages unread names each once.
\<close>

definition unread_ok :: "database \<Rightarrow> registration \<Rightarrow> int set \<Rightarrow> dict \<Rightarrow> unread_view \<Rightarrow> bool" where
  "unread_ok db reg muted event v \<longleftrightarrow>
     (if map_of event ''type'' = Some (PStr ''message'')
      then (case arriving db reg muted event of None \<Rightarrow> True | Some (mid, e) \<Rightarrow> fits v mid e)
      else if map_of event ''type'' = Some (PStr ''update_message_flags'')
      then distinct (map fst (marked event)) \<and>
        list_all (\<lambda>(m, d). case details_entry (my_id reg) d of None \<Rightarrow> False | Some e \<Rightarrow> fits v m e) (marked event)
      else True)"

lemma muted_remove [simp]: "muted_stream_ids (remove_message_id_from_unread_mgs m u) = muted_stream_ids u"
  by (simp add: remove_message_id_from_unread_mgs_def)

lemma fold_remove:
  "wf_unread u \<Longrightarrow> wf_unread (fold remove_message_id_from_unread_mgs ids u) \<and>
   view (fold remove_message_id_from_unread_mgs ids u) = view u |` (- set ids) \<and>
   muted_stream_ids (fold remove_message_id_from_unread_mgs ids u) = muted_stream_ids u"
proof (induction ids arbitrary: u)
  case Nil
  then show ?case by simp
next
  case (Cons i ids)
  have "wf_unread (remove_message_id_from_unread_mgs i u)" using Cons.prems by (rule remove_wf)
  from Cons.IH [OF this] show ?case
    by (auto simp: remove_view restrict_map_def fun_eq_iff)
qed

lemma move_view:
  assumes "wf_unread u"
  shows "wf_unread (move_message f m u) \<and> muted_stream_ids (move_message f m u) = muted_stream_ids u \<and>
    view (move_message f m u) = (\<lambda>m'. if m' = m
      then map_option (apfst (\<lambda>p. case p of InChannel i t b \<Rightarrow>
        (let d = f \<lparr>us_stream_id = i, us_topic = t\<rparr> in InChannel (us_stream_id d) (us_topic d) b) | _ \<Rightarrow> p)) (view u m)
      else view u m')"
proof (cases "map_of (stream_dict u) m")
  case None
  then show ?thesis
    using assms by (cases "map_of (pm_dict u) m"; cases "map_of (huddle_dict u) m")
      (auto simp: move_message_def view_def place_of_def fun_eq_iff)
next
  case (Some d)
  have "apart (move_message f m u) m'" for m'
    using assms Some
    by (auto simp: wf_unread_alt apart_def move_message_def place_of_None simp del: not_None_eq map_of_eq_Some_iff)
  then have "wf_unread (move_message f m u)"
    using assms Some by (simp add: wf_unread_alt move_message_def)
  moreover obtain i t where "d = \<lparr>us_stream_id = i, us_topic = t\<rparr>" by (cases d)
  ultimately show ?thesis using Some
    by (auto simp: move_message_def view_def place_of_def fun_eq_iff Let_def split: option.split)
qed


lemma fold_move:
  assumes "wf_unread u"
    and f: "\<And>i t b. (let d = f \<lparr>us_stream_id = i, us_topic = t\<rparr> in InChannel (us_stream_id d) (us_topic d) b) = g (InChannel i t b)"
    and g: "\<And>p. (\<forall>i t b. p \<noteq> InChannel i t b) \<Longrightarrow> g p = p" "\<And>p. g (g p) = g p"
  shows "wf_unread (fold (move_message f) ids u) \<and> muted_stream_ids (fold (move_message f) ids u) = muted_stream_ids u \<and>
    view (fold (move_message f) ids u) = (\<lambda>m. if m \<in> set ids then map_option (apfst g) (view u m) else view u m)"
  using assms(1)
proof (induction ids arbitrary: u)
  case Nil
  then show ?case by simp
next
  case (Cons i ids)
  have p: "(case p of InChannel i t b \<Rightarrow> (let d = f \<lparr>us_stream_id = i, us_topic = t\<rparr> in InChannel (us_stream_id d) (us_topic d) b)
      | _ \<Rightarrow> p) = g p" for p
    using f g(1) by (cases p) auto
  have idem: "map_option (apfst g) (map_option (apfst g) v) = map_option (apfst g) v" for v :: "(place \<times> bool) option"
    using g(2) by (cases v) (auto simp: apfst_def map_prod_def split_beta)
  note mv = move_view [OF Cons.prems, of f i, unfolded p]
  then have "wf_unread (move_message f i u)" by blast
  from Cons.IH [OF this] mv show ?case by (auto simp: fun_eq_iff idem)
qed

lemma mark_parse: "efold (mark_unread reg) ds u = ebind (emap parse_details ds) (\<lambda>ds.
    Inr (fold (\<lambda>(m, d). add_message_to_unread_msgs (my_id reg) m d) ds u))"
proof (induction ds arbitrary: u)
  case Nil
  show ?case by simp
next
  case (Cons kv ds)
  have "mark_unread reg kv u = ebind (parse_details kv) (\<lambda>(m, d). Inr (add_message_to_unread_msgs (my_id reg) m d u))"
  proof (cases "py_int (fst kv)")
    case None
    then show ?thesis by (simp add: mark_unread_def parse_details_def)
  next
    case (Some mid)
    then show ?thesis
      by (cases "ebind (as_dict (snd kv)) details_of_dict"; cases "as_dict (snd kv)")
        (simp_all add: mark_unread_def parse_details_def)
  qed
  then show ?case
    by (cases "parse_details kv"; cases "emap parse_details ds") (auto simp: Cons.IH split: prod.split)
qed

lemma unread_parts [simp]: "raw_unread_msgs (s\<lparr>raw_recents := r\<rparr>) = raw_unread_msgs s"
  by simp

lemma keeps_conversation [keeps]: "keeps_unread (note_conversation db reg message)"
  unfolding note_conversation_def [abs_def] by (intro keeps) simp

lemma keeps_first_message [keeps]: "keeps_unread (note_first_message message k)"
  unfolding note_first_message_def by (intro keeps)

text \<open>The four kinds of event that change the unread messages.\<close>

definition refined :: "database \<Rightarrow> registration \<Rightarrow> dict \<Rightarrow> raw_unread \<Rightarrow> reg_state \<Rightarrow> bool" where
  "refined db reg event u s' \<longleftrightarrow> (\<exists>u'. raw_unread_msgs s' = Some u' \<and> wf_unread u' \<and>
     muted_stream_ids u' = muted_stream_ids u \<and>
     view u' = unread_step db reg (muted_stream_ids u) event (view u))"

lemma arrival_refined:
  assumes ty: "map_of event ''type'' = Some (PStr ''message'')" and u: "raw_unread_msgs s = Some u" "wf_unread u"
    and ok: "unread_ok db reg (muted_stream_ids u) event (view u)"
    and s': "apply_message_event db reg event s = Inr s'"
  shows "refined db reg event u s'"
proof -
  from s' obtain newest message mid s1 where m: "dict_at event ''message'' = Inr message" "int_at message ''id'' = Inr mid"
    and s1: "note_unread db reg event message (put ''max_message_id'' (PInt (max newest mid)) s) = Inr s1"
    and keep: "raw_unread_msgs s' = raw_unread_msgs s1"
    by (auto simp: apply_message_event_def res_simps split: if_splits
        dest!: keeps_unreadD [OF keeps_conversation] keeps_unreadD [OF keeps_first_message])
  from s1 u(1) obtain flags where f: "list_at event ''flags'' = Inr flags"
    by (auto simp: note_unread_def res_simps)
  show ?thesis
  proof (cases "''read'' \<in> set (strings flags)")
    case True
    then show ?thesis
      using s1 keep u m f ty by (auto simp: refined_def note_unread_def unread_step_def arriving_def res_simps)
  next
    case False
    with s1 u(1) f obtain u' where u': "apply_unread_message_event (db_topic_policy db) (my_id reg) message (strings flags) u = Inr u'"
      "raw_unread_msgs s1 = Some u'"
      by (auto simp: note_unread_def res_simps)
    from u'(1) obtain p where p: "message_place (db_topic_policy db) (muted_stream_ids u) (my_id reg) message = Inr p"
      by (auto simp: apply_unread_message_event_def message_place_def res_simps split: if_splits)
    have arr: "arriving db reg (muted_stream_ids u) event = Some (mid, p, counts_mention (strings flags) p)"
      using False m f p by (simp add: arriving_def del: counts_mention.simps)
    have fit: "fits (view u) mid (p, counts_mention (strings flags) p)"
      using ok arr ty by (simp add: unread_ok_def del: counts_mention.simps)
    have "u' = enter mid p (counts_mention (strings flags) p) u"
      using message_enter [OF p _ u(2) fit] m(2) u'(1) by (simp add: int_at_Inr del: counts_mention.simps)
    then show ?thesis
      using enter_view [OF u(2) fit] enter_wf [OF u(2) fit] keep u'(2) arr ty
      by (simp add: refined_def unread_step_def del: counts_mention.simps)
  qed
qed

fun to_channel :: "int \<Rightarrow> place \<Rightarrow> place" where
  "to_channel n (InChannel i t b) = InChannel n t b"
| "to_channel n p = p"

fun to_topic :: "string \<Rightarrow> place \<Rightarrow> place" where
  "to_topic t' (InChannel i t b) = InChannel i t' b"
| "to_topic t' p = p"

lemma to_simps [simp]: "to_channel n (to_channel n p) = to_channel n p" "to_topic t (to_topic t p) = to_topic t p"
  "(\<forall>i t b. p \<noteq> InChannel i t b) \<Longrightarrow> to_channel n p = p" "(\<forall>i t b. p \<noteq> InChannel i t b) \<Longrightarrow> to_topic t' p = p"
  by (cases p; auto)+

lemmas move_channel = fold_move [of _ "\<lambda>d. d\<lparr>us_stream_id := n\<rparr>" "to_channel n" for n, simplified]
lemmas move_topic = fold_move [of _ "\<lambda>d. d\<lparr>us_topic := t\<rparr>" "to_topic t" for t, simplified]

lemma on_unread_Some: "raw_unread_msgs s = Some u \<Longrightarrow>
    on_unread f s = ebind (f u) (\<lambda>u'. Inr (s\<lparr>raw_unread_msgs := Some u'\<rparr>))"
  by (simp add: on_unread_def)

lemma move_refined:
  assumes ty: "map_of event ''type'' = Some (PStr ''update_message'')" and u: "raw_unread_msgs s = Some u" "wf_unread u"
    and s': "apply_update_message_event event s = Inr s'"
  shows "refined db reg event u s'"
proof -
  define g1 where "g1 = (case map_of event ''new_stream_id'' of Some (PInt n) \<Rightarrow> to_channel n | _ \<Rightarrow> id)"
  define g2 where "g2 = (case map_of event ''subject'' of Some (PStr t) \<Rightarrow> to_topic t | _ \<Rightarrow> id)"
  let ?ids = "named_ids event ''message_ids''"
  have g: "g2 (g1 p) = moved event p" for p
    by (cases p) (auto simp: g1_def g2_def split: option.split py.split)
  from s' obtain s1 where s1: "(if has_key event ''new_stream_id''
            then on_unread (\<lambda>u. ebind (int_at event ''new_stream_id'') (\<lambda>stream_id.
                   ebind (int_list_at event ''message_ids'') (\<lambda>mids.
                   Inr (fold (move_message (\<lambda>d. d\<lparr>us_stream_id := stream_id\<rparr>)) mids u)))) s
            else Inr s) = Inr s1"
    and s2: "(if has_key event ''subject''
     then on_unread (\<lambda>u. ebind (text_at event ''subject'') (\<lambda>topic_name.
            ebind (int_list_at event ''message_ids'') (\<lambda>mids.
            Inr (fold (move_message (\<lambda>d. d\<lparr>us_topic := topic_name\<rparr>)) mids u)))) s1
     else Inr s1) = Inr s'"
    by (auto simp: apply_update_message_event_def res_simps)
  have none: "(if b then map_option (apfst id) v else v) = v" for b and v :: "(place \<times> bool) option"
    by (cases v) auto
  have "\<exists>u1. raw_unread_msgs s1 = Some u1 \<and> wf_unread u1 \<and> muted_stream_ids u1 = muted_stream_ids u \<and>
      view u1 = (\<lambda>m. if m \<in> ?ids then map_option (apfst g1) (view u m) else view u m)"
  proof (cases "map_of event ''new_stream_id''")
    case None
    then have g1: "g1 = id" and "s1 = s" using s1 by (simp_all add: g1_def has_key_def)
    then show ?thesis using u unfolding g1 none by blast
  next
    case (Some v)
    with s1 u(1) obtain n ids where "v = PInt n" "int_list_at event ''message_ids'' = Inr ids"
      "raw_unread_msgs s1 = Some (fold (move_message (\<lambda>d. d\<lparr>us_stream_id := n\<rparr>)) ids u)"
      by (auto simp: on_unread_Some res_simps has_key_def)
    moreover have "g1 = to_channel n" using Some \<open>v = PInt n\<close> by (simp add: g1_def)
    ultimately show ?thesis using move_channel [OF u(2)] by (simp add: named_ids_def cong: if_cong)
  qed
  then obtain u1 where u1: "raw_unread_msgs s1 = Some u1" "wf_unread u1" "muted_stream_ids u1 = muted_stream_ids u"
      "view u1 = (\<lambda>m. if m \<in> ?ids then map_option (apfst g1) (view u m) else view u m)"
    by blast
  have "\<exists>u2. raw_unread_msgs s' = Some u2 \<and> wf_unread u2 \<and> muted_stream_ids u2 = muted_stream_ids u1 \<and>
      view u2 = (\<lambda>m. if m \<in> ?ids then map_option (apfst g2) (view u1 m) else view u1 m)"
  proof (cases "map_of event ''subject''")
    case None
    then have g2: "g2 = id" and "s' = s1" using s2 by (simp_all add: g2_def has_key_def)
    then show ?thesis using u1(1,2) unfolding g2 none by blast
  next
    case (Some v)
    with s2 u1(1) obtain t ids where "v = PStr t" "int_list_at event ''message_ids'' = Inr ids"
      "raw_unread_msgs s' = Some (fold (move_message (\<lambda>d. d\<lparr>us_topic := t\<rparr>)) ids u1)"
      by (auto simp: on_unread_Some res_simps text_at_Inr has_key_def)
    moreover have "g2 = to_topic t" using Some \<open>v = PStr t\<close> by (simp add: g2_def)
    ultimately show ?thesis using move_topic [OF u1(2)] by (simp add: named_ids_def cong: if_cong)
  qed
  then obtain u2 where u2: "raw_unread_msgs s' = Some u2" "wf_unread u2" "muted_stream_ids u2 = muted_stream_ids u1"
      "view u2 = (\<lambda>m. if m \<in> ?ids then map_option (apfst g2) (view u1 m) else view u1 m)"
    by blast
  have "map_option (apfst g2) (map_option (apfst g1) v) = map_option (apfst (moved event)) v" for v :: "(place \<times> bool) option"
    by (cases v) (auto simp: g apfst_def map_prod_def split_beta)
  then show ?thesis
    using u1 u2 ty by (auto simp: refined_def unread_step_def fun_eq_iff)
qed

lemma delete_refined:
  assumes ty: "map_of event ''type'' = Some (PStr ''delete_message'')" and u: "raw_unread_msgs s = Some u" "wf_unread u"
    and s': "apply_delete_message_event db event s = Inr s'"
  shows "refined db reg event u s'"
proof -
  from s' obtain ids where ids: "(if has_key event ''message_id'' then ebind (int_at event ''message_id'') (\<lambda>i. Inr [i])
            else int_list_at event ''message_ids'') = Inr ids"
    and "raw_unread_msgs s' = Some (fold remove_message_id_from_unread_mgs ids u)"
    using u(1) by (auto simp: apply_delete_message_event_def on_unread_Some res_simps split: if_splits option.splits)
  moreover have "set ids = deleted_ids event"
    using ids by (auto simp: deleted_ids_def named_ids_def has_key_def res_simps split: if_splits)
  ultimately show ?thesis
    using fold_remove [OF u(2), of ids] ty by (simp add: refined_def unread_step_def)
qed

lemma flags_refined:
  assumes ty: "map_of event ''type'' = Some (PStr ''update_message_flags'')" and u: "raw_unread_msgs s = Some u" "wf_unread u"
    and ok: "unread_ok db reg (muted_stream_ids u) event (view u)"
    and s': "apply_update_message_flags_event reg event s = Inr s'"
  shows "refined db reg event u s'"
proof -
  let ?read = "map_of event ''flag'' = Some (PStr ''read'')"
  from s' obtain s1 s2 where
    s1: "(if ?read \<and> map_of event ''op'' = Some (PStr ''add'')
            then on_unread (\<lambda>u. ebind (int_list_at event ''messages'') (\<lambda>mids.
                   Inr (fold remove_message_id_from_unread_mgs mids u))) s
            else Inr s) = Inr s1"
    and s2: "(if ?read \<and> map_of event ''op'' = Some (PStr ''remove'')
            then on_unread (\<lambda>u. ebind (dict_at event ''message_details'') (\<lambda>details.
                   efold (mark_unread reg) details u)) s1
            else Inr s1) = Inr s2"
    and keep: "raw_unread_msgs s' = raw_unread_msgs s2"
    by (auto simp: apply_update_message_flags_event_def res_simps has_key_def when_present_def split: if_splits
        dest!: keeps_unreadD [OF keeps_on_list])
  consider (add) "?read \<and> map_of event ''op'' = Some (PStr ''add'')" | (rem) "?read \<and> map_of event ''op'' = Some (PStr ''remove'')"
    | (none) "\<not> (?read \<and> map_of event ''op'' = Some (PStr ''add''))" "\<not> (?read \<and> map_of event ''op'' = Some (PStr ''remove''))"
    by blast
  then show ?thesis
  proof cases
    case add
    then obtain ids where "int_list_at event ''messages'' = Inr ids"
      "raw_unread_msgs s' = Some (fold remove_message_id_from_unread_mgs ids u)"
      using s1 s2 keep u(1) by (auto simp: on_unread_Some res_simps)
    then show ?thesis
      using fold_remove [OF u(2), of ids] add ty by (simp add: refined_def unread_step_def named_ids_def)
  next
    case rem
    then obtain ds u' where ds: "marked event = ds" "raw_unread_msgs s' = Some u'"
      "u' = fold (\<lambda>(m, d). add_message_to_unread_msgs (my_id reg) m d) ds u"
      using s1 s2 keep u(1) by (auto simp: on_unread_Some res_simps mark_parse marked_def)
    have "\<exists>e. details_entry (my_id reg) d = Some e \<and> fits (view u) m e" if "(m, d) \<in> set ds" for m d
      using ok ty that ds(1) by (fastforce simp: unread_ok_def list_all_iff split: option.splits)
    moreover have "distinct (map fst ds)" using ok ty ds(1) by (simp add: unread_ok_def)
    moreover have "muted_stream_ids (fold (\<lambda>(m, d). add_message_to_unread_msgs (my_id reg) m d) xs t) = muted_stream_ids t"
      for xs t
    proof (induction xs arbitrary: t)
      case (Cons x xs)
      obtain m d where x: "x = (m, d)" by fastforce
      have "muted_stream_ids (add_message_to_unread_msgs (my_id reg) m d t) = muted_stream_ids t"
        by (cases "details_entry (my_id reg) d") (auto simp: details_enter)
      with Cons x show ?case by simp
    qed simp
    ultimately show ?thesis
      using fold_details [OF u(2), of ds "my_id reg"] rem ty ds by (simp add: refined_def unread_step_def)
  next
    case none
    then show ?thesis using s1 s2 keep u ty by (auto simp: refined_def unread_step_def)
  qed
qed


lemma keeps_other [keeps]: "keeps_unread (apply_other_event db reg ty event)"
  unfolding apply_other_event_def [abs_def] by (intro keeps)

lemma event_refined:
  assumes u: "raw_unread_msgs s = Some u" "wf_unread u" and ok: "unread_ok db reg (muted_stream_ids u) event (view u)"
    and s': "apply_event db reg event s = Inr s'"
  shows "refined db reg event u s'"
proof -
  from s' obtain ty where ty: "map_of event ''type'' = Some (PStr ty)" by (auto simp: apply_event_def res_simps text_at_Inr)
  consider "ty = ''message''" | "ty = ''update_message''" | "ty = ''delete_message''" | "ty = ''update_message_flags''"
    | (other) "ty \<notin> {''message'', ''update_message'', ''delete_message'', ''update_message_flags''}" by blast
  then show ?thesis
  proof cases
    case other
    then have "apply_other_event db reg ty event s = Inr s'"
      using s' ty by (auto simp: apply_event_def text_at_def getk_def)
    then have "raw_unread_msgs s' = Some u" using keeps_unreadD [OF keeps_other] u(1) by metis
    with other u(2) ty show ?thesis by (simp add: refined_def unread_step_def)
  qed (use arrival_refined [OF _ u ok] move_refined [OF _ u] delete_refined [OF _ u] flags_refined [OF _ u ok] s' ty
      in \<open>auto simp: apply_event_def text_at_def getk_def\<close>)
qed

definition selected :: "string list option \<Rightarrow> dict list \<Rightarrow> dict list" where
  "selected types = filter (\<lambda>event. case types of
     None \<Rightarrow> True
   | Some types \<Rightarrow> (case map_of event ''type'' of Some (PStr ty) \<Rightarrow> ty \<in> set types | _ \<Rightarrow> False))"

fun run_ok :: "database \<Rightarrow> registration \<Rightarrow> int set \<Rightarrow> dict list \<Rightarrow> unread_view \<Rightarrow> bool" where
  "run_ok db reg muted [] v = True"
| "run_ok db reg muted (e # es) v =
     (unread_ok db reg muted e v \<and> run_ok db reg muted es (unread_step db reg muted e v))"

lemma apply_events_selected:
  "apply_events db reg types events s = Inr s' \<Longrightarrow> efold (apply_event db reg) (selected types events) s = Inr s'"
proof (cases types)
  case None
  assume "apply_events db reg types events s = Inr s'"
  moreover have "selected None events = events" by (simp add: selected_def)
  ultimately show ?thesis using None by (simp add: apply_events_def)
next
  case (Some ts)
  assume "apply_events db reg types events s = Inr s'"
  then show ?thesis
    unfolding apply_events_def Some
  proof (induction events arbitrary: s)
    case Nil
    then show ?case by (simp add: selected_def)
  next
    case (Cons e es)
    then show ?case by (auto simp: selected_def res_simps text_at_Inr split: if_splits)
  qed
qed

lemma events_refined:
  assumes "raw_unread_msgs s = Some u" and "wf_unread u"
    and "run_ok db reg (muted_stream_ids u) (selected types events) (view u)"
    and "apply_events db reg types events s = Inr s'"
  shows "\<exists>u'. raw_unread_msgs s' = Some u' \<and> wf_unread u' \<and>
    view u' = fold (unread_step db reg (muted_stream_ids u)) (selected types events) (view u)"
proof -
  have "\<exists>u'. raw_unread_msgs s' = Some u' \<and> wf_unread u' \<and> muted_stream_ids u' = muted_stream_ids u \<and>
      view u' = fold (unread_step db reg (muted_stream_ids u)) es (view u)"
    if "efold (apply_event db reg) es s = Inr s'" "raw_unread_msgs s = Some u" "wf_unread u"
      "run_ok db reg (muted_stream_ids u) es (view u)" for es s u
    using that
  proof (induction es arbitrary: s u)
    case Nil
    then show ?case by simp
  next
    case (Cons e es)
    from Cons.prems(1) obtain t where t: "apply_event db reg e s = Inr t" "efold (apply_event db reg) es t = Inr s'"
      by (auto simp: res_simps)
    with event_refined [OF Cons.prems(2,3) _ t(1)] Cons.prems(4) obtain w where
      w: "raw_unread_msgs t = Some w" "wf_unread w" "muted_stream_ids w = muted_stream_ids u"
        "view w = unread_step db reg (muted_stream_ids u) e (view u)"
      by (auto simp: refined_def)
    from Cons.IH [OF t(2) w(1,2)] w(3,4) Cons.prems(4) show ?case by simp
  qed
  from this [OF apply_events_selected [OF assms(4)] assms(1,2,3)] show ?thesis by blast
qed

text \<open>
  C4. The unread messages of a registering client.  If \<open>apply_events\<close> succeeds on a state whose
  unread data is well formed, the new data is well formed and stands for exactly the map that
  the specification computes from the old one and the events of the fetched types, in their
  order: unread messages that arrive, moves, reads, deletions and messages marked unread.  The
  events may repeat messages that were already fetched.  No other event, of the more than thirty
  types, touches the unread messages.
\<close>

theorem unread_refines:
  assumes "raw_unread_msgs s = Some u" and "wf_unread u"
    and "run_ok db reg (muted_stream_ids u) (selected types events) (view u)"
    and "apply_events db reg types events s = Inr s'"
  shows "\<exists>u'. raw_unread_msgs s' = Some u' \<and> wf_unread u' \<and>
    view u' = fold (unread_step db reg (muted_stream_ids u)) (selected types events) (view u)"
  using assms by (rule events_refined)

definition sample_arrival :: dict where
  "sample_arrival = [(''type'', PStr ''message''), (''flags'', PList [PStr ''mentioned'']),
     (''message'', PDict [(''id'', PInt 10), (''type'', PStr ''stream''), (''stream_id'', PInt 5), (''subject'', PStr ''a'')])]"

definition sample_move :: dict where
  "sample_move = [(''type'', PStr ''update_message''), (''subject'', PStr ''b''), (''message_ids'', PList [PInt 10, PInt 11])]"

definition sample_state :: reg_state where
  "sample_state = \<lparr>st = [(''max_message_id'', PInt 8)], raw_users = None, raw_unread_msgs = Some empty_unread, raw_recents = None\<rparr>"

theorem unread_refines_witness:
  "\<exists>s' u'. apply_events sample_db sample_reg None [sample_arrival, sample_move] sample_state = Inr s' \<and>
     raw_unread_msgs s' = Some u' \<and> view u' 10 = Some (InChannel 5 ''b'' True, True) \<and> view u' 11 = None"
proof -
  have e: "view empty_unread m = None" for m by (simp add: view_def place_of_def empty_unread_def)
  have m: "muted_stream_ids empty_unread = {}" by (simp add: empty_unread_def)
  have arr: "arriving sample_db sample_reg {} sample_arrival = Some (10, InChannel 5 ''a'' True, True)"
    by (simp add: arriving_def sample_arrival_def dict_at_def list_at_def int_at_def text_at_def getk_def strings_def
        message_place_def topic_unmuted_def sample_db_def)
  have s: "selected None [sample_arrival, sample_move] = [sample_arrival, sample_move]" by (simp add: selected_def)
  have ty: "map_of sample_arrival ''type'' = Some (PStr ''message'')" "map_of sample_move ''type'' = Some (PStr ''update_message'')"
    by (simp_all add: sample_arrival_def sample_move_def)
  have ok: "run_ok sample_db sample_reg (muted_stream_ids empty_unread) (selected None [sample_arrival, sample_move]) (view empty_unread)"
    by (simp add: s m unread_ok_def ty arr fits_def e)
  have "\<exists>s'. apply_events sample_db sample_reg None [sample_arrival, sample_move] sample_state = Inr s'"
    by (simp add: apply_events_def apply_event_def text_at_def getk_def ty apply_message_event_def sample_state_def int_at_def
        dict_at_def note_unread_def put_def list_at_def strings_def apply_unread_message_event_def note_first_message_def
        when_present_def has_key_def apply_update_message_event_def on_unread_def int_list_at_def as_py_int_def
        sample_arrival_def sample_move_def)
  then obtain s' where s': "apply_events sample_db sample_reg None [sample_arrival, sample_move] sample_state = Inr s'" ..
  have "raw_unread_msgs sample_state = Some empty_unread" "wf_unread empty_unread"
    by (simp_all add: sample_state_def empty_unread_def wf_unread_def)
  from unread_refines [OF this ok s'] obtain u' where "raw_unread_msgs s' = Some u'"
    "view u' = fold (unread_step sample_db sample_reg {}) [sample_arrival, sample_move] (view empty_unread)"
    by (auto simp: m s)
  with s' show ?thesis
    by (simp add: unread_step_def ty arr e named_ids_def sample_move_def int_list_at_def list_at_def getk_def as_py_int_def)
qed


end
