(* ===== verification/Register.thy ===== *)
theory Register
  imports Sharding RegisterEvents
begin

text \<open>
  Registration as a whole (\<open>do_events_register\<close> of \<^verbatim>\<open>zerver/lib/events.py\<close>): a queue is allocated,
  the initial data is fetched, and the events that came in meanwhile are applied to it.

  The fetching is a parameter: a program that reads the database while the Tornado process, the
  model's world, goes on.  So are the database as \<open>apply_event\<close> sees it and the ids the process
  gives out.
\<close>

record register_request =
  r_apply_markdown :: bool
  r_client_gravatar :: bool
  r_slim_presence :: bool
  r_presence_last_update_id :: "int option"
  r_event_types :: "string list option"
  r_queue_lifespan_secs :: int
  r_all_public_streams :: bool
  r_include_subscribers :: bool
  r_include_streams :: bool
  r_client_capabilities :: "(string \<times> bool) list"
  r_narrow :: "narrow_term list"
  r_fetch_event_types :: "string list option"
  r_pronouns_field_type_supported :: bool
  r_sender_apply_raw_content :: "string list option"

definition capability :: "register_request \<Rightarrow> string \<Rightarrow> bool" where
  "capability rq k = get_or (r_client_capabilities rq) k False"

text \<open>\<open>event_types_set\<close>, what is fetched.\<close>

definition fetched_types :: "register_request \<Rightarrow> string list option" where
  "fetched_types rq = (case r_fetch_event_types rq of Some ts \<Rightarrow> Some ts | None \<Rightarrow> r_event_types rq)"

text \<open>The arguments of \<open>request_event_queue\<close>; an entry that is not sent has the default of the view.\<close>

definition options_of :: "register_request \<Rightarrow> queue_options" where
  "options_of rq = \<lparr>o_event_types = r_event_types rq, o_apply_markdown = r_apply_markdown rq,
     o_client_gravatar = r_client_gravatar rq, o_slim_presence = r_slim_presence rq,
     o_all_public_streams = r_all_public_streams rq,
     o_narrow = map (\<lambda>nt. [operator nt, operand nt]) (r_narrow rq), o_lifespan_secs = r_queue_lifespan_secs rq,
     o_bulk_message_deletion = capability rq ''bulk_message_deletion'',
     o_stream_typing_notifications = capability rq ''stream_typing_notifications'',
     o_user_settings_object = capability rq ''user_settings_object'',
     o_pronouns_field_type_supported = r_pronouns_field_type_supported rq,
     o_linkifier_url_template = capability rq ''linkifier_url_template'',
     o_user_list_incomplete = capability rq ''user_list_incomplete'',
     o_sender_apply_raw_content = (case r_sender_apply_raw_content rq of None \<Rightarrow> [] | Some ts \<Rightarrow> ts)\<rparr>"

definition registration_of :: "user_profile \<Rightarrow> int \<Rightarrow> register_request \<Rightarrow> registration" where
  "registration_of u recipient rq = registration.make (profile_id u) recipient (r_client_gravatar rq)
     (r_slim_presence rq) (r_include_subscribers rq) (capability rq ''linkifier_url_template'')
     (capability rq ''user_list_incomplete'')"

text \<open>
  The arguments of \<open>fetch_initial_state_data\<close> that differ between the two calls: the event types
  and the queue.  The rest are entries of the request.
\<close>

type_synonym fetch = "string list option \<Rightarrow> string option \<Rightarrow> (world, reg_state) prog"

definition spectator_register :: "database \<Rightarrow> fetch \<Rightarrow> register_request \<Rightarrow> (world, initial_data) prog" where
  "spectator_register db fetch rq =
     seq (lift (py_assert (\<not> r_client_gravatar rq)))
    (seq (lift (py_assert (\<not> r_include_subscribers rq)))
    (seq (lift (py_assert (\<not> r_include_streams rq)))
    (bnd (fetch (fetched_types rq) None) (\<lambda>s. lift (post_process_state db False s)))))"

definition event_dict :: "qevent \<Rightarrow> dict" where
  "event_dict e = dset ''id'' (PInt (ev_id e)) (ev_body e)"

definition user_register :: "deployment \<Rightarrow> string \<Rightarrow> real \<Rightarrow> string \<Rightarrow> realm \<Rightarrow> database \<Rightarrow> fetch \<Rightarrow>
    user_profile \<Rightarrow> int \<Rightarrow> string \<Rightarrow> register_request \<Rightarrow> (world, initial_data) prog" where
  "user_register cfg host now uuid r db fetch u recipient user_client rq =
     bnd (request_event_queue cfg host now uuid r u user_client (options_of rq)) (\<lambda>qid.
     case qid of
       None \<Rightarrow> raise (JsonableError ''Could not allocate event queue'')
     | Some q \<Rightarrow>
         bnd (fetch (fetched_types rq) (Some q)) (\<lambda>s.
         bnd (get_user_events cfg host now uuid r u q (-1)) (\<lambda>events.
         bnd (lift (apply_events db (registration_of u recipient rq) (r_fetch_event_types rq)
                      (map event_dict events) s)) (\<lambda>s.
         bnd (lift (post_process_state db (capability rq ''notification_settings_null'') s)) (\<lambda>ret_data.
         ret (ret_data\<lparr>reply := dset ''last_event_id''
                (PInt (if events \<noteq> [] then ev_id (last events) else -1)) (reply ret_data)\<rparr>))))))"

definition do_events_register :: "deployment \<Rightarrow> string \<Rightarrow> real \<Rightarrow> string \<Rightarrow> realm \<Rightarrow> database \<Rightarrow> fetch \<Rightarrow>
    user_profile option \<Rightarrow> int \<Rightarrow> string \<Rightarrow> register_request \<Rightarrow> (world, initial_data) prog" where
  "do_events_register cfg host now uuid r db fetch user recipient user_client rq =
     seq (lift (check_narrow_for_events (r_narrow rq)))
       (case user of
          None \<Rightarrow> spectator_register db fetch rq
        | Some u \<Rightarrow> user_register cfg host now uuid r db fetch u recipient user_client rq)"

section \<open>The queue between allocation and reading\<close>

definition pushed_all :: "dict list \<Rightarrow> event_queue \<Rightarrow> event_queue" where
  "pushed_all = fold (\<lambda>ev q. snd (push ev q))"

text \<open>What the registration reads: the events pushed to the new queue, compressed.\<close>

definition arrived :: "string \<Rightarrow> dict list \<Rightarrow> qevent list" where
  "arrived uuid evs = fst (contents False (pushed_all evs (new_event_queue uuid)))"

lemma pushed_all_ok:
  assumes "synced (-1) q" "newest_pruned_id q = Some (-1)" "\<forall>ev\<in>set evs. wf_event ev"
  shows "synced (-1) (pushed_all evs q) \<and> newest_pruned_id (pushed_all evs q) = Some (-1) \<and>
    facts_after (-1) (entries (pushed_all evs q)) = facts_after (-1) (entries q) + mset (concat (map facts evs))"
  using assms
proof (induction evs arbitrary: q)
  case Nil
  then show ?case by (simp add: pushed_all_def)
next
  case (Cons ev evs)
  let ?q = "snd (push ev q)"
  have n: "newest_pruned_id ?q = Some (-1)"
    using Cons.prems(2) by (simp add: push_def Let_def split: sum.split option.split prod.split)
  have "wf_queue q" "unmerged_after (-1) q" "-1 < next_event_id q"
    using Cons.prems(1) by (simp_all add: synced_def)
  with push_step [of q ev] Cons.prems(3)
  have "facts_after (-1) (entries ?q) = facts_after (-1) (entries q) + mset (facts ev)" by simp
  with Cons.IH [OF synced_push [OF Cons.prems(1)] n] Cons.prems(3) show ?case
    by (simp add: pushed_all_def)
qed

lemma entries_new [simp]: "entries (new_event_queue q) = []"
  by (simp add: new_event_queue_def entries_def merged_contents_def virtual_id_map_def)

lemma newest_pruned_new [simp]: "newest_pruned_id (new_event_queue q) = Some (-1)"
  by (simp add: new_event_queue_def)

lemma unread_all:
  assumes "synced (-1) q" "newest_pruned_id q = Some (-1)"
  shows "prune (-1) q = q"
    and "mset (concat (map snd (entries q))) = facts_after (-1) (entries q)"
proof -
  from assms have q: "wf_queue q" "unmerged_after (-1) q" "\<forall>e\<in>set (equeue q). -1 < ev_id e"
    by (auto simp: synced_def)
  have "equeue (prune (-1) q) = equeue q" using q(3) by (simp add: equeue_prune [OF q(1)])
  moreover have "newest_pruned_id (prune (-1) q) = newest_pruned_id q"
    using synced_prune(2) [OF assms(1)] assms(2) by simp
  ultimately show p: "prune (-1) q = q"
    by (cases q) (simp add: prune_def split: prod.splits)
  have "filter (\<lambda>p. -1 < fst p) (entries q) = entries q"
    using entries_prune [OF q(1,2)] p by simp
  then show "mset (concat (map snd (entries q))) = facts_after (-1) (entries q)"
    by (simp add: facts_after_def)
qed

text \<open>After reading, nothing is left that the reader has not seen.\<close>

lemma read_through:
  assumes "wf_queue q"
  shows "facts_after (last_read i (fst (contents b q))) (entries (snd (contents b q))) = {#}"
proof -
  have "last_read i (fst (contents b q)) = last_id i (entries q)"
  proof (cases "merged_contents q = []")
    case True
    then have "fst (contents b q) = []" using ids_contents [of b q] by simp
    with True show ?thesis by (simp add: last_read_def last_id_def entries_def)
  next
    case False
    then have "fst (contents b q) \<noteq> []" using ids_contents [of b q] by force
    then have "ev_id (last (fst (contents b q))) = last (map ev_id (merged_contents q))"
      by (simp add: last_map flip: ids_contents [of b q])
    with False \<open>fst (contents b q) \<noteq> []\<close> show ?thesis
      by (simp add: last_read_def last_id_def entries_def last_map entry_def)
  qed
  moreover have "entries (snd (contents b q)) = entries q"
    by (simp add: entries_def contents_def Let_def merged_contents_sorted_virtual sorted_virtual_def virtual_id_map_def)
  ultimately show ?thesis using queue_log.read_all [OF assms] by simp
qed

section \<open>The two requests\<close>

definition next_handler :: "world \<Rightarrow> world" where
  "next_handler w = w\<lparr>handlers := handlers w @ [next_handler_id w], next_handler_id := next_handler_id w + 1\<rparr>"

lemma next_handler_simps [simp]:
  "heap (next_handler w) = heap w" "clients (next_handler w) = clients w"
  by (simp_all add: next_handler_def)

lemma wf_next [simp]: "wf_world w \<Longrightarrow> wf_world (next_handler w)"
  using wf_allocate_handler [of w]
  by (simp add: allocate_handler_id_def bnd_def gets_def modify_def ret_def next_handler_def)

lemma internal_request_eq:
  "internal_request f w = (case f (Some (next_handler_id w)) (next_handler w) of
     (Inl e, w') \<Rightarrow> (Inl HTTPError, w') | (Inr x, w') \<Rightarrow> (Inr x, w'))"
  by (simp add: internal_request_def allocate_handler_id_def bnd_def gets_def modify_def ret_def raise_def
      try_except_def next_handler_def split: prod.split sum.split)

lemma get_events_internal_eq:
  assumes "get_user_tornado_port cfg host (profile_id u) = Inr port" "\<not> o_all_public_streams opts \<or> can_access_public_streams r u"
  shows "get_events_internal cfg host (Some port) now uuid r u (Some h) client li qid db opts =
    bnd (fetch_events now uuid qid db li (profile_id u)
           (if qid = None then Some (new_queue_data now r u (case client of None \<Rightarrow> ''internal'' | Some c \<Rightarrow> c) opts) else None)
           (case client of None \<Rightarrow> ''internal'' | Some c \<Rightarrow> c) h)
      (\<lambda>result. case result of FetchError e \<Rightarrow> raise e | _ \<Rightarrow> ret result)"
  using assms by (auto simp: get_events_internal_def get_events_backend_def bnd_def lift_def is_current_port_def
      fun_eq_iff split: option.split)

definition new_queue :: "string \<Rightarrow> user_profile \<Rightarrow> world \<Rightarrow> bool" where
  "new_queue q u w \<longleftrightarrow> wf_world w \<and> q \<in> set (clients w) \<and> (\<exists>c. heap w q = Some c \<and>
     user_profile_id c = profile_id u \<and> current_handler_id c = None \<and> cqueue c = new_event_queue q)"

lemma request_queue_eq:
  assumes "wf_world w" "heap w uuid = None" "USING_TORNADO cfg"
    and "get_user_tornado_port cfg host (profile_id u) = Inr port" "\<not> o_all_public_streams opts \<or> can_access_public_streams r u"
  shows "request_event_queue cfg host now uuid r u client opts w =
    (case client_from_dict ((new_queue_data now r u client opts)\<lparr>d_event_queue := queue_to_dict (new_event_queue uuid)\<rparr>) of
       Inl e \<Rightarrow> (Inl HTTPError, next_handler w)
     | Inr c \<Rightarrow> (Inr (Some uuid), registered uuid c (next_handler w)))"
proof -
  have f: "wf_world (next_handler w)" "heap (next_handler w) uuid = None" using assms(1,2) by simp_all
  show ?thesis
    using assms(3,4)
    by (simp add: request_event_queue_def bnd_def lift_def internal_request_eq get_events_internal_eq [OF assms(4,5)]
        fetch_new [OF f] raise_def ret_def split: sum.split)
qed

lemma request_queue_ok:
  assumes "wf_world w" "heap w uuid = None" "USING_TORNADO cfg"
    and "request_event_queue cfg host now uuid r u client opts w = (Inr qid, w1)"
  shows "qid = Some uuid" "new_queue uuid u w1" "\<exists>port. get_user_tornado_port cfg host (profile_id u) = Inr port"
proof -
  from assms(3,4) obtain port where p: "get_user_tornado_port cfg host (profile_id u) = Inr port"
    by (cases "get_user_tornado_port cfg host (profile_id u)") (auto simp: request_event_queue_def bnd_def lift_def)
  have a: "\<not> o_all_public_streams opts \<or> can_access_public_streams r u"
  proof (rule ccontr)
    assume "\<not> (\<not> o_all_public_streams opts \<or> can_access_public_streams r u)"
    then have "get_events_backend now uuid r u h cl client None None True opts =
        raise (JsonableError ''User not authorized for this query'')" for h cl client
      by (simp add: get_events_backend_def)
    with assms(3,4) p show False
      by (simp add: request_event_queue_def bnd_def lift_def internal_request_eq get_events_internal_def
          is_current_port_def raise_def)
  qed
  from assms(4) request_queue_eq [OF assms(1-3) p a, of now client] obtain c where
    c: "client_from_dict ((new_queue_data now r u client opts)\<lparr>d_event_queue := queue_to_dict (new_event_queue uuid)\<rparr>) = Inr c"
      "qid = Some uuid" "w1 = registered uuid c (next_handler w)" by (auto split: sum.splits)
  note new = client_from_new_dict [OF c(1)]
  have "wf_world w1" unfolding c(3)
    by (rule wf_registered) (use assms(1,2) new in \<open>simp_all add: new_event_queue_def\<close>)
  with c new show "new_queue uuid u w1"
    by (simp add: new_queue_def registered_def new_queue_data_def)
  show "qid = Some uuid" "\<exists>port. get_user_tornado_port cfg host (profile_id u) = Inr port" using c p by simp_all
qed

text \<open>What happens while the data is fetched: events are pushed to the queue, and nobody polls it.\<close>

definition meanwhile :: "string \<Rightarrow> user_profile \<Rightarrow> dict list \<Rightarrow> world \<Rightarrow> bool" where
  "meanwhile q u evs w \<longleftrightarrow> wf_world w \<and> q \<in> set (clients w) \<and> (\<exists>c. heap w q = Some c \<and>
     user_profile_id c = profile_id u \<and> current_handler_id c = None \<and> cqueue c = pushed_all evs (new_event_queue q))"

lemma no_all_public: "\<not> o_all_public_streams default_options"
  by (simp add: default_options_def)

lemma get_user_events_ok:
  assumes w: "meanwhile uuid u evs w" and "\<forall>ev\<in>set evs. wf_event ev" "USING_TORNADO cfg"
    and p: "get_user_tornado_port cfg host (profile_id u) = Inr port"
  shows "\<exists>w' c'. get_user_events cfg host now i r u uuid (-1) w = (Inr (arrived uuid evs), w') \<and> wf_world w' \<and>
    heap w' uuid = Some c' \<and> cqueue c' = snd (contents False (pushed_all evs (new_event_queue uuid)))"
proof -
  from w obtain c where wf: "wf_world w" and q: "uuid \<in> set (clients w)" "heap w uuid = Some c"
      "user_profile_id c = profile_id u" "current_handler_id c = None" "cqueue c = pushed_all evs (new_event_queue uuid)"
    by (auto simp: meanwhile_def)
  note k = pushed_all_ok [OF synced_new newest_pruned_new assms(2), of uuid]
  have s: "synced (-1) (cqueue c)" using k q(5) by simp
  have pr: "cqueue (polled (-1) c) = cqueue c"
    using unread_all(1) [of "cqueue c"] k q(4,5) by (simp add: polled_def)
  let ?w = "(poll_state uuid (-1) c (next_handler w))\<lparr>heap := (heap w)(uuid \<mapsto> merged False (polled (-1) c))\<rparr>"
  have wfn: "wf_world (next_handler w)" and qn: "uuid \<in> set (clients (next_handler w))" "heap (next_handler w) uuid = Some c"
    using wf q by simp_all
  from fetch_existing [OF wfn qn q(3) s, of now i True None "''internal''" "next_handler_id w"]
  have "get_user_events cfg host now i r u uuid (-1) w = (Inr (arrived uuid evs), ?w)"
    using assms(3) p
    by (simp add: get_user_events_def bnd_def lift_def internal_request_eq
        get_events_internal_eq [OF p] no_all_public ret_def pr arrived_def q(5))
  moreover have "wf_world ?w"
    using wf_upd [OF wf_poll_state [OF wfn qn(2), of "-1"], of uuid "polled (-1) c" "merged False (polled (-1) c)"]
    by (simp add: heap_poll_state)
  ultimately show ?thesis using pr q(5) by (simp add: merged_def)
qed

section \<open>Nothing lost, nothing twice\<close>

lemma run_register:
  assumes "user_register cfg host now uuid r db fetch u recipient client rq w = (Inr data, w')"
  obtains qid w1 s w2 events w3 s' where
    "request_event_queue cfg host now uuid r u client (options_of rq) w = (Inr (Some qid), w1)"
    "fetch (fetched_types rq) (Some qid) w1 = (Inr s, w2)"
    "get_user_events cfg host now uuid r u qid (-1) w2 = (Inr events, w3)"
    "apply_events db (registration_of u recipient rq) (r_fetch_event_types rq) (map event_dict events) s = Inr s'"
    "unread_msgs data = map_option aggregate_unread_data (raw_unread_msgs s')"
    "map_of (reply data) ''last_event_id'' = Some (PInt (last_read (-1) events))" "w' = w3"
  using assms
  by (auto simp: user_register_def bnd_def lift_def ret_def raise_def post_process_state_def res_simps last_read_def
      split: prod.splits sum.splits option.splits)

text \<open>
  C1. Registration has no gap and no overlap.  Whatever happens while the initial data is fetched,
  the unread messages the client is sent are those of the fetched data after exactly the events that
  came in meanwhile; the queue's compression of them lost none of their facts; and what the client
  learns by polling with the \<open>last_event_id\<close> it is sent are only later events: its queue is in step
  with that id and holds no fact beyond it.
\<close>

theorem register_no_gap:
  assumes "wf_world w" "heap w uuid = None" "USING_TORNADO cfg"
    and fetch: "\<And>w1. new_queue uuid usr w1 \<Longrightarrow>
      \<exists>w2. fetch (fetched_types rq) (Some uuid) w1 = (Inr s, w2) \<and> meanwhile uuid usr evs w2"
    and evs: "\<And>ev. ev \<in> set evs \<Longrightarrow> wf_event ev"
    and u: "raw_unread_msgs s = Some u" "wf_unread u"
    and ok: "run_ok db (registration_of usr recipient rq) (muted_stream_ids u)
      (selected (r_fetch_event_types rq) (map event_dict (arrived uuid evs))) (view u)"
    and run: "do_events_register cfg host now uuid r db fetch (Some usr) recipient client rq w = (Inr data, w')"
  shows "(\<exists>u'. unread_msgs data = Some (aggregate_unread_data u') \<and> wf_unread u' \<and>
      view u' = fold (unread_step db (registration_of usr recipient rq) (muted_stream_ids u))
        (selected (r_fetch_event_types rq) (map event_dict (arrived uuid evs))) (view u)) \<and>
    mset (concat (map snd (entries (pushed_all evs (new_event_queue uuid))))) = mset (concat (map facts evs)) \<and>
    (\<exists>i c'. map_of (reply data) ''last_event_id'' = Some (PInt i) \<and> i = last_read (-1) (arrived uuid evs) \<and>
      wf_world w' \<and> heap w' uuid = Some c' \<and> synced i (cqueue c') \<and> facts_after i (entries (cqueue c')) = {#})"
proof -
  let ?reg = "registration_of usr recipient rq" and ?q = "pushed_all evs (new_event_queue uuid)"
  have "user_register cfg host now uuid r db fetch usr recipient client rq w = (Inr data, w')"
    using run by (auto simp: do_events_register_def bnd_def lift_def split: sum.splits)
  then obtain qid w1 s1 w2 events w3 s' where steps:
    "request_event_queue cfg host now uuid r usr client (options_of rq) w = (Inr (Some qid), w1)"
    "fetch (fetched_types rq) (Some qid) w1 = (Inr s1, w2)"
    "get_user_events cfg host now uuid r usr qid (-1) w2 = (Inr events, w3)"
    "apply_events db ?reg (r_fetch_event_types rq) (map event_dict events) s1 = Inr s'"
    "unread_msgs data = map_option aggregate_unread_data (raw_unread_msgs s')"
    "map_of (reply data) ''last_event_id'' = Some (PInt (last_read (-1) events))" "w' = w3"
    by (rule run_register)
  note q = request_queue_ok [OF assms(1-3) steps(1)]
  from q(1) have qid: "qid = uuid" by simp
  from q(3) obtain port where p: "get_user_tornado_port cfg host (profile_id usr) = Inr port" by blast
  from fetch [OF q(2)] steps(2) have f: "s1 = s" "meanwhile uuid usr evs w2" by (auto simp: qid)
  from get_user_events_ok [OF f(2) _ assms(3) p, of now uuid r] evs steps(3) obtain c' where
    c': "events = arrived uuid evs" "wf_world w3" "heap w3 uuid = Some c'" "cqueue c' = snd (contents False ?q)"
    by (auto simp: qid)
  from events_refined [OF u ok] steps(4) f(1) c'(1) obtain u' where
    u': "raw_unread_msgs s' = Some u'" "wf_unread u'"
      "view u' = fold (unread_step db ?reg (muted_stream_ids u))
        (selected (r_fetch_event_types rq) (map event_dict (arrived uuid evs))) (view u)" by blast
  have k: "synced (-1) ?q" "newest_pruned_id ?q = Some (-1)"
    "facts_after (-1) (entries ?q) = mset (concat (map facts evs))"
    using pushed_all_ok [OF synced_new newest_pruned_new, of evs uuid] evs by (simp_all add: facts_after_def)
  from synced_contents(2) [OF k(1), of False] have "synced (last_read (-1) (arrived uuid evs)) (cqueue c')"
    by (simp add: c'(4) arrived_def)
  moreover have "facts_after (last_read (-1) (arrived uuid evs)) (entries (cqueue c')) = {#}"
    using read_through [of ?q "-1" False] k(1) by (simp add: c'(4) arrived_def synced_def)
  moreover have "mset (concat (map snd (entries ?q))) = mset (concat (map facts evs))"
    using unread_all(2) [OF k(1,2)] k(3) by simp
  ultimately show ?thesis using steps(5-7) u' c' by auto
qed

section \<open>A registration during which a message arrives\<close>

definition sample_fetch :: fetch where
  "sample_fetch types q = (case q of
     None \<Rightarrow> ret sample_state
   | Some q \<Rightarrow> seq (add_event q sample_arrival) (ret sample_state))"

definition sample_request :: register_request where
  "sample_request = \<lparr>r_apply_markdown = True, r_client_gravatar = False, r_slim_presence = True,
     r_presence_last_update_id = None, r_event_types = None, r_queue_lifespan_secs = 0,
     r_all_public_streams = False, r_include_subscribers = False, r_include_streams = True,
     r_client_capabilities = [(''linkifier_url_template'', True)], r_narrow = [], r_fetch_event_types = None,
     r_pronouns_field_type_supported = True, r_sender_apply_raw_content = None\<rparr>"

lemma sample_wf_event: "wf_event sample_arrival"
  by (simp add: wf_event_iff compute_full_event_type_def sample_arrival_def str_at_def getk_def
      compressible_def startswith_def)

lemma sample_fetch_meanwhile:
  assumes "new_queue q u w"
  shows "\<exists>w2. sample_fetch ts (Some q) w = (Inr sample_state, w2) \<and> meanwhile q u [sample_arrival] w2"
proof -
  from assms obtain c where w: "wf_world w" "q \<in> set (clients w)" "heap w q = Some c" "user_profile_id c = profile_id u"
    "current_handler_id c = None" "cqueue c = new_event_queue q" by (auto simp: new_queue_def)
  have "wf_queue (new_event_queue q)" using synced_new [of q] by (simp add: synced_def)
  with push_step [OF _ sample_wf_event] have "fst (push sample_arrival (cqueue c)) = Inr ()" by (simp add: w(6))
  note a = add_event_eq [OF w(1,3) this]
  have "wf_world (added q sample_arrival c w)" using wf_add_event [OF w(1,3), of sample_arrival] a by simp
  with w a have "meanwhile q u [sample_arrival] (added q sample_arrival c w)"
    by (auto simp: meanwhile_def added_def heap_finished pushed_client_def pushed_all_def)
  with a show ?thesis by (simp add: sample_fetch_def bnd_run) (simp add: ret_def)
qed

lemma sample_arrived: "arrived q [sample_arrival] = [\<lparr>ev_id = 0, ev_body = sample_arrival\<rparr>]"
proof -
  have "push sample_arrival (new_event_queue q) =
    (Inr (), (new_event_queue q)\<lparr>next_event_id := 1, equeue := [\<lparr>ev_id = 0, ev_body = sample_arrival\<rparr>]\<rparr>)"
    by (simp add: push_def compute_full_event_type_def sample_arrival_def str_at_def getk_def new_event_queue_def
        compressible_def startswith_def Let_def)
  then show ?thesis
    by (simp add: arrived_def pushed_all_def contents_def merged_contents_def virtual_id_map_def new_event_queue_def
        prune_internal_data_def Let_def has_key_def sample_arrival_def)
qed

theorem register_no_gap_witness:
  "\<exists>data w' u'. do_events_register sample_deployment ''zulip.example'' 0 ''u'' sample_realm sample_db sample_fetch
      (Some sample_user) 109 ''website'' sample_request init_world = (Inr data, w') \<and>
     map_of (reply data) ''last_event_id'' = Some (PInt 0) \<and>
     unread_msgs data = Some (aggregate_unread_data u') \<and> view u' 10 = Some (InChannel 5 ''a'' True, True)"
proof -
  let ?opts = "options_of sample_request" and ?reg = "registration_of sample_user 109 sample_request"
  let ?run = "do_events_register sample_deployment ''zulip.example'' 0 ''u'' sample_realm sample_db sample_fetch
      (Some sample_user) 109 ''website'' sample_request init_world"
  let ?ev = "event_dict \<lparr>ev_id = 0, ev_body = sample_arrival\<rparr>"
  have reg: "my_id ?reg = 9" by (simp add: registration_of_def registration.make_def sample_user_def)
  have w: "wf_world init_world" "heap init_world ''u'' = None" "USING_TORNADO sample_deployment"
    by (simp add: wf_init_world, simp add: init_world_def, simp add: sample_deployment_def)
  have p: "get_user_tornado_port sample_deployment ''zulip.example'' (profile_id sample_user) = Inr 9802"
    by (simp add: get_user_tornado_port_def sample_ports get_user_id_tornado_port_def sample_user_def)
  have "\<exists>c. client_from_dict ((new_queue_data 0 sample_realm sample_user ''website'' ?opts)
      \<lparr>d_event_queue := queue_to_dict (new_event_queue ''u'')\<rparr>) = Inr c"
    by (simp add: client_from_dict_def new_queue_data_def options_of_def sample_request_def client_type_of_def
        narrow_dataclasses_from_tuples_def check_narrow_for_events_def)
  then obtain w1 where w1: "request_event_queue sample_deployment ''zulip.example'' 0 ''u'' sample_realm sample_user
      ''website'' ?opts init_world = (Inr (Some ''u''), w1)"
    using request_queue_eq [OF w p, of ?opts sample_realm 0 "''website''"]
    by (auto simp: options_of_def sample_request_def)
  note q = request_queue_ok(2) [OF w w1]
  from sample_fetch_meanwhile [OF q, of "fetched_types sample_request"] obtain w2 where
    w2: "sample_fetch (fetched_types sample_request) (Some ''u'') w1 = (Inr sample_state, w2)"
      "meanwhile ''u'' sample_user [sample_arrival] w2" by blast
  from get_user_events_ok [OF w2(2) _ w(3) p, of 0 "''u''" sample_realm] obtain w3 where
    w3: "get_user_events sample_deployment ''zulip.example'' 0 ''u'' sample_realm sample_user ''u'' (-1) w2 =
      (Inr [\<lparr>ev_id = 0, ev_body = sample_arrival\<rparr>], w3)"
    by (auto simp: sample_wf_event sample_arrived)
  have ty: "map_of ?ev ''type'' = Some (PStr ''message'')"
    by (simp add: event_dict_def sample_arrival_def)
  have "\<exists>s'. apply_events sample_db ?reg None [?ev] sample_state = Inr s' \<and> raw_users s' = None \<and> raw_recents s' = None \<and>
      \<not> has_key (st s') ''subscriptions''"
    by (simp add: apply_events_def apply_event_def text_at_def getk_def ty apply_message_event_def sample_state_def int_at_def
        dict_at_def note_unread_def put_def list_at_def strings_def apply_unread_message_event_def note_first_message_def
        when_present_def has_key_def event_dict_def sample_arrival_def reg)
  then obtain s' where s': "apply_events sample_db ?reg None [?ev] sample_state = Inr s'"
    "raw_users s' = None" "raw_recents s' = None" "\<not> has_key (st s') ''subscriptions''" by blast
  have rq: "r_narrow sample_request = []" "r_fetch_event_types sample_request = None"
    by (simp_all add: sample_request_def)
  have "\<exists>data w'. ?run = (Inr data, w')"
    using s' by (simp add: do_events_register_def user_register_def bnd_def lift_def check_narrow_for_events_def w1 w2(1) w3
        ret_def post_process_state_def rq)
  then obtain data w' where run: "?run = (Inr data, w')" by blast
  have m: "muted_stream_ids empty_unread = {}" by (simp add: empty_unread_def)
  have e: "view empty_unread m = None" for m by (simp add: view_def place_of_def empty_unread_def)
  have arr: "arriving sample_db ?reg {} ?ev = Some (10, InChannel 5 ''a'' True, True)"
    by (simp add: arriving_def event_dict_def sample_arrival_def dict_at_def list_at_def int_at_def text_at_def getk_def
        strings_def message_place_def topic_unmuted_def sample_db_def reg)
  have sel: "selected (r_fetch_event_types sample_request) (map event_dict (arrived ''u'' [sample_arrival])) = [?ev]"
    by (simp add: selected_def sample_request_def sample_arrived)
  have ok: "run_ok sample_db ?reg (muted_stream_ids empty_unread)
      (selected (r_fetch_event_types sample_request) (map event_dict (arrived ''u'' [sample_arrival]))) (view empty_unread)"
    unfolding sel by (simp add: m unread_ok_def ty arr fits_def e)
  have u: "raw_unread_msgs sample_state = Some empty_unread" "wf_unread empty_unread"
    by (simp_all add: sample_state_def empty_unread_def wf_unread_def)
  have ev: "ev \<in> set [sample_arrival] \<Longrightarrow> wf_event ev" for ev by (simp add: sample_wf_event)
  from register_no_gap [OF w sample_fetch_meanwhile ev u ok run] obtain u' where
    "unread_msgs data = Some (aggregate_unread_data u')" "map_of (reply data) ''last_event_id'' = Some (PInt 0)"
    "view u' = unread_step sample_db ?reg {} ?ev (view empty_unread)"
    by (auto simp: m sample_arrived last_read_def sel [unfolded sample_arrived, simplified])
  with run show ?thesis by (auto simp: unread_step_def ty arr e)
qed

end
