(* ===== verification/TopicPolicies.thy ===== *)
theory TopicPolicies
  imports NotificationData
begin

text \<open>
  The visibility policy a user has for a topic and how sending, reacting, voting and being
  mentioned change it (\<^verbatim>\<open>zerver/lib/message.py\<close>, \<^verbatim>\<open>zerver/actions/message_send.py\<close>,
  \<^verbatim>\<open>zerver/actions/reactions.py\<close>).  The rows of \<^verbatim>\<open>UserTopic\<close> for one topic are a map from
  users to policies; whether the topic has older messages the sender can access, a query, is an
  argument.
\<close>

datatype when_to_change = ON_PARTICIPATION | ON_SEND | ON_INITIATION | NEVER

record topic_user =
  tu_id :: int
  tu_is_bot :: bool
  follow_policy :: when_to_change
  unmute_policy :: when_to_change
  follow_where_mentioned :: bool

section \<open>The policies for one action\<close>

definition visibility_policy_for_participation :: "topic_user \<Rightarrow> bool option \<Rightarrow> visibility_policy option" where
  "visibility_policy_for_participation sender is_stream_muted =
     (if follow_policy sender = ON_PARTICIPATION then Some FOLLOWED
      else if is_stream_muted = Some True \<and> unmute_policy sender = ON_PARTICIPATION then Some UNMUTED
      else None)"

definition visibility_policy_for_send :: "topic_user \<Rightarrow> bool option \<Rightarrow> visibility_policy option" where
  "visibility_policy_for_send sender is_stream_muted =
     (if follow_policy sender = ON_SEND then Some FOLLOWED
      else if is_stream_muted = Some True \<and> unmute_policy sender = ON_SEND then Some UNMUTED
      else None)"

definition visibility_policy_for_send_message ::
    "topic_user \<Rightarrow> bool option \<Rightarrow> visibility_policy \<Rightarrow> bool \<Rightarrow> visibility_policy option" where
  "visibility_policy_for_send_message sender is_stream_muted current has_older =
     (if current = FOLLOWED then None
      else let both = {visibility_policy_for_participation sender is_stream_muted,
                       visibility_policy_for_send sender is_stream_muted}
           in if Some FOLLOWED \<in> both then Some FOLLOWED
              else let new = (if Some UNMUTED \<in> both then Some UNMUTED else None)
                   in if current \<noteq> INHERIT then (if new = Some current then None else new)
                      else if follow_policy sender = ON_INITIATION \<and> \<not> has_older then Some FOLLOWED
                      else if is_stream_muted = Some True \<and> unmute_policy sender = ON_INITIATION \<and> \<not> has_older
                      then Some UNMUTED
                      else new)"

definition should_change_visibility_policy :: "visibility_policy \<Rightarrow> visibility_policy option \<Rightarrow> bool" where
  "should_change_visibility_policy new row = (case row of
     None \<Rightarrow> True
   | Some current \<Rightarrow> if new = current then False else if current = FOLLOWED then False else True)"

definition set_visibility_policy_possible :: "topic_user \<Rightarrow> bool \<Rightarrow> bool \<Rightarrow> bool" where
  "set_visibility_policy_possible user is_stream_message same_realm =
     (if \<not> is_stream_message then False
      else if tu_is_bot user then False
      else if \<not> same_realm then False
      else True)"

section \<open>The actions on the rows of a topic\<close>

type_synonym topic_rows = "int \<Rightarrow> visibility_policy option"

definition effective :: "topic_rows \<Rightarrow> int \<Rightarrow> visibility_policy" where
  "effective rows u = (case rows u of None \<Rightarrow> INHERIT | Some p \<Rightarrow> p)"

definition sender_policy :: "topic_user \<Rightarrow> bool \<Rightarrow> bool option \<Rightarrow> bool \<Rightarrow> topic_rows \<Rightarrow> topic_rows" where
  "sender_policy sender same_realm muted has_older rows =
     (if set_visibility_policy_possible sender True same_realm \<and> \<not> (follow_policy sender = NEVER \<and> unmute_policy sender = NEVER)
      then (case visibility_policy_for_send_message sender muted (effective rows (tu_id sender)) has_older of
              None \<Rightarrow> rows
            | Some p \<Rightarrow> rows(tu_id sender \<mapsto> p))
      else rows)"

text \<open>The mentioned users with the setting who have not muted or followed the topic follow it.\<close>

definition follow_mentioned :: "topic_user list \<Rightarrow> topic_rows \<Rightarrow> topic_rows" where
  "follow_mentioned mentioned rows =
     (let expect = filter (\<lambda>u. \<not> tu_is_bot u \<and> follow_where_mentioned u) mentioned;
          to_follow = filter (\<lambda>u. rows (tu_id u) \<notin> {Some MUTED, Some FOLLOWED}) expect
      in fold (\<lambda>u rows. rows(tu_id u \<mapsto> FOLLOWED)) to_follow rows)"

definition send_policies :: "topic_user \<Rightarrow> bool \<Rightarrow> bool option \<Rightarrow> bool \<Rightarrow> topic_user list \<Rightarrow> topic_rows \<Rightarrow> topic_rows" where
  "send_policies sender same_realm muted has_older mentioned rows =
     follow_mentioned mentioned (sender_policy sender same_realm muted has_older rows)"

text \<open>A reaction; \<open>sub\<close> is the mute of the user's subscription, if there is one.\<close>

definition participation_policy :: "topic_user \<Rightarrow> bool \<Rightarrow> bool \<Rightarrow> bool option \<Rightarrow> topic_rows \<Rightarrow> topic_rows" where
  "participation_policy user is_stream_message same_realm sub rows =
     (if set_visibility_policy_possible user is_stream_message same_realm \<and>
         (follow_policy user = ON_PARTICIPATION \<or> unmute_policy user = ON_PARTICIPATION)
      then (case sub of
              None \<Rightarrow> rows
            | Some is_muted \<Rightarrow>
                (case visibility_policy_for_participation user (Some is_muted) of
                   None \<Rightarrow> rows
                 | Some p \<Rightarrow> if should_change_visibility_policy p (rows (tu_id user)) then rows(tu_id user \<mapsto> p) else rows))
      else rows)"

section \<open>The contract\<close>

text \<open>Policies by how visible they make a topic.\<close>

fun visibility :: "visibility_policy \<Rightarrow> nat" where
  "visibility MUTED = 0"
| "visibility INHERIT = 1"
| "visibility UNMUTED = 2"
| "visibility FOLLOWED = 3"

text \<open>
  Sending a message is sending and participating, and initiating the topic when it has no older
  message and the user has set no policy.  A policy of the user that asks for one of these takes
  effect if it makes the topic more visible, following before unmuting.
\<close>

definition occasions :: "visibility_policy \<Rightarrow> bool \<Rightarrow> when_to_change set" where
  "occasions current has_older =
     {ON_SEND, ON_PARTICIPATION} \<union> (if current = INHERIT \<and> \<not> has_older then {ON_INITIATION} else {})"

definition wanted :: "topic_user \<Rightarrow> bool option \<Rightarrow> when_to_change set \<Rightarrow> visibility_policy option" where
  "wanted user muted W =
     (if follow_policy user \<in> W then Some FOLLOWED
      else if muted = Some True \<and> unmute_policy user \<in> W then Some UNMUTED
      else None)"

definition raise_to :: "visibility_policy \<Rightarrow> visibility_policy option \<Rightarrow> visibility_policy" where
  "raise_to current p = (case p of Some new \<Rightarrow> if visibility current < visibility new then new else current | None \<Rightarrow> current)"

lemma send_message_spec:
  "(case visibility_policy_for_send_message u muted current has_older of None \<Rightarrow> current | Some p \<Rightarrow> p) =
     raise_to current (wanted u muted (occasions current has_older))"
  "visibility_policy_for_send_message u muted current has_older = Some p \<Longrightarrow> visibility current < visibility p"
  by (cases "follow_policy u"; cases "unmute_policy u"; cases current;
      auto simp: visibility_policy_for_send_message_def visibility_policy_for_participation_def visibility_policy_for_send_def
        raise_to_def wanted_def occasions_def Let_def split: if_splits)+

lemma raise_to_mono: "visibility c \<le> visibility (raise_to c p)"
  by (simp add: raise_to_def split: option.split)

lemma visibility_inj [simp]: "visibility p = visibility q \<longleftrightarrow> p = q"
  by (cases p; cases q) auto

lemma sender_effective:
  "effective (sender_policy sender same_realm muted has_older rows) x =
     (if x = tu_id sender \<and> \<not> tu_is_bot sender \<and> same_realm
      then raise_to (effective rows x) (wanted sender muted (occasions (effective rows x) has_older))
      else effective rows x)"
proof -
  let ?c = "effective rows (tu_id sender)"
  have never: "wanted sender muted (occasions ?c has_older) = None" if "follow_policy sender = NEVER" "unmute_policy sender = NEVER"
    using that by (simp add: wanted_def occasions_def)
  show ?thesis
    using send_message_spec(1) [where u = sender and muted = muted and current = ?c and has_older = has_older] never
    by (cases "visibility_policy_for_send_message sender muted ?c has_older")
      (auto simp: sender_policy_def set_visibility_policy_possible_def effective_def [of "rows(k \<mapsto> v)" for k v]
        effective_def [of rows x] raise_to_def)
qed

lemma fold_follow: "fold (\<lambda>u rows. rows(tu_id u \<mapsto> FOLLOWED)) us rows x =
    (if x \<in> tu_id ` set us then Some FOLLOWED else rows x)"
  by (induction us arbitrary: rows) auto

definition follows_mentions :: "topic_user list \<Rightarrow> int \<Rightarrow> bool" where
  "follows_mentions mentioned x \<longleftrightarrow> list_ex (\<lambda>u. tu_id u = x \<and> \<not> tu_is_bot u \<and> follow_where_mentioned u) mentioned"

lemma mentioned_effective:
  "effective (follow_mentioned mentioned rows) x =
     (if follows_mentions mentioned x \<and> effective rows x \<noteq> MUTED then FOLLOWED else effective rows x)"
  by (auto simp: follow_mentioned_def fold_follow effective_def follows_mentions_def list_ex_iff split: option.splits)

lemma participation_effective:
  "effective (participation_policy user channel same_realm sub rows) x =
     (if x = tu_id user \<and> channel \<and> \<not> tu_is_bot user \<and> same_realm \<and> sub \<noteq> None
      then raise_to (effective rows x) (wanted user sub {ON_PARTICIPATION})
      else effective rows x)"
  by (cases "rows x"; cases sub; cases "the (rows x)"; cases "the sub")
    (auto simp: participation_policy_def set_visibility_policy_possible_def visibility_policy_for_participation_def
      should_change_visibility_policy_def effective_def raise_to_def wanted_def split: option.splits)

text \<open>
  C38. Automatic topic policies only make topics more visible, and exactly as far as the settings
  say.  Sending a message raises the sender's policy to what their settings want for the
  occasions it is (sending, participating, and initiating when the topic is new to them and
  has no policy), following before unmuting; then it makes the mentioned users who ask for it
  follow the topic unless they muted it.  A reaction raises the policy for participation only.
  Nobody's policy is ever lowered, and nobody else's changes.
\<close>

theorem topic_policies_exact:
  "effective (send_policies sender same_realm muted has_older mentioned rows) x =
     (let c = effective rows x;
          r = (if x = tu_id sender \<and> \<not> tu_is_bot sender \<and> same_realm
               then raise_to c (wanted sender muted (occasions c has_older)) else c)
      in if follows_mentions mentioned x \<and> r \<noteq> MUTED then FOLLOWED else r) \<and>
   effective (participation_policy user channel same_realm sub rows) x =
     (if x = tu_id user \<and> channel \<and> \<not> tu_is_bot user \<and> same_realm \<and> sub \<noteq> None
      then raise_to (effective rows x) (wanted user sub {ON_PARTICIPATION})
      else effective rows x) \<and>
   visibility (effective rows x) \<le> visibility (effective (send_policies sender same_realm muted has_older mentioned rows) x) \<and>
   visibility (effective rows x) \<le> visibility (effective (participation_policy user channel same_realm sub rows) x)"
proof -
  have top: "visibility p \<le> visibility FOLLOWED" for p by (cases p) auto
  show ?thesis
    unfolding send_policies_def mentioned_effective sender_effective participation_effective Let_def
    by (auto simp: raise_to_mono top simp del: visibility.simps)
qed


end
