(* ===== verification/ChannelAccess.thy ===== *)
theory ChannelAccess
  imports Permissions
begin

text \<open>
  Who may see and send to a channel (\<^verbatim>\<open>zerver/lib/streams.py\<close>), over the tables of the database.

  A table is the list of its rows.  Channels, accounts and messages have unique ids, which the
  database guarantees; a lookup takes the first row.  The set of cross-realm bots is a setting.
\<close>

section \<open>Tables\<close>

record account =
  profile :: user_profile
  acc_realm :: realm
  acc_email :: string
  delivery_email :: string
  acc_recipient_id :: int
  is_active :: bool
  is_mirror_dummy :: bool
  acc_is_bot :: bool
  can_forge_sender :: bool
  realm_deactivated :: bool

record channel =
  ch_id :: int
  ch_realm_id :: int
  ch_name :: string
  ch_recipient_id :: int
  invite_only :: bool
  is_web_public :: bool
  history_public_to_subscribers :: bool
  ch_deactivated :: bool
  is_in_zephyr_realm :: bool
  stream_post_policy :: int

text \<open>A subscription, joined with its recipient.\<close>

datatype recipient_type = PERSONAL | STREAM | DIRECT_MESSAGE_GROUP

record subscription =
  sub_user :: int
  sub_recipient :: int
  sub_type :: recipient_type
  sub_type_id :: int
  sub_active :: bool
  sub_muted :: bool
  sub_user_active :: bool

record message =
  m_id :: int
  m_realm_id :: int
  m_sender_id :: int
  m_recipient_id :: int
  m_recipient_type :: recipient_type
  m_type_id :: int
  m_subject :: string
  m_content :: string
  m_has :: "string \<Rightarrow> bool"

text \<open>A row of \<open>zerver_usermessage\<close>: user, message and flags; and one of \<open>zerver_usertopic\<close>.\<close>

record usermessage =
  um_user :: int
  um_message :: int
  um_flags :: int

record usertopic =
  ut_user :: int
  ut_stream :: int
  ut_recipient :: int
  ut_topic :: string
  ut_policy :: int

text \<open>
  A group of direct messages.  Its hash, the SHA-1 of its sorted user ids, stands for them.
\<close>

record dm_group =
  dg_id :: int
  dg_hash :: "int list"
  dg_recipient_id :: int

record chat_db =
  accounts :: "account list"
  channels :: "channel list"
  subscriptions :: "subscription list"
  messages :: "message list"
  usermessages :: "usermessage list"
  usertopics :: "usertopic list"
  dm_groups :: "dm_group list"
  reactions :: "int list"
  cross_realm_bots :: "string list"
  stream_groups :: "int \<Rightarrow> int \<Rightarrow> bool"

abbreviation acc_id :: "account \<Rightarrow> int" where "acc_id u \<equiv> profile_id (profile u)"
abbreviation acc_realm_id :: "account \<Rightarrow> int" where "acc_realm_id u \<equiv> realm_id (acc_realm u)"

definition get_or_missing :: "('a \<Rightarrow> bool) \<Rightarrow> 'a list \<Rightarrow> 'a res" where
  "get_or_missing p rows = (case find p rows of None \<Rightarrow> Inl DoesNotExist | Some r \<Rightarrow> Inr r)"

definition get_realm_stream :: "chat_db \<Rightarrow> string \<Rightarrow> int \<Rightarrow> channel res" where
  "get_realm_stream db name rid =
     get_or_missing (\<lambda>c. lower (ch_name c) = lower (strip name) \<and> ch_realm_id c = rid) (channels db)"

definition get_stream_by_id_in_realm :: "chat_db \<Rightarrow> int \<Rightarrow> int \<Rightarrow> channel res" where
  "get_stream_by_id_in_realm db i rid =
     get_or_missing (\<lambda>c. ch_id c = i \<and> ch_realm_id c = rid) (channels db)"

definition is_public :: "channel \<Rightarrow> bool" where
  "is_public c \<longleftrightarrow> \<not> invite_only c \<and> \<not> is_in_zephyr_realm c"

definition is_cross_realm_bot_email :: "chat_db \<Rightarrow> string \<Rightarrow> bool" where
  "is_cross_realm_bot_email db email \<longleftrightarrow> lower email \<in> set (cross_realm_bots db)"

definition is_jsonable :: "exn \<Rightarrow> bool" where
  "is_jsonable e = (case e of
     JsonableError _ \<Rightarrow> True | BadEventQueueIdError _ \<Rightarrow> True | RateLimitedError _ \<Rightarrow> True
   | IncompatibleParametersError _ \<Rightarrow> True | OrganizationAdministratorRequiredError \<Rightarrow> True
   | MissingAuthenticationError \<Rightarrow> True | BadNarrowOperatorError _ \<Rightarrow> True
   | InvalidOperatorCombinationError _ \<Rightarrow> True | _ \<Rightarrow> False)"

section \<open>Sending to a channel\<close>

definition STREAM_POST_POLICY_EVERYONE :: int where "STREAM_POST_POLICY_EVERYONE = 1"
definition POST_ADMINS_ONLY :: int where "POST_ADMINS_ONLY = 2"
definition STREAM_POST_POLICY_RESTRICT_NEW_MEMBERS :: int where "STREAM_POST_POLICY_RESTRICT_NEW_MEMBERS = 3"
definition STREAM_POST_POLICY_MODERATORS :: int where "STREAM_POST_POLICY_MODERATORS = 4"

definition subscribed_to_stream :: "chat_db \<Rightarrow> int \<Rightarrow> int \<Rightarrow> bool" where
  "subscribed_to_stream db uid stream_id =
     list_ex (\<lambda>s. sub_user s = uid \<and> sub_active s \<and> sub_type s = STREAM \<and> sub_type_id s = stream_id) (subscriptions db)"

definition check_stream_access_based_on_stream_post_policy :: "chat_db \<Rightarrow> int \<Rightarrow> account \<Rightarrow> channel \<Rightarrow> unit res" where
  "check_stream_access_based_on_stream_post_policy db now sender stream =
     (if is_realm_admin (profile sender) \<or> is_cross_realm_bot_email db (delivery_email sender) then Inr ()
      else if stream_post_policy stream = POST_ADMINS_ONLY
        then Inl (JsonableError ''Only organization administrators can send to this channel.'')
      else if stream_post_policy stream = STREAM_POST_POLICY_MODERATORS \<and> \<not> is_moderator (profile sender)
        then Inl (JsonableError ''Only organization administrators and moderators can send to this channel.'')
      else if stream_post_policy stream \<noteq> STREAM_POST_POLICY_EVERYONE \<and> is_guest (profile sender)
        then Inl (JsonableError ''Guests cannot send to this channel.'')
      else if stream_post_policy stream = STREAM_POST_POLICY_RESTRICT_NEW_MEMBERS
          \<and> is_provisional_member (acc_realm sender) now (profile sender)
        then Inl (JsonableError ''New members cannot send to this channel.'')
      else Inr ())"

definition account_of :: "chat_db \<Rightarrow> int \<Rightarrow> account option" where
  "account_of db i = find (\<lambda>a. acc_id a = i) (accounts db)"

definition bot_owner :: "chat_db \<Rightarrow> account \<Rightarrow> account option" where
  "bot_owner db u = (case bot_owner_id (profile u) of None \<Rightarrow> None | Some i \<Rightarrow> account_of db i)"

definition check_post_policy_for :: "chat_db \<Rightarrow> int \<Rightarrow> account \<Rightarrow> channel \<Rightarrow> unit res" where
  "check_post_policy_for db now sender stream =
     (case check_stream_access_based_on_stream_post_policy db now sender stream of
        Inr _ \<Rightarrow> Inr ()
      | Inl e \<Rightarrow> (case bot_owner db sender of
            Some owner \<Rightarrow> if acc_is_bot sender then check_stream_access_based_on_stream_post_policy db now owner stream
              else Inl e
          | None \<Rightarrow> Inl e))"

definition access_stream_for_send_message ::
    "chat_db \<Rightarrow> int \<Rightarrow> account \<Rightarrow> channel \<Rightarrow> account option \<Rightarrow> unit res" where
  "access_stream_for_send_message db now sender stream forwarder =
     ebind (check_post_policy_for db now sender stream) (\<lambda>_.
     let normal =
       (if is_cross_realm_bot_email db (delivery_email sender) then Inr ()
        else if ch_realm_id stream \<noteq> acc_realm_id sender
          then Inl (JsonableError ''User not authorized for this query'')
        else if is_web_public stream then Inr ()
        else if \<not> (invite_only stream \<or> is_guest (profile sender)) then Inr ()
        else if subscribed_to_stream db (acc_id sender) (ch_id stream) then Inr ()
        else if can_forge_sender sender then Inr ()
        else if acc_is_bot sender \<and>
            (case bot_owner db sender of None \<Rightarrow> False | Some owner \<Rightarrow> subscribed_to_stream db (acc_id owner) (ch_id stream))
          then Inr ()
        else Inl (JsonableError (''Not authorized to send to channel '' @ [CHR 0x27] @ ch_name stream @ [CHR 0x27])))
     in case forwarder of
          None \<Rightarrow> normal
        | Some f \<Rightarrow>
            if acc_id f = acc_id sender then normal
            else if can_forge_sender f \<and> acc_realm_id f = acc_realm_id sender \<and> acc_realm_id sender = ch_realm_id stream
              then Inr ()
            else Inl (JsonableError ''User not authorized for this query''))"

definition check_for_exactly_one_stream_arg :: "int option \<Rightarrow> string option \<Rightarrow> unit res" where
  "check_for_exactly_one_stream_arg stream_id stream =
     (if stream_id = None \<and> stream = None
        then Inl (JsonableError (''Missing '' @ [CHR 0x27] @ ''stream_id'' @ [CHR 0x27] @ '' argument''))
      else if stream_id \<noteq> None \<and> stream \<noteq> None
        then Inl (IncompatibleParametersError [''stream_id'', ''stream''])
      else Inr ())"

section \<open>Seeing a channel\<close>

definition active_subscription :: "chat_db \<Rightarrow> bool \<Rightarrow> int \<Rightarrow> int \<Rightarrow> subscription option" where
  "active_subscription db active uid recipient =
     find (\<lambda>s. sub_user s = uid \<and> sub_recipient s = recipient \<and> sub_active s = active) (subscriptions db)"

definition check_stream_access_for_delete_or_update :: "account \<Rightarrow> channel \<Rightarrow> subscription option \<Rightarrow> unit res" where
  "check_stream_access_for_delete_or_update u stream sub =
     (if ch_realm_id stream \<noteq> acc_realm_id u then Inl (JsonableError ''Invalid channel ID'')
      else if is_realm_admin (profile u) then Inr ()
      else if sub = None \<and> invite_only stream then Inl (JsonableError ''Invalid channel ID'')
      else Inl OrganizationAdministratorRequiredError)"

definition access_stream_for_delete_or_update :: "chat_db \<Rightarrow> account \<Rightarrow> int \<Rightarrow> (channel \<times> subscription option) res" where
  "access_stream_for_delete_or_update db u stream_id =
     (case find (\<lambda>c. ch_id c = stream_id) (channels db) of
        None \<Rightarrow> Inl (JsonableError ''Invalid channel ID'')
      | Some stream \<Rightarrow>
          let sub = active_subscription db True (acc_id u) (ch_recipient_id stream)
          in ebind (check_stream_access_for_delete_or_update u stream sub) (\<lambda>_. Inr (stream, sub)))"

definition check_basic_stream_access :: "account \<Rightarrow> channel \<Rightarrow> subscription option \<Rightarrow> bool \<Rightarrow> bool" where
  "check_basic_stream_access u stream sub allow_realm_admin =
     (if is_web_public stream then True
      else if is_public stream \<and> \<not> is_guest (profile u) then True
      else if sub \<noteq> None then True
      else if is_realm_admin (profile u) \<and> allow_realm_admin then True
      else False)"

definition access_stream_common ::
    "chat_db \<Rightarrow> account \<Rightarrow> channel \<Rightarrow> string \<Rightarrow> bool \<Rightarrow> bool \<Rightarrow> subscription option res" where
  "access_stream_common db u stream error require_active allow_realm_admin =
     (if ch_realm_id stream \<noteq> acc_realm_id u then Inl AssertionError
      else let sub = active_subscription db require_active (acc_id u) (ch_recipient_id stream)
           in if check_basic_stream_access u stream sub allow_realm_admin then Inr sub
              else Inl (JsonableError error))"

definition access_stream_by_id :: "chat_db \<Rightarrow> account \<Rightarrow> int \<Rightarrow> bool \<Rightarrow> bool \<Rightarrow> (channel \<times> subscription option) res" where
  "access_stream_by_id db u stream_id require_active allow_realm_admin =
     (case get_stream_by_id_in_realm db stream_id (acc_realm_id u) of
        Inl _ \<Rightarrow> Inl (JsonableError ''Invalid channel ID'')
      | Inr stream \<Rightarrow> ebind (access_stream_common db u stream ''Invalid channel ID'' require_active allow_realm_admin)
          (\<lambda>sub. Inr (stream, sub)))"

definition invalid_name :: "string \<Rightarrow> string" where
  "invalid_name name = ''Invalid channel name '' @ [CHR 0x27] @ name @ [CHR 0x27]"

definition access_stream_by_name :: "chat_db \<Rightarrow> account \<Rightarrow> string \<Rightarrow> bool \<Rightarrow> (channel \<times> subscription option) res" where
  "access_stream_by_name db u name allow_realm_admin =
     (case get_realm_stream db name (acc_realm_id u) of
        Inl _ \<Rightarrow> Inl (JsonableError (invalid_name name))
      | Inr stream \<Rightarrow> ebind (access_stream_common db u stream (invalid_name name) True allow_realm_admin)
          (\<lambda>sub. Inr (stream, sub)))"

definition access_web_public_stream :: "chat_db \<Rightarrow> int \<Rightarrow> int \<Rightarrow> channel res" where
  "access_web_public_stream db stream_id rid =
     (case get_stream_by_id_in_realm db stream_id rid of
        Inl _ \<Rightarrow> Inl (JsonableError ''Invalid channel ID'')
      | Inr stream \<Rightarrow> if \<not> is_web_public stream then Inl (JsonableError ''Invalid channel ID'') else Inr stream)"

definition get_public_streams :: "chat_db \<Rightarrow> int \<Rightarrow> channel list" where
  "get_public_streams db rid =
     filter (\<lambda>c. ch_realm_id c = rid \<and> \<not> invite_only c \<and> history_public_to_subscribers c) (channels db)"

definition get_web_public_streams :: "chat_db \<Rightarrow> int \<Rightarrow> channel list" where
  "get_web_public_streams db rid =
     filter (\<lambda>c. ch_realm_id c = rid \<and> is_web_public c \<and> \<not> ch_deactivated c \<and> \<not> invite_only c \<and>
       history_public_to_subscribers c) (channels db)"

definition can_access_stream_history :: "chat_db \<Rightarrow> account \<Rightarrow> channel \<Rightarrow> bool res" where
  "can_access_stream_history db u stream =
     (if acc_realm_id u \<noteq> ch_realm_id stream then Inl AssertionError
      else if is_web_public stream then Inr True
      else if is_public stream \<and> \<not> is_guest (profile u) then Inr True
      else if history_public_to_subscribers stream
        then (case access_stream_common db u stream (invalid_name (ch_name stream)) True False of
                Inr _ \<Rightarrow> Inr True
              | Inl e \<Rightarrow> if is_jsonable e then Inr False else Inl e)
      else Inr False)"

definition can_access_stream_history_by_name :: "chat_db \<Rightarrow> account \<Rightarrow> string \<Rightarrow> bool res" where
  "can_access_stream_history_by_name db u name =
     (case get_realm_stream db name (acc_realm_id u) of
        Inl _ \<Rightarrow> Inr False | Inr stream \<Rightarrow> can_access_stream_history db u stream)"

definition can_access_stream_history_by_id :: "chat_db \<Rightarrow> account \<Rightarrow> int \<Rightarrow> bool res" where
  "can_access_stream_history_by_id db u i =
     (case get_stream_by_id_in_realm db i (acc_realm_id u) of
        Inl _ \<Rightarrow> Inr False | Inr stream \<Rightarrow> can_access_stream_history db u stream)"

definition can_remove_subscribers_from_stream :: "chat_db \<Rightarrow> channel \<Rightarrow> account \<Rightarrow> subscription option \<Rightarrow> bool" where
  "can_remove_subscribers_from_stream db stream u sub =
     (if \<not> check_basic_stream_access u stream sub True then False
      else stream_groups db (ch_id stream) (acc_id u))"

definition filter_stream_authorization :: "chat_db \<Rightarrow> account \<Rightarrow> channel list \<Rightarrow> channel list \<times> channel list" where
  "filter_stream_authorization db u streams =
     (let subscribed = map sub_recipient (filter (\<lambda>s. sub_user s = acc_id u \<and>
            sub_recipient s \<in> ch_recipient_id ` set streams \<and> sub_active s) (subscriptions db));
          unauthorized = filter (\<lambda>c. \<not> (ch_recipient_id c \<in> set subscribed \<or> is_web_public c \<or>
            \<not> invite_only c \<and> \<not> is_guest (profile u))) streams
      in (filter (\<lambda>c. ch_id c \<notin> ch_id ` set unauthorized) streams, unauthorized))"

section \<open>Who learns of a channel\<close>

definition private_stream_user_ids :: "chat_db \<Rightarrow> int \<Rightarrow> int set" where
  "private_stream_user_ids db stream_id =
     set (map sub_user (filter (\<lambda>s. sub_type s = STREAM \<and> sub_type_id s = stream_id \<and> sub_active s \<and> sub_user_active s)
       (subscriptions db)))"

definition active_non_guest_user_ids :: "chat_db \<Rightarrow> int \<Rightarrow> int set" where
  "active_non_guest_user_ids db rid =
     set (map acc_id (filter (\<lambda>a. acc_realm_id a = rid \<and> is_active a \<and> \<not> is_guest (profile a)) (accounts db)))"

definition public_stream_user_ids :: "chat_db \<Rightarrow> channel \<Rightarrow> int set" where
  "public_stream_user_ids db stream =
     active_non_guest_user_ids db (ch_realm_id stream) \<union>
     {i \<in> private_stream_user_ids db (ch_id stream).
        (case account_of db i of None \<Rightarrow> False | Some a \<Rightarrow> is_guest (profile a))}"

definition get_admin_users_and_bots :: "chat_db \<Rightarrow> int \<Rightarrow> int set" where
  "get_admin_users_and_bots db rid =
     set (map acc_id (filter (\<lambda>a. acc_realm_id a = rid \<and> is_active a \<and> is_realm_admin (profile a)) (accounts db)))"

definition can_access_stream_user_ids :: "chat_db \<Rightarrow> channel \<Rightarrow> int set" where
  "can_access_stream_user_ids db stream =
     (if is_public stream then public_stream_user_ids db stream
      else private_stream_user_ids db (ch_id stream) \<union> get_admin_users_and_bots db (ch_realm_id stream))"

end
