(* ===== verification/ChatSamples.thy ===== *)
theory ChatSamples
  imports ChannelAccess
begin

text \<open>
  A small organization the witnesses of the theories on channels, messages and narrows use: two
  members, a guest and a bot, a public, a private and a web-public channel, four channel messages
  and a direct message.
\<close>

definition sample_realm :: realm where
  "sample_realm = \<lparr>realm_id = 1, policy_of = \<lambda>_. 1, in_permission_group = \<lambda>_ _. True, system_group_of = \<lambda>_. None,
     waiting_period_threshold = 0, wildcard_mention_policy = 1, bot_creation_policy = 1, plan_type = 1,
     enable_spectator_access = True, is_zephyr_mirror_realm = False\<rparr>"

definition sample_account :: "int \<Rightarrow> int \<Rightarrow> string \<Rightarrow> bool \<Rightarrow> account" where
  "sample_account i role email is_bot = \<lparr>
     profile = \<lparr>profile_id = i, user_role = role, date_joined = 0, bot_owner_id = (if is_bot then Some 10 else None),
       is_billing_admin = False\<rparr>,
     acc_realm = sample_realm, acc_email = email, delivery_email = email, acc_recipient_id = 200 + i, is_active = True,
     is_mirror_dummy = False, acc_is_bot = is_bot, can_forge_sender = False, realm_deactivated = False\<rparr>"

definition iago :: account where "iago = sample_account 10 400 ''iago@zulip'' False"
definition polonius :: account where "polonius = sample_account 11 600 ''polonius@zulip'' False"
definition othello :: account where "othello = sample_account 12 400 ''othello@zulip'' False"
definition webhook :: account where "webhook = sample_account 13 400 ''webhook@zulip'' True"

definition sample_channel :: "int \<Rightarrow> string \<Rightarrow> bool \<Rightarrow> bool \<Rightarrow> bool \<Rightarrow> channel" where
  "sample_channel i name is_private web history = \<lparr>ch_id = i, ch_realm_id = 1, ch_name = name, ch_recipient_id = 100 + i,
     invite_only = is_private, is_web_public = web, history_public_to_subscribers = history, ch_deactivated = False,
     is_in_zephyr_realm = False, stream_post_policy = 1\<rparr>"

definition verona :: channel where "verona = sample_channel 1 ''Verona'' False False True"
definition core_team :: channel where "core_team = sample_channel 2 ''core team'' True False False"
definition rome :: channel where "rome = sample_channel 3 ''Rome'' False True True"

definition sample_subscription :: "int \<Rightarrow> int \<Rightarrow> subscription" where
  "sample_subscription uid i = \<lparr>sub_user = uid, sub_recipient = 100 + i, sub_type = STREAM, sub_type_id = i,
     sub_active = True, sub_muted = False, sub_user_active = True\<rparr>"

definition a_message :: "int \<Rightarrow> int \<Rightarrow> recipient_type \<Rightarrow> int \<Rightarrow> string \<Rightarrow> message" where
  "a_message i recipient type target topic = \<lparr>m_id = i, m_realm_id = 1, m_sender_id = 12, m_recipient_id = recipient,
     m_recipient_type = type, m_type_id = target, m_subject = topic, m_content = ''hello'', m_has = \<lambda>_. False\<rparr>"

definition sample_um :: "int \<Rightarrow> int \<Rightarrow> int \<Rightarrow> usermessage" where
  "sample_um uid mid flags = \<lparr>um_user = uid, um_message = mid, um_flags = flags\<rparr>"

definition sample_db :: chat_db where
  "sample_db = \<lparr>accounts = [iago, polonius, othello, webhook], channels = [verona, core_team, rome],
     subscriptions = [sample_subscription 12 1, sample_subscription 10 2, sample_subscription 12 2, sample_subscription 11 1],
     messages = [a_message 1 101 STREAM 1 ''plans'', a_message 2 102 STREAM 2 ''secret'',
       a_message 3 210 PERSONAL 10 '''', a_message 4 103 STREAM 3 ''news'', a_message 5 102 STREAM 2 ''secret''],
     usermessages = [sample_um 12 1 1, sample_um 12 2 1, sample_um 12 3 2049, sample_um 10 3 2048, sample_um 12 4 1,
       sample_um 10 5 0, sample_um 12 5 1],
     usertopics = [], dm_groups = [], reactions = [], cross_realm_bots = [''notification-bot@zulip''],
     stream_groups = \<lambda>_ _. False\<rparr>"

lemmas sample_defs = sample_db_def iago_def polonius_def othello_def webhook_def sample_account_def sample_realm_def
  verona_def core_team_def rome_def sample_channel_def sample_subscription_def a_message_def sample_um_def

end
