(* ===== verification/MessageAccess.thy ===== *)
theory MessageAccess
  imports ChatSamples
begin

text \<open>
  Which messages a user may read: the access functions of \<^verbatim>\<open>zerver/lib/message.py\<close>, and that the
  three ways in which the code decides it agree: one message at a time, a collection at once, and as
  conditions on a query for the messages of a channel.  The further section proves what the access
  functions of channels amount to.
\<close>

section \<open>One message\<close>

definition received :: "chat_db \<Rightarrow> int \<Rightarrow> int \<Rightarrow> bool" where
  "received db uid mid = list_ex (\<lambda>r. um_user r = uid \<and> um_message r = mid) (usermessages db)"

definition subscribed_recipient :: "chat_db \<Rightarrow> int \<Rightarrow> int \<Rightarrow> bool" where
  "subscribed_recipient db uid recipient =
     list_ex (\<lambda>s. sub_user s = uid \<and> sub_active s \<and> sub_recipient s = recipient) (subscriptions db)"

definition has_message_access :: "chat_db \<Rightarrow> account \<Rightarrow> message \<Rightarrow> bool \<Rightarrow> channel option \<Rightarrow> bool option \<Rightarrow> bool res" where
  "has_message_access db u m has_user_message stream is_subscribed =
     (if m_recipient_type m \<noteq> STREAM then Inr has_user_message
      else ebind (case stream of
          None \<Rightarrow> get_or_missing (\<lambda>c. ch_id c = m_type_id m) (channels db)
        | Some c \<Rightarrow> if ch_recipient_id c = m_recipient_id m then Inr c else Inl AssertionError) (\<lambda>c.
        let subscribed = (case is_subscribed of Some b \<Rightarrow> b
              | None \<Rightarrow> subscribed_recipient db (acc_id u) (m_recipient_id m))
        in if ch_realm_id c \<noteq> acc_realm_id u then Inr False
           else if is_public c \<and> can_access_public_streams (acc_realm u) (profile u) then Inr True
           else if \<not> history_public_to_subscribers c then Inr (has_user_message \<and> subscribed)
           else Inr subscribed))"

definition access_message :: "chat_db \<Rightarrow> account \<Rightarrow> int \<Rightarrow> bool \<Rightarrow> message res" where
  "access_message db u mid by_pass =
     (case find (\<lambda>m. m_id m = mid) (messages db) of
        None \<Rightarrow> Inl (JsonableError ''Invalid message(s)'')
      | Some m \<Rightarrow> ebind (has_message_access db u m (received db (acc_id u) mid) None None) (\<lambda>ok.
          if ok then Inr m
          else if by_pass then Inr m
          else Inl (JsonableError ''Invalid message(s)'')))"

definition access_message_and_usermessage ::
    "chat_db \<Rightarrow> account \<Rightarrow> int \<Rightarrow> bool \<Rightarrow> (message \<times> usermessage option) res" where
  "access_message_and_usermessage db u mid by_pass =
     (case find (\<lambda>m. m_id m = mid) (messages db) of
        None \<Rightarrow> Inl (JsonableError ''Invalid message(s)'')
      | Some m \<Rightarrow>
          let um = find (\<lambda>r. um_user r = acc_id u \<and> um_message r = mid) (usermessages db)
          in ebind (has_message_access db u m (um \<noteq> None) None None) (\<lambda>ok.
             if ok then Inr (m, um)
             else if by_pass then Inr (m, None)
             else Inl (JsonableError ''Invalid message(s)'')))"

definition access_web_public_message :: "chat_db \<Rightarrow> bool \<Rightarrow> realm \<Rightarrow> int \<Rightarrow> message res" where
  "access_web_public_message db server_enabled r mid =
     (if \<not> web_public_streams_enabled server_enabled r then Inl MissingAuthenticationError
      else case find (\<lambda>m. m_id m = mid) (messages db) of
        None \<Rightarrow> Inl MissingAuthenticationError
      | Some m \<Rightarrow>
          if m_recipient_type m \<noteq> STREAM then Inl MissingAuthenticationError
          else case find (\<lambda>c. ch_id c = m_type_id m) (get_web_public_streams db (realm_id r)) of
            None \<Rightarrow> Inl MissingAuthenticationError
          | Some c \<Rightarrow> ebind (py_assert (is_web_public c)) (\<lambda>_. ebind (py_assert (\<not> ch_deactivated c)) (\<lambda>_.
              ebind (py_assert (\<not> invite_only c)) (\<lambda>_. ebind (py_assert (history_public_to_subscribers c)) (\<lambda>_. Inr m)))))"

section \<open>Many messages\<close>

definition stream_map :: "chat_db \<Rightarrow> message list \<Rightarrow> (int \<times> channel) list" where
  "stream_map db ms = fold (\<lambda>c d. AList.update (ch_recipient_id c) c d)
     (filter (\<lambda>c. ch_id c \<in> m_type_id ` set (filter (\<lambda>m. m_recipient_type m = STREAM) ms)) (channels db)) []"

definition bulk_access_messages :: "chat_db \<Rightarrow> account \<Rightarrow> message list \<Rightarrow> channel option \<Rightarrow> message list res" where
  "bulk_access_messages db u ms stream =
     (let user_message_set = map um_message (filter (\<lambda>r. um_user r = acc_id u \<and> um_message r \<in> m_id ` set ms) (usermessages db));
          streams = (if stream = None then stream_map db ms else []);
          subscribed = map sub_recipient (filter (\<lambda>s. sub_user s = acc_id u \<and> sub_type s = STREAM \<and> sub_active s) (subscriptions db))
      in efold (\<lambda>m kept.
           ebind (has_message_access db u m (m_id m \<in> set user_message_set)
               (if stream = None then map_of streams (m_recipient_id m) else stream)
               (Some (m_recipient_id m \<in> set subscribed))) (\<lambda>ok.
           Inr (if ok then kept @ [m] else kept))) ms [])"

definition bulk_access_stream_messages_query :: "chat_db \<Rightarrow> account \<Rightarrow> message list \<Rightarrow> channel \<Rightarrow> message list" where
  "bulk_access_stream_messages_query db u ms c =
     (let ms = filter (\<lambda>m. m_realm_id m = acc_realm_id u \<and> m_recipient_id m = ch_recipient_id c) ms
      in if is_public c \<and> can_access_public_streams (acc_realm u) (profile u) then ms
         else if \<not> subscribed_recipient db (acc_id u) (ch_recipient_id c) then []
         else if \<not> history_public_to_subscribers c then filter (\<lambda>m. received db (acc_id u) (m_id m)) ms
         else ms)"

section \<open>They agree\<close>

text \<open>What the foreign keys of the database guarantee.\<close>

definition wf_db :: "chat_db \<Rightarrow> bool" where
  "wf_db db \<longleftrightarrow>
     distinct (map ch_id (channels db)) \<and> distinct (map ch_recipient_id (channels db)) \<and>
     distinct (map m_id (messages db)) \<and> distinct (map acc_id (accounts db)) \<and>
     (\<forall>s\<in>set (subscriptions db). \<forall>c\<in>set (channels db).
        sub_recipient s = ch_recipient_id c \<longleftrightarrow> sub_type s = STREAM \<and> sub_type_id s = ch_id c) \<and>
     (\<forall>m\<in>set (messages db). \<forall>c\<in>set (channels db).
        m_recipient_id m = ch_recipient_id c \<longleftrightarrow> m_recipient_type m = STREAM \<and> m_type_id m = ch_id c) \<and>
     (\<forall>m\<in>set (messages db). m_recipient_type m = STREAM \<longrightarrow>
        (\<exists>c\<in>set (channels db). m_recipient_id m = ch_recipient_id c \<and> m_realm_id m = ch_realm_id c))"

text \<open>Who may read a message, in a sentence.\<close>

definition may_read :: "chat_db \<Rightarrow> account \<Rightarrow> message \<Rightarrow> bool" where
  "may_read db u m \<longleftrightarrow> (if m_recipient_type m \<noteq> STREAM then received db (acc_id u) (m_id m)
     else \<exists>c\<in>set (channels db). ch_recipient_id c = m_recipient_id m \<and> ch_realm_id c = acc_realm_id u \<and>
       (is_public c \<and> can_access_public_streams (acc_realm u) (profile u) \<or>
        subscribed_recipient db (acc_id u) (m_recipient_id m) \<and>
          (history_public_to_subscribers c \<or> received db (acc_id u) (m_id m))))"

lemma find_key:
  assumes "distinct (map f xs)" "x \<in> set xs"
  shows "find (\<lambda>y. f y = f x) xs = Some x"
  using assms by (induction xs) (auto simp: image_iff)

lemma wf_channel:
  assumes "wf_db db" "m \<in> set (messages db)" "m_recipient_type m = STREAM"
  obtains c where "c \<in> set (channels db)" "ch_recipient_id c = m_recipient_id m" "ch_id c = m_type_id m"
    "m_realm_id m = ch_realm_id c" "\<And>c'. c' \<in> set (channels db) \<Longrightarrow> ch_recipient_id c' = m_recipient_id m \<Longrightarrow> c' = c"
proof -
  from assms obtain c where c: "c \<in> set (channels db)" "m_recipient_id m = ch_recipient_id c" "m_realm_id m = ch_realm_id c"
    unfolding wf_db_def by blast
  moreover have "ch_id c = m_type_id m" using assms c unfolding wf_db_def by metis
  moreover have "c' = c" if "c' \<in> set (channels db)" "ch_recipient_id c' = m_recipient_id m" for c'
    using assms(1) c(1,2) that by (auto simp: wf_db_def distinct_map dest: inj_onD)
  ultimately show thesis using that by metis
qed

lemma has_access_exact:
  assumes "wf_db db" "m \<in> set (messages db)" "um = received db (acc_id u) (m_id m)"
    and "m_recipient_type m = STREAM \<Longrightarrow> stream = None \<or>
      (\<exists>c\<in>set (channels db). stream = Some c \<and> ch_recipient_id c = m_recipient_id m)"
    and "m_recipient_type m = STREAM \<Longrightarrow> sub = None \<or> sub = Some (subscribed_recipient db (acc_id u) (m_recipient_id m))"
  shows "has_message_access db u m um stream sub = Inr (may_read db u m)"
proof (cases "m_recipient_type m = STREAM")
  case True
  from wf_channel [OF assms(1,2) True] obtain c where c: "c \<in> set (channels db)" "ch_recipient_id c = m_recipient_id m"
    "ch_id c = m_type_id m" "\<And>c'. c' \<in> set (channels db) \<Longrightarrow> ch_recipient_id c' = m_recipient_id m \<Longrightarrow> c' = c"
    by metis
  have "find (\<lambda>c'. ch_id c' = m_type_id m) (channels db) = Some c"
    using find_key [of ch_id, OF _ c(1)] assms(1) c(3) by (simp add: wf_db_def)
  then have s: "(case stream of None \<Rightarrow> get_or_missing (\<lambda>c. ch_id c = m_type_id m) (channels db)
      | Some c \<Rightarrow> if ch_recipient_id c = m_recipient_id m then Inr c else Inl AssertionError) = Inr c"
    using assms(4) [OF True] c(4) by (auto simp: get_or_missing_def)
  have b: "(case sub of Some b \<Rightarrow> b | None \<Rightarrow> subscribed_recipient db (acc_id u) (m_recipient_id m)) =
      subscribed_recipient db (acc_id u) (m_recipient_id m)"
    using assms(5) [OF True] by auto
  have "may_read db u m \<longleftrightarrow> ch_realm_id c = acc_realm_id u \<and>
       (is_public c \<and> can_access_public_streams (acc_realm u) (profile u) \<or>
        subscribed_recipient db (acc_id u) (m_recipient_id m) \<and>
          (history_public_to_subscribers c \<or> received db (acc_id u) (m_id m)))"
  proof -
    have "(\<exists>c'\<in>set (channels db). ch_recipient_id c' = m_recipient_id m \<and> P c') \<longleftrightarrow> P c" for P
      using c(1,2,4) by blast
    then show ?thesis using True by (simp add: may_read_def)
  qed
  then show ?thesis
    using True unfolding has_message_access_def s b assms(3) by (simp add: Let_def) blast
qed (simp add: has_message_access_def may_read_def assms(3))

lemma fold_update_other:
  "k \<notin> ch_recipient_id ` set cs \<Longrightarrow> map_of (fold (\<lambda>c d. AList.update (ch_recipient_id c) c d) cs d) k = map_of d k"
  by (induction cs arbitrary: d) auto

lemma stream_map_at:
  assumes "distinct (map ch_recipient_id cs)" "c \<in> set cs"
  shows "map_of (fold (\<lambda>c d. AList.update (ch_recipient_id c) c d) cs d) (ch_recipient_id c) = Some c"
  using assms by (induction cs arbitrary: d) (auto simp: fold_update_other)

text \<open>The queries that \<open>bulk_access_messages\<close> makes, and what they say of one message.\<close>

definition bulk_received :: "chat_db \<Rightarrow> int \<Rightarrow> message list \<Rightarrow> int list" where
  "bulk_received db uid ms =
     map um_message (filter (\<lambda>r. um_user r = uid \<and> um_message r \<in> m_id ` set ms) (usermessages db))"

definition bulk_subscribed :: "chat_db \<Rightarrow> int \<Rightarrow> int list" where
  "bulk_subscribed db uid =
     map sub_recipient (filter (\<lambda>s. sub_user s = uid \<and> sub_type s = STREAM \<and> sub_active s) (subscriptions db))"

lemma bulk_received_iff: "m \<in> set ms \<Longrightarrow> m_id m \<in> set (bulk_received db uid ms) \<longleftrightarrow> received db uid (m_id m)"
  by (auto simp: bulk_received_def received_def list_ex_iff image_iff)

lemma bulk_subscribed_iff:
  assumes w: "wf_db db" and m: "m \<in> set (messages db)" "m_recipient_type m = STREAM"
  shows "m_recipient_id m \<in> set (bulk_subscribed db uid) \<longleftrightarrow> subscribed_recipient db uid (m_recipient_id m)"
proof -
  from wf_channel [OF w m] obtain c where "c \<in> set (channels db)" "ch_recipient_id c = m_recipient_id m" by metis
  then have "\<forall>s\<in>set (subscriptions db). sub_recipient s = m_recipient_id m \<longrightarrow> sub_type s = STREAM"
    using w unfolding wf_db_def by metis
  then show ?thesis by (auto simp: bulk_subscribed_def subscribed_recipient_def list_ex_iff image_iff)
qed

lemma stream_map_message:
  assumes w: "wf_db db" and m: "m \<in> set ms" "m_recipient_type m = STREAM"
    and c: "c \<in> set (channels db)" "ch_recipient_id c = m_recipient_id m" "ch_id c = m_type_id m"
  shows "map_of (stream_map db ms) (m_recipient_id m) = Some c"
proof -
  let ?cs = "filter (\<lambda>c. ch_id c \<in> m_type_id ` set (filter (\<lambda>m. m_recipient_type m = STREAM) ms)) (channels db)"
  have "distinct (map ch_recipient_id ?cs)" using w by (simp add: wf_db_def distinct_map_filter)
  moreover have "c \<in> set ?cs" using c m by auto
  ultimately show ?thesis unfolding stream_map_def c(2) [symmetric] by (rule stream_map_at)
qed

lemma keep_loop:
  "\<forall>m\<in>set xs. f m = Inr (P m) \<Longrightarrow>
     efold (\<lambda>m kept. ebind (f m) (\<lambda>ok. Inr (if ok then kept @ [m] else kept))) xs kept = Inr (kept @ filter P xs)"
  by (induction xs arbitrary: kept) (auto simp: res_simps)

lemma bulk_access_eq:
  assumes w: "wf_db db" and ms: "set ms \<subseteq> set (messages db)"
    and s: "stream = None \<or> (\<exists>c\<in>set (channels db). stream = Some c \<and> (\<forall>m\<in>set ms. m_recipient_id m = ch_recipient_id c))"
  shows "bulk_access_messages db u ms stream = Inr (filter (may_read db u) ms)"
proof -
  let ?stream = "\<lambda>m. if stream = None then map_of (if stream = None then stream_map db ms else []) (m_recipient_id m) else stream"
  have "has_message_access db u m (m_id m \<in> set (bulk_received db (acc_id u) ms)) (?stream m)
      (Some (m_recipient_id m \<in> set (bulk_subscribed db (acc_id u)))) = Inr (may_read db u m)" if m: "m \<in> set ms" for m
  proof (rule has_access_exact [OF w])
    show M: "m \<in> set (messages db)" using m ms by blast
    assume S: "m_recipient_type m = STREAM"
    from wf_channel [OF w M S] obtain c where c: "c \<in> set (channels db)" "ch_recipient_id c = m_recipient_id m"
      "ch_id c = m_type_id m" by metis
    show "?stream m = None \<or> (\<exists>c\<in>set (channels db). ?stream m = Some c \<and> ch_recipient_id c = m_recipient_id m)"
      using s m c stream_map_message [OF w m S c] by auto
    show "Some (m_recipient_id m \<in> set (bulk_subscribed db (acc_id u))) = None \<or>
        Some (m_recipient_id m \<in> set (bulk_subscribed db (acc_id u))) =
          Some (subscribed_recipient db (acc_id u) (m_recipient_id m))"
      using bulk_subscribed_iff [OF w M S] by simp
  qed (simp add: bulk_received_iff [OF m])
  then show ?thesis
    unfolding bulk_access_messages_def Let_def bulk_received_def [symmetric] bulk_subscribed_def [symmetric]
    by (subst keep_loop) auto
qed

lemma access_message_eq:
  assumes w: "wf_db db" and m: "m \<in> set (messages db)"
  shows "access_message db u (m_id m) False =
    (if may_read db u m then Inr m else Inl (JsonableError ''Invalid message(s)''))"
proof -
  have "find (\<lambda>y. m_id y = m_id m) (messages db) = Some m"
    using w m by (intro find_key) (auto simp: wf_db_def)
  with has_access_exact [OF w m refl, of None None] show ?thesis by (simp add: access_message_def)
qed

lemma channel_message:
  assumes w: "wf_db db" and m: "m \<in> set (messages db)" and c: "c \<in> set (channels db)" "m_recipient_id m = ch_recipient_id c"
  shows "may_read db u m \<longleftrightarrow> m_realm_id m = acc_realm_id u \<and>
    (is_public c \<and> can_access_public_streams (acc_realm u) (profile u) \<or>
     subscribed_recipient db (acc_id u) (ch_recipient_id c) \<and> (history_public_to_subscribers c \<or> received db (acc_id u) (m_id m)))"
proof -
  have S: "m_recipient_type m = STREAM" using m c w unfolding wf_db_def by metis
  from wf_channel [OF w m S] obtain d where d: "m_realm_id m = ch_realm_id d" "ch_recipient_id d = m_recipient_id m"
    "\<And>c'. c' \<in> set (channels db) \<Longrightarrow> ch_recipient_id c' = m_recipient_id m \<Longrightarrow> c' = d" by metis
  from d(3) [OF c(1)] c(2) have "c = d" by simp
  with d c have "m_realm_id m = ch_realm_id c"
    "(\<exists>c'\<in>set (channels db). ch_recipient_id c' = m_recipient_id m \<and> P c') \<longleftrightarrow> P c" for P by blast+
  with S c show ?thesis by (simp add: may_read_def)
qed

lemma access_query_eq:
  assumes w: "wf_db db" and ms: "set ms \<subseteq> set (messages db)" and c: "c \<in> set (channels db)"
  shows "bulk_access_stream_messages_query db u ms c = filter (\<lambda>m. m_recipient_id m = ch_recipient_id c \<and> may_read db u m) ms"
proof -
  have "bulk_access_stream_messages_query db u ms c = filter (\<lambda>m. m_realm_id m = acc_realm_id u \<and>
      m_recipient_id m = ch_recipient_id c \<and> (is_public c \<and> can_access_public_streams (acc_realm u) (profile u) \<or>
       subscribed_recipient db (acc_id u) (ch_recipient_id c) \<and> (history_public_to_subscribers c \<or> received db (acc_id u) (m_id m)))) ms"
    by (cases "is_public c \<and> can_access_public_streams (acc_realm u) (profile u)")
      (auto simp: bulk_access_stream_messages_query_def Let_def conj_assoc intro!: filter_cong)
  also have "\<dots> = filter (\<lambda>m. m_recipient_id m = ch_recipient_id c \<and> may_read db u m) ms"
    using channel_message [OF w _ c] ms by (intro filter_cong) auto
  finally show ?thesis .
qed

text \<open>
  C10. The code has three ways to decide which messages a user may read, and they agree: fetching a
  message by its id, filtering a collection with two queries, and the conditions on the query for
  the messages of one channel all accept exactly the direct messages the user received, the messages
  of public channels of the user's organization unless the user is a guest, and of the other
  channels the user is subscribed to those the user received or, where history is shared, all.
\<close>

theorem message_access_agrees:
  assumes "wf_db db" "set ms \<subseteq> set (messages db)"
  shows "bulk_access_messages db u ms None = Inr (filter (may_read db u) ms) \<and>
    (\<forall>m\<in>set (messages db). access_message db u (m_id m) False =
       (if may_read db u m then Inr m else Inl (JsonableError ''Invalid message(s)''))) \<and>
    (\<forall>c\<in>set (channels db). bulk_access_stream_messages_query db u ms c =
       filter (\<lambda>m. m_recipient_id m = ch_recipient_id c \<and> may_read db u m) ms \<and>
       (list_all (\<lambda>m. m_recipient_id m = ch_recipient_id c) ms \<longrightarrow>
          bulk_access_messages db u ms (Some c) = Inr (filter (may_read db u) ms)))"
proof (intro conjI ballI impI)
  show "bulk_access_messages db u ms None = Inr (filter (may_read db u) ms)"
    by (rule bulk_access_eq [OF assms]) simp
next
  fix m assume "m \<in> set (messages db)"
  then show "access_message db u (m_id m) False =
      (if may_read db u m then Inr m else Inl (JsonableError ''Invalid message(s)''))"
    by (rule access_message_eq [OF assms(1)])
next
  fix c assume c: "c \<in> set (channels db)"
  show "bulk_access_stream_messages_query db u ms c =
      filter (\<lambda>m. m_recipient_id m = ch_recipient_id c \<and> may_read db u m) ms"
    by (rule access_query_eq [OF assms c])
  assume "list_all (\<lambda>m. m_recipient_id m = ch_recipient_id c) ms"
  with c show "bulk_access_messages db u ms (Some c) = Inr (filter (may_read db u) ms)"
    by (intro bulk_access_eq [OF assms]) (auto simp: list_all_iff)
qed

section \<open>Channels\<close>

text \<open>The standing a posting policy asks for.\<close>

definition policy_admits :: "chat_db \<Rightarrow> int \<Rightarrow> channel \<Rightarrow> account \<Rightarrow> bool" where
  "policy_admits db now c a \<longleftrightarrow> is_realm_admin (profile a) \<or> is_cross_realm_bot_email db (delivery_email a) \<or>
     stream_post_policy c = STREAM_POST_POLICY_EVERYONE \<or>
     stream_post_policy c = STREAM_POST_POLICY_MODERATORS \<and> is_moderator (profile a) \<or>
     stream_post_policy c \<notin> {POST_ADMINS_ONLY, STREAM_POST_POLICY_MODERATORS} \<and> \<not> is_guest (profile a) \<and>
       (stream_post_policy c = STREAM_POST_POLICY_RESTRICT_NEW_MEMBERS \<longrightarrow>
          \<not> is_provisional_member (acc_realm a) now (profile a))"

lemmas post_policies = STREAM_POST_POLICY_EVERYONE_def POST_ADMINS_ONLY_def
  STREAM_POST_POLICY_RESTRICT_NEW_MEMBERS_def STREAM_POST_POLICY_MODERATORS_def

lemma post_policy_iff: "check_stream_access_based_on_stream_post_policy db now a c = Inr () \<longleftrightarrow> policy_admits db now c a"
proof -
  have "is_moderator (profile a) \<Longrightarrow> \<not> is_guest (profile a)"
    by (simp add: is_moderator_def is_guest_def ROLE_MODERATOR_def ROLE_GUEST_def)
  then show ?thesis
    by (auto simp: check_stream_access_based_on_stream_post_policy_def policy_admits_def post_policies)
qed

lemma post_policy_for_iff: "check_post_policy_for db now a c = Inr () \<longleftrightarrow>
  policy_admits db now c a \<or> acc_is_bot a \<and> (\<exists>owner. bot_owner db a = Some owner \<and> policy_admits db now c owner)"
  unfolding post_policy_iff [symmetric] check_post_policy_for_def
  by (cases "check_stream_access_based_on_stream_post_policy db now a c"; cases "bot_owner db a") simp_all

definition reaches_channel :: "chat_db \<Rightarrow> account \<Rightarrow> channel \<Rightarrow> bool" where
  "reaches_channel db a c \<longleftrightarrow> is_cross_realm_bot_email db (delivery_email a) \<or>
     ch_realm_id c = acc_realm_id a \<and>
       (is_web_public c \<or> \<not> invite_only c \<and> \<not> is_guest (profile a) \<or>
        subscribed_to_stream db (acc_id a) (ch_id c) \<or> can_forge_sender a \<or>
        acc_is_bot a \<and> (\<exists>owner. bot_owner db a = Some owner \<and> subscribed_to_stream db (acc_id owner) (ch_id c)))"

text \<open>
  C17. Who may send to a channel.  The sender's standing, or for a bot the owner's, has to satisfy
  the posting policy; and the sender has to reach the channel: a cross-realm bot reaches every
  channel, anybody else only channels of their organization, namely the web-public ones, for
  members the public ones, those they are subscribed to, and all of them if they may forge senders or
  are a bot whose owner is subscribed.  On behalf of somebody else only a user of the same
  organization who may forge senders can send.
\<close>

theorem send_access_exact:
  "access_stream_for_send_message db now a c forwarder = Inr () \<longleftrightarrow>
     (policy_admits db now c a \<or> acc_is_bot a \<and> (\<exists>owner. bot_owner db a = Some owner \<and> policy_admits db now c owner)) \<and>
     (case forwarder of
        Some f \<Rightarrow> if acc_id f \<noteq> acc_id a
          then can_forge_sender f \<and> acc_realm_id f = acc_realm_id a \<and> acc_realm_id a = ch_realm_id c
          else reaches_channel db a c
      | None \<Rightarrow> reaches_channel db a c)"
proof -
  have "(case bot_owner db a of None \<Rightarrow> False | Some owner \<Rightarrow> P owner) \<longleftrightarrow> (\<exists>owner. bot_owner db a = Some owner \<and> P owner)" for P
    by (cases "bot_owner db a") simp_all
  then show ?thesis
    unfolding post_policy_for_iff [symmetric] access_stream_for_send_message_def reaches_channel_def
    by (cases "check_post_policy_for db now a c"; cases forwarder) (simp_all add: Let_def)
qed



section \<open>Samples\<close>

lemma sample_db_wf: "wf_db sample_db"
  by (simp add: wf_db_def sample_defs)

theorem message_access_agrees_witness:
  "bulk_access_messages sample_db iago (messages sample_db) None =
     Inr (filter (may_read sample_db iago) (messages sample_db)) \<and>
   map m_id (filter (may_read sample_db iago) (messages sample_db)) = [1, 3, 4, 5]"
  using message_access_agrees [OF sample_db_wf subset_refl, of iago]
  by (simp add: may_read_def received_def subscribed_recipient_def sample_defs is_public_def can_access_public_streams_def
      is_guest_def ROLE_GUEST_def)


end
