(* ===== verification/NarrowTerms.thy ===== *)
theory NarrowTerms
  imports MessageAccess NarrowPredicate Validators
begin

text \<open>
  The terms of a narrow and the users, channels and recipients they name: \<open>NarrowParameter\<close> of
  \<^verbatim>\<open>zerver/lib/narrow.py\<close>, the lookups of \<^verbatim>\<open>zerver/models/users.py\<close> and
  \<^verbatim>\<open>zerver/lib/addressee.py\<close>, and \<^verbatim>\<open>zerver/lib/recipient_users.py\<close> without the creation
  of groups; and the rewriting of a narrow with the \<open>with\<close> operator.

  What pydantic makes of a value for the Boolean field \<open>negated\<close> is the parameter \<open>as_bool\<close>.
\<close>

section \<open>Terms\<close>

record narrow_param =
  np_operator :: string
  np_operand :: py
  np_negated :: bool

definition channels_operators :: "string list" where
  "channels_operators = [''channels'', ''streams'']"

definition convert_term :: "py \<Rightarrow> dict res" where
  "convert_term elem =
     (case elem of
        PList xs \<Rightarrow> (case xs of
            [PStr a, PStr b] \<Rightarrow> Inr [(''operator'', PStr a), (''operand'', PStr b)]
          | _ \<Rightarrow> Inl (ValueError ''element is not a string pair''))
      | PDict d \<Rightarrow>
          if map_of d ''operand'' \<in> {None, Some PNone} then Inl (ValueError ''operand is missing'')
          else if map_of d ''operator'' \<in> {None, Some PNone} then Inl (ValueError ''operator is missing'')
          else Inr d
      | _ \<Rightarrow> Inl (ValueError ''dict or list required''))"

definition operators_supporting_id :: "string list" where
  "operators_supporting_id = channel_operators @
     [''id'', ''sender'', ''group-pm-with'', ''dm-including'', ''with'']"

definition operand_validator :: "string \<Rightarrow> py check" where
  "operand_validator op =
     (if op \<in> set operators_supporting_id then check_string_or_int
      else if op \<in> {''pm-with'', ''dm''} then check_string_or_int_list
      else if op \<in> {''search''} then check_required_string
      else check_string)"

definition validate_terms :: "narrow_param \<Rightarrow> narrow_param res" where
  "validate_terms t =
     (case operand_validator (np_operator t) ''operand'' (np_operand t) of
        Inr v \<Rightarrow> Inr (t\<lparr>np_operand := v\<rparr>)
      | Inl (ValidationError m) \<Rightarrow> Inl (JsonableError m)
      | Inl e \<Rightarrow> Inl e)"

definition narrow_parameter :: "(py \<Rightarrow> bool option) \<Rightarrow> py \<Rightarrow> narrow_param res" where
  "narrow_parameter as_bool elem =
     ebind (convert_term elem) (\<lambda>d.
     case map_of d ''operator'' of
       Some (PStr op) \<Rightarrow>
         (case (case map_of d ''negated'' of None \<Rightarrow> Some False | Some v \<Rightarrow> as_bool v) of
            Some negated \<Rightarrow> validate_terms \<lparr>np_operator = op,
              np_operand = (case map_of d ''operand'' of Some v \<Rightarrow> v | None \<Rightarrow> PNone), np_negated = negated\<rparr>
          | None \<Rightarrow> Inl (ValueError ''negated''))
     | _ \<Rightarrow> Inl (ValueError ''operator''))"

text \<open>What the constructor guarantees of a term.\<close>

definition int_like :: "py \<Rightarrow> bool" where
  "int_like v = (case v of PInt _ \<Rightarrow> True | PBool _ \<Rightarrow> True | _ \<Rightarrow> False)"

definition is_str :: "py \<Rightarrow> bool" where
  "is_str v = (case v of PStr _ \<Rightarrow> True | _ \<Rightarrow> False)"

definition valid_term :: "narrow_param \<Rightarrow> bool" where
  "valid_term t \<longleftrightarrow>
     (if np_operator t \<in> set operators_supporting_id then is_str (np_operand t) \<or> int_like (np_operand t)
      else if np_operator t \<in> {''pm-with'', ''dm''}
        then (case np_operand t of PStr _ \<Rightarrow> True | PList xs \<Rightarrow> list_all int_like xs | _ \<Rightarrow> False)
      else if np_operator t = ''search''
        then (case np_operand t of PStr s \<Rightarrow> strip s \<noteq> [] | _ \<Rightarrow> False)
      else is_str (np_operand t))"

definition is_spectator_compatible :: "narrow_param list \<Rightarrow> bool" where
  "is_spectator_compatible narrow =
     list_all (\<lambda>t. np_operator t \<in> set (channel_operators @ channels_operators @
       [''topic'', ''sender'', ''has'', ''search'', ''near'', ''id'', ''with''])) narrow"

definition is_web_public_narrow :: "narrow_param list option \<Rightarrow> bool" where
  "is_web_public_narrow narrow =
     (case narrow of None \<Rightarrow> False
      | Some ts \<Rightarrow> list_ex (\<lambda>t. np_operator t \<in> set channels_operators \<and>
          np_operand t = PStr ''web-public'' \<and> \<not> np_negated t) ts)"

definition clean_narrow_for_web_public_api :: "narrow_param list option \<Rightarrow> narrow_param list option" where
  "clean_narrow_for_web_public_api narrow =
     map_option (filter (\<lambda>t. \<not> (np_operator t = ''in'' \<and> np_operand t = PStr ''home'' \<and> \<not> np_negated t))) narrow"

text \<open>\<open>str(operand)\<close>; the operands are strings, integers and lists of integers.\<close>

fun str_operand :: "py \<Rightarrow> string" where
  "str_operand (PStr s) = s"
| "str_operand (PInt i) = str_of_int i"
| "str_operand (PBool b) = (if b then ''True'' else ''False'')"
| "str_operand (PList vs) = ''['' @ join '', '' (map str_operand vs) @ '']''"
| "str_operand PNone = ''None''"
| "str_operand _ = []"

definition operand_int :: "py \<Rightarrow> int option" where
  "operand_int v = (case v of PInt i \<Rightarrow> Some i | PBool b \<Rightarrow> Some (if b then 1 else 0) | _ \<Rightarrow> None)"

text \<open>\<open>try\<close> with a handler for an object that does not exist.\<close>

definition except_missing :: "'a res \<Rightarrow> 'a res \<Rightarrow> 'a res" where
  "except_missing m handler = (case m of Inl e \<Rightarrow> if e = DoesNotExist then handler else Inl e | Inr x \<Rightarrow> Inr x)"

section \<open>Users\<close>

definition get_user :: "chat_db \<Rightarrow> string \<Rightarrow> int \<Rightarrow> account res" where
  "get_user db email rid =
     get_or_missing (\<lambda>a. lower (acc_email a) = lower (strip email) \<and> acc_realm_id a = rid) (accounts db)"

definition get_system_bot :: "chat_db \<Rightarrow> string \<Rightarrow> account res" where
  "get_system_bot db email = get_or_missing (\<lambda>a. lower (acc_email a) = lower (strip email)) (accounts db)"

definition get_user_including_cross_realm :: "chat_db \<Rightarrow> string \<Rightarrow> int \<Rightarrow> account res" where
  "get_user_including_cross_realm db email rid =
     (if is_cross_realm_bot_email db email then get_system_bot db email else get_user db email rid)"

definition get_user_profile_by_id :: "chat_db \<Rightarrow> int \<Rightarrow> account res" where
  "get_user_profile_by_id db uid = get_or_missing (\<lambda>a. acc_id a = uid) (accounts db)"

definition get_user_by_id_in_realm_including_cross_realm :: "chat_db \<Rightarrow> int \<Rightarrow> int \<Rightarrow> account res" where
  "get_user_by_id_in_realm_including_cross_realm db uid rid =
     ebind (get_user_profile_by_id db uid) (\<lambda>a.
     if acc_realm_id a = rid then Inr a
     else if is_cross_realm_bot_email db (delivery_email a) then Inr a
     else Inl DoesNotExist)"

definition get_user_profiles :: "chat_db \<Rightarrow> string list \<Rightarrow> int \<Rightarrow> account list res" where
  "get_user_profiles db emails rid =
     emap (\<lambda>email. except_missing (get_user_including_cross_realm db email rid)
       (Inl (JsonableError (''Invalid email '' @ [CHR 0x27] @ email @ [CHR 0x27])))) emails"

definition get_user_profiles_by_ids :: "chat_db \<Rightarrow> int list \<Rightarrow> int \<Rightarrow> account list res" where
  "get_user_profiles_by_ids db uids rid =
     emap (\<lambda>uid. except_missing (get_user_by_id_in_realm_including_cross_realm db uid rid)
       (Inl (JsonableError (''Invalid user ID '' @ str_of_int uid)))) uids"

section \<open>Recipients of direct messages\<close>

record recipient =
  r_id :: int
  r_type :: recipient_type
  r_type_id :: int

definition validate_recipient_user_profiles :: "chat_db \<Rightarrow> account list \<Rightarrow> account \<Rightarrow> bool \<Rightarrow> account list res" where
  "validate_recipient_user_profiles db profiles sender allow_deactivated =
     ebind (efold (\<lambda>u (m, realms).
         if \<not> is_active u \<and> \<not> is_mirror_dummy u \<and> \<not> allow_deactivated \<or> realm_deactivated u
           then Inl (ValidationError ([CHR 0x27] @ acc_email u @ [CHR 0x27] @ '' is no longer using Zulip.''))
         else Inr (AList.update (acc_id u) u m,
           if is_cross_realm_bot_email db (acc_email u) then realms else List.insert (acc_realm_id u) realms))
       profiles ([], if is_cross_realm_bot_email db (acc_email sender) then [] else [acc_realm_id sender]))
     (\<lambda>(m, realms).
       if length realms > 1
         then Inl (ValidationError (''You can'' @ [CHR 0x27] @ ''t send direct messages outside of your organization.''))
       else Inr (map snd m))"

definition get_direct_message_group_hash :: "int list \<Rightarrow> int list" where
  "get_direct_message_group_hash uids = sort (remdups uids)"

text \<open>\<open>get_recipient_from_user_profiles\<close> with \<open>create=False\<close>, as the narrows call it.\<close>

definition get_recipient_from_user_profiles ::
    "chat_db \<Rightarrow> account list \<Rightarrow> bool \<Rightarrow> account option \<Rightarrow> account \<Rightarrow> recipient res" where
  "get_recipient_from_user_profiles db profiles forwarded forwarder sender =
     (let m = fold (\<lambda>u m. AList.update (acc_id u) u m) profiles [] in
      ebind (if forwarded
        then (case forwarder of
            None \<Rightarrow> Inl AssertionError
          | Some f \<Rightarrow> if acc_id f \<notin> set (map fst m) then Inl (ValidationError ''User not authorized for this query'')
              else Inr ())
        else Inr ()) (\<lambda>_.
      let m = (if length m = 2 \<and> acc_id sender \<in> set (map fst m) then AList.delete (acc_id sender) m else m) in
      case m of
        [] \<Rightarrow> Inl AssertionError
      | [(i, u)] \<Rightarrow> Inr \<lparr>r_id = acc_recipient_id u, r_type = PERSONAL, r_type_id = acc_id u\<rparr>
      | _ \<Rightarrow>
          let uids = map fst (AList.update (acc_id sender) sender m) in
          ebind (get_or_missing (\<lambda>g. dg_hash g = get_direct_message_group_hash uids) (dm_groups db)) (\<lambda>g.
          Inr \<lparr>r_id = dg_recipient_id g, r_type = DIRECT_MESSAGE_GROUP, r_type_id = dg_id g\<rparr>)))"

definition recipient_for_user_profiles ::
    "chat_db \<Rightarrow> account list \<Rightarrow> bool \<Rightarrow> account option \<Rightarrow> account \<Rightarrow> bool \<Rightarrow> recipient res" where
  "recipient_for_user_profiles db profiles forwarded forwarder sender allow_deactivated =
     ebind (validate_recipient_user_profiles db profiles sender allow_deactivated) (\<lambda>ps.
     get_recipient_from_user_profiles db ps forwarded forwarder sender)"

definition get_direct_message_group_user_ids :: "chat_db \<Rightarrow> int \<Rightarrow> int list" where
  "get_direct_message_group_user_ids db recipient_id =
     sort (map sub_user (filter (\<lambda>s. sub_recipient s = recipient_id) (subscriptions db)))"

section \<open>Channels\<close>

definition get_stream_by_narrow_operand_access_unchecked :: "chat_db \<Rightarrow> py \<Rightarrow> int \<Rightarrow> channel res" where
  "get_stream_by_narrow_operand_access_unchecked db opnd rid =
     (case opnd of
        PStr s \<Rightarrow> get_realm_stream db s rid
      | v \<Rightarrow> (case operand_int v of Some i \<Rightarrow> get_stream_by_id_in_realm db i rid | None \<Rightarrow> Inl TypeError))"

definition get_channel_from_narrow_access_unchecked ::
    "chat_db \<Rightarrow> narrow_param list option \<Rightarrow> int \<Rightarrow> channel option res" where
  "get_channel_from_narrow_access_unchecked db narrow rid =
     (case narrow of None \<Rightarrow> Inr None
      | Some ts \<Rightarrow> (case find (\<lambda>t. np_operator t \<in> set channel_operators) ts of
          None \<Rightarrow> Inr None
        | Some t \<Rightarrow> ebind (get_stream_by_narrow_operand_access_unchecked db (np_operand t) rid) (\<lambda>c. Inr (Some c))))"

definition get_active_streams :: "chat_db \<Rightarrow> int \<Rightarrow> channel list" where
  "get_active_streams db rid = filter (\<lambda>c. ch_realm_id c = rid \<and> \<not> ch_deactivated c) (channels db)"

section \<open>The \<open>with\<close> operator\<close>

text \<open>The requester: an account, or nobody for a spectator.\<close>

definition update_narrow_terms_containing_with_operator ::
    "chat_db \<Rightarrow> bool \<Rightarrow> realm \<Rightarrow> account option \<Rightarrow> narrow_param list option \<Rightarrow> narrow_param list option res" where
  "update_narrow_terms_containing_with_operator db server_enabled r user narrow =
     (case narrow of None \<Rightarrow> Inr None | Some ts \<Rightarrow>
      (case filter (\<lambda>t. np_operator t = ''with'') ts of
         [] \<Rightarrow> Inr (Some ts)
       | _ # _ # _ \<Rightarrow> Inl (InvalidOperatorCombinationError
           (''Duplicate '' @ [CHR 0x27] @ ''with'' @ [CHR 0x27] @ '' operators.''))
       | [w] \<Rightarrow>
           let rest = remove1 w ts in
           (case (case np_operand w of PStr s \<Rightarrow> py_int s | v \<Rightarrow> operand_int v) of
              None \<Rightarrow> Inl (BadNarrowOperatorError (''Invalid '' @ [CHR 0x27] @ ''with'' @ [CHR 0x27] @ '' operator''))
            | Some mid \<Rightarrow>
                (case (case user of
                     Some u \<Rightarrow> access_message db u mid False
                   | None \<Rightarrow> access_web_public_message db server_enabled r mid) of
                   Inl e \<Rightarrow> (if user \<noteq> None \<and> is_jsonable e \<or> user = None \<and> e = MissingAuthenticationError
                     then Inr (Some rest) else Inl e)
                 | Inr m \<Rightarrow>
                     let filtered = filter (\<lambda>t. np_operator t \<notin>
                       {''stream'', ''channel'', ''topic'', ''dm'', ''pm-with''}) rest in
                     (case m_recipient_type m of
                        STREAM \<Rightarrow>
                          ebind (validate_terms \<lparr>np_operator = ''channel'', np_operand = PInt (m_type_id m), np_negated = False\<rparr>) (\<lambda>c.
                          ebind (validate_terms \<lparr>np_operator = ''topic'', np_operand = PStr (m_subject m), np_negated = False\<rparr>) (\<lambda>t.
                          Inr (Some ([c, t] @ filtered))))
                      | PERSONAL \<Rightarrow>
                          ebind (validate_terms \<lparr>np_operator = ''dm'', np_operand = PList [PInt (m_type_id m)], np_negated = False\<rparr>) (\<lambda>d.
                          Inr (Some ([d] @ filtered)))
                      | DIRECT_MESSAGE_GROUP \<Rightarrow>
                          ebind (validate_terms \<lparr>np_operator = ''dm'', np_operand =
                            PList (map PInt (get_direct_message_group_user_ids db (m_recipient_id m))), np_negated = False\<rparr>) (\<lambda>d.
                          Inr (Some ([d] @ filtered))))))))"

end
