(* ===== verification/NarrowQuery.thy ===== *)
theory NarrowQuery
  imports NarrowTerms
begin

unbundle bit_operations_syntax

text \<open>
  The query of a narrow: \<open>NarrowBuilder\<close>, \<open>ok_to_include_history\<close>, \<open>exclude_muting_conditions\<close>,
  \<open>get_base_query_for_search\<close> and \<open>add_narrow_conditions\<close> of \<^verbatim>\<open>zerver/lib/narrow.py\<close>, with
  \<^verbatim>\<open>zerver/lib/topic_sqlalchemy.py\<close> and \<open>exclude_topic_mutes\<close>.

  A query is the table it starts from and the list of its conditions, as the code composes them; a
  condition has the columns it names and a value on a row.  A query that names a column its table
  does not have raises when it runs.  What full-text search finds is the parameter \<open>fts\<close>, by the
  extension in use, the words searched for and the message; \<open>ILIKE\<close> is written out.
\<close>

section \<open>Conditions\<close>

definition ALL_FLAGS :: "string list" where
  "ALL_FLAGS = [''read'', ''starred'', ''collapsed'', ''mentioned'', ''stream_wildcard_mentioned'',
     ''topic_wildcard_mentioned'', ''group_mentioned'', ''force_expand'', ''force_collapse'',
     ''has_alert_word'', ''historical'', ''is_private'', ''active_mobile_push_notification'']"

definition flag_mask :: "string \<Rightarrow> int" where
  "flag_mask f = 2 ^ length (takeWhile (\<lambda>g. g \<noteq> f) ALL_FLAGS)"

text \<open>The two ways to name the id of a message: \<open>zerver_message.id\<close> and \<open>message_id\<close>.\<close>

datatype id_column = Zerver_message_id | Message_id

datatype cond =
    CFalse
  | CFlags int bool
  | CRecipient int
  | CRecipientIn "int list"
  | CSender int
  | CRealm int
  | CHas string
  | CReaction id_column
  | CTopic string
  | CResolved
  | CFollowed int
  | CId id_column int
  | CIdLe id_column int
  | CIdGe id_column int
  | CIlike string
  | CSearch bool string
  | CNot cond
  | CAnd "cond list"
  | COr "cond list"

record row =
  row_message :: "message option"
  row_um :: "usermessage option"

definition row_id :: "row \<Rightarrow> int" where
  "row_id r = (case row_um r of Some um \<Rightarrow> um_message um
     | None \<Rightarrow> (case row_message r of Some m \<Rightarrow> m_id m | None \<Rightarrow> 0))"

definition upper_char :: "char \<Rightarrow> char" where
  "upper_char c = (let n = of_char c :: nat in if 97 \<le> n \<and> n \<le> 122 then char_of (n - 32) else c)"

definition upper :: "string \<Rightarrow> string" where
  "upper s = map upper_char s"

definition TOPIC_MUTED :: int where "TOPIC_MUTED = 1"
definition TOPIC_FOLLOWED :: int where "TOPIC_FOLLOWED = 3"

definition contains :: "string \<Rightarrow> string \<Rightarrow> bool" where
  "contains s t \<longleftrightarrow> list_ex (\<lambda>u. startswith u t) (suffixes s)"

abbreviation on_message :: "row \<Rightarrow> (message \<Rightarrow> bool) \<Rightarrow> bool" where
  "on_message r p \<equiv> (case row_message r of None \<Rightarrow> False | Some m \<Rightarrow> p m)"

text \<open>The value of a condition on a row.\<close>

fun holds :: "chat_db \<Rightarrow> (bool \<Rightarrow> string \<Rightarrow> message \<Rightarrow> bool) \<Rightarrow> row \<Rightarrow> cond \<Rightarrow> bool" where
  "holds db fts r CFalse = False"
| "holds db fts r (CFlags k b) =
     (case row_um r of None \<Rightarrow> False | Some um \<Rightarrow> ((um_flags um AND k) \<noteq> 0) = b)"
| "holds db fts r (CRecipient i) = on_message r (\<lambda>m. m_recipient_id m = i)"
| "holds db fts r (CRecipientIn is) = on_message r (\<lambda>m. m_recipient_id m \<in> set is)"
| "holds db fts r (CSender i) = on_message r (\<lambda>m. m_sender_id m = i)"
| "holds db fts r (CRealm i) = on_message r (\<lambda>m. m_realm_id m = i)"
| "holds db fts r (CHas what) = on_message r (\<lambda>m. m_has m what)"
| "holds db fts r (CReaction c) = (row_id r \<in> set (reactions db))"
| "holds db fts r (CTopic t) = on_message r (\<lambda>m. upper (m_subject m) = upper t)"
| "holds db fts r CResolved = on_message r (\<lambda>m. startswith (m_subject m) RESOLVED_TOPIC_PREFIX)"
| "holds db fts r (CFollowed uid) = on_message r (\<lambda>m. list_ex (\<lambda>t. ut_user t = uid \<and>
     ut_policy t = TOPIC_FOLLOWED \<and> upper (ut_topic t) = upper (m_subject m) \<and>
     ut_recipient t = m_recipient_id m) (usertopics db))"
| "holds db fts r (CId c i) = (row_id r = i)"
| "holds db fts r (CIdLe c i) = (row_id r \<le> i)"
| "holds db fts r (CIdGe c i) = (row_id r \<ge> i)"
| "holds db fts r (CIlike t) = on_message r (\<lambda>m. contains (lower (m_content m)) (lower t) \<or>
     contains (lower (m_subject m)) (lower t))"
| "holds db fts r (CSearch pgroonga t) = on_message r (fts pgroonga t)"
| "holds db fts r (CNot c) = (\<not> holds db fts r c)"
| "holds db fts r (CAnd cs) = list_all (holds db fts r) cs"
| "holds db fts r (COr cs) = list_ex (holds db fts r) cs"

text \<open>The columns a condition names, and the rows and columns of the tables queries start from.\<close>

fun id_name :: "id_column \<Rightarrow> string" where
  "id_name Zerver_message_id = ''zerver_message.id''"
| "id_name Message_id = ''message_id''"

fun columns :: "cond \<Rightarrow> string list" where
  "columns CFalse = []"
| "columns (CFlags k b) = [''flags'']"
| "columns (CRecipient i) = [''recipient_id'']"
| "columns (CRecipientIn is) = [''recipient_id'']"
| "columns (CSender i) = [''sender_id'']"
| "columns (CRealm i) = [''realm_id'']"
| "columns (CHas what) = [''has_'' @ what]"
| "columns (CReaction c) = [case c of Message_id \<Rightarrow> ''zerver_usermessage.message_id'' | _ \<Rightarrow> ''zerver_message.id'']"
| "columns (CTopic t) = [''subject'']"
| "columns CResolved = [''subject'']"
| "columns (CFollowed uid) = [''zerver_message.subject'', ''zerver_message.recipient_id'']"
| "columns (CId c i) = [id_name c]"
| "columns (CIdLe c i) = [id_name c]"
| "columns (CIdGe c i) = [id_name c]"
| "columns (CIlike t) = [''content'', ''subject'']"
| "columns (CSearch pgroonga t) = [if pgroonga then ''search_pgroonga'' else ''search_tsvector'']"
| "columns (CNot c) = columns c"
| "columns (CAnd cs) = concat (map columns cs)"
| "columns (COr cs) = concat (map columns cs)"

datatype base = From_message int | From_usermessage int | From_join int

definition message_columns :: "string list" where
  "message_columns = [''recipient_id'', ''sender_id'', ''realm_id'', ''subject'', ''content'', ''rendered_content'',
     ''has_attachment'', ''has_image'', ''has_link'', ''search_tsvector'', ''search_pgroonga'', ''zerver_message.id'',
     ''zerver_message.subject'', ''zerver_message.recipient_id'']"

definition usermessage_columns :: "string list" where
  "usermessage_columns = [''message_id'', ''flags'', ''user_profile_id'', ''zerver_usermessage.message_id'']"

fun base_columns :: "base \<Rightarrow> string list" where
  "base_columns (From_message rid) = message_columns"
| "base_columns (From_usermessage uid) = usermessage_columns"
| "base_columns (From_join uid) = message_columns @ usermessage_columns"

fun base_rows :: "chat_db \<Rightarrow> base \<Rightarrow> row list" where
  "base_rows db (From_message rid) =
     map (\<lambda>m. \<lparr>row_message = Some m, row_um = None\<rparr>) (filter (\<lambda>m. m_realm_id m = rid) (messages db))"
| "base_rows db (From_usermessage uid) =
     map (\<lambda>um. \<lparr>row_message = None, row_um = Some um\<rparr>) (filter (\<lambda>um. um_user um = uid) (usermessages db))"
| "base_rows db (From_join uid) =
     concat (map (\<lambda>um. map (\<lambda>m. \<lparr>row_message = Some m, row_um = Some um\<rparr>)
       (filter (\<lambda>m. m_id m = um_message um) (messages db))) (filter (\<lambda>um. um_user um = uid) (usermessages db)))"

record narrow_query =
  q_base :: base
  q_where :: "cond list"
  q_extra :: "string list"

definition add_where :: "narrow_query \<Rightarrow> cond \<Rightarrow> narrow_query" where
  "add_where q c = q\<lparr>q_where := q_where q @ [c]\<rparr>"

definition add_columns :: "narrow_query \<Rightarrow> string list \<Rightarrow> narrow_query" where
  "add_columns q cs = q\<lparr>q_extra := q_extra q @ cs\<rparr>"

definition query_rows :: "chat_db \<Rightarrow> (bool \<Rightarrow> string \<Rightarrow> message \<Rightarrow> bool) \<Rightarrow> narrow_query \<Rightarrow> row list" where
  "query_rows db fts q = filter (\<lambda>r. list_all (holds db fts r) (q_where q)) (base_rows db (q_base q))"

definition query_columns :: "narrow_query \<Rightarrow> string list" where
  "query_columns q = q_extra q @ concat (map columns (q_where q))"

definition execute :: "chat_db \<Rightarrow> (bool \<Rightarrow> string \<Rightarrow> message \<Rightarrow> bool) \<Rightarrow> narrow_query \<Rightarrow> row list res" where
  "execute db fts q =
     (case find (\<lambda>c. c \<notin> set (base_columns (q_base q))) (query_columns q) of
        Some c \<Rightarrow> Inl (ProgrammingError c)
      | None \<Rightarrow> Inr (query_rows db fts q))"

definition get_base_query_for_search :: "int \<Rightarrow> account option \<Rightarrow> bool \<Rightarrow> bool \<Rightarrow> (narrow_query \<times> id_column) res" where
  "get_base_query_for_search rid user need_message need_user_message =
     (if \<not> need_user_message
      then if need_message then Inr (\<lparr>q_base = From_message rid, q_where = [], q_extra = []\<rparr>, Zerver_message_id)
           else Inl AssertionError
      else case user of
        None \<Rightarrow> Inl AssertionError
      | Some u \<Rightarrow>
          if need_message then Inr (\<lparr>q_base = From_join (acc_id u), q_where = [], q_extra = []\<rparr>, Message_id)
          else Inr (\<lparr>q_base = From_usermessage (acc_id u), q_where = [], q_extra = []\<rparr>, Message_id))"

section \<open>Muted channels and topics\<close>

definition exclude_topic_mutes :: "chat_db \<Rightarrow> cond list \<Rightarrow> int \<Rightarrow> int option \<Rightarrow> cond list" where
  "exclude_topic_mutes db conditions uid stream_id =
     (let rows = filter (\<lambda>t. ut_user t = uid \<and> ut_policy t = TOPIC_MUTED \<and>
            (case stream_id of None \<Rightarrow> True | Some i \<Rightarrow> ut_stream t = i)) (usertopics db)
      in if rows = [] then conditions
         else conditions @ [CNot (COr (map (\<lambda>t. CAnd [CRecipient (ut_recipient t), CTopic (ut_topic t)]) rows))])"

definition exclude_muting_conditions :: "chat_db \<Rightarrow> account \<Rightarrow> narrow_param list option \<Rightarrow> cond list res" where
  "exclude_muting_conditions db u narrow =
     ebind (except_missing (get_channel_from_narrow_access_unchecked db narrow (acc_realm_id u)) (Inr None)) (\<lambda>channel.
     let channel_id = map_option ch_id channel;
         muted = map sub_recipient (filter (\<lambda>s. sub_user s = acc_id u \<and> sub_active s \<and> sub_muted s \<and>
           sub_type s = STREAM) (subscriptions db));
         conditions = (if channel_id = None \<and> muted \<noteq> [] then [CNot (CRecipientIn muted)] else [])
     in Inr (exclude_topic_mutes db conditions (acc_id u) channel_id))"

section \<open>The builder\<close>

record narrow_builder =
  nb_user :: "account option"
  nb_id_column :: id_column
  nb_realm :: realm
  nb_web_public :: bool
  nb_pgroonga :: bool
  nb_channel :: bool
  nb_dm :: bool

type_synonym step = "(narrow_builder \<times> narrow_query) res"

definition maybe_negate :: "bool \<Rightarrow> cond \<Rightarrow> cond" where
  "maybe_negate negated c = (if negated then CNot c else c)"

definition bad_narrow :: "string \<Rightarrow> 'a res" where
  "bad_narrow s = Inl (BadNarrowOperatorError s)"

definition check_not_both_channel_and_dm_narrow :: "narrow_builder \<Rightarrow> bool \<Rightarrow> bool \<Rightarrow> narrow_builder res" where
  "check_not_both_channel_and_dm_narrow b dm channel =
     (let b = b\<lparr>nb_dm := nb_dm b \<or> dm, nb_channel := nb_channel b \<or> channel\<rparr>
      in if nb_channel b \<and> nb_dm b
         then bad_narrow ''No message can be both a channel message and direct message''
         else Inr b)"

text \<open>The two assertions of the operators that need a user, and the operand as a string.\<close>

definition the_user :: "narrow_builder \<Rightarrow> account res" where
  "the_user b = (if nb_web_public b then Inl AssertionError
     else case nb_user b of None \<Rightarrow> Inl AssertionError | Some u \<Rightarrow> Inr u)"

definition str_arg :: "py \<Rightarrow> string res" where
  "str_arg v = (case v of PStr s \<Rightarrow> Inr s | _ \<Rightarrow> Inl TypeError)"

definition by_has :: "narrow_builder \<Rightarrow> narrow_query \<Rightarrow> py \<Rightarrow> bool \<Rightarrow> step" where
  "by_has b q opnd negated =
     ebind (str_arg opnd) (\<lambda>s.
     if s \<notin> {''attachment'', ''image'', ''link'', ''reaction''} then bad_narrow (''unknown '' @ repr_key ''has'' @ '' operand '' @ s)
     else if s = ''reaction'' then Inr (b, add_where q (maybe_negate negated (CReaction (nb_id_column b))))
     else Inr (b, add_where q (maybe_negate negated (CHas s))))"

definition by_in :: "chat_db \<Rightarrow> narrow_builder \<Rightarrow> narrow_query \<Rightarrow> py \<Rightarrow> bool \<Rightarrow> step" where
  "by_in db b q opnd negated =
     ebind (the_user b) (\<lambda>u.
     ebind (str_arg opnd) (\<lambda>s.
     if s = ''home''
       then ebind (exclude_muting_conditions db u (Some [])) (\<lambda>conditions. Inr (b, add_where q (CAnd conditions)))
     else if s = ''all'' then Inr (b, q)
     else bad_narrow (''unknown '' @ repr_key ''in'' @ '' operand '' @ s)))"

definition mention_flags_mask :: int where
  "mention_flags_mask = (((flag_mask ''mentioned'' OR flag_mask ''stream_wildcard_mentioned'') OR
     flag_mask ''topic_wildcard_mentioned'') OR flag_mask ''group_mentioned'')"

definition is_private_cond :: cond where
  "is_private_cond = CFlags (flag_mask ''is_private'') True"

definition by_is :: "narrow_builder \<Rightarrow> narrow_query \<Rightarrow> py \<Rightarrow> bool \<Rightarrow> step" where
  "by_is b q opnd negated =
     ebind (the_user b) (\<lambda>u.
     ebind (str_arg opnd) (\<lambda>s.
     if s \<in> {''dm'', ''private''}
       then ebind (check_not_both_channel_and_dm_narrow b True False) (\<lambda>b.
            Inr (b, add_where q (maybe_negate negated is_private_cond)))
     else if s = ''starred'' then Inr (b, add_where q (maybe_negate negated (CFlags (flag_mask ''starred'') True)))
     else if s = ''unread'' then Inr (b, add_where q (maybe_negate negated (CFlags (flag_mask ''read'') False)))
     else if s = ''mentioned'' then Inr (b, add_where q (maybe_negate negated (CFlags mention_flags_mask True)))
     else if s = ''alerted'' then Inr (b, add_where q (maybe_negate negated (CFlags (flag_mask ''has_alert_word'') True)))
     else if s = ''resolved'' then Inr (b, add_where q (maybe_negate negated CResolved))
     else if s = ''followed'' then Inr (b, add_where q (maybe_negate negated (CFollowed (acc_id u))))
     else bad_narrow (''unknown '' @ repr_key ''is'' @ '' operand '' @ s)))"

text \<open>
  The names of Zephyr classes: any number of \<open>un\<close> before and \<open>.d\<close> after the name of the class,
  which the code writes as regular expressions.  \<open>un_suffixes\<close> lists what can remain after the prefix,
  the shortest last; \<open>drop_d\<close> drops the suffixes from the end of a reversed name as long as the
  given number of characters remains.  Names of channels hold no line breaks.
\<close>

fun un_suffixes :: "string \<Rightarrow> string list" where
  "un_suffixes (a # b # s) = (a # b # s) # (if lower [a, b] = ''un'' then un_suffixes s else [])"
| "un_suffixes s = [s]"

fun drop_d :: "nat \<Rightarrow> string \<Rightarrow> string" where
  "drop_d least rs = (case rs of
     a # b # rest \<Rightarrow> if lower [b, a] = ''.d'' \<and> length rest \<ge> least then drop_d least rest else rs
   | _ \<Rightarrow> rs)"

definition zephyr_base_channel :: "string \<Rightarrow> string" where
  "zephyr_base_channel name =
     (let s = last (filter (\<lambda>s. s \<noteq> []) (un_suffixes name)) in rev (drop_d 1 (rev s)))"

definition zephyr_base_topic :: "string \<Rightarrow> string res" where
  "zephyr_base_topic t =
     (let nl = CHR 0x0A; t = (if t \<noteq> [] \<and> last t = nl then butlast t else t)
      in if nl \<in> set t then Inl AssertionError else Inr (rev (drop_d 0 (rev t))))"

definition zephyr_matches :: "string \<Rightarrow> string \<Rightarrow> bool" where
  "zephyr_matches base_name name =
     list_ex (\<lambda>s. startswith (lower s) (lower base_name) \<and>
       drop_d 0 (rev (drop (length base_name) s)) = []) (un_suffixes name)"

definition by_channel :: "chat_db \<Rightarrow> narrow_builder \<Rightarrow> narrow_query \<Rightarrow> py \<Rightarrow> bool \<Rightarrow> step" where
  "by_channel db b q opnd negated =
     ebind (check_not_both_channel_and_dm_narrow b False True) (\<lambda>b.
     ebind (except_missing (get_stream_by_narrow_operand_access_unchecked db opnd (realm_id (nb_realm b)))
       (bad_narrow (''unknown channel '' @ str_operand opnd))) (\<lambda>c.
         if nb_web_public b \<and> \<not> is_web_public c then bad_narrow (''unknown web-public channel '' @ str_operand opnd)
         else if is_zephyr_mirror_realm (nb_realm b)
         then ebind (py_assert (\<not> is_public c)) (\<lambda>_.
              Inr (b, add_where q (maybe_negate negated (CRecipientIn (map ch_recipient_id
                (filter (\<lambda>d. zephyr_matches (zephyr_base_channel (ch_name c)) (ch_name d))
                  (get_active_streams db (realm_id (nb_realm b)))))))))
         else Inr (b, add_where q (maybe_negate negated (CRecipient (ch_recipient_id c))))))"

definition by_channels :: "chat_db \<Rightarrow> narrow_builder \<Rightarrow> narrow_query \<Rightarrow> py \<Rightarrow> bool \<Rightarrow> step" where
  "by_channels db b q opnd negated =
     ebind (check_not_both_channel_and_dm_narrow b False True) (\<lambda>b.
     ebind (str_arg opnd) (\<lambda>s.
     ebind (if s = ''public'' then Inr (get_public_streams db (realm_id (nb_realm b)))
            else if s = ''web-public'' then Inr (get_web_public_streams db (realm_id (nb_realm b)))
            else bad_narrow (''unknown channels operand '' @ s)) (\<lambda>cs.
     Inr (b, add_where q (maybe_negate negated (CRecipientIn (map ch_recipient_id (sort_key ch_id cs))))))))"

text \<open>Up to four \<open>.d\<close> after a topic.\<close>

definition topic_d :: "string \<Rightarrow> cond list" where
  "topic_d t = map (\<lambda>n. CTopic (t @ concat (replicate n ''.d''))) [0, 1, 2, 3, 4]"

definition by_topic :: "narrow_builder \<Rightarrow> narrow_query \<Rightarrow> py \<Rightarrow> bool \<Rightarrow> step" where
  "by_topic b q opnd negated =
     ebind (check_not_both_channel_and_dm_narrow b False True) (\<lambda>b.
     ebind (str_arg opnd) (\<lambda>s.
     if is_zephyr_mirror_realm (nb_realm b)
     then ebind (zephyr_base_topic s) (\<lambda>base_topic.
          let personal = ''(instance '' @ dq @ dq @ '')''
          in Inr (b, add_where q (maybe_negate negated (COr
             (if base_topic \<in> {[], ''personal'', personal}
              then topic_d [] @ topic_d ''personal'' @ topic_d personal
              else topic_d base_topic)))))
     else Inr (b, add_where q (maybe_negate negated (CTopic s)))))"

definition narrow_user :: "chat_db \<Rightarrow> py \<Rightarrow> int \<Rightarrow> account res" where
  "narrow_user db opnd rid =
     except_missing (case opnd of PStr s \<Rightarrow> get_user_including_cross_realm db s rid
        | v \<Rightarrow> (case operand_int v of Some i \<Rightarrow> get_user_by_id_in_realm_including_cross_realm db i rid
            | None \<Rightarrow> Inl TypeError))
       (bad_narrow (''unknown user '' @ str_operand opnd))"

definition by_sender :: "chat_db \<Rightarrow> narrow_builder \<Rightarrow> narrow_query \<Rightarrow> py \<Rightarrow> bool \<Rightarrow> step" where
  "by_sender db b q opnd negated =
     ebind (narrow_user db opnd (realm_id (nb_realm b))) (\<lambda>sender.
     Inr (b, add_where q (maybe_negate negated (CSender (acc_id sender)))))"

definition by_near :: "narrow_builder \<Rightarrow> narrow_query \<Rightarrow> py \<Rightarrow> bool \<Rightarrow> step" where
  "by_near b q opnd negated = Inr (b, q)"

definition MAX_POSSIBLE_MESSAGE_ID :: int where "MAX_POSSIBLE_MESSAGE_ID = 2147483647"

definition isdigit :: "string \<Rightarrow> bool" where
  "isdigit s \<longleftrightarrow> s \<noteq> [] \<and> list_all is_digit s"

definition by_id :: "narrow_builder \<Rightarrow> narrow_query \<Rightarrow> py \<Rightarrow> bool \<Rightarrow> step" where
  "by_id b q opnd negated =
     (case (if isdigit (str_operand opnd) then py_int (str_operand opnd) else None) of
        None \<Rightarrow> bad_narrow ''Invalid message ID''
      | Some i \<Rightarrow> if i > MAX_POSSIBLE_MESSAGE_ID then bad_narrow ''Invalid message ID''
          else Inr (b, add_where q (maybe_negate negated (CId (nb_id_column b) i))))"

subsection \<open>Direct messages\<close>

definition operand_ints :: "py \<Rightarrow> int list res" where
  "operand_ints v = (case v of
     PList vs \<Rightarrow> emap (\<lambda>v. case operand_int v of Some i \<Rightarrow> Inr i | None \<Rightarrow> Inl TypeError) vs | _ \<Rightarrow> Inl TypeError)"

definition dm_user_profiles :: "chat_db \<Rightarrow> py \<Rightarrow> int \<Rightarrow> account list res" where
  "dm_user_profiles db opnd rid =
     (case opnd of
        PStr s \<Rightarrow> get_user_profiles db (split_on (CHR '','') s) rid
      | v \<Rightarrow> ebind (operand_ints v) (\<lambda>is. get_user_profiles_by_ids db is rid))"

definition one_on_one_cond :: "int \<Rightarrow> int \<Rightarrow> int \<Rightarrow> int \<Rightarrow> int \<Rightarrow> cond" where
  "one_on_one_cond rid other_id self_recipient self_id other_recipient =
     CAnd [is_private_cond, CRealm rid,
       COr [CAnd [CSender other_id, CRecipient self_recipient], CAnd [CSender self_id, CRecipient other_recipient]]]"

definition by_dm :: "chat_db \<Rightarrow> narrow_builder \<Rightarrow> narrow_query \<Rightarrow> py \<Rightarrow> bool \<Rightarrow> step" where
  "by_dm db b q opnd negated =
     ebind (the_user b) (\<lambda>u.
     ebind (check_not_both_channel_and_dm_narrow b True False) (\<lambda>b.
     let users = dm_user_profiles db opnd (realm_id (nb_realm b)) in
     case ebind users (\<lambda>us. recipient_for_user_profiles db us False None u True) of
       Inl e \<Rightarrow> if e = DoesNotExist then Inr (b, add_where q (maybe_negate negated CFalse))
         else if is_jsonable e \<or> (case e of ValidationError m \<Rightarrow> True | _ \<Rightarrow> False)
         then bad_narrow (''unknown user in '' @ str_operand opnd) else Inl e
     | Inr r \<Rightarrow>
         if r_type r = DIRECT_MESSAGE_GROUP then Inr (b, add_where q (maybe_negate negated (CRecipient (r_id r))))
         else let others = filter (\<lambda>a. acc_id a \<noteq> acc_id u) (case users of Inr us \<Rightarrow> us | _ \<Rightarrow> []) in
           if others \<noteq> []
           then Inr (b, add_where q (maybe_negate negated (one_on_one_cond (realm_id (nb_realm b))
                  (acc_id (last others)) (acc_recipient_id u) (acc_id u) (r_id r))))
           else Inr (b, add_where q (maybe_negate negated
                  (CAnd [is_private_cond, CRealm (realm_id (nb_realm b)), CSender (acc_id u), CRecipient (r_id r)])))))"

definition get_direct_message_group_recipients :: "chat_db \<Rightarrow> account \<Rightarrow> account \<Rightarrow> int list" where
  "get_direct_message_group_recipients db u other =
     (let groups_of = (\<lambda>a. map sub_recipient (filter (\<lambda>s. sub_user s = acc_id a \<and> sub_type s = DIRECT_MESSAGE_GROUP)
            (subscriptions db)))
      in filter (\<lambda>i. i \<in> set (groups_of other)) (groups_of u))"

definition by_dm_including :: "chat_db \<Rightarrow> narrow_builder \<Rightarrow> narrow_query \<Rightarrow> py \<Rightarrow> bool \<Rightarrow> step" where
  "by_dm_including db b q opnd negated =
     ebind (the_user b) (\<lambda>u.
     ebind (check_not_both_channel_and_dm_narrow b True False) (\<lambda>b.
     ebind (narrow_user db opnd (realm_id (nb_realm b))) (\<lambda>other.
     if acc_id other = acc_id u then Inr (b, add_where q (maybe_negate negated is_private_cond))
     else Inr (b, add_where q (maybe_negate negated
       (CAnd [is_private_cond, CRealm (realm_id (nb_realm b)),
         COr [CAnd [CSender (acc_id other), CRecipient (acc_recipient_id u)],
              CAnd [CSender (acc_id u), CRecipient (acc_recipient_id other)],
              CAnd [CRecipientIn (get_direct_message_group_recipients db u other)]]]))))))"

definition by_group_pm_with :: "chat_db \<Rightarrow> narrow_builder \<Rightarrow> narrow_query \<Rightarrow> py \<Rightarrow> bool \<Rightarrow> step" where
  "by_group_pm_with db b q opnd negated =
     ebind (the_user b) (\<lambda>u.
     ebind (check_not_both_channel_and_dm_narrow b True False) (\<lambda>b.
     ebind (narrow_user db opnd (realm_id (nb_realm b))) (\<lambda>other.
     Inr (b, add_where q (maybe_negate negated
       (CAnd [is_private_cond, CRealm (realm_id (nb_realm b)),
         CRecipientIn (get_direct_message_group_recipients db u other)]))))))"

subsection \<open>Search\<close>

text \<open>The tokens of \<open>re.findall\<close>: quoted phrases, and runs of characters that are not spaces.\<close>

function search_tokens :: "string \<Rightarrow> string list" where
  "search_tokens [] = []"
| "search_tokens (c # s) =
     (let q = CHR 0x22; phrase = takeWhile (\<lambda>x. x \<noteq> q) s
      in if c = q \<and> phrase \<noteq> [] \<and> dropWhile (\<lambda>x. x \<noteq> q) s \<noteq> []
         then (q # phrase @ [q]) # search_tokens (tl (dropWhile (\<lambda>x. x \<noteq> q) s))
         else if is_space c then search_tokens s
         else (c # takeWhile (\<lambda>x. \<not> is_space x) s) # search_tokens (dropWhile (\<lambda>x. \<not> is_space x) s))"
  by pat_completeness auto
termination
proof (relation "measure length")
  have le: "length (dropWhile P s) < length (c # s)" for P :: "char \<Rightarrow> bool" and c s
    using length_dropWhile_le [of P s] by simp
  show "\<And>c s x xa. \<lbrakk>x = CHR 0x22; xa = takeWhile (\<lambda>y. y \<noteq> x) s;
      \<not> (c = x \<and> xa \<noteq> [] \<and> dropWhile (\<lambda>y. y \<noteq> x) s \<noteq> []); \<not> is_space c\<rbrakk> \<Longrightarrow>
      (dropWhile (\<lambda>y. \<not> is_space y) s, c # s) \<in> measure length"
    using le by simp
  show "\<And>c s x xa. \<lbrakk>x = CHR 0x22; xa = takeWhile (\<lambda>y. y \<noteq> x) s;
      c = x \<and> xa \<noteq> [] \<and> dropWhile (\<lambda>y. y \<noteq> x) s \<noteq> []\<rbrakk> \<Longrightarrow>
      (tl (dropWhile (\<lambda>y. y \<noteq> x) s), c # s) \<in> measure length"
    using le by (simp add: less_imp_diff_less)
qed simp_all

definition quoted :: "string \<Rightarrow> bool" where
  "quoted t \<longleftrightarrow> t \<noteq> [] \<and> hd t = CHR 0x22 \<and> last t = CHR 0x22"

definition by_search :: "narrow_builder \<Rightarrow> narrow_query \<Rightarrow> py \<Rightarrow> bool \<Rightarrow> step" where
  "by_search b q opnd negated =
     ebind (str_arg opnd) (\<lambda>s.
     let q = add_columns q [''rendered_content'', ''subject''] in
     if nb_pgroonga b then Inr (b, add_where q (maybe_negate negated (CSearch True s)))
     else let q = fold (\<lambda>t q. add_where q (maybe_negate negated (CIlike (butlast (tl t)))))
                (filter quoted (search_tokens s)) q
          in Inr (b, add_where q (maybe_negate negated (CSearch False s))))"

section \<open>The query of a narrow\<close>

definition add_term :: "chat_db \<Rightarrow> narrow_builder \<Rightarrow> narrow_query \<Rightarrow> narrow_param \<Rightarrow> step" where
  "add_term db b q t =
     (let op = np_operator t; opnd = np_operand t; negated = np_negated t in
      if op = ''has'' then by_has b q opnd negated
      else if op = ''in'' then by_in db b q opnd negated
      else if op = ''is'' then by_is b q opnd negated
      else if op \<in> {''channel'', ''stream''} then by_channel db b q opnd negated
      else if op \<in> {''channels'', ''streams''} then by_channels db b q opnd negated
      else if op = ''topic'' then by_topic b q opnd negated
      else if op = ''sender'' then by_sender db b q opnd negated
      else if op = ''near'' then by_near b q opnd negated
      else if op = ''id'' then by_id b q opnd negated
      else if op = ''search'' then by_search b q opnd negated
      else if op \<in> {''dm'', ''pm-with'', ''pm_with''} then by_dm db b q opnd negated
      else if op = ''dm-including'' then by_dm_including db b q opnd negated
      else if op \<in> {''group-pm-with'', ''group_pm_with''} then by_group_pm_with db b q opnd negated
      else bad_narrow (''unknown operator '' @ op))"

definition history_by_operand :: "chat_db \<Rightarrow> account \<Rightarrow> py \<Rightarrow> bool res" where
  "history_by_operand db u opnd =
     (case opnd of
        PStr s \<Rightarrow> can_access_stream_history_by_name db u s
      | v \<Rightarrow> (case operand_int v of Some i \<Rightarrow> can_access_stream_history_by_id db u i | None \<Rightarrow> Inl TypeError))"

definition history_step :: "chat_db \<Rightarrow> account \<Rightarrow> narrow_param \<Rightarrow> bool \<Rightarrow> bool res" where
  "history_step db u t include_history =
     (if np_operator t \<in> set channel_operators \<and> \<not> np_negated t then history_by_operand db u (np_operand t)
      else if np_operator t \<in> set channels_operators \<and> np_operand t = PStr ''public'' \<and> \<not> np_negated t \<and>
        can_access_public_streams (acc_realm u) (profile u)
      then Inr True
      else Inr include_history)"

definition ok_to_include_history :: "chat_db \<Rightarrow> narrow_param list option \<Rightarrow> account option \<Rightarrow> bool \<Rightarrow> bool res" where
  "ok_to_include_history db narrow user web =
     (if web then ebind (py_assert (user = None)) (\<lambda>_. Inr True)
      else case user of None \<Rightarrow> Inl AssertionError | Some u \<Rightarrow>
       (case narrow of None \<Rightarrow> Inr False | Some ts \<Rightarrow>
          ebind (efold (history_step db u) ts False) (\<lambda>include_history.
          Inr (include_history \<and> \<not> list_ex (\<lambda>t. np_operator t = ''is'' \<and>
            np_operand t \<notin> {PStr ''resolved'', PStr ''followed''}) ts))))"

definition builder_init :: "account option \<Rightarrow> id_column \<Rightarrow> realm \<Rightarrow> bool \<Rightarrow> bool \<Rightarrow> narrow_builder" where
  "builder_init user c r web pgroonga =
     \<lparr>nb_user = user, nb_id_column = c, nb_realm = r, nb_web_public = web, nb_pgroonga = pgroonga,
      nb_channel = False, nb_dm = False\<rparr>"

text \<open>One round of the loop: the operands of searches are collected for the end.\<close>

definition narrow_step ::
    "chat_db \<Rightarrow> narrow_param \<Rightarrow> narrow_builder \<times> narrow_query \<times> string list \<Rightarrow>
     (narrow_builder \<times> narrow_query \<times> string list) res" where
  "narrow_step db t s = (case s of (b, q, operands) \<Rightarrow>
     if np_operator t = ''search''
     then ebind (str_arg (np_operand t)) (\<lambda>s. Inr (b, q, operands @ [s]))
     else ebind (add_term db b q t) (\<lambda>(b, q). Inr (b, q, operands)))"

definition add_narrow_conditions ::
    "chat_db \<Rightarrow> bool \<Rightarrow> account option \<Rightarrow> id_column \<Rightarrow> narrow_query \<Rightarrow> narrow_param list option \<Rightarrow> bool \<Rightarrow> realm \<Rightarrow>
     (narrow_query \<times> bool) res" where
  "add_narrow_conditions db pgroonga user c q narrow web r =
     (case narrow of None \<Rightarrow> Inr (q, False) | Some ts \<Rightarrow>
        ebind (efold (narrow_step db) ts (builder_init user c r web pgroonga, q, [])) (\<lambda>(b, q, operands).
        if operands = [] then Inr (q, False)
        else ebind (validate_terms \<lparr>np_operator = ''search'', np_operand = PStr (join '' '' operands), np_negated = False\<rparr>) (\<lambda>t.
             ebind (add_term db b (add_columns q [''subject'', ''rendered_content'']) t) (\<lambda>(b, q). Inr (q, True)))))"

end
