(* ===== verification/MessageFetch.thy ===== *)
theory MessageFetch
  imports NarrowQuery
begin

text \<open>
  Fetching the messages of a narrow around an anchor: the end of \<^verbatim>\<open>zerver/lib/narrow.py\<close> and the
  views of \<^verbatim>\<open>zerver/views/message_fetch.py\<close> up to the rendering of the messages.

  Rows come from an execution as a list; a query with an order and a limit takes the first rows of
  the sorted list.  The first visible message id of the organization is the parameter \<open>fv\<close>.
\<close>

section \<open>Anchors\<close>

definition LARGER_THAN_MAX_MESSAGE_ID :: int where "LARGER_THAN_MAX_MESSAGE_ID = 10000000000000000"

definition find_first_unread_anchor ::
    "chat_db \<Rightarrow> (bool \<Rightarrow> string \<Rightarrow> message \<Rightarrow> bool) \<Rightarrow> bool \<Rightarrow> account option \<Rightarrow> narrow_param list option \<Rightarrow> int res" where
  "find_first_unread_anchor db fts pgroonga user narrow =
     (case user of None \<Rightarrow> Inr LARGER_THAN_MAX_MESSAGE_ID | Some u \<Rightarrow>
        ebind (get_base_query_for_search (acc_realm_id u) user True True) (\<lambda>(q, c).
        ebind (add_narrow_conditions db pgroonga user c q narrow False (acc_realm u)) (\<lambda>(q, is_search).
        ebind (exclude_muting_conditions db u narrow) (\<lambda>muting_conditions.
        let unread = CFlags (flag_mask ''read'') False;
            condition = (if muting_conditions \<noteq> [] then CAnd (unread # muting_conditions) else unread)
        in ebind (execute db fts (add_where q condition)) (\<lambda>rows.
           Inr (case sort_key row_id rows of r # _ \<Rightarrow> row_id r | [] \<Rightarrow> LARGER_THAN_MAX_MESSAGE_ID))))))"

definition parse_anchor_value :: "string option \<Rightarrow> bool \<Rightarrow> int option res" where
  "parse_anchor_value anchor_val use_first_unread_anchor =
     (if use_first_unread_anchor then Inr None
      else case anchor_val of
        None \<Rightarrow> Inl (JsonableError (''Missing '' @ repr_key ''anchor'' @ '' argument.''))
      | Some s \<Rightarrow>
          if s = ''oldest'' then Inr (Some 0)
          else if s = ''newest'' then Inr (Some LARGER_THAN_MAX_MESSAGE_ID)
          else if s = ''first_unread'' then Inr None
          else case py_int s of
            None \<Rightarrow> Inl (JsonableError ''Invalid anchor'')
          | Some anchor \<Rightarrow>
              if anchor < 0 then Inr (Some 0)
              else if anchor > LARGER_THAN_MAX_MESSAGE_ID then Inr (Some LARGER_THAN_MAX_MESSAGE_ID)
              else Inr (Some anchor))"

section \<open>The window of rows\<close>

text \<open>A query with an order, descending or not, and a limit, if any; several are a union.\<close>

record limited_query =
  l_query :: narrow_query
  l_desc :: bool
  l_limit :: "int option"

definition limit_query_to_range ::
    "narrow_query \<Rightarrow> int \<Rightarrow> int \<Rightarrow> int \<Rightarrow> bool \<Rightarrow> bool \<Rightarrow> bool \<Rightarrow> id_column \<Rightarrow> int \<Rightarrow> limited_query list" where
  "limit_query_to_range q num_before num_after anchor include_anchor anchored_to_left anchored_to_right id_col fv =
     (let need_before = (\<not> anchored_to_left \<and> num_before > 0);
          need_after = (\<not> anchored_to_right \<and> num_after > 0);
          both = (need_before \<and> need_after);
          before_anchor = (if both then anchor - 1 else anchor - (if include_anchor then 0 else 1));
          before_limit = (if both then num_before
            else if \<not> anchored_to_right then num_before + (if include_anchor then 1 else 0) else num_before);
          after_anchor = (if both then max anchor fv else max (anchor + (if include_anchor then 0 else 1)) fv);
          after_limit = (if both then num_after + 1 else num_after + (if include_anchor then 1 else 0));
          before = \<lparr>l_query = (if \<not> anchored_to_right then add_where q (CIdLe id_col before_anchor) else q),
            l_desc = True, l_limit = Some before_limit\<rparr>;
          after = \<lparr>l_query = (if \<not> anchored_to_left then add_where q (CIdGe id_col after_anchor) else q),
            l_desc = False, l_limit = Some after_limit\<rparr>
      in if both then [before, after]
         else if need_before then [before]
         else if need_after then [after]
         else [\<lparr>l_query = add_where q (CId id_col anchor), l_desc = False, l_limit = None\<rparr>])"

definition execute_limited ::
    "chat_db \<Rightarrow> (bool \<Rightarrow> string \<Rightarrow> message \<Rightarrow> bool) \<Rightarrow> limited_query \<Rightarrow> row list res" where
  "execute_limited db fts l =
     ebind (execute db fts (l_query l)) (\<lambda>rows.
     let rows = (if l_desc l then rev (sort_key row_id rows) else sort_key row_id rows)
     in Inr (case l_limit l of None \<Rightarrow> rows | Some n \<Rightarrow> take (nat n) rows))"

definition execute_union ::
    "chat_db \<Rightarrow> (bool \<Rightarrow> string \<Rightarrow> message \<Rightarrow> bool) \<Rightarrow> limited_query list \<Rightarrow> row list res" where
  "execute_union db fts ls = ebind (emap (execute_limited db fts) ls) (\<lambda>rss. Inr (sort_key row_id (concat rss)))"

record limited_messages =
  lm_rows :: "row list"
  found_anchor :: bool
  found_newest :: bool
  found_oldest :: bool
  history_limited :: bool

text \<open>\<open>xs[-1 * n:]\<close> and \<open>xs[:n]\<close> for a positive \<open>n\<close>.\<close>

definition last_n :: "int \<Rightarrow> 'a list \<Rightarrow> 'a list" where
  "last_n n xs = drop (length xs - nat n) xs"

definition post_process_limited_query ::
    "row list \<Rightarrow> int \<Rightarrow> int \<Rightarrow> int \<Rightarrow> bool \<Rightarrow> bool \<Rightarrow> int \<Rightarrow> limited_messages" where
  "post_process_limited_query rows num_before num_after anchor anchored_to_left anchored_to_right fv =
     (let visible = (if fv > 0 then filter (\<lambda>r. row_id r \<ge> fv) rows else rows);
          rows_limited = (length visible \<noteq> length rows);
          num_after = (if anchored_to_right then 0 else num_after);
          before = (if anchored_to_right then visible else filter (\<lambda>r. row_id r < anchor) visible);
          exact = (if anchored_to_right then [] else filter (\<lambda>r. row_id r = anchor) visible);
          after = (if anchored_to_right then [] else filter (\<lambda>r. row_id r > anchor) visible);
          before = (if num_before \<noteq> 0 then last_n num_before before else before);
          after = (if num_after \<noteq> 0 then take (nat num_after) after else after);
          oldest = (anchored_to_left \<or> int (length before) < num_before)
      in \<lparr>lm_rows = before @ exact @ after, found_anchor = (length exact = 1),
          found_newest = (anchored_to_right \<or> int (length after) < num_after),
          found_oldest = oldest, history_limited = (rows_limited \<and> oldest)\<rparr>)"

section \<open>Fetching\<close>

record fetched_messages =
  fm_limited :: limited_messages
  fm_anchor :: int
  fm_include_history :: bool
  fm_is_search :: bool

definition fetch_messages ::
    "chat_db \<Rightarrow> (bool \<Rightarrow> string \<Rightarrow> message \<Rightarrow> bool) \<Rightarrow> bool \<Rightarrow> int \<Rightarrow> narrow_param list option \<Rightarrow> account option \<Rightarrow>
     realm \<Rightarrow> bool \<Rightarrow> int option \<Rightarrow> bool \<Rightarrow> int \<Rightarrow> int \<Rightarrow> fetched_messages res" where
  "fetch_messages db fts pgroonga fv narrow user r web anchor include_anchor num_before num_after =
     ebind (ok_to_include_history db narrow user web) (\<lambda>include_history.
     let need_message = (include_history \<or> narrow \<noteq> None); need_user_message = (\<not> include_history)
     in ebind (get_base_query_for_search (realm_id r) user need_message need_user_message) (\<lambda>(q, id_col).
        ebind (add_narrow_conditions db pgroonga user id_col q narrow web r) (\<lambda>(q, is_search).
        ebind (case anchor of Some a \<Rightarrow> Inr a
                 | None \<Rightarrow> find_first_unread_anchor db fts pgroonga user narrow) (\<lambda>anchor.
        let anchored_to_left = (anchor = 0);
            anchored_to_right = (anchor \<ge> LARGER_THAN_MAX_MESSAGE_ID);
            num_after = (if anchored_to_right then 0 else num_after)
        in ebind (execute_union db fts (limit_query_to_range q num_before num_after anchor include_anchor
               anchored_to_left anchored_to_right id_col fv)) (\<lambda>rows.
           Inr \<lparr>fm_limited = post_process_limited_query rows num_before num_after anchor
                  anchored_to_left anchored_to_right fv,
                fm_anchor = anchor, fm_include_history = include_history, fm_is_search = is_search\<rparr>)))))"

definition MAX_MESSAGES_PER_FETCH :: int where "MAX_MESSAGES_PER_FETCH = 5000"

definition NON_API_FLAGS :: "string list" where
  "NON_API_FLAGS = [''is_private'', ''active_mobile_push_notification'']"

definition flags_list_for_flags :: "int \<Rightarrow> string list" where
  "flags_list_for_flags val =
     map snd (filter (\<lambda>(n, flag). (val AND 2 ^ n) \<noteq> 0 \<and> flag \<notin> set NON_API_FLAGS) (enumerate 0 ALL_FLAGS))"

text \<open>
  The view up to the rendering: the ids of the messages with the flags the client sees, and what
  the fetch found.  The requester is \<open>None\<close> for a spectator.
\<close>

definition get_messages_backend ::
    "chat_db \<Rightarrow> (bool \<Rightarrow> string \<Rightarrow> message \<Rightarrow> bool) \<Rightarrow> bool \<Rightarrow> int \<Rightarrow> bool \<Rightarrow> realm \<Rightarrow> account option \<Rightarrow>
     string option \<Rightarrow> bool \<Rightarrow> int \<Rightarrow> int \<Rightarrow> narrow_param list option \<Rightarrow> bool \<Rightarrow>
     ((int \<times> string list) list \<times> fetched_messages) res" where
  "get_messages_backend db fts pgroonga fv server_enabled r user anchor_val include_anchor num_before num_after
      narrow use_first_unread_anchor =
     ebind (parse_anchor_value anchor_val use_first_unread_anchor) (\<lambda>anchor.
     ebind (update_narrow_terms_containing_with_operator db server_enabled r user narrow) (\<lambda>narrow.
     if num_before + num_after > MAX_MESSAGES_PER_FETCH
       then Inl (JsonableError (''Too many messages requested (maximum '' @ str_of_int MAX_MESSAGES_PER_FETCH @ '').''))
     else if num_before > 0 \<and> num_after > 0 \<and> \<not> include_anchor
       then Inl (JsonableError ''The anchor can only be excluded at an end of the range'')
     else ebind (if user \<noteq> None then Inr narrow
         else if \<not> web_public_streams_enabled server_enabled r then Inl MissingAuthenticationError
         else let narrow = clean_narrow_for_web_public_api narrow in
           if \<not> is_web_public_narrow narrow then Inl MissingAuthenticationError
           else if \<not> is_spectator_compatible (case narrow of Some ts \<Rightarrow> ts | None \<Rightarrow> []) then Inl MissingAuthenticationError
           else Inr narrow) (\<lambda>narrow.
       ebind (fetch_messages db fts pgroonga fv narrow user r (user = None) anchor include_anchor num_before num_after) (\<lambda>f.
       let rows = lm_rows (fm_limited f);
           flags = (\<lambda>row. case user of None \<Rightarrow> [''read'']
             | Some u \<Rightarrow>
                 if fm_include_history f
                 then (case find (\<lambda>um. um_user um = acc_id u \<and> um_message um = row_id row) (usermessages db) of
                     Some um \<Rightarrow> flags_list_for_flags (um_flags um) | None \<Rightarrow> [''read'', ''historical''])
                 else (case row_um row of Some um \<Rightarrow> flags_list_for_flags (um_flags um) | None \<Rightarrow> []))
       in Inr (map (\<lambda>row. (row_id row, flags row)) rows, f)))))"

text \<open>Which of some messages a narrow contains, as the client asks when it sent or got new ones.\<close>

definition messages_in_narrow_backend ::
    "chat_db \<Rightarrow> (bool \<Rightarrow> string \<Rightarrow> message \<Rightarrow> bool) \<Rightarrow> bool \<Rightarrow> int \<Rightarrow> account \<Rightarrow> int list \<Rightarrow> narrow_param list \<Rightarrow> int list res" where
  "messages_in_narrow_backend db fts pgroonga fv u msg_ids narrow =
     (let ids = filter (\<lambda>i. i \<ge> fv) msg_ids;
          q = \<lparr>q_base = From_join (acc_id u), q_where = [COr (map (CId Message_id) ids)], q_extra = []\<rparr>
      in ebind (add_narrow_conditions db pgroonga (Some u) Message_id q (Some narrow) False (acc_realm u)) (\<lambda>(q, is_search).
         ebind (execute db fts (if is_search then q else add_columns q [''subject'', ''rendered_content''])) (\<lambda>rows.
         Inr (remdups (map row_id rows)))))"

section \<open>Highlighting\<close>

definition highlight_start :: string where
  "highlight_start = ''<span class='' @ dq @ ''highlight'' @ dq @ ''>''"
definition highlight_stop :: string where "highlight_stop = ''</span>''"

definition slice :: "string \<Rightarrow> nat \<Rightarrow> nat \<Rightarrow> string" where
  "slice text a b = take (b - a) (drop a text)"

text \<open>The offsets count characters, here the elements of the list.\<close>

definition highlight_string :: "string \<Rightarrow> (nat \<times> nat) list \<Rightarrow> string" where
  "highlight_string text locs =
     (let (pos, result, in_tag) = fold (\<lambda>(offset, len) (pos, result, in_tag).
        let prefix = slice text pos offset; match = slice text offset (offset + len);
            in_tag = fold (\<lambda>c t. if c = CHR ''<'' then True else if c = CHR ''>'' then False else t) (prefix @ match) in_tag
        in (offset + len,
            if in_tag then result @ prefix @ match else result @ prefix @ highlight_start @ match @ highlight_stop,
            in_tag)) locs (0, [], False)
      in result @ drop pos text)"

end
