(* ===== verification/NarrowSafety.thy ===== *)
theory NarrowSafety
  imports MessageFetch
begin

text \<open>
  What the narrow queries guarantee: terms only restrict, the columns they name exist, and every
  row that is fetched is one the requester is entitled to.
\<close>

section \<open>Terms restrict\<close>

text \<open>One query extends another by conditions; a builder keeps everything but its two marks.\<close>

definition extends :: "narrow_query \<Rightarrow> narrow_query \<Rightarrow> bool" where
  "extends q q' \<longleftrightarrow> q_base q' = q_base q \<and> (\<exists>cs. q_where q' = q_where q @ cs)"

definition same_builder :: "narrow_builder \<Rightarrow> narrow_builder \<Rightarrow> bool" where
  "same_builder b b' \<longleftrightarrow> b' = b\<lparr>nb_channel := nb_channel b', nb_dm := nb_dm b'\<rparr> \<and>
     (nb_channel b \<longrightarrow> nb_channel b') \<and> (nb_dm b \<longrightarrow> nb_dm b') \<and>
     (\<not> (nb_channel b \<and> nb_dm b) \<longrightarrow> \<not> (nb_channel b' \<and> nb_dm b'))"

lemma extends_refl [simp]: "extends q q"
  by (simp add: extends_def)

lemma extends_trans: "extends q1 q2 \<Longrightarrow> extends q2 q3 \<Longrightarrow> extends q1 q3"
  by (auto simp: extends_def)

lemma extends_add_where [simp]: "extends q (add_where q c)" "extends q (add_columns q cs)"
  by (simp_all add: extends_def add_where_def add_columns_def)

lemma same_builder_refl [simp]: "same_builder b b"
  by (simp add: same_builder_def)

lemma same_builder_trans: "same_builder b1 b2 \<Longrightarrow> same_builder b2 b3 \<Longrightarrow> same_builder b1 b3"
  by (cases b1; cases b2; cases b3) (auto simp: same_builder_def)

lemma same_builder_fields:
  assumes "same_builder b b'"
  shows "nb_user b' = nb_user b" "nb_realm b' = nb_realm b" "nb_web_public b' = nb_web_public b"
    "nb_id_column b' = nb_id_column b" "nb_pgroonga b' = nb_pgroonga b"
  using assms by (cases b; cases b'; simp add: same_builder_def)+

lemma check_not_both_same:
  "check_not_both_channel_and_dm_narrow b dm channel = Inr b' \<Longrightarrow>
     same_builder b b' \<and> (dm \<longrightarrow> nb_dm b') \<and> (channel \<longrightarrow> nb_channel b')"
  by (cases b) (auto simp: check_not_both_channel_and_dm_narrow_def same_builder_def Let_def bad_narrow_def split: if_splits)

lemmas by_defs = by_has_def by_in_def by_is_def by_channel_def by_channels_def by_topic_def by_sender_def
  by_near_def by_id_def by_dm_def by_dm_including_def by_group_pm_with_def

text \<open>A step of the builder: the query is extended and the builder keeps what it is.\<close>

definition good_step :: "narrow_builder \<Rightarrow> narrow_query \<Rightarrow> step \<Rightarrow> bool" where
  "good_step b q s \<longleftrightarrow> (\<forall>b' q'. s = Inr (b', q') \<longrightarrow> same_builder b b' \<and> extends q q')"

lemma good_Inl [simp]: "good_step b q (Inl e)" "good_step b q (bad_narrow s)"
  by (simp_all add: good_step_def bad_narrow_def)

lemma good_Inr: "same_builder b b' \<Longrightarrow> extends q q' \<Longrightarrow> good_step b q (Inr (b', q'))"
  by (simp add: good_step_def)

lemma good_bind: "(\<And>x. m = Inr x \<Longrightarrow> good_step b q (f x)) \<Longrightarrow> good_step b q (ebind m f)"
  by (cases m) auto

lemma good_if: "good_step b q x \<Longrightarrow> good_step b q y \<Longrightarrow> good_step b q (if c then x else y)"
  by simp

lemma good_check:
  "(\<And>b'. same_builder b b' \<Longrightarrow> good_step b q (f b')) \<Longrightarrow>
     good_step b q (ebind (check_not_both_channel_and_dm_narrow b dm channel) f)"
  by (rule good_bind) (blast dest: check_not_both_same)

lemma good_option: "good_step b q x \<Longrightarrow> (\<And>y. good_step b q (f y)) \<Longrightarrow>
    good_step b q (case m of None \<Rightarrow> x | Some y \<Rightarrow> f y)"
  by (cases m) simp_all

lemma good_sum: "(\<And>e. good_step b q (f e)) \<Longrightarrow> (\<And>y. good_step b q (g y)) \<Longrightarrow>
    good_step b q (case m of Inl e \<Rightarrow> f e | Inr y \<Rightarrow> g y)"
  by (cases m) simp_all

lemma good_missing: "good_step b q x \<Longrightarrow> good_step b q (case e of DoesNotExist \<Rightarrow> x | _ \<Rightarrow> Inl e)"
  by (cases e) simp_all

lemmas good_intros = good_check good_bind good_if good_option good_sum good_Inr good_Inl extends_add_where extends_refl
  same_builder_refl

lemma extends_fold: "extends q (fold (\<lambda>t q. add_where q (f t)) ts q)"
  by (induction ts arbitrary: q) (auto intro: extends_trans [OF extends_add_where(1)])

lemma by_has_good: "good_step b q (by_has b q v n)"
  unfolding by_has_def Let_def by (intro good_intros; assumption)

lemma by_in_good: "good_step b q (by_in db b q v n)"
  unfolding by_in_def Let_def by (intro good_intros; assumption)

lemma by_is_good: "good_step b q (by_is b q v n)"
  unfolding by_is_def Let_def by (intro good_intros; assumption)

lemma by_channel_good: "good_step b q (by_channel db b q v n)"
  unfolding by_channel_def Let_def by (intro good_intros; assumption)

lemma by_channels_good: "good_step b q (by_channels db b q v n)"
  unfolding by_channels_def Let_def by (intro good_intros; assumption)

lemma by_topic_good: "good_step b q (by_topic b q v n)"
  unfolding by_topic_def Let_def by (intro good_intros; assumption)

lemma by_sender_good: "good_step b q (by_sender db b q v n)"
  unfolding by_sender_def Let_def by (intro good_intros; assumption)

lemma by_id_good: "good_step b q (by_id b q v n)"
  unfolding by_id_def Let_def by (intro good_intros; assumption)

lemma by_dm_good: "good_step b q (by_dm db b q v n)"
  unfolding by_dm_def Let_def by (intro good_intros; assumption)

lemma by_dm_including_good: "good_step b q (by_dm_including db b q v n)"
  unfolding by_dm_including_def Let_def by (intro good_intros; assumption)

lemma by_group_pm_with_good: "good_step b q (by_group_pm_with db b q v n)"
  unfolding by_group_pm_with_def Let_def by (intro good_intros; assumption)

lemma by_search_good: "good_step b q (by_search b q v n)"
  unfolding by_search_def Let_def
  by (rule good_bind) (auto intro!: good_Inr extends_fold
      intro: extends_trans [OF extends_add_where(2)] extends_trans [OF _ extends_add_where(1)])

lemmas by_good = by_has_good by_in_good by_is_good by_channel_good by_channels_good by_topic_good by_sender_good
  by_id_good by_dm_good by_dm_including_good by_group_pm_with_good by_search_good

lemma add_term_good: "good_step b q (add_term db b q t)"
  by (simp add: add_term_def Let_def by_good by_near_def good_Inr)

lemma add_term_step: "add_term db b q t = Inr (b', q') \<Longrightarrow> same_builder b b' \<and> extends q q'"
  using add_term_good [of b q db t] by (auto simp: good_step_def)

section \<open>The loop over the terms\<close>

lemma efold_visit:
  assumes "efold f xs s = Inr s'" "x \<in> set xs"
  obtains ys zs s1 s2 where "xs = ys @ x # zs" "efold f ys s = Inr s1" "f x s1 = Inr s2" "efold f zs s2 = Inr s'"
proof -
  from assms(2) obtain ys zs where x: "xs = ys @ x # zs" by (meson split_list)
  with assms(1) obtain s1 s2 where "efold f ys s = Inr s1" "f x s1 = Inr s2" "efold f zs s2 = Inr s'"
    by (auto simp: res_simps)
  with x that show thesis by blast
qed

definition reaches :: "narrow_builder \<times> narrow_query \<times> string list \<Rightarrow> narrow_builder \<times> narrow_query \<times> string list \<Rightarrow> bool" where
  "reaches s s' \<longleftrightarrow> same_builder (fst s) (fst s') \<and> extends (fst (snd s)) (fst (snd s'))"

lemma reaches_trans: "reaches s1 s2 \<Longrightarrow> reaches s2 s3 \<Longrightarrow> reaches s1 s3"
  unfolding reaches_def by (blast intro: same_builder_trans extends_trans)

lemma narrow_step_reaches: "narrow_step db t s = Inr s' \<Longrightarrow> reaches s s'"
  by (cases s) (auto simp: narrow_step_def reaches_def res_simps dest: add_term_step split: if_splits)

lemma narrow_loop_reaches: "efold (narrow_step db) ts s = Inr s' \<Longrightarrow> reaches s s'"
  by (erule efold_invariant [where P = "reaches s"])
    (auto simp: reaches_def [of s s] intro: reaches_trans narrow_step_reaches)

lemma narrow_step_other:
  "narrow_step db t s = Inr s' \<Longrightarrow> np_operator t \<noteq> ''search'' \<Longrightarrow>
     add_term db (fst s) (fst (snd s)) t = Inr (fst s', fst (snd s'))"
  by (cases s; cases s') (auto simp: narrow_step_def res_simps)

text \<open>What a term added to the query is still there at the end.\<close>

lemma narrow_loop_term:
  assumes "efold (narrow_step db) ts s = Inr s'" "t \<in> set ts" "np_operator t \<noteq> ''search''"
  obtains b1 q1 b2 q2 where "add_term db b1 q1 t = Inr (b2, q2)" "same_builder (fst s) b1" "same_builder b2 (fst s')"
    "extends q2 (fst (snd s'))"
proof -
  from efold_visit [OF assms(1,2)] obtain ys zs s1 s2 where
    "efold (narrow_step db) ys s = Inr s1" "narrow_step db t s1 = Inr s2" "efold (narrow_step db) zs s2 = Inr s'"
    by metis
  with narrow_step_other [OF _ assms(3)] narrow_loop_reaches have
    "add_term db (fst s1) (fst (snd s1)) t = Inr (fst s2, fst (snd s2))" "reaches s s1" "reaches s2 s'" by metis+
  then show thesis using that by (auto simp: reaches_def)
qed

lemma add_narrow_extends:
  assumes "add_narrow_conditions db pg user c q narrow web r = Inr (q', is_search)"
  shows "extends q q'"
proof (cases narrow)
  case None
  with assms show ?thesis by (simp add: add_narrow_conditions_def)
next
  case (Some ts)
  with assms obtain b q1 ops where loop: "efold (narrow_step db) ts (builder_init user c r web pg, q, []) = Inr (b, q1, ops)"
    and rest: "(if ops = [] then Inr (q1, False)
        else ebind (validate_terms \<lparr>np_operator = ''search'', np_operand = PStr (join '' '' ops), np_negated = False\<rparr>) (\<lambda>t.
             ebind (add_term db b (add_columns q1 [''subject'', ''rendered_content'']) t) (\<lambda>(b, q). Inr (q, True)))) = Inr (q', is_search)"
    by (auto simp: add_narrow_conditions_def res_simps)
  from narrow_loop_reaches [OF loop] have "extends q q1" by (simp add: reaches_def)
  moreover have "extends q1 q'"
    using rest by (auto simp: res_simps split: if_splits intro: extends_trans [OF extends_add_where(2)] dest: add_term_step)
  ultimately show ?thesis by (rule extends_trans)
qed

lemma add_narrow_term:
  assumes "add_narrow_conditions db pg user c q (Some ts) web r = Inr (q', is_search)"
    and "t \<in> set ts" "np_operator t \<noteq> ''search''"
  obtains b1 q1 b2 q2 where "add_term db b1 q1 t = Inr (b2, q2)" "same_builder (builder_init user c r web pg) b1"
    "extends q2 q'"
proof -
  from assms(1) obtain b q3 ops where loop: "efold (narrow_step db) ts (builder_init user c r web pg, q, []) = Inr (b, q3, ops)"
    and rest: "(if ops = [] then Inr (q3, False)
        else ebind (validate_terms \<lparr>np_operator = ''search'', np_operand = PStr (join '' '' ops), np_negated = False\<rparr>) (\<lambda>t.
             ebind (add_term db b (add_columns q3 [''subject'', ''rendered_content'']) t) (\<lambda>(b, q). Inr (q, True)))) = Inr (q', is_search)"
    by (auto simp: add_narrow_conditions_def res_simps)
  have "extends q3 q'"
    using rest by (auto simp: res_simps split: if_splits intro: extends_trans [OF extends_add_where(2)] dest: add_term_step)
  moreover obtain b1 q1 b2 q2 where
    "add_term db b1 q1 t = Inr (b2, q2)" "same_builder (builder_init user c r web pg) b1" "extends q2 q3"
    by (rule narrow_loop_term [OF loop assms(2,3)]) auto
  ultimately show thesis using that extends_trans by blast
qed

text \<open>A row of a query satisfies the conditions of every query it extends.\<close>

lemma extends_rows: "extends q q' \<Longrightarrow> x \<in> set (query_rows db fts q') \<Longrightarrow> x \<in> set (query_rows db fts q)"
  by (auto simp: extends_def query_rows_def)

lemma rows_hold: "x \<in> set (query_rows db fts (add_where q c)) \<Longrightarrow> holds db fts x c"
  by (simp add: query_rows_def add_where_def)

lemma execute_rows: "execute db fts q = Inr rows \<Longrightarrow> rows = query_rows db fts q"
  by (auto simp: execute_def split: option.splits)

lemma limited_rows:
  assumes "execute_limited db fts l = Inr rows"
  shows "set rows \<subseteq> set (query_rows db fts (l_query l))"
proof -
  let ?rows = "sort_key row_id (query_rows db fts (l_query l))"
  let ?ordered = "if l_desc l then rev ?rows else ?rows"
  from assms have "rows = (case l_limit l of None \<Rightarrow> ?ordered | Some n \<Rightarrow> take (nat n) ?ordered)"
    by (auto simp: execute_limited_def res_simps Let_def dest!: execute_rows)
  moreover have "set (case l_limit l of None \<Rightarrow> xs | Some n \<Rightarrow> take (nat n) xs) \<subseteq> set xs" for xs :: "row list"
    by (cases "l_limit l") (auto dest: in_set_takeD)
  ultimately have "set rows \<subseteq> set ?ordered" by blast
  then show ?thesis by (simp split: if_splits)
qed

lemma union_rows:
  assumes "execute_union db fts ls = Inr rows" "x \<in> set rows"
  obtains l where "l \<in> set ls" "x \<in> set (query_rows db fts (l_query l))"
proof -
  from assms(1) obtain rss where e: "emap (execute_limited db fts) ls = Inr rss" and "rows = sort_key row_id (concat rss)"
    by (auto simp: execute_union_def res_simps)
  with assms(2) obtain rs where rs: "rs \<in> set rss" "x \<in> set rs" by auto
  from emap_Inr_mem [OF e rs(1)] obtain l where l: "l \<in> set ls" "execute_limited db fts l = Inr rs" by blast
  from limited_rows [OF l(2)] rs(2) have "x \<in> set (query_rows db fts (l_query l))" by blast
  with l(1) that show thesis by blast
qed

lemma limit_query_extends: "l \<in> set (limit_query_to_range q nb na a incl left right c fv) \<Longrightarrow> extends q (l_query l)"
  by (auto simp: limit_query_to_range_def Let_def split: if_splits)

lemma post_process_rows: "set (lm_rows (post_process_limited_query rows nb na a left right fv)) \<subseteq> set rows"
  by (auto simp: post_process_limited_query_def Let_def last_n_def dest: in_set_dropD in_set_takeD split: if_splits)

section \<open>Entitlement\<close>

lemma fetch_rows:
  assumes "fetch_messages db fts pg fv narrow user r web anchor incl nb na = Inr f" "x \<in> set (lm_rows (fm_limited f))"
  obtains ih q0 c q s where "ok_to_include_history db narrow user web = Inr ih"
    "get_base_query_for_search (realm_id r) user (ih \<or> narrow \<noteq> None) (\<not> ih) = Inr (q0, c)"
    "add_narrow_conditions db pg user c q0 narrow web r = Inr (q, s)" "x \<in> set (query_rows db fts q)"
    "fm_include_history f = ih"
proof -
  from assms(1) obtain ih q0 c q s a rows na' where
    ih: "ok_to_include_history db narrow user web = Inr ih"
      "get_base_query_for_search (realm_id r) user (ih \<or> narrow \<noteq> None) (\<not> ih) = Inr (q0, c)"
      "add_narrow_conditions db pg user c q0 narrow web r = Inr (q, s)"
    and rows: "execute_union db fts (limit_query_to_range q nb na' a incl (a = 0) (a \<ge> LARGER_THAN_MAX_MESSAGE_ID) c fv) = Inr rows"
    and f: "fm_limited f = post_process_limited_query rows nb na' a (a = 0) (a \<ge> LARGER_THAN_MAX_MESSAGE_ID) fv"
      "fm_include_history f = ih"
    unfolding fetch_messages_def Let_def by (auto simp: res_simps)
  from assms(2) have "x \<in> set rows" unfolding f(1) by (rule post_process_rows [THEN subsetD])
  from union_rows [OF rows this] limit_query_extends extends_rows have "x \<in> set (query_rows db fts q)" by metis
  with ih f that show thesis by blast
qed

text \<open>The terms that let a user see history.\<close>

definition history_term :: "chat_db \<Rightarrow> account \<Rightarrow> narrow_param \<Rightarrow> bool" where
  "history_term db u t \<longleftrightarrow> \<not> np_negated t \<and>
     (np_operator t \<in> set channel_operators \<and>
        (\<exists>c. get_stream_by_narrow_operand_access_unchecked db (np_operand t) (acc_realm_id u) = Inr c \<and>
          can_access_stream_history db u c = Inr True) \<or>
      np_operator t \<in> set channels_operators \<and> np_operand t = PStr ''public'' \<and>
        can_access_public_streams (acc_realm u) (profile u))"

lemma history_loop:
  assumes "efold f ts init = Inr True" "init = False"
    and "\<And>t h. t \<in> set ts \<Longrightarrow> f t h = Inr True \<Longrightarrow> h \<or> P t"
  shows "\<exists>t\<in>set ts. P t"
proof -
  have "efold f ts init = Inr True \<Longrightarrow> init \<or> (\<exists>t\<in>set ts. P t)"
    using assms(3)
  proof (induction ts arbitrary: init)
    case (Cons t ts)
    from Cons.prems(1) obtain h where "f t init = Inr h" "efold f ts h = Inr True" by (auto simp: res_simps)
    with Cons show ?case by (metis list.set_intros)
  qed simp
  with assms(1,2) show ?thesis by blast
qed

lemma include_history_term:
  assumes "ok_to_include_history db narrow (Some u) False = Inr True"
  obtains ts t where "narrow = Some ts" "t \<in> set ts" "history_term db u t"
proof -
  from assms obtain ts where ts: "narrow = Some ts"
    by (auto simp: ok_to_include_history_def split: option.splits)
  have "history_by_operand db u v = Inr True \<Longrightarrow>
      \<exists>c. get_stream_by_narrow_operand_access_unchecked db v (acc_realm_id u) = Inr c \<and> can_access_stream_history db u c = Inr True" for v
    by (cases v) (auto simp: history_by_operand_def get_stream_by_narrow_operand_access_unchecked_def operand_int_def
        can_access_stream_history_by_name_def can_access_stream_history_by_id_def split: sum.splits)
  then have step: "history_step db u t h = Inr True \<Longrightarrow> h \<or> history_term db u t" for t h
    by (auto simp: history_step_def history_term_def split: if_splits)
  have "efold (history_step db u) ts False = Inr True"
    using assms by (auto simp: ok_to_include_history_def ts res_simps)
  from history_loop [OF this refl, of "history_term db u"] step have "\<exists>t\<in>set ts. history_term db u t" by blast
  with ts that show thesis by blast
qed

lemma stream_by_operand:
  assumes "get_stream_by_narrow_operand_access_unchecked db v rid = Inr c"
  shows "c \<in> set (channels db) \<and> ch_realm_id c = rid"
  using assms by (auto simp: get_stream_by_narrow_operand_access_unchecked_def get_realm_stream_def
      get_stream_by_id_in_realm_def get_or_missing_def find_Some_iff in_set_conv_nth split: py.splits option.splits)


text \<open>What the flags of the channels of a Zephyr mirror realm are when they are created.\<close>

definition zephyr_consistent :: "chat_db \<Rightarrow> realm \<Rightarrow> bool" where
  "zephyr_consistent db r \<longleftrightarrow> (\<forall>c\<in>set (channels db). ch_realm_id c = realm_id r \<longrightarrow>
     is_in_zephyr_realm c = is_zephyr_mirror_realm r \<and>
     (is_zephyr_mirror_realm r \<longrightarrow> \<not> history_public_to_subscribers c \<and> \<not> is_web_public c))"

text \<open>
  To which messages the view may give a requester access: an authenticated user to those they
  received and those of channels whose history they may see, a spectator to those of the active
  web-public channels.
\<close>

definition entitled :: "chat_db \<Rightarrow> realm \<Rightarrow> account option \<Rightarrow> int \<Rightarrow> bool" where
  "entitled db r user i \<longleftrightarrow>
     (case user of
        Some u \<Rightarrow> received db (acc_id u) i \<or> (\<exists>m\<in>set (messages db). \<exists>c\<in>set (channels db). m_id m = i \<and>
          m_realm_id m = realm_id r \<and> m_recipient_id m = ch_recipient_id c \<and> ch_realm_id c = realm_id r \<and>
          can_access_stream_history db u c = Inr True)
      | None \<Rightarrow> (\<exists>m\<in>set (messages db). \<exists>c\<in>set (get_web_public_streams db (realm_id r)). m_id m = i \<and>
          m_realm_id m = realm_id r \<and> m_recipient_id m = ch_recipient_id c))"

lemma base_message_row:
  assumes "x \<in> set (query_rows db fts q)" "q_base q = From_message rid"
  obtains m where "x = \<lparr>row_message = Some m, row_um = None\<rparr>" "m \<in> set (messages db)" "m_realm_id m = rid"
  using assms by (auto simp: query_rows_def)

lemma base_um_row:
  assumes "x \<in> set (query_rows db fts q)" "q_base q \<in> {From_join uid, From_usermessage uid}"
  shows "received db uid (row_id x)"
proof -
  from assms obtain um where "row_um x = Some um" "um \<in> set (usermessages db)" "um_user um = uid"
    by (auto simp: query_rows_def)
  then show ?thesis by (auto simp: received_def list_ex_iff row_id_def)
qed

lemma channel_term_cond:
  assumes "by_channel db b q v False = Inr (b', q')" "\<not> is_zephyr_mirror_realm (nb_realm b)"
  obtains c where "get_stream_by_narrow_operand_access_unchecked db v (realm_id (nb_realm b)) = Inr c"
    "q' = add_where q (CRecipient (ch_recipient_id c))"
proof -
  from assms(1) obtain b1 where b1: "check_not_both_channel_and_dm_narrow b False True = Inr b1"
    by (auto simp: by_channel_def res_simps)
  then have r: "nb_realm b1 = nb_realm b" using check_not_both_same same_builder_fields by blast
  from assms b1 r show thesis using that
    by (cases "get_stream_by_narrow_operand_access_unchecked db v (realm_id (nb_realm b))")
      (auto simp: by_channel_def except_missing_def bad_narrow_def maybe_negate_def split: if_splits)
qed

lemma channels_term_cond:
  assumes "by_channels db b q (PStr s) False = Inr (b', q')"
  shows "\<exists>cs. (s = ''public'' \<and> cs = get_public_streams db (realm_id (nb_realm b)) \<or>
      s = ''web-public'' \<and> cs = get_web_public_streams db (realm_id (nb_realm b))) \<and>
    q' = add_where q (CRecipientIn (map ch_recipient_id (sort_key ch_id cs)))"
proof -
  from assms obtain b1 where b1: "check_not_both_channel_and_dm_narrow b False True = Inr b1"
    by (auto simp: by_channels_def res_simps)
  then have r: "nb_realm b1 = nb_realm b" using check_not_both_same same_builder_fields by blast
  from assms b1 show ?thesis
    by (auto simp: by_channels_def str_arg_def bad_narrow_def maybe_negate_def r [symmetric] split: if_splits)
qed

lemma builder_init_fields [simp]:
  "nb_realm (builder_init user c r web pg) = r" "nb_user (builder_init user c r web pg) = user"
  "nb_web_public (builder_init user c r web pg) = web" "nb_id_column (builder_init user c r web pg) = c"
  "nb_channel (builder_init user c r web pg) = False" "nb_dm (builder_init user c r web pg) = False"
  by (simp_all add: builder_init_def)

lemma channel_operators_cases:
  "op \<in> set channel_operators \<longleftrightarrow> op = ''channel'' \<or> op = ''stream''"
  "op \<in> set channels_operators \<longleftrightarrow> op = ''channels'' \<or> op = ''streams''"
  by (auto simp: channel_operators_def channels_operators_def)

lemma zephyr_no_history:
  assumes "zephyr_consistent db (acc_realm u)" "is_zephyr_mirror_realm (acc_realm u)"
  shows "\<not> history_term db u t"
proof
  assume "history_term db u t"
  with assms(2) obtain c where c: "get_stream_by_narrow_operand_access_unchecked db (np_operand t) (acc_realm_id u) = Inr c"
    "can_access_stream_history db u c = Inr True"
    by (auto simp: history_term_def can_access_public_streams_def)
  from stream_by_operand [OF c(1)] assms have "is_in_zephyr_realm c" "\<not> history_public_to_subscribers c" "\<not> is_web_public c"
    by (auto simp: zephyr_consistent_def)
  with c(2) show False by (simp add: can_access_stream_history_def is_public_def split: if_splits)
qed

lemma history_entitled:
  assumes add: "add_narrow_conditions db pg (Some u) c \<lparr>q_base = From_message (realm_id r), q_where = [], q_extra = []\<rparr>
      (Some ts) False r = Inr (q, s)"
    and t: "t \<in> set ts" "history_term db u t" and u: "acc_realm u = r" and z: "zephyr_consistent db r"
    and x: "x \<in> set (query_rows db fts q)"
  shows "entitled db r (Some u) (row_id x)"
proof -
  from zephyr_no_history t(2) u z have nz: "\<not> is_zephyr_mirror_realm r" by blast
  from add_narrow_extends [OF add] have "q_base q = From_message (realm_id r)" by (simp add: extends_def)
  from base_message_row [OF x this] obtain m where m: "x = \<lparr>row_message = Some m, row_um = None\<rparr>"
    "m \<in> set (messages db)" "m_realm_id m = realm_id r" .
  have op: "np_operator t \<noteq> ''search''"
    using t(2) by (auto simp: history_term_def channel_operators_cases)
  from add_narrow_term [OF add t(1) op] obtain b1 q1 b2 q2 where st: "add_term db b1 q1 t = Inr (b2, q2)"
    "same_builder (builder_init (Some u) c r False pg) b1" "extends q2 q" .
  from same_builder_fields [OF st(2)] have r: "nb_realm b1 = r" by simp
  from extends_rows [OF st(3) x] have x2: "x \<in> set (query_rows db fts q2)" .
  have "\<exists>c\<in>set (channels db). m_recipient_id m = ch_recipient_id c \<and> ch_realm_id c = realm_id r \<and>
      can_access_stream_history db u c = Inr True"
  proof (cases "np_operator t \<in> set channel_operators")
    case True
    with t(2) obtain d where d: "get_stream_by_narrow_operand_access_unchecked db (np_operand t) (realm_id r) = Inr d"
      "can_access_stream_history db u d = Inr True" "\<not> np_negated t"
      using u by (auto simp: history_term_def channel_operators_cases)
    from True st(1) d(3) have bc: "by_channel db b1 q1 (np_operand t) False = Inr (b2, q2)"
      by (auto simp: add_term_def Let_def channel_operators_cases)
    from channel_term_cond [OF bc] nz r d(1) have "q2 = add_where q1 (CRecipient (ch_recipient_id d))"
      by (metis sum.inject(2))
    with x2 rows_hold have "holds db fts x (CRecipient (ch_recipient_id d))" by blast
    with m stream_by_operand [OF d(1)] d(2) show ?thesis by auto
  next
    case False
    with t(2) have t2: "np_operator t \<in> set channels_operators" "np_operand t = PStr ''public''" "\<not> np_negated t"
      "can_access_public_streams r (profile u)"
      using u by (auto simp: history_term_def)
    with st(1) have "by_channels db b1 q1 (PStr ''public'') False = Inr (b2, q2)"
      by (auto simp: add_term_def Let_def channel_operators_cases)
    from channels_term_cond [OF this] r have
      "q2 = add_where q1 (CRecipientIn (map ch_recipient_id (sort_key ch_id (get_public_streams db (realm_id r)))))" by simp
    with x2 rows_hold have "holds db fts x (CRecipientIn (map ch_recipient_id (sort_key ch_id (get_public_streams db (realm_id r)))))" by blast
    with m obtain d where d: "d \<in> set (channels db)" "ch_realm_id d = realm_id r" "\<not> invite_only d"
      "m_recipient_id m = ch_recipient_id d" by (auto simp: get_public_streams_def)
    with z nz have "is_public d" by (auto simp: zephyr_consistent_def is_public_def)
    moreover have "\<not> is_guest (profile u)" using t2(4) by (simp add: can_access_public_streams_def)
    ultimately have "can_access_stream_history db u d = Inr True"
      using d(2) u by (simp add: can_access_stream_history_def)
    with d show ?thesis by blast
  qed
  with m show ?thesis by (auto simp: entitled_def row_id_def)
qed

lemma spectator_entitled:
  assumes add: "add_narrow_conditions db pg None c \<lparr>q_base = From_message (realm_id r), q_where = [], q_extra = []\<rparr>
      (Some ts) True r = Inr (q, s)"
    and ts: "is_web_public_narrow (Some ts)" and x: "x \<in> set (query_rows db fts q)"
  shows "entitled db r None (row_id x)"
proof -
  from add_narrow_extends [OF add] have "q_base q = From_message (realm_id r)" by (simp add: extends_def)
  from base_message_row [OF x this] obtain m where m: "x = \<lparr>row_message = Some m, row_um = None\<rparr>"
    "m \<in> set (messages db)" "m_realm_id m = realm_id r" .
  from ts obtain t where t: "t \<in> set ts" "np_operator t \<in> set channels_operators" "np_operand t = PStr ''web-public''" "\<not> np_negated t"
    by (auto simp: is_web_public_narrow_def list_ex_iff)
  then have op: "np_operator t \<noteq> ''search''" by (auto simp: channel_operators_cases)
  from add_narrow_term [OF add t(1) op] obtain b1 q1 b2 q2 where st: "add_term db b1 q1 t = Inr (b2, q2)"
    "same_builder (builder_init None c r True pg) b1" "extends q2 q" .
  from same_builder_fields [OF st(2)] have r: "nb_realm b1 = r" by simp
  from st(1) t have "by_channels db b1 q1 (PStr ''web-public'') False = Inr (b2, q2)"
    by (auto simp: add_term_def Let_def channel_operators_cases)
  from channels_term_cond [OF this] r have
    "q2 = add_where q1 (CRecipientIn (map ch_recipient_id (sort_key ch_id (get_web_public_streams db (realm_id r)))))" by simp
  with rows_hold extends_rows [OF st(3) x] have
    "holds db fts x (CRecipientIn (map ch_recipient_id (sort_key ch_id (get_web_public_streams db (realm_id r)))))" by blast
  with m show ?thesis by (auto simp: entitled_def row_id_def)
qed


lemma fetch_entitled:
  assumes f: "fetch_messages db fts pg fv narrow user r (user = None) anchor incl nb na = Inr f"
    and x: "x \<in> set (lm_rows (fm_limited f))"
    and spectator: "user = None \<Longrightarrow> is_web_public_narrow narrow"
    and account: "\<And>u. user = Some u \<Longrightarrow> acc_realm u = r" and z: "zephyr_consistent db r"
  shows "entitled db r user (row_id x)"
proof -
  from fetch_rows [OF f x] obtain ih q0 c q s where
    ih: "ok_to_include_history db narrow user (user = None) = Inr ih" and
    base: "get_base_query_for_search (realm_id r) user (ih \<or> narrow \<noteq> None) (\<not> ih) = Inr (q0, c)" and
    add: "add_narrow_conditions db pg user c q0 narrow (user = None) r = Inr (q, s)" and
    row: "x \<in> set (query_rows db fts q)" by metis
  show ?thesis
  proof (cases user)
    case None
    with ih have "ih" by (simp add: ok_to_include_history_def)
    with base have q0: "q0 = \<lparr>q_base = From_message (realm_id r), q_where = [], q_extra = []\<rparr>"
      by (auto simp: get_base_query_for_search_def split: if_splits)
    from spectator None obtain ts where "narrow = Some ts" "is_web_public_narrow (Some ts)"
      by (cases narrow) (auto simp: is_web_public_narrow_def)
    with spectator_entitled row add None q0 show ?thesis by simp
  next
    case (Some u)
    show ?thesis
    proof (cases ih)
      case True
      with ih Some obtain ts t where ts: "narrow = Some ts" "t \<in> set ts" "history_term db u t"
        using include_history_term by (metis option.distinct(1))
      from base True have q0: "q0 = \<lparr>q_base = From_message (realm_id r), q_where = [], q_extra = []\<rparr>"
        by (auto simp: get_base_query_for_search_def split: if_splits)
      have "entitled db r (Some u) (row_id x)"
        by (rule history_entitled [OF _ ts(2,3) _ z row]) (use add q0 ts Some account in auto)
      with Some show ?thesis by simp
    next
      case False
      with base Some have "q_base q0 \<in> {From_join (acc_id u), From_usermessage (acc_id u)}"
        by (auto simp: get_base_query_for_search_def split: if_splits)
      with add_narrow_extends [OF add] have "q_base q \<in> {From_join (acc_id u), From_usermessage (acc_id u)}"
        by (simp add: extends_def)
      from base_um_row [OF row this] Some show ?thesis by (simp add: entitled_def)
    qed
  qed
qed

text \<open>
  C8. Every message the view returns is one its requester is entitled to, whatever the narrow, the
  anchor and the numbers are: an authenticated user gets messages they have received and messages of
  channels of their organization whose history they may access, a spectator only messages of active
  web-public channels of the organization, and only where spectators have access at all.  The
  flags of the channels of a Zephyr mirror organization have to be what creation makes them.
\<close>

theorem messages_view_entitled:
  assumes "get_messages_backend db fts pg fv server_enabled r user anchor incl nb na narrow first_unread = Inr (ms, f)"
    and "(i, flags) \<in> set ms" "case user of None \<Rightarrow> True | Some u \<Rightarrow> acc_realm u = r" "zephyr_consistent db r"
  shows "entitled db r user i \<and> (user = None \<longrightarrow> web_public_streams_enabled server_enabled r)"
proof -
  from assms(1) obtain anchor' narrow' where
    fetch: "fetch_messages db fts pg fv narrow' user r (user = None) anchor' incl nb na = Inr f"
    and ms: "fst ` set ms = row_id ` set (lm_rows (fm_limited f))"
    and gate: "user = None \<Longrightarrow> is_web_public_narrow narrow' \<and> web_public_streams_enabled server_enabled r"
    unfolding get_messages_backend_def Let_def
    by (auto simp: res_simps image_image split: if_splits)
  from assms(2) ms obtain x where x: "x \<in> set (lm_rows (fm_limited f))" "i = row_id x" by force
  have "acc_realm u = r" if "user = Some u" for u using assms(3) that by simp
  with fetch_entitled [OF fetch x(1)] gate assms(4) x(2) show ?thesis by blast
qed

end
