(* ===== verification/NarrowErrors.thy ===== *)
theory NarrowErrors
  imports NarrowSafety
begin

text \<open>
  Which errors a fetch can end in: with terms the constructor accepts, the only one is the error for
  a bad narrow, up to the empty list of direct-message recipients.  In particular no query names a
  column its table does not have, although the tables depend on the narrow.
\<close>

section \<open>Columns\<close>

text \<open>A term on flags, for which the code never includes history.\<close>

definition flag_term :: "narrow_param \<Rightarrow> bool" where
  "flag_term t \<longleftrightarrow> np_operator t = ''is'' \<and> np_operand t \<notin> {PStr ''resolved'', PStr ''followed''}"

definition id_columns :: "id_column \<Rightarrow> string set" where
  "id_columns c = (case c of Message_id \<Rightarrow> {''message_id'', ''zerver_usermessage.message_id''} | _ \<Rightarrow> {''zerver_message.id''})"

definition allowed :: "id_column \<Rightarrow> bool \<Rightarrow> string set" where
  "allowed c flags = set message_columns \<union> id_columns c \<union> (if flags then {''flags''} else {})"

definition cols_step :: "bool \<Rightarrow> narrow_builder \<Rightarrow> narrow_query \<Rightarrow> step \<Rightarrow> bool" where
  "cols_step F b q s \<longleftrightarrow> (\<forall>b' q'. s = Inr (b', q') \<longrightarrow>
     set (query_columns q') \<subseteq> set (query_columns q) \<union> allowed (nb_id_column b) (F \<or> nb_dm b'))"

lemma cols_Inl [simp]: "cols_step F b q (Inl e)" "cols_step F b q (bad_narrow s)"
  by (simp_all add: cols_step_def bad_narrow_def)

lemma cols_bind: "(\<And>x. m = Inr x \<Longrightarrow> cols_step F b q (f x)) \<Longrightarrow> cols_step F b q (ebind m f)"
  by (cases m) auto

lemma cols_if: "(c \<Longrightarrow> cols_step F b q x) \<Longrightarrow> (\<not> c \<Longrightarrow> cols_step F b q y) \<Longrightarrow> cols_step F b q (if c then x else y)"
  by simp

lemma cols_check:
  "(\<And>b'. same_builder b b' \<Longrightarrow> (dm \<Longrightarrow> nb_dm b') \<Longrightarrow> cols_step F b q (f b')) \<Longrightarrow>
     cols_step F b q (ebind (check_not_both_channel_and_dm_narrow b dm channel) f)"
  by (rule cols_bind) (blast dest: check_not_both_same)

lemma cols_option: "cols_step F b q x \<Longrightarrow> (\<And>y. cols_step F b q (f y)) \<Longrightarrow>
    cols_step F b q (case m of None \<Rightarrow> x | Some y \<Rightarrow> f y)"
  by (cases m) simp_all

lemma cols_sum: "(\<And>e. cols_step F b q (f e)) \<Longrightarrow> (\<And>y. cols_step F b q (g y)) \<Longrightarrow>
    cols_step F b q (case m of Inl e \<Rightarrow> f e | Inr y \<Rightarrow> g y)"
  by (cases m) simp_all

lemma columns_negate [simp]: "columns (maybe_negate n c) = columns c"
  by (simp add: maybe_negate_def)

lemma query_columns_where [simp]:
  "set (query_columns (add_where q c)) = set (query_columns q) \<union> set (columns c)"
  "set (query_columns (add_columns q cs)) = set (query_columns q) \<union> set cs"
  by (auto simp: query_columns_def add_where_def add_columns_def)

lemma cols_Inr:
  "set (columns c) \<subseteq> allowed (nb_id_column b) (F \<or> nb_dm b') \<Longrightarrow> cols_step F b q (Inr (b', add_where q c))"
  by (auto simp: cols_step_def)

lemma cols_same: "cols_step F b q (Inr (b', q))"
  by (simp add: cols_step_def)

lemmas cols_intros = cols_check cols_bind cols_if cols_option cols_sum cols_Inr cols_same cols_Inl

lemma muting_columns:
  assumes "exclude_muting_conditions db u narrow = Inr cs" "c \<in> set cs"
  shows "set (columns c) \<subseteq> {''recipient_id'', ''subject''}"
  using assms by (auto simp: exclude_muting_conditions_def exclude_topic_mutes_def Let_def res_simps split: if_splits)

lemma message_column_mem:
  "{''recipient_id'', ''sender_id'', ''realm_id'', ''subject'', ''content'', ''rendered_content'', ''has_attachment'',
    ''has_image'', ''has_link'', ''search_tsvector'', ''search_pgroonga'', ''zerver_message.id'', ''zerver_message.subject'',
    ''zerver_message.recipient_id''} \<subseteq> allowed c F"
  by (simp add: allowed_def message_columns_def)

lemma flags_mem: "F \<Longrightarrow> ''flags'' \<in> allowed c F"
  by (simp add: allowed_def)

lemma by_has_cols: "cols_step F b q (by_has b q v n)"
  unfolding by_has_def Let_def
  by (intro cols_intros; cases "nb_id_column b"; auto simp: allowed_def id_columns_def message_columns_def)

lemma by_in_cols: "cols_step F b q (by_in db b q v n)"
  unfolding by_in_def Let_def
  by (intro cols_intros) (use muting_columns message_column_mem in \<open>fastforce\<close>)+

lemma by_is_cols:
  assumes "v \<notin> {PStr ''resolved'', PStr ''followed''} \<Longrightarrow> F"
  shows "cols_step F b q (by_is b q v n)"
proof -
  have r: "cols_step F b q (ebind (str_arg v) (\<lambda>s. if s = a then f s else g s))"
    if "v = PStr a \<Longrightarrow> cols_step F b q (f a)" "v \<noteq> PStr a \<Longrightarrow> cols_step F b q (ebind (str_arg v) g)" for a f g
    using that by (cases v) (auto simp: str_arg_def)
  show ?thesis
  proof (cases "v \<in> {PStr ''resolved'', PStr ''followed''}")
    case True
    then show ?thesis unfolding by_is_def
      by (elim insertE; simp add: str_arg_def; intro cols_intros; use message_column_mem in simp)
  next
    case False
    with assms have F by blast
    then show ?thesis unfolding by_is_def is_private_cond_def
      by (intro cols_intros) (use flags_mem message_column_mem in auto)
  qed
qed


lemma by_channel_cols: "cols_step F b q (by_channel db b q v n)"
  unfolding by_channel_def by (intro cols_intros) (use message_column_mem in simp_all)

lemma by_channels_cols: "cols_step F b q (by_channels db b q v n)"
  unfolding by_channels_def by (intro cols_intros) (use message_column_mem in simp_all)

lemma topic_d_columns: "c \<in> set (topic_d t) \<Longrightarrow> columns c = [''subject'']"
  by (auto simp: topic_d_def)

lemma by_topic_cols: "cols_step F b q (by_topic b q v n)"
  unfolding by_topic_def Let_def
  by (intro cols_intros) (use message_column_mem topic_d_columns in \<open>auto split: if_splits\<close>)

lemma by_sender_cols: "cols_step F b q (by_sender db b q v n)"
  unfolding by_sender_def by (intro cols_intros) (use message_column_mem in simp_all)

lemma by_id_cols: "cols_step F b q (by_id b q v n)"
  unfolding by_id_def Let_def
  by (intro cols_intros; cases "nb_id_column b"; auto simp: allowed_def id_columns_def message_columns_def)

lemma by_dm_cols: "cols_step F b q (by_dm db b q v n)"
  unfolding by_dm_def Let_def is_private_cond_def one_on_one_cond_def
  by (intro cols_intros) (use message_column_mem flags_mem in auto)

lemma by_dm_including_cols: "cols_step F b q (by_dm_including db b q v n)"
  unfolding by_dm_including_def is_private_cond_def
  by (intro cols_intros) (use message_column_mem flags_mem in auto)

lemma by_group_pm_with_cols: "cols_step F b q (by_group_pm_with db b q v n)"
  unfolding by_group_pm_with_def is_private_cond_def
  by (intro cols_intros) (use message_column_mem flags_mem in auto)

lemma ilike_columns:
  "set (query_columns (fold (\<lambda>t q. add_where q (maybe_negate n (CIlike (f t)))) ts q)) \<subseteq>
     set (query_columns q) \<union> {''content'', ''subject''}"
proof (induction ts arbitrary: q)
  case (Cons t ts)
  from Cons.IH [of "add_where q (maybe_negate n (CIlike (f t)))"] show ?case by auto
qed auto

lemma by_search_cols: "cols_step F b q (by_search b q v n)"
proof (cases v)
  case (PStr s)
  show ?thesis
    unfolding cols_step_def by_search_def PStr
    using ilike_columns [of n "\<lambda>t. butlast (tl t)" "filter quoted (search_tokens s)" "add_columns q [''rendered_content'', ''subject'']"]
      message_column_mem [of "nb_id_column b" "F \<or> nb_dm b"]
    by (auto simp: str_arg_def Let_def split: if_splits)
qed (simp_all add: by_search_def str_arg_def)

lemma add_term_cols: "cols_step (flag_term t) b q (add_term db b q t)"
proof (cases "np_operator t = ''is''")
  case True
  then have "np_operand t \<notin> {PStr ''resolved'', PStr ''followed''} \<Longrightarrow> flag_term t" by (simp add: flag_term_def)
  from by_is_cols [where F = "flag_term t", OF this] True show ?thesis by (simp add: add_term_def)
next
  case False
  then show ?thesis
    unfolding add_term_def Let_def
    by (simp add: by_has_cols by_in_cols by_channel_cols by_channels_cols by_topic_cols by_sender_cols by_id_cols
        by_dm_cols by_dm_including_cols by_group_pm_with_cols by_search_cols by_near_def cols_same)
qed

text \<open>For spectators the terms that need flags raise.\<close>

lemma the_user_web [simp]: "nb_web_public b \<Longrightarrow> the_user b = Inl AssertionError"
  by (simp add: the_user_def)

definition keeps_dm :: "narrow_builder \<Rightarrow> step \<Rightarrow> bool" where
  "keeps_dm b s \<longleftrightarrow> (\<forall>b' q'. s = Inr (b', q') \<longrightarrow> nb_dm b' = nb_dm b)"

lemma keeps_dm_bind: "(\<And>x. m = Inr x \<Longrightarrow> keeps_dm b (f x)) \<Longrightarrow> keeps_dm b (ebind m f)"
  by (cases m) (auto simp: keeps_dm_def)

lemma keeps_dm_check:
  "(\<And>b'. nb_dm b' = nb_dm b \<Longrightarrow> keeps_dm b (f b')) \<Longrightarrow>
     keeps_dm b (ebind (check_not_both_channel_and_dm_narrow b False channel) f)"
  by (rule keeps_dm_bind) (auto simp: check_not_both_channel_and_dm_narrow_def bad_narrow_def Let_def split: if_splits)

lemma keeps_dm_ends [simp]:
  "keeps_dm b (Inl e)" "keeps_dm b (bad_narrow s)" "nb_dm b' = nb_dm b \<Longrightarrow> keeps_dm b (Inr (b', q'))"
  by (simp_all add: keeps_dm_def bad_narrow_def)

lemma keeps_dm_split:
  "keeps_dm b x \<Longrightarrow> keeps_dm b y \<Longrightarrow> keeps_dm b (if c then x else y)"
  "keeps_dm b x \<Longrightarrow> (\<And>y. keeps_dm b (f y)) \<Longrightarrow> keeps_dm b (case m of None \<Rightarrow> x | Some y \<Rightarrow> f y)"
  by (simp, cases m) simp_all

lemmas keeps_dm_intros = keeps_dm_check keeps_dm_bind keeps_dm_split keeps_dm_ends

lemma add_term_web:
  assumes "nb_web_public b" "add_term db b q t = Inr (b', q')"
  shows "nb_dm b' = nb_dm b \<and> \<not> flag_term t"
proof -
  have "keeps_dm b (by_has b q v n)" "keeps_dm b (by_channel db b q v n)" "keeps_dm b (by_channels db b q v n)"
    "keeps_dm b (by_topic b q v n)" "keeps_dm b (by_sender db b q v n)" "keeps_dm b (by_near b q v n)"
    "keeps_dm b (by_id b q v n)" "keeps_dm b (by_search b q v n)" for v n
    unfolding by_has_def by_channel_def by_channels_def by_topic_def by_sender_def by_near_def by_id_def by_search_def Let_def
    by (intro keeps_dm_intros; simp)+
  then have "keeps_dm b (add_term db b q t)"
    using assms(1) unfolding add_term_def Let_def
    by (simp add: by_in_def by_is_def by_dm_def by_dm_including_def by_group_pm_with_def)
  with assms show ?thesis by (auto simp: keeps_dm_def flag_term_def add_term_def by_is_def)
qed


lemma add_term_channel:
  assumes "add_term db b q t = Inr (b', q')" "np_operator t \<in> set (channel_operators @ channels_operators)"
  shows "nb_channel b'"
proof -
  from assms obtain m f where "add_term db b q t = ebind (check_not_both_channel_and_dm_narrow b False True) f"
    "\<And>b1 b2 q2. f b1 = Inr (b2, q2) \<Longrightarrow> b2 = b1"
  proof (cases "np_operator t \<in> set channel_operators")
    case True
    then have "add_term db b q t = by_channel db b q (np_operand t) (np_negated t)"
      by (auto simp: add_term_def channel_operators_cases)
    then show thesis
      by (intro that [OF trans [OF _ by_channel_def]]) (auto simp: res_simps bad_narrow_def split: if_splits)
  next
    case False
    with assms(2) have "add_term db b q t = by_channels db b q (np_operand t) (np_negated t)"
      by (auto simp: add_term_def channel_operators_cases)
    then show thesis
      by (intro that [OF trans [OF _ by_channels_def]]) (auto simp: res_simps)
  qed
  with assms(1) show ?thesis by (auto simp: res_simps dest!: check_not_both_same)
qed

text \<open>The columns of the finished query.\<close>

lemma narrow_columns:
  assumes add: "add_narrow_conditions db pg user c q narrow web r = Inr (q', s)" and q: "query_columns q = []"
  obtains dm flags where "set (query_columns q') \<subseteq> allowed c (dm \<or> flags)"
    "web \<Longrightarrow> \<not> dm \<and> \<not> flags"
    "\<And>ts t. narrow = Some ts \<Longrightarrow> t \<in> set ts \<Longrightarrow> np_operator t \<in> set (channel_operators @ channels_operators) \<Longrightarrow> \<not> dm"
    "flags \<longleftrightarrow> (\<exists>ts. narrow = Some ts \<and> list_ex flag_term ts)"
proof (cases narrow)
  case None
  with add q have "query_columns q' = []" by (simp add: add_narrow_conditions_def)
  with None show thesis by (intro that [of False False]) simp_all
next
  case (Some ts)
  let ?F = "list_ex flag_term ts"
  let ?P = "\<lambda>s :: narrow_builder \<times> narrow_query \<times> string list. set (query_columns (fst (snd s))) \<subseteq> allowed c (nb_dm (fst s) \<or> ?F) \<and>
    nb_id_column (fst s) = c \<and> nb_web_public (fst s) = web \<and> (web \<longrightarrow> \<not> nb_dm (fst s))"
  from add Some obtain b q1 ops where loop: "efold (narrow_step db) ts (builder_init user c r web pg, q, []) = Inr (b, q1, ops)"
    and rest: "(if ops = [] then Inr (q1, False)
        else ebind (validate_terms \<lparr>np_operator = ''search'', np_operand = PStr (join '' '' ops), np_negated = False\<rparr>) (\<lambda>t.
             ebind (add_term db b (add_columns q1 [''subject'', ''rendered_content'']) t) (\<lambda>(b, q). Inr (q, True)))) = Inr (q', s)"
    by (auto simp: add_narrow_conditions_def res_simps)
  have mono: "allowed c F \<subseteq> allowed c G" if "F \<longrightarrow> G" for F G using that by (auto simp: allowed_def)
  have "?P (b, q1, ops)"
  proof (rule efold_invariant [where P = ?P, OF loop])
    show "?P (builder_init user c r web pg, q, [])" by (simp add: q)
    fix t st st' assume t: "t \<in> set ts" and P: "?P st" and step: "narrow_step db t st = Inr st'"
    show "?P st'"
    proof (cases "np_operator t = ''search''")
      case True
      with step P show ?thesis by (cases st) (auto simp: narrow_step_def res_simps)
    next
      case False
      from narrow_step_other [OF step False] have a: "add_term db (fst st) (fst (snd st)) t = Inr (fst st', fst (snd st'))" .
      from add_term_step [OF a] have b: "same_builder (fst st) (fst st')" by simp
      from add_term_cols [of t "fst st" "fst (snd st)" db] a have
        "set (query_columns (fst (snd st'))) \<subseteq> set (query_columns (fst (snd st))) \<union> allowed c (flag_term t \<or> nb_dm (fst st'))"
        using P by (auto simp: cols_step_def)
      moreover have "flag_term t \<Longrightarrow> ?F" using t by (auto simp: list_ex_iff)
      moreover have "nb_dm (fst st) \<longrightarrow> nb_dm (fst st')" using b by (simp add: same_builder_def)
      ultimately have "set (query_columns (fst (snd st'))) \<subseteq> allowed c (nb_dm (fst st') \<or> ?F)"
        using P mono [of "nb_dm (fst st) \<or> ?F" "nb_dm (fst st') \<or> ?F"] mono [of "flag_term t \<or> nb_dm (fst st')" "nb_dm (fst st') \<or> ?F"]
        by blast
      then show ?thesis using P b same_builder_fields [OF b] add_term_web [OF _ a] by auto
    qed
  qed
  then have P: "set (query_columns q1) \<subseteq> allowed c (nb_dm b \<or> ?F)" "nb_id_column b = c" "nb_web_public b = web"
    "web \<longrightarrow> \<not> nb_dm b" by simp_all
  have cols: "set (query_columns q') \<subseteq> allowed c (nb_dm b \<or> ?F)"
  proof (cases "ops = []")
    case True
    with rest P show ?thesis by simp
  next
    case False
    with rest obtain t b' where t: "validate_terms \<lparr>np_operator = ''search'', np_operand = PStr (join '' '' ops), np_negated = False\<rparr> = Inr t"
      "add_term db b (add_columns q1 [''subject'', ''rendered_content'']) t = Inr (b', q')" by (auto simp: res_simps)
    have nt: "np_operator t = ''search''"
      using t(1) by (auto simp: validate_terms_def split: sum.splits exn.splits)
    with t(2) have "b' = b" by (auto simp: add_term_def by_search_def res_simps Let_def split: if_splits)
    moreover have "\<not> flag_term t" using nt by (simp add: flag_term_def)
    ultimately show ?thesis
      using add_term_cols [of t b "add_columns q1 [''subject'', ''rendered_content'']" db] t(2) P(1,2)
        message_column_mem [of c "nb_dm b \<or> ?F"] mono [of "nb_dm b" "nb_dm b \<or> ?F"]
      by (auto simp: cols_step_def)
  qed
  have visit: "\<exists>b1 q1 b2 q2. add_term db b1 q1 t = Inr (b2, q2) \<and> nb_web_public b1 = web \<and> same_builder b2 b"
    if t: "t \<in> set ts" "np_operator t \<noteq> ''search''" for t
  proof -
    obtain b1 q3 b2 q4 where "add_term db b1 q3 t = Inr (b2, q4)" "same_builder (builder_init user c r web pg) b1" "same_builder b2 b"
      by (rule narrow_loop_term [OF loop t]) auto
    with same_builder_fields show ?thesis by (metis builder_init_fields(3))
  qed
  show thesis
  proof (rule that [OF cols])
    assume web
    have "\<not> flag_term t" if t: "t \<in> set ts" for t
    proof (cases "np_operator t = ''search''")
      case False
      with visit [OF t] add_term_web \<open>web\<close> show ?thesis by blast
    qed (simp add: flag_term_def)
    then show "\<not> nb_dm b \<and> \<not> ?F" using P(4) \<open>web\<close> by (auto simp: list_ex_iff)
  next
    fix ts' t assume ts': "narrow = Some ts'" "t \<in> set ts'" "np_operator t \<in> set (channel_operators @ channels_operators)"
    then have "t \<in> set ts" "np_operator t \<noteq> ''search''" using Some by (auto simp: channel_operators_cases)
    with visit obtain b1 q3 b2 q4 where v: "add_term db b1 q3 t = Inr (b2, q4)" "same_builder b2 b" by blast
    from add_term_channel [OF v(1) ts'(3)] v(2) have "nb_channel b" by (simp add: same_builder_def)
    moreover from narrow_loop_reaches [OF loop] have "\<not> (nb_channel b \<and> nb_dm b)"
      by (simp add: reaches_def same_builder_def builder_init_def)
    ultimately show "\<not> nb_dm b" by blast
  next
    show "?F \<longleftrightarrow> (\<exists>ts. narrow = Some ts \<and> list_ex flag_term ts)" using Some by simp
  qed
qed


section \<open>Errors\<close>

definition only_bad :: "'a res \<Rightarrow> bool" where
  "only_bad m \<longleftrightarrow> (\<forall>e. m = Inl e \<longrightarrow> (\<exists>s. e = BadNarrowOperatorError s))"

lemma only_bad_simps [simp]: "only_bad (Inr x)" "only_bad (bad_narrow s)"
  by (simp_all add: only_bad_def bad_narrow_def)

lemma only_bad_bind: "only_bad m \<Longrightarrow> (\<And>x. m = Inr x \<Longrightarrow> only_bad (f x)) \<Longrightarrow> only_bad (ebind m f)"
  by (cases m) (auto simp: only_bad_def)

lemma only_bad_if: "(c \<Longrightarrow> only_bad x) \<Longrightarrow> (\<not> c \<Longrightarrow> only_bad y) \<Longrightarrow> only_bad (if c then x else y)"
  by simp

lemma only_bad_check: "only_bad (check_not_both_channel_and_dm_narrow b dm channel)"
  by (simp add: check_not_both_channel_and_dm_narrow_def Let_def)

lemma only_bad_efold:
  assumes "I s" "\<And>x s. x \<in> set xs \<Longrightarrow> I s \<Longrightarrow> only_bad (f x s)"
    "\<And>x s s'. x \<in> set xs \<Longrightarrow> I s \<Longrightarrow> f x s = Inr s' \<Longrightarrow> I s'"
  shows "only_bad (efold f xs s)"
  using assms
proof (induction xs arbitrary: s)
  case (Cons x xs)
  show ?case
  proof (simp, rule only_bad_bind)
    show "only_bad (f x s)" by (rule Cons.prems(2)) (use Cons.prems(1) in simp_all)
    fix s' assume "f x s = Inr s'"
    with Cons.prems have "I s'" by (meson list.set_intros(1))
    then show "only_bad (efold f xs s')" by (rule Cons.IH) (blast intro: Cons.prems(2,3) list.set_intros(2))+
  qed
qed simp

lemmas only_bad_intros = only_bad_check only_bad_bind only_bad_if only_bad_simps

text \<open>A term the constructor accepts, but for the empty list of recipients.\<close>

definition good_term :: "narrow_param \<Rightarrow> bool" where
  "good_term t \<longleftrightarrow> valid_term t \<and> (np_operator t \<in> {''dm'', ''pm-with''} \<longrightarrow> np_operand t \<noteq> PList [])"

text \<open>The requester: an account of the organization, or a spectator with a narrow for them.\<close>

definition proper_builder :: "narrow_builder \<Rightarrow> bool" where
  "proper_builder b \<longleftrightarrow> \<not> is_zephyr_mirror_realm (nb_realm b) \<and> (nb_web_public b \<longleftrightarrow> nb_user b = None)"

lemma lookup_missing: "get_or_missing p xs = Inl e \<Longrightarrow> e = DoesNotExist"
  by (auto simp: get_or_missing_def split: option.splits)

lemma user_missing:
  "get_user_including_cross_realm db s rid = Inl e \<Longrightarrow> e = DoesNotExist"
  "get_user_by_id_in_realm_including_cross_realm db i rid = Inl e \<Longrightarrow> e = DoesNotExist"
  by (auto simp: get_user_including_cross_realm_def get_system_bot_def get_user_def
      get_user_by_id_in_realm_including_cross_realm_def get_user_profile_by_id_def res_simps
      dest: lookup_missing split: if_splits)

lemma stream_operand_missing:
  assumes "is_str v \<or> int_like v" "get_stream_by_narrow_operand_access_unchecked db v rid = Inl e"
  shows "e = DoesNotExist"
  using assms by (auto simp: get_stream_by_narrow_operand_access_unchecked_def get_realm_stream_def get_stream_by_id_in_realm_def
      operand_int_def is_str_def int_like_def dest: lookup_missing split: py.splits)

lemma narrow_user_bad: "is_str v \<or> int_like v \<Longrightarrow> only_bad (narrow_user db v rid)"
  by (auto simp: narrow_user_def except_missing_def operand_int_def is_str_def int_like_def only_bad_def bad_narrow_def
      dest: user_missing split: py.splits sum.splits if_splits)

lemma str_arg_ok: "is_str v \<Longrightarrow> only_bad (str_arg v)"
  by (auto simp: is_str_def str_arg_def split: py.splits)

lemma by_has_bad: "is_str v \<Longrightarrow> only_bad (by_has b q v n)"
  unfolding by_has_def by (intro only_bad_intros str_arg_ok) auto

lemma muting_total: "(\<And>ts t. narrow = Some ts \<Longrightarrow> t \<in> set ts \<Longrightarrow> valid_term t) \<Longrightarrow>
    \<exists>cs. exclude_muting_conditions db u narrow = Inr cs"
proof -
  assume v: "\<And>ts t. narrow = Some ts \<Longrightarrow> t \<in> set ts \<Longrightarrow> valid_term t"
  have "e = DoesNotExist" if c: "get_channel_from_narrow_access_unchecked db narrow rid = Inl e" for e rid
  proof (cases narrow)
    case (Some ts)
    with c obtain t where t: "find (\<lambda>t. np_operator t \<in> set channel_operators) ts = Some t"
      "get_stream_by_narrow_operand_access_unchecked db (np_operand t) rid = Inl e"
      by (auto simp: get_channel_from_narrow_access_unchecked_def res_simps split: option.splits)
    then have "t \<in> set ts" "np_operator t \<in> set operators_supporting_id"
      by (auto simp: find_Some_iff operators_supporting_id_def)
    with v [OF Some] have "is_str (np_operand t) \<or> int_like (np_operand t)" by (auto simp: valid_term_def)
    with t(2) stream_operand_missing show ?thesis by blast
  qed (use c in \<open>simp add: get_channel_from_narrow_access_unchecked_def\<close>)
  then obtain ch where "except_missing (get_channel_from_narrow_access_unchecked db narrow (acc_realm_id u)) (Inr None) = Inr ch"
    by (cases "get_channel_from_narrow_access_unchecked db narrow (acc_realm_id u)") (auto simp: except_missing_def)
  then show ?thesis by (simp add: exclude_muting_conditions_def Let_def)
qed

lemma the_user_bad: "proper_builder b \<Longrightarrow> nb_user b \<noteq> None \<Longrightarrow> only_bad (the_user b)"
  by (auto simp: proper_builder_def the_user_def)

lemma by_in_bad: "is_str v \<Longrightarrow> proper_builder b \<Longrightarrow> nb_user b \<noteq> None \<Longrightarrow> only_bad (by_in db b q v n)"
  unfolding by_in_def using muting_total [of "Some []" db]
  by (intro only_bad_intros str_arg_ok the_user_bad) (auto simp: only_bad_def, metis sum.distinct(1))

lemma by_is_bad: "is_str v \<Longrightarrow> proper_builder b \<Longrightarrow> nb_user b \<noteq> None \<Longrightarrow> only_bad (by_is b q v n)"
  unfolding by_is_def by (intro only_bad_intros str_arg_ok the_user_bad)

lemma except_missing_bad: "(\<And>e. m = Inl e \<Longrightarrow> e = DoesNotExist) \<Longrightarrow> only_bad h \<Longrightarrow> only_bad (except_missing m h)"
  by (cases m) (auto simp: except_missing_def)

lemma by_channel_bad: "is_str v \<or> int_like v \<Longrightarrow> proper_builder b \<Longrightarrow> only_bad (by_channel db b q v n)"
  unfolding by_channel_def
  by (intro only_bad_intros except_missing_bad stream_operand_missing)
    (auto simp: proper_builder_def dest!: check_not_both_same dest: same_builder_fields)

lemma by_channels_bad: "is_str v \<Longrightarrow> only_bad (by_channels db b q v n)"
  unfolding by_channels_def by (intro only_bad_intros str_arg_ok)

lemma by_topic_bad: "is_str v \<Longrightarrow> proper_builder b \<Longrightarrow> only_bad (by_topic b q v n)"
  unfolding by_topic_def Let_def
  by (intro only_bad_intros str_arg_ok)
    (auto simp: proper_builder_def dest!: check_not_both_same dest: same_builder_fields)

lemma by_sender_bad: "is_str v \<or> int_like v \<Longrightarrow> only_bad (by_sender db b q v n)"
  unfolding by_sender_def by (intro only_bad_intros narrow_user_bad)

lemma by_id_bad: "only_bad (by_id b q v n)"
  by (auto simp: by_id_def split: option.splits)

lemma by_dm_including_bad:
  "is_str v \<or> int_like v \<Longrightarrow> proper_builder b \<Longrightarrow> nb_user b \<noteq> None \<Longrightarrow> only_bad (by_dm_including db b q v n)"
  unfolding by_dm_including_def by (intro only_bad_intros the_user_bad narrow_user_bad)

lemma by_group_pm_with_bad:
  "is_str v \<or> int_like v \<Longrightarrow> proper_builder b \<Longrightarrow> nb_user b \<noteq> None \<Longrightarrow> only_bad (by_group_pm_with db b q v n)"
  unfolding by_group_pm_with_def by (intro only_bad_intros the_user_bad narrow_user_bad)

lemma by_search_bad: "is_str v \<Longrightarrow> only_bad (by_search b q v n)"
  unfolding by_search_def Let_def by (intro only_bad_intros str_arg_ok)


subsection \<open>Recipients\<close>

lemma emap_error: "emap f xs = Inl e \<Longrightarrow> \<exists>x\<in>set xs. f x = Inl e"
  by (induction xs) (auto simp: res_simps)

definition recipient_error :: "exn \<Rightarrow> bool" where
  "recipient_error e \<longleftrightarrow> e = DoesNotExist \<or> is_jsonable e \<or> (\<exists>m. e = ValidationError m)"

lemma profiles_error:
  "get_user_profiles db emails rid = Inl e \<Longrightarrow> is_jsonable e"
  "get_user_profiles_by_ids db uids rid = Inl e \<Longrightarrow> is_jsonable e"
  by (auto simp: get_user_profiles_def get_user_profiles_by_ids_def except_missing_def is_jsonable_def
      dest!: emap_error user_missing split: sum.splits if_splits)

lemma operand_ints_ok: "list_all int_like vs \<Longrightarrow> \<exists>is. operand_ints (PList vs) = Inr is \<and> length is = length vs"
proof -
  assume "list_all int_like vs"
  then have "v \<in> set vs \<Longrightarrow> (case operand_int v of Some i \<Rightarrow> Inr i | None \<Rightarrow> Inl TypeError) = Inr (the (operand_int v))" for v
    by (auto simp: list_all_iff int_like_def operand_int_def split: py.splits)
  then have "operand_ints (PList vs) = Inr (map (\<lambda>v. the (operand_int v)) vs)"
    by (simp add: operand_ints_def emap_ok)
  then show ?thesis by simp
qed

lemma split_on_nonempty: "split_on c s \<noteq> []"
  by (induction c s rule: split_on.induct) (auto split: list.splits)

lemma dm_profiles_error:
  assumes "case v of PStr _ \<Rightarrow> True | PList xs \<Rightarrow> list_all int_like xs \<and> xs \<noteq> [] | _ \<Rightarrow> False"
  shows "dm_user_profiles db v rid = Inl e \<Longrightarrow> recipient_error e" "dm_user_profiles db v rid = Inr us \<Longrightarrow> us \<noteq> []"
proof -
  show "recipient_error e" if "dm_user_profiles db v rid = Inl e"
    using assms that by (cases v) (auto simp: dm_user_profiles_def recipient_error_def res_simps dest: profiles_error operand_ints_ok)
  show "us \<noteq> []" if "dm_user_profiles db v rid = Inr us"
  proof (cases v)
    case (PStr s)
    with that have "length us = length (split_on (CHR '','') s)"
      by (auto simp: dm_user_profiles_def get_user_profiles_def dest: emap_Inr_length)
    with split_on_nonempty show ?thesis by auto
  next
    case (PList vs)
    with assms operand_ints_ok obtain js where "operand_ints (PList vs) = Inr js" "length js = length vs" "vs \<noteq> []" by auto
    with that PList have "length us = length vs"
      by (auto simp: dm_user_profiles_def get_user_profiles_by_ids_def dest!: emap_Inr_length)
    with \<open>vs \<noteq> []\<close> show ?thesis by auto
  qed (use assms in simp_all)
qed

lemma update_nonempty: "AList.update k v m \<noteq> []"
  by (cases m) auto

lemma validate_profiles:
  assumes "us \<noteq> []"
  shows "validate_recipient_user_profiles db us sender allow = Inl e \<Longrightarrow> \<exists>m. e = ValidationError m"
    "validate_recipient_user_profiles db us sender allow = Inr ps \<Longrightarrow> ps \<noteq> []"
proof -
  let ?f = "\<lambda>u (m, realms).
         if \<not> is_active u \<and> \<not> is_mirror_dummy u \<and> \<not> allow \<or> realm_deactivated u
           then Inl (ValidationError ([CHR 0x27] @ acc_email u @ [CHR 0x27] @ '' is no longer using Zulip.''))
         else Inr (AList.update (acc_id u) u m,
           if is_cross_realm_bot_email db (acc_email u) then realms else List.insert (acc_realm_id u) realms)"
  have err: "efold ?f us s = Inl e \<Longrightarrow> \<exists>m. e = ValidationError m" for s e
    by (induction us arbitrary: s) (auto simp: res_simps split: if_splits)
  then show "\<exists>m. e = ValidationError m" if "validate_recipient_user_profiles db us sender allow = Inl e"
    using that by (auto simp: validate_recipient_user_profiles_def res_simps split: if_splits)
  have step: "?f u s = Inr s1 \<Longrightarrow> fst s1 \<noteq> []" for u s s1
    by (cases s) (auto simp: update_nonempty split: if_splits)
  have keep: "fst s' \<noteq> []" if e: "efold ?f us s = Inr s'" for s s'
  proof -
    from assms obtain u us' where us: "us = u # us'" by (cases us) auto
    with e obtain s1 where "?f u s = Inr s1" "efold ?f us' s1 = Inr s'" by (auto simp: res_simps)
    with step efold_invariant [of ?f us' s1 s' "\<lambda>s. fst s \<noteq> []"] show ?thesis by blast
  qed
  show "ps \<noteq> []" if "validate_recipient_user_profiles db us sender allow = Inr ps"
    using that assms by (auto simp: validate_recipient_user_profiles_def res_simps dest!: keep split: if_splits)
qed

lemma profile_map: 
  assumes "ps \<noteq> []" "m = fold (\<lambda>u m. AList.update (acc_id u) u m) ps []"
  shows "m \<noteq> []" "distinct (map fst m)"
proof -
  have "xs \<noteq> [] \<or> ps \<noteq> [] \<Longrightarrow> fold (\<lambda>u m. AList.update (acc_id u) u m) ps xs \<noteq> []" for xs
    by (induction ps arbitrary: xs) (auto simp: update_nonempty)
  with assms show "m \<noteq> []" by simp
  have "distinct (map fst xs) \<Longrightarrow> distinct (map fst (fold (\<lambda>u m. AList.update (acc_id u) u m) ps xs))" for xs
    by (induction ps arbitrary: xs) (auto simp: distinct_update)
  with assms show "distinct (map fst m)" by simp
qed

lemma recipient_bad:
  assumes "ps \<noteq> []" "get_recipient_from_user_profiles db ps False None sender = Inl e"
  shows "e = DoesNotExist"
proof -
  let ?m = "fold (\<lambda>u m. AList.update (acc_id u) u m) ps []"
  let ?n = "if length ?m = 2 \<and> acc_id sender \<in> set (map fst ?m) then AList.delete (acc_id sender) ?m else ?m"
  from profile_map [OF assms(1) refl] have m: "?m \<noteq> []" "distinct (map fst ?m)" by simp_all
  have "AList.delete k m \<noteq> []" if "length m = 2" "distinct (map fst m)" for k and m :: "(int \<times> account) list"
    using that by (cases m rule: remdups_adj.cases) (auto simp: AList.delete_eq)
  with m have n: "?n \<noteq> []" by simp
  show ?thesis
  proof (cases ?n)
    case (Cons p xs)
    with assms(2) show ?thesis
      by (cases xs) (auto simp: get_recipient_from_user_profiles_def Let_def res_simps dest: lookup_missing split: prod.splits)
  qed (use n in blast)
qed

lemma by_dm_bad:
  assumes v: "case v of PStr _ \<Rightarrow> True | PList xs \<Rightarrow> list_all int_like xs \<and> xs \<noteq> [] | _ \<Rightarrow> False"
    and b: "proper_builder b" "nb_user b \<noteq> None"
  shows "only_bad (by_dm db b q v n)"
proof -
  have "recipient_error e" if e: "ebind (dm_user_profiles db v rid) (\<lambda>us. recipient_for_user_profiles db us False None u True) = Inl e"
    for rid u e
  proof (cases "dm_user_profiles db v rid")
    case (Inl e')
    with e dm_profiles_error(1) [OF v] show ?thesis by simp
  next
    case (Inr us)
    with e have "recipient_for_user_profiles db us False None u True = Inl e" "us \<noteq> []"
      using dm_profiles_error(2) [OF v] by simp_all
    then show ?thesis
      by (auto simp: recipient_for_user_profiles_def res_simps recipient_error_def dest: validate_profiles recipient_bad)
  qed
  then have *: "only_bad (case ebind (dm_user_profiles db v rid) (\<lambda>us. recipient_for_user_profiles db us False None u True) of
       Inl e \<Rightarrow> if e = DoesNotExist then Inr (x :: narrow_builder \<times> narrow_query)
         else if is_jsonable e \<or> (case e of ValidationError m \<Rightarrow> True | _ \<Rightarrow> False) then bad_narrow s else Inl e
     | Inr r \<Rightarrow> Inr (f r))" for rid u x s f
    by (auto simp: recipient_error_def split: sum.splits exn.splits)
  show ?thesis
    unfolding by_dm_def Let_def
    apply (intro only_bad_bind the_user_bad b only_bad_check)
    subgoal for u b' using * [where rid = "realm_id (nb_realm b')" and u = u] by (auto split: sum.splits if_splits)
    done
qed


section \<open>The whole fetch\<close>

lemma proper_same: "same_builder b b' \<Longrightarrow> proper_builder b \<Longrightarrow> proper_builder b'"
  by (simp add: proper_builder_def same_builder_fields)

lemma add_term_bad:
  assumes t: "good_term t" and b: "proper_builder b"
    and spectator: "nb_user b = None \<Longrightarrow> is_spectator_compatible [t]"
  shows "only_bad (add_term db b q t)"
proof -
  have user: "nb_user b \<noteq> None" if "np_operator t \<in> {''in'', ''is'', ''dm'', ''pm-with'', ''pm_with'', ''dm-including'',
      ''group-pm-with'', ''group_pm_with''}"
  proof
    assume "nb_user b = None"
    from spectator [OF this] that show False
      by (auto simp: is_spectator_compatible_def channel_operators_def channels_operators_def)
  qed
  have ids: "is_str (np_operand t) \<or> int_like (np_operand t)" if "np_operator t \<in> set operators_supporting_id"
    using t that by (simp add: good_term_def valid_term_def)
  have str: "is_str (np_operand t)" if "np_operator t \<notin> set operators_supporting_id" "np_operator t \<notin> {''dm'', ''pm-with''}"
    using t that by (auto simp: good_term_def valid_term_def is_str_def split: if_splits py.splits)
  have dm: "case np_operand t of PStr _ \<Rightarrow> True | PList xs \<Rightarrow> list_all int_like xs \<and> xs \<noteq> [] | _ \<Rightarrow> False"
    if "np_operator t \<in> {''dm'', ''pm-with'', ''pm_with''}"
    using t that by (auto simp: good_term_def valid_term_def is_str_def operators_supporting_id_def channel_operators_def
        split: py.splits)
  note ops = operators_supporting_id_def channel_operators_def
  have one: "is_str (np_operand t) \<or> int_like (np_operand t)" if "np_operator t \<in> set operators_supporting_id \<or> np_operator t = ''group_pm_with''"
    using ids str that by (auto simp: ops)
  show ?thesis
    unfolding add_term_def Let_def
    by (intro only_bad_if only_bad_simps by_has_bad by_in_bad by_is_bad by_channel_bad by_channels_bad by_topic_bad by_sender_bad
        by_id_bad by_dm_bad by_dm_including_bad by_group_pm_with_bad by_search_bad str one b user dm)
      (auto simp: ops by_near_def)
qed

lemma search_operand_ok:
  assumes "ops \<noteq> []" "\<And>s. s \<in> set ops \<Longrightarrow> strip s \<noteq> []"
  shows "strip (join '' '' ops) \<noteq> []"
proof -
  from assms obtain s where s: "s \<in> set ops" by (meson last_in_set)
  then have "set s \<subseteq> set (join '' '' ops)"
    by (induction "'' ''" ops rule: join.induct) auto
  with assms(2) [OF s] show ?thesis unfolding strip_empty_iff by blast
qed

lemma add_narrow_bad:
  assumes terms: "\<And>ts t. narrow = Some ts \<Longrightarrow> t \<in> set ts \<Longrightarrow> good_term t"
    and r: "\<not> is_zephyr_mirror_realm r" and web: "web \<longleftrightarrow> user = None"
    and spectator: "\<And>ts. user = None \<Longrightarrow> narrow = Some ts \<Longrightarrow> is_spectator_compatible ts"
  shows "only_bad (add_narrow_conditions db pg user c q narrow web r)"
proof (cases narrow)
  case None
  then show ?thesis by (simp add: add_narrow_conditions_def)
next
  case (Some ts)
  let ?I = "\<lambda>s :: narrow_builder \<times> narrow_query \<times> string list.
    same_builder (builder_init user c r web pg) (fst s) \<and> (\<forall>s\<in>set (snd (snd s)). strip s \<noteq> [])"
  have init: "?I (builder_init user c r web pg, q, [])" by simp
  have proper: "proper_builder (fst s)" "nb_user (fst s) = user" if "?I s" for s :: "narrow_builder \<times> narrow_query \<times> string list"
  proof -
    have "proper_builder (builder_init user c r web pg)" using r web by (simp add: proper_builder_def)
    with proper_same that show "proper_builder (fst s)" by blast
    from that have "same_builder (builder_init user c r web pg) (fst s)" by simp
    from same_builder_fields(1) [OF this] show "nb_user (fst s) = user" by simp
  qed
  have step: "only_bad (narrow_step db t s)" "\<And>s'. narrow_step db t s = Inr s' \<Longrightarrow> ?I s'"
    if t: "t \<in> set ts" and I: "?I s" for t s
  proof -
    have good: "good_term t" using terms Some t by blast
    obtain b q3 ops where s: "s = (b, q3, ops)" by (cases s) auto
    show "only_bad (narrow_step db t s)"
    proof (cases "np_operator t = ''search''")
      case True
      with good have "is_str (np_operand t)"
        by (auto simp: good_term_def valid_term_def operators_supporting_id_def channel_operators_def is_str_def split: py.splits)
      with True s show ?thesis by (auto simp: narrow_step_def intro!: only_bad_bind str_arg_ok)
    next
      case False
      have "is_spectator_compatible [t]" if "nb_user b = None"
      proof -
        from proper(2) [OF I] s that have "user = None" by simp
        from spectator [OF this Some] t show ?thesis by (auto simp: is_spectator_compatible_def list_all_iff)
      qed
      then have "only_bad (add_term db b q3 t)" using proper(1) [OF I] s good by (auto intro!: add_term_bad)
      with False s show ?thesis by (auto simp: narrow_step_def intro!: only_bad_bind)
    qed
    fix s' assume n: "narrow_step db t s = Inr s'"
    show "?I s'"
    proof (cases "np_operator t = ''search''")
      case True
      with good n s I show ?thesis
        by (auto simp: narrow_step_def good_term_def valid_term_def operators_supporting_id_def channel_operators_def str_arg_def
            res_simps split: py.splits)
    next
      case False
      from narrow_step_reaches [OF n] I same_builder_trans have "same_builder (builder_init user c r web pg) (fst s')"
        by (auto simp: reaches_def)
      moreover from n False s have "snd (snd s') = ops" by (auto simp: narrow_step_def res_simps)
      ultimately show ?thesis using I s by simp
    qed
  qed
  have loop: "only_bad (efold (narrow_step db) ts (builder_init user c r web pg, q, []))"
    by (rule only_bad_efold [where I = ?I, OF init]) (use step in blast)+
  have after: "?I s" if "efold (narrow_step db) ts (builder_init user c r web pg, q, []) = Inr s" for s
    by (rule efold_invariant [where P = ?I, OF that init]) (use step(2) in blast)
  have finish: "only_bad (if ops = [] then Inr (q1, False)
        else ebind (validate_terms \<lparr>np_operator = ''search'', np_operand = PStr (join '' '' ops), np_negated = False\<rparr>) (\<lambda>t.
             ebind (add_term db b (add_columns q1 [''subject'', ''rendered_content'']) t) (\<lambda>(b, q). Inr (q, True))))"
    if e: "efold (narrow_step db) ts (builder_init user c r web pg, q, []) = Inr (b, q1, ops)" for b q1 ops
  proof (cases "ops = []")
    case False
    let ?t = "\<lparr>np_operator = ''search'', np_operand = PStr (join '' '' ops), np_negated = False\<rparr>"
    from search_operand_ok [OF False] after [OF e] have s: "strip (join '' '' ops) \<noteq> []" by simp
    then have "validate_terms ?t = Inr ?t"
      by (simp add: validate_terms_def operand_validator_def operators_supporting_id_def channel_operators_def
          check_required_string_def on_string_def check_string_def)
    moreover have "only_bad (add_term db b q3 ?t)" for q3
      by (simp add: add_term_def by_search_bad is_str_def)
    ultimately show ?thesis by (auto intro!: only_bad_bind)
  qed simp
  show ?thesis
    unfolding add_narrow_conditions_def Some by (simp, rule only_bad_bind [OF loop]) (use finish in auto)
qed


lemma execute_ok:
  "set (query_columns q) \<subseteq> set (base_columns (q_base q)) \<Longrightarrow> execute db fts q = Inr (query_rows db fts q)"
proof -
  assume "set (query_columns q) \<subseteq> set (base_columns (q_base q))"
  then have "find (\<lambda>c. c \<notin> set (base_columns (q_base q))) (query_columns q) = None"
    by (auto simp: find_None_iff)
  then show ?thesis by (simp add: execute_def)
qed

lemma add_where_base [simp]: "q_base (add_where q c) = q_base q" "q_base (add_columns q cs) = q_base q"
  by (simp_all add: add_where_def add_columns_def)

lemma limited_ok:
  assumes "set (query_columns q) \<union> {id_name c} \<subseteq> set (base_columns (q_base q))"
  shows "\<exists>rows. execute_union db fts (limit_query_to_range q nb na a incl left right c fv) = Inr rows"
proof -
  have "execute db fts (l_query l) = Inr (query_rows db fts (l_query l))"
    if "l \<in> set (limit_query_to_range q nb na a incl left right c fv)" for l
  proof (rule execute_ok)
    show "set (query_columns (l_query l)) \<subseteq> set (base_columns (q_base (l_query l)))"
      using that assms by (auto simp: limit_query_to_range_def Let_def split: if_splits)
  qed
  then have "\<exists>rss. emap (execute_limited db fts) (limit_query_to_range q nb na a incl left right c fv) = Inr rss"
    using emap_ok [of "limit_query_to_range q nb na a incl left right c fv" "execute_limited db fts"
        "\<lambda>l. projr (execute_limited db fts l)"]
    by (fastforce simp: execute_limited_def Let_def)
  then show ?thesis by (auto simp: execute_union_def)
qed

lemma history_total: "ch_realm_id c = acc_realm_id u \<Longrightarrow> \<exists>h. can_access_stream_history db u c = Inr h"
  by (auto simp: can_access_stream_history_def access_stream_common_def is_jsonable_def Let_def)

lemma history_operand_total: "is_str v \<or> int_like v \<Longrightarrow> \<exists>h. history_by_operand db u v = Inr h"
proof -
  assume v: "is_str v \<or> int_like v"
  have "\<exists>h. can_access_stream_history_by_name db u s = Inr h" for s
    using stream_by_operand [of db "PStr s" "acc_realm_id u"] history_total [of _ u db]
    by (cases "get_realm_stream db s (acc_realm_id u)")
      (auto simp: can_access_stream_history_by_name_def get_stream_by_narrow_operand_access_unchecked_def)
  moreover have "\<exists>h. can_access_stream_history_by_id db u i = Inr h" for i
    using stream_by_operand [of db "PInt i" "acc_realm_id u"] history_total [of _ u db]
    by (cases "get_stream_by_id_in_realm db i (acc_realm_id u)")
      (auto simp: can_access_stream_history_by_id_def get_stream_by_narrow_operand_access_unchecked_def operand_int_def)
  ultimately show ?thesis using v by (cases v) (simp_all add: history_by_operand_def is_str_def int_like_def operand_int_def)
qed

lemma include_history_total:
  assumes "\<And>ts t. narrow = Some ts \<Longrightarrow> t \<in> set ts \<Longrightarrow> good_term t"
  shows "\<exists>ih. ok_to_include_history db narrow user (user = None) = Inr ih"
proof (cases user)
  case None
  then show ?thesis by (auto simp: ok_to_include_history_def)
next
  case (Some u)
  have step: "\<exists>h'. history_step db u t h = Inr h'" if t: "good_term t" for t h
  proof (cases "np_operator t \<in> set channel_operators \<and> \<not> np_negated t")
    case True
    with t have "is_str (np_operand t) \<or> int_like (np_operand t)"
      by (auto simp: good_term_def valid_term_def operators_supporting_id_def split: if_splits)
    with history_operand_total True show ?thesis by (simp add: history_step_def)
  qed (auto simp: history_step_def)
  have "\<exists>h. efold (history_step db u) ts init = Inr h" if "\<And>t. t \<in> set ts \<Longrightarrow> good_term t" for ts init
    using efold_ok [where P = "\<lambda>_. True" and f = "history_step db u" and xs = ts] step that by blast
  note loop = this
  show ?thesis
  proof (cases narrow)
    case (Some ts)
    with assms loop [of ts False] obtain h where "efold (history_step db u) ts False = Inr h" by blast
    with Some \<open>user = Some u\<close> show ?thesis by (simp add: ok_to_include_history_def)
  qed (auto simp: ok_to_include_history_def Some)
qed

lemma allowed_base:
  "allowed Zerver_message_id False \<union> {id_name Zerver_message_id} \<subseteq> set (base_columns (From_message rid))"
  "allowed Message_id F \<union> {id_name Message_id} \<subseteq> set (base_columns (From_join uid))"
  by (simp_all add: allowed_def id_columns_def message_columns_def usermessage_columns_def)

lemma unread_anchor_bad:
  assumes terms: "\<And>ts t. narrow = Some ts \<Longrightarrow> t \<in> set ts \<Longrightarrow> good_term t"
    and zephyr: "\<And>u. user = Some u \<Longrightarrow> \<not> is_zephyr_mirror_realm (acc_realm u)"
  shows "only_bad (find_first_unread_anchor db fts pg user narrow)"
proof (cases user)
  case None
  then show ?thesis by (simp add: find_first_unread_anchor_def)
next
  case (Some u)
  let ?q = "\<lparr>q_base = From_join (acc_id u), q_where = [], q_extra = []\<rparr>"
  have base: "get_base_query_for_search (acc_realm_id u) (Some u) True True = Inr (?q, Message_id)"
    by (simp add: get_base_query_for_search_def)
  have add: "only_bad (add_narrow_conditions db pg (Some u) Message_id ?q narrow False (acc_realm u))"
    by (rule add_narrow_bad) (use terms zephyr Some in auto)
  have valid: "valid_term t" if "narrow = Some ts" "t \<in> set ts" for ts t
    using terms [OF that] by (simp add: good_term_def)
  then obtain cs where cs: "exclude_muting_conditions db u narrow = Inr cs" using muting_total by blast
  let ?unread = "CFlags (flag_mask ''read'') False"
  have run: "only_bad (execute db fts (add_where q (if cs \<noteq> [] then CAnd (?unread # cs) else ?unread)))"
    if q: "add_narrow_conditions db pg (Some u) Message_id ?q narrow False (acc_realm u) = Inr (q, s)" for q s
  proof -
    obtain dm flags where "set (query_columns q) \<subseteq> allowed Message_id (dm \<or> flags)"
      by (rule narrow_columns [OF q]) (auto simp: query_columns_def)
    with allowed_base(2) have cols: "set (query_columns q) \<subseteq> set (base_columns (From_join (acc_id u)))" by blast
    have b: "q_base q = From_join (acc_id u)" using add_narrow_extends [OF q] by (simp add: extends_def)
    have "set (concat (map columns cs)) \<subseteq> {''recipient_id'', ''subject''}" using muting_columns [OF cs] by auto
    then have "set (query_columns (add_where q (if cs \<noteq> [] then CAnd (?unread # cs) else ?unread))) \<subseteq>
        set (query_columns q) \<union> {''flags'', ''recipient_id'', ''subject''}" by (simp split: if_splits) blast
    also have "\<dots> \<subseteq> set (base_columns (From_join (acc_id u)))"
      using cols by (simp add: message_columns_def usermessage_columns_def)
    finally show ?thesis using b by (simp add: execute_ok)
  qed
  show ?thesis
    unfolding find_first_unread_anchor_def Some
    using add run by (auto simp: base cs Let_def intro!: only_bad_bind)
qed


end
