(* ===== verification/NarrowWindow.thy ===== *)
theory NarrowWindow
  imports NarrowErrors
begin

text \<open>
  The window of rows around the anchor.  The code asks for the rows below and above the anchor in
  two queries with limits that allow for the anchor itself, unites them, drops what is hidden and
  truncates; the result is the window one would define.  Also the rewriting of a narrow by the
  \<open>with\<close> operator, and what negation does.
\<close>

section \<open>Lists sorted by a key\<close>

abbreviation ascending :: "row list \<Rightarrow> bool" where
  "ascending \<equiv> sorted_wrt (\<lambda>x y. row_id x < row_id y)"

lemma ascending_sort: "distinct (map row_id rs) \<Longrightarrow> ascending (sort_key row_id rs)"
proof -
  assume d: "distinct (map row_id rs)"
  have "sorted (map row_id (sort_key row_id rs))" by simp
  moreover have "distinct (map row_id (sort_key row_id rs))"
    using d by (simp add: distinct_map)
  ultimately have "sorted_wrt (<) (map row_id (sort_key row_id rs))" by (simp add: strict_sorted_iff)
  then show ?thesis by (simp add: sorted_wrt_map)
qed

lemma ascending_distinct: "ascending xs \<Longrightarrow> distinct (map row_id xs)"
  by (simp add: strict_sorted_iff sorted_wrt_map [symmetric])

lemma ascending_sorted: "ascending xs \<Longrightarrow> sorted (map row_id xs)"
  using strict_sorted_imp_sorted [of "map row_id xs"] by (simp add: sorted_wrt_map)

lemma ascending_unique:
  assumes "ascending xs" "ascending ys" "set xs = set ys"
  shows "xs = ys"
proof (rule map_sorted_distinct_set_unique)
  show "inj_on row_id (set xs \<union> set ys)"
    using ascending_distinct [OF assms(2)] by (simp add: assms(3) distinct_map)
  show "sorted (map row_id xs)" "sorted (map row_id ys)" "distinct (map row_id xs)" "distinct (map row_id ys)"
    using assms ascending_distinct ascending_sorted by blast+
qed (rule assms)

lemma sort_to_ascending: "ascending ys \<Longrightarrow> distinct (map row_id xs) \<Longrightarrow> set xs = set ys \<Longrightarrow> sort_key row_id xs = ys"
  by (rule ascending_unique) (simp_all add: ascending_sort)

lemma sort_ascending: "ascending xs \<Longrightarrow> sort_key row_id xs = xs"
  by (rule sort_to_ascending) (simp_all add: ascending_distinct)

lemma ascending_filter: "ascending xs \<Longrightarrow> ascending (filter P xs)"
  by (rule sorted_wrt_filter)

lemma last_n_all: "int (length xs) \<le> n \<Longrightarrow> last_n n xs = xs"
  by (simp add: last_n_def)

lemma last_n_Cons: "last_n n (x # xs) = (if int (length xs) < n then x # xs else last_n n xs)"
proof (cases "int (length xs) < n")
  case False
  then have "length (x # xs) - nat n = Suc (length xs - nat n)" by auto
  with False show ?thesis by (simp add: last_n_def)
qed (simp add: last_n_def)

lemma length_last_n: "0 \<le> n \<Longrightarrow> int (length (last_n n xs)) = min (int (length xs)) n"
  by (auto simp: last_n_def)

lemma filter_last_n:
  "ascending xs \<Longrightarrow> filter (\<lambda>r. v \<le> row_id r) (last_n n xs) = last_n n (filter (\<lambda>r. v \<le> row_id r) xs)"
proof (induction xs)
  case (Cons x xs)
  have len: "length (filter (\<lambda>r. v \<le> row_id r) xs) \<le> length xs" by (rule length_filter_le)
  show ?case
  proof (cases "v \<le> row_id x")
    case True
    with Cons.prems have "filter (\<lambda>r. v \<le> row_id r) xs = xs" by (auto intro!: filter_True)
    moreover have "set (last_n n (x # xs)) \<subseteq> set (x # xs)" unfolding last_n_def by (rule set_drop_subset)
    ultimately have "\<forall>r\<in>set (last_n n (x # xs)). v \<le> row_id r" using True Cons.prems by force
    with True \<open>filter _ xs = xs\<close> show ?thesis by simp
  next
    case False
    with Cons len show ?thesis by (auto simp: last_n_Cons last_n_all)
  qed
qed (simp add: last_n_def)

lemma rev_take_rev: "0 \<le> n \<Longrightarrow> rev (take (nat n) (rev xs)) = last_n n xs"
  by (simp add: last_n_def take_rev)

lemma ascending_take: "ascending xs \<Longrightarrow> ascending (take n xs)"
  by (rule sorted_wrt_take)

lemma ascending_last_n: "ascending xs \<Longrightarrow> ascending (last_n n xs)"
  unfolding last_n_def by (rule sorted_wrt_drop)

text \<open>One more row than asked for covers the anchor.\<close>

lemma take_anchor:
  assumes "ascending xs" "\<forall>r\<in>set xs. a \<le> row_id r" "0 \<le> n"
  shows "take (nat n) (filter (\<lambda>r. a < row_id r) (take (nat (n + 1)) xs)) = take (nat n) (filter (\<lambda>r. a < row_id r) xs)"
    "filter (\<lambda>r. row_id r = a) (take (nat (n + 1)) xs) = filter (\<lambda>r. row_id r = a) xs"
proof -
  have n: "nat (n + 1) = Suc (nat n)" using assms(3) by simp
  have all: "filter (\<lambda>r. a < row_id r) ys = ys" "filter (\<lambda>r. row_id r = a) ys = []" if "\<forall>r\<in>set ys. a < row_id r" for ys
    using that by (auto simp: filter_id_conv filter_empty_conv)
  show "take (nat n) (filter (\<lambda>r. a < row_id r) (take (nat (n + 1)) xs)) = take (nat n) (filter (\<lambda>r. a < row_id r) xs)"
    "filter (\<lambda>r. row_id r = a) (take (nat (n + 1)) xs) = filter (\<lambda>r. row_id r = a) xs"
  proof (atomize (full), cases xs)
    case (Cons x ys)
    with assms have ys: "\<forall>r\<in>set ys. a < row_id r" by force
    then have tys: "\<forall>r\<in>set (take k ys). a < row_id r" for k by (meson in_set_takeD)
    show "take (nat n) (filter (\<lambda>r. a < row_id r) (take (nat (n + 1)) xs)) = take (nat n) (filter (\<lambda>r. a < row_id r) xs) \<and>
        filter (\<lambda>r. row_id r = a) (take (nat (n + 1)) xs) = filter (\<lambda>r. row_id r = a) xs"
      unfolding n Cons by (simp add: all [OF ys] all [OF tys] take_Cons' min_def)
  qed simp
qed


lemma last_n_last_n:
  assumes "0 \<le> n" "n \<le> k"
  shows "last_n n (last_n k xs) = last_n n xs"
proof -
  from assms have "0 \<le> k" "min (nat n) (nat k) = nat n" by simp_all
  with assms show ?thesis by (simp add: rev_take_rev [symmetric])
qed

lemma last_n_snoc: "0 \<le> n \<Longrightarrow> last_n (n + 1) (xs @ [x]) = last_n n xs @ [x]"
  by (simp add: last_n_def nat_add_distrib)

lemma set_last_n: "set (last_n n xs) \<subseteq> set xs"
  unfolding last_n_def by (rule set_drop_subset)

lemma last_n_anchor:
  assumes "ascending xs" "\<forall>r\<in>set xs. row_id r \<le> a" "0 \<le> n"
  shows "last_n n (filter (\<lambda>r. row_id r < a) (last_n (n + 1) xs)) = last_n n (filter (\<lambda>r. row_id r < a) xs)"
    "filter (\<lambda>r. row_id r = a) (last_n (n + 1) xs) = filter (\<lambda>r. row_id r = a) xs"
proof -
  have all: "filter (\<lambda>r. row_id r < a) ys = ys" "filter (\<lambda>r. row_id r = a) ys = []" if "\<forall>r\<in>set ys. row_id r < a" for ys
    using that by (auto simp: filter_id_conv filter_empty_conv)
  have last: "\<forall>r\<in>set (last_n k ys). row_id r < a" if "\<forall>r\<in>set ys. row_id r < a" for k and ys :: "row list"
    using that by (meson set_last_n subset_iff)
  show "last_n n (filter (\<lambda>r. row_id r < a) (last_n (n + 1) xs)) = last_n n (filter (\<lambda>r. row_id r < a) xs)"
    "filter (\<lambda>r. row_id r = a) (last_n (n + 1) xs) = filter (\<lambda>r. row_id r = a) xs"
  proof (atomize (full), cases xs rule: rev_cases)
    case (snoc ys x)
    with assms have ys: "\<forall>r\<in>set ys. row_id r < a" by (fastforce simp: sorted_wrt_append)
    show "last_n n (filter (\<lambda>r. row_id r < a) (last_n (n + 1) xs)) = last_n n (filter (\<lambda>r. row_id r < a) xs) \<and>
        filter (\<lambda>r. row_id r = a) (last_n (n + 1) xs) = filter (\<lambda>r. row_id r = a) xs"
    proof (cases "row_id x < a")
      case True
      with ys snoc have xs: "\<forall>r\<in>set xs. row_id r < a" by auto
      from all [OF xs] all [OF last [OF xs]] assms(3) show ?thesis by (simp add: last_n_last_n)
    next
      case False
      with assms snoc have "row_id x = a" by auto
      with all [OF ys] all [OF last [OF ys]] snoc assms(3) show ?thesis by (simp add: last_n_snoc last_n_last_n)
    qed
  qed (simp add: last_n_def)
qed

section \<open>The window\<close>

text \<open>
  The visible rows below, at and above the anchor.  The anchor itself is included on request, and
  always when there is something, or nothing, to fetch on both sides.
\<close>

definition visible_rows :: "int \<Rightarrow> row list \<Rightarrow> row list" where
  "visible_rows fv rs = filter (\<lambda>r. fv \<le> row_id r) (sort_key row_id rs)"

definition rows_below :: "int \<Rightarrow> int \<Rightarrow> row list \<Rightarrow> row list" where
  "rows_below fv a rs = filter (\<lambda>r. row_id r < a) (visible_rows fv rs)"

definition rows_above :: "int \<Rightarrow> int \<Rightarrow> row list \<Rightarrow> row list" where
  "rows_above fv a rs = filter (\<lambda>r. a < row_id r) (visible_rows fv rs)"

definition window :: "int \<Rightarrow> int \<Rightarrow> int \<Rightarrow> int \<Rightarrow> bool \<Rightarrow> row list \<Rightarrow> row list" where
  "window fv nb na a incl rs =
     last_n nb (rows_below fv a rs) @
     (if incl \<or> (nb > 0) = (na > 0) then filter (\<lambda>r. row_id r = a) (visible_rows fv rs) else []) @
     take (nat na) (rows_above fv a rs)"

lemma filter_above: "filter (\<lambda>r. max b v \<le> row_id r) xs = filter (\<lambda>r. b \<le> row_id r) (filter (\<lambda>r. v \<le> row_id r) xs)"
  by (auto intro: filter_cong)

text \<open>The rows the united queries return, by the sides that are asked for.\<close>

definition raw_rows :: "int \<Rightarrow> int \<Rightarrow> int \<Rightarrow> int \<Rightarrow> bool \<Rightarrow> row list \<Rightarrow> row list" where
  "raw_rows fv nb na a incl S =
     (let left = (a = 0); right = (a \<ge> LARGER_THAN_MAX_MESSAGE_ID); i = (if incl then 1 else 0);
          before = (\<not> left \<and> nb > 0); after = (\<not> right \<and> na > 0)
      in if before \<and> after
         then last_n nb (filter (\<lambda>r. row_id r \<le> a - 1) S) @ take (nat (na + 1)) (filter (\<lambda>r. max a fv \<le> row_id r) S)
         else if before
         then (if right then last_n nb S else last_n (nb + i) (filter (\<lambda>r. row_id r \<le> a - (1 - i)) S))
         else if after
         then take (nat (na + i)) (if left then S else filter (\<lambda>r. max (a + (1 - i)) fv \<le> row_id r) S)
         else filter (\<lambda>r. row_id r = a) S)"

lemma query_rows_where: "query_rows db fts (add_where q c) = filter (\<lambda>r. holds db fts r c) (query_rows db fts q)"
  by (auto simp: query_rows_def add_where_def intro: filter_cong)

lemma raw_rows_exec:
  assumes cols: "set (query_columns q) \<union> {id_name c} \<subseteq> set (base_columns (q_base q))"
    and d: "distinct (map row_id (query_rows db fts q))" and nb: "0 \<le> nb"
  shows "execute_union db fts (limit_query_to_range q nb na a incl (a = 0) (a \<ge> LARGER_THAN_MAX_MESSAGE_ID) c fv) =
    Inr (raw_rows fv nb na a incl (sort_key row_id (query_rows db fts q)))"
proof -
  let ?S = "sort_key row_id (query_rows db fts q)"
  have S: "ascending ?S" by (rule ascending_sort [OF d])
  have ex: "execute db fts (add_where q k) = Inr (filter (\<lambda>r. holds db fts r k) (query_rows db fts q))"
    if "set (columns k) \<subseteq> {id_name c}" for k
  proof -
    have "set (query_columns (add_where q k)) \<subseteq> set (base_columns (q_base (add_where q k)))" using cols that by auto
    from execute_ok [OF this] show ?thesis by (simp add: query_rows_where)
  qed
  have exq: "execute db fts q = Inr (query_rows db fts q)" by (rule execute_ok) (use cols in blast)
  have before: "execute_limited db fts \<lparr>l_query = add_where q (CIdLe c k), l_desc = True, l_limit = Some n\<rparr> =
      Inr (take (nat n) (rev (filter (\<lambda>r. row_id r \<le> k) ?S)))" for k n
    by (simp add: execute_limited_def ex filter_sort)
  have newest: "execute_limited db fts \<lparr>l_query = q, l_desc = True, l_limit = Some n\<rparr> = Inr (take (nat n) (rev ?S))" for n
    by (simp add: execute_limited_def exq)
  have after: "execute_limited db fts \<lparr>l_query = add_where q (CIdGe c k), l_desc = False, l_limit = Some n\<rparr> =
      Inr (take (nat n) (filter (\<lambda>r. k \<le> row_id r) ?S))" for k n
    by (simp add: execute_limited_def ex filter_sort)
  have oldest: "execute_limited db fts \<lparr>l_query = q, l_desc = False, l_limit = Some n\<rparr> = Inr (take (nat n) ?S)" for n
    by (simp add: execute_limited_def exq)
  have exact: "execute_limited db fts \<lparr>l_query = add_where q (CId c k), l_desc = False, l_limit = None\<rparr> =
      Inr (filter (\<lambda>r. row_id r = k) ?S)" for k
    by (simp add: execute_limited_def ex filter_sort)
  have newest_rows: "sort_key row_id (take (nat n) (rev xs)) = last_n n xs" if "ascending xs" "0 \<le> n" for xs n
  proof (rule sort_to_ascending)
    show "ascending (last_n n xs)" by (rule ascending_last_n [OF that(1)])
    have "rev (last_n n xs) = take (nat n) (rev xs)" using rev_take_rev [OF that(2), of xs] rev_swap by metis
    then show "distinct (map row_id (take (nat n) (rev xs)))" "set (take (nat n) (rev xs)) = set (last_n n xs)"
      using ascending_distinct [OF ascending_last_n [OF that(1), of n]] by (metis distinct_rev rev_map, metis set_rev)
  qed
  have union: "sort_key row_id (take (nat n) (rev xs) @ ys) = last_n n xs @ ys"
    if "ascending xs" "0 \<le> n" "ascending ys" "\<And>x y. x \<in> set xs \<Longrightarrow> y \<in> set ys \<Longrightarrow> row_id x < row_id y" for xs ys n
  proof (rule sort_to_ascending)
    show a: "ascending (last_n n xs @ ys)"
      using that ascending_last_n set_last_n [of n xs] by (auto simp: sorted_wrt_append)
    have "rev (last_n n xs) = take (nat n) (rev xs)" using rev_take_rev [OF that(2), of xs] rev_swap by metis
    then have r: "take (nat n) (rev xs) = rev (last_n n xs)" by simp
    from ascending_distinct [OF a] show "distinct (map row_id (take (nat n) (rev xs) @ ys))"
      unfolding r by (simp add: rev_map [symmetric])
    show "set (take (nat n) (rev xs) @ ys) = set (last_n n xs @ ys)" unfolding r by simp
  qed
  have both: "sort_key row_id (take (nat nb) (rev (filter (\<lambda>r. row_id r < a) ?S)) @
      take k (filter (\<lambda>r. max a fv \<le> row_id r) ?S)) =
    last_n nb (filter (\<lambda>r. row_id r < a) ?S) @ take k (filter (\<lambda>r. max a fv \<le> row_id r) ?S)" for k
    by (rule union) (auto simp: nb ascending_filter [OF S] ascending_take dest!: in_set_takeD)
  note sorted = S ascending_filter [OF S] ascending_take [OF S] ascending_take [OF ascending_filter [OF S]]
  show ?thesis
    unfolding execute_union_def limit_query_to_range_def raw_rows_def Let_def
    using nb
    by (auto simp: before newest after oldest exact newest_rows both sorted sort_ascending ascending_filter
        simp del: max.bounded_iff)
qed


lemma raw_rows_subset: "set (raw_rows fv nb na a incl S) \<subseteq> set S"
proof -
  have cut: "set (last_n k xs) \<subseteq> set S" "set (take m xs) \<subseteq> set S" if "set xs \<subseteq> set S" for k m xs
    using that set_last_n [of k xs] set_take_subset [of m xs] by blast+
  have parts: "set (filter P S) \<subseteq> set S" "\<lbrakk>set xs \<subseteq> set S; set ys \<subseteq> set S\<rbrakk> \<Longrightarrow> set (xs @ ys) \<subseteq> set S"
    "\<lbrakk>set xs \<subseteq> set S; set ys \<subseteq> set S\<rbrakk> \<Longrightarrow> set (if c then xs else ys) \<subseteq> set S" for P xs ys c
    by auto
  show ?thesis unfolding raw_rows_def Let_def by (intro parts cut subset_refl)
qed

lemma filter_shift: "filter (\<lambda>r. row_id r \<le> a - 1) xs = filter (\<lambda>r. row_id r < a) xs"
  "filter (\<lambda>r. a + 1 \<le> row_id r) xs = filter (\<lambda>r. a < row_id r) xs"
  by (auto intro: filter_cong)

lemma last_n_empty [simp]: "last_n n [] = []" "last_n 0 xs = []"
  by (simp_all add: last_n_def)

lemma split_anchor:
  assumes "ascending xs" "\<forall>r\<in>set xs. a \<le> row_id r"
  shows "filter (\<lambda>r. row_id r < a) xs = []"
  using assms by (auto simp: filter_empty_conv)

text \<open>The three parts of what is left of the returned rows after the hidden ones are dropped.\<close>

lemma raw_rows_parts:
  fixes incl :: bool
  assumes S: "ascending S" and ids: "\<forall>r\<in>set S. 0 < row_id r \<and> row_id r < LARGER_THAN_MAX_MESSAGE_ID"
    and n: "0 \<le> nb" "0 \<le> na" "0 \<le> a" and hidden: "a = 0 \<Longrightarrow> \<forall>r\<in>set S. fv \<le> row_id r"
    and right: "a < LARGER_THAN_MAX_MESSAGE_ID"
  defines "W \<equiv> filter (\<lambda>r. fv \<le> row_id r) (raw_rows fv nb na a incl S)" and "V \<equiv> filter (\<lambda>r. fv \<le> row_id r) S"
  shows "(if nb \<noteq> 0 then last_n nb (filter (\<lambda>r. row_id r < a) W) else filter (\<lambda>r. row_id r < a) W) =
      last_n nb (filter (\<lambda>r. row_id r < a) V)" (is ?below)
    "filter (\<lambda>r. row_id r = a) W = (if incl \<or> (nb > 0) = (na > 0) then filter (\<lambda>r. row_id r = a) V else [])" (is ?at)
    "(if na \<noteq> 0 then take (nat na) (filter (\<lambda>r. a < row_id r) W) else filter (\<lambda>r. a < row_id r) W) =
      take (nat na) (filter (\<lambda>r. a < row_id r) V)" (is ?above)
proof -
  have V: "ascending V" unfolding V_def by (rule ascending_filter [OF S])
  have vis: "filter (\<lambda>r. fv \<le> row_id r) (filter P S) = filter P V" for P
    unfolding V_def by (simp add: conj_commute)
  have vlast: "filter (\<lambda>r. fv \<le> row_id r) (last_n k (filter P S)) = last_n k (filter P V)" for k P
    using filter_last_n [OF ascending_filter [OF S, of P], of fv k] by (simp only: vis)
  have vtake: "filter (\<lambda>r. fv \<le> row_id r) (take k (filter (\<lambda>r. max b fv \<le> row_id r) S)) = take k (filter (\<lambda>r. b \<le> row_id r) V)" for k b
  proof -
    have "filter (\<lambda>r. max b fv \<le> row_id r) S = filter (\<lambda>r. b \<le> row_id r) V" unfolding V_def by (rule filter_above)
    moreover have "filter (\<lambda>r. fv \<le> row_id r) (take k (filter (\<lambda>r. b \<le> row_id r) V)) = take k (filter (\<lambda>r. b \<le> row_id r) V)"
      by (rule filter_True) (auto simp: V_def dest!: in_set_takeD)
    ultimately show ?thesis by simp
  qed
  have none: "filter P (last_n k xs) = []" "filter P (take m xs) = []" if "\<forall>r\<in>set xs. \<not> P r" for P k m and xs :: "row list"
    using that set_last_n [of k xs] by (auto simp: filter_empty_conv dest: in_set_takeD)
  have keep: "filter P (last_n k (filter P xs)) = last_n k (filter P xs)" "filter P (take m (filter P xs)) = take m (filter P xs)"
    for P k m and xs :: "row list"
    using set_last_n [of k "filter P xs"] by (auto simp: filter_id_conv dest: in_set_takeD)
  consider (both) "a \<noteq> 0" "nb > 0" "na > 0" | (before) "a \<noteq> 0" "nb > 0" "na = 0"
    | (after) "a \<noteq> 0" "nb = 0" "na > 0" | (oldest) "a = 0" "na > 0" | (exact) "nb = 0 \<or> a = 0" "na = 0"
    using n by linarith
  then have "?below \<and> ?at \<and> ?above"
  proof cases
    case both
    let ?B = "last_n nb (filter (\<lambda>r. row_id r < a) V)" and ?A = "filter (\<lambda>r. a \<le> row_id r) V"
    have W: "W = ?B @ take (nat (na + 1)) ?A"
      using both right unfolding W_def raw_rows_def Let_def by (simp add: filter_shift vlast vtake del: max.bounded_iff)
    have A: "ascending ?A" "\<forall>r\<in>set ?A. a \<le> row_id r" by (simp_all add: ascending_filter [OF V])
    have "filter (\<lambda>r. row_id r < a) W = ?B"
      unfolding W by (simp add: keep none)
    moreover have "filter (\<lambda>r. row_id r = a) W = filter (\<lambda>r. row_id r = a) V"
      unfolding W using take_anchor(2) [OF A n(2)] by (simp add: none) (auto intro: filter_cong)
    moreover have "take (nat na) (filter (\<lambda>r. a < row_id r) W) = take (nat na) (filter (\<lambda>r. a < row_id r) V)"
    proof -
      have "filter (\<lambda>r. a < row_id r) ?A = filter (\<lambda>r. a < row_id r) V" by (auto intro: filter_cong)
      then show ?thesis unfolding W using take_anchor(1) [OF A n(2)] by (simp add: none)
    qed
    ultimately show ?thesis using both by (simp add: last_n_last_n)
  next
    case before
    show ?thesis
    proof (cases incl)
      case True
      let ?A = "filter (\<lambda>r. row_id r \<le> a) V"
      have W: "W = last_n (nb + 1) ?A"
        using before right True unfolding W_def raw_rows_def Let_def by (simp add: vlast)
      have A: "ascending ?A" "\<forall>r\<in>set ?A. row_id r \<le> a" by (simp_all add: ascending_filter [OF V])
      have "filter (\<lambda>r. row_id r < a) ?A = filter (\<lambda>r. row_id r < a) V" "filter (\<lambda>r. row_id r = a) ?A = filter (\<lambda>r. row_id r = a) V"
        by (auto intro: filter_cong)
      then show ?thesis
        using last_n_anchor [OF A n(1)] before True unfolding W by (simp add: none)
    next
      case False
      have W: "W = last_n nb (filter (\<lambda>r. row_id r < a) V)"
        using before right False unfolding W_def raw_rows_def Let_def by (simp add: vlast filter_shift)
      show ?thesis using before False unfolding W by (simp add: keep none last_n_last_n)
    qed
  next
    case after
    show ?thesis
    proof (cases incl)
      case True
      let ?A = "filter (\<lambda>r. a \<le> row_id r) V"
      have W: "W = take (nat (na + 1)) ?A"
        using after right True unfolding W_def raw_rows_def Let_def by (simp add: vtake del: max.bounded_iff)
      have A: "ascending ?A" "\<forall>r\<in>set ?A. a \<le> row_id r" by (simp_all add: ascending_filter [OF V])
      have "filter (\<lambda>r. a < row_id r) ?A = filter (\<lambda>r. a < row_id r) V" "filter (\<lambda>r. row_id r = a) ?A = filter (\<lambda>r. row_id r = a) V"
        by (auto intro: filter_cong)
      then show ?thesis
        using take_anchor [OF A n(2)] after True unfolding W by (simp add: none)
    next
      case False
      have W: "W = take (nat na) (filter (\<lambda>r. a < row_id r) V)"
        using after right False unfolding W_def raw_rows_def Let_def by (simp add: vtake filter_shift del: max.bounded_iff)
      show ?thesis using after False unfolding W by (simp add: keep none)
    qed
  next
    case oldest
    have VS: "V = S" using hidden oldest unfolding V_def by (simp add: filter_id_conv)
    have pos: "\<forall>r\<in>set S. \<not> row_id r < 0 \<and> row_id r \<noteq> 0 \<and> 0 < row_id r" using ids by auto
    have W: "W = take (nat (na + (if incl then 1 else 0))) S"
      using oldest right hidden unfolding W_def raw_rows_def Let_def by (auto simp: filter_id_conv dest!: in_set_takeD)
    have "filter (\<lambda>r. 0 < row_id r) (take k S) = take k S" "filter (\<lambda>r. 0 < row_id r) S = S" for k
      using pos by (auto simp: filter_id_conv dest: in_set_takeD)
    then show ?thesis
      using oldest pos unfolding W VS by (simp add: none filter_empty_conv min_def nat_le_eq_zle)
  next
    case exact
    have "raw_rows fv nb na a incl S = filter (\<lambda>r. row_id r = a) S"
      using exact right n unfolding raw_rows_def Let_def by auto
    then have W: "W = filter (\<lambda>r. row_id r = a) V" unfolding W_def by (simp only: vis)
    have pos: "filter (\<lambda>r. row_id r < 0) V = []" "filter (\<lambda>r. row_id r = 0) V = []"
      using ids unfolding V_def by (auto simp: filter_empty_conv)
    have "filter (\<lambda>r. row_id r < a) W = []" "filter (\<lambda>r. a < row_id r) W = []" "filter (\<lambda>r. row_id r = a) W = W"
      unfolding W by (auto simp: filter_empty_conv)
    with exact pos n show ?thesis unfolding W by auto
  qed
  then show ?below ?at ?above by blast+
qed


text \<open>What the post-processing makes of the rows, given those that are visible.\<close>

lemma post_process_parts:
  assumes "(if fv > 0 then filter (\<lambda>r. fv \<le> row_id r) W else W) = W'"
    and "(if nb \<noteq> 0 then last_n nb (filter (\<lambda>r. row_id r < a) W') else filter (\<lambda>r. row_id r < a) W') = B"
    and "filter (\<lambda>r. row_id r = a) W' = E"
    and "(if na \<noteq> 0 then take (nat na) (filter (\<lambda>r. a < row_id r) W') else filter (\<lambda>r. a < row_id r) W') = A"
  shows "post_process_limited_query W nb na a left False fv =
    \<lparr>lm_rows = B @ E @ A, found_anchor = (length E = 1), found_newest = int (length A) < na,
     found_oldest = left \<or> int (length B) < nb,
     history_limited = length W' \<noteq> length W \<and> (left \<or> int (length B) < nb)\<rparr>"
  unfolding post_process_limited_query_def Let_def assms(1) if_False assms(2-4) by simp

text \<open>
  C9. The window of rows is exact.  Whatever the query matches, the rows returned for an anchor are
  the last \<open>num_before\<close> visible matches below it, the anchor if it matches and is asked for, and
  the first \<open>num_after\<close> visible matches above it; an anchor beyond every id gives the newest rows,
  the anchor zero the oldest.  The flags say exactly whether the anchor is among the rows and
  whether fewer matches than asked for exist on a side, and \<open>history_limited\<close> is only set when
  matches are hidden.  At the anchor zero no matching row may be hidden.
\<close>

theorem window_exact:
  assumes cols: "set (query_columns q) \<union> {id_name c} \<subseteq> set (base_columns (q_base q))"
    and d: "distinct (map row_id (query_rows db fts q))"
    and ids: "\<forall>x\<in>set (query_rows db fts q). 0 < row_id x \<and> row_id x < LARGER_THAN_MAX_MESSAGE_ID"
    and n: "0 \<le> nb" "0 \<le> na" "0 \<le> a"
    and hidden: "a = 0 \<Longrightarrow> \<forall>x\<in>set (query_rows db fts q). fv \<le> row_id x"
  shows "\<exists>rows.
    let right = (a \<ge> LARGER_THAN_MAX_MESSAGE_ID); k = (if right then 0 else na); R = query_rows db fts q;
        m = post_process_limited_query rows nb k a (a = 0) right fv
    in execute_union db fts (limit_query_to_range q nb k a incl (a = 0) right c fv) = Inr rows \<and>
       lm_rows m = window fv nb k a incl R \<and>
       found_anchor m = (\<exists>x\<in>set (lm_rows m). row_id x = a) \<and>
       found_oldest m = (a = 0 \<or> int (length (rows_below fv a R)) < nb) \<and>
       found_newest m = (right \<or> int (length (rows_above fv a R)) < k) \<and>
       (history_limited m \<longrightarrow> (\<exists>x\<in>set R. row_id x < fv))"
proof -
  let ?right = "a \<ge> LARGER_THAN_MAX_MESSAGE_ID" and ?R = "query_rows db fts q"
  let ?k = "if ?right then 0 else na" and ?S = "sort_key row_id ?R" and ?V = "visible_rows fv ?R"
  let ?W = "raw_rows fv nb ?k a incl ?S"
  let ?m = "post_process_limited_query ?W nb ?k a (a = 0) ?right fv"
  have S: "ascending ?S" "\<forall>x\<in>set ?S. 0 < row_id x \<and> row_id x < LARGER_THAN_MAX_MESSAGE_ID" "set ?S = set ?R"
    using ids by (simp_all add: ascending_sort [OF d])
  have V: "?V = filter (\<lambda>r. fv \<le> row_id r) ?S" by (simp add: visible_rows_def)
  have exec: "execute_union db fts (limit_query_to_range q nb ?k a incl (a = 0) ?right c fv) = Inr ?W"
    by (rule raw_rows_exec [OF cols d n(1)])
  have "set ?W \<subseteq> set ?S"
    by (rule raw_rows_subset)
  then have limited: "length (filter (\<lambda>r. fv \<le> row_id r) ?W) \<noteq> length ?W \<Longrightarrow> \<exists>x\<in>set ?R. row_id x < fv"
    using S(3) by (metis filter_True linorder_not_less subsetD)
  have vis: "(if fv > 0 then filter (\<lambda>r. fv \<le> row_id r) ?W else ?W) = filter (\<lambda>r. fv \<le> row_id r) ?W"
  proof (cases "fv > 0")
    case False
    with \<open>set ?W \<subseteq> set ?S\<close> S(2) have "\<forall>x\<in>set ?W. fv \<le> row_id x" by force
    with False show ?thesis by (simp add: filter_id_conv)
  qed simp
  have one: "length (filter (\<lambda>r. row_id r = a) xs) = 1 \<longleftrightarrow> (\<exists>x\<in>set xs. row_id x = a)" if "ascending xs" for xs
    using that by (induction xs) (auto simp: filter_empty_conv)
  have nV: "length (last_n nb xs) = length xs \<or> length (last_n nb xs) = nat nb" for xs :: "row list"
    by (auto simp: last_n_def)
  have lt: "int (length (last_n nb xs)) < nb \<longleftrightarrow> int (length xs) < nb" "int (length (take (nat na) xs)) < na \<longleftrightarrow> int (length xs) < na"
    for xs :: "row list"
    using length_last_n [OF n(1), of xs] n(2) by (auto simp: min_def)
  have "lm_rows ?m = window fv nb ?k a incl ?R \<and> found_anchor ?m = (\<exists>x\<in>set (lm_rows ?m). row_id x = a) \<and>
       found_oldest ?m = (a = 0 \<or> int (length (rows_below fv a ?R)) < nb) \<and>
       found_newest ?m = (?right \<or> int (length (rows_above fv a ?R)) < ?k) \<and>
       (history_limited ?m \<longrightarrow> (\<exists>x\<in>set ?R. row_id x < fv))"
  proof (cases ?right)
    case True
    have a: "a \<noteq> 0" using True by (auto simp: LARGER_THAN_MAX_MESSAGE_ID_def)
    have W: "filter (\<lambda>r. fv \<le> row_id r) ?W = last_n nb ?V"
    proof (cases "nb > 0")
      case True
      with a \<open>?right\<close> show ?thesis by (simp add: raw_rows_def filter_last_n [OF S(1)] V)
    next
      case False
      have "filter (\<lambda>r. row_id r = a) ?S = []" using S(2) \<open>?right\<close> by (auto simp: filter_empty_conv)
      with False n(1) a \<open>?right\<close> show ?thesis by (simp add: raw_rows_def)
    qed
    have "\<forall>x\<in>set ?V. row_id x < a" using S(2) True unfolding V by force
    then have below: "rows_below fv a ?R = ?V" "rows_above fv a ?R = []" "filter (\<lambda>r. row_id r = a) ?V = []"
      unfolding rows_below_def rows_above_def by (auto simp: filter_id_conv filter_empty_conv)
    have rows: "lm_rows ?m = last_n nb ?V"
      using True unfolding post_process_limited_query_def Let_def trans [OF vis W] by (simp add: last_n_last_n n(1))
    have "\<forall>x\<in>set (last_n nb ?V). row_id x \<noteq> a" using set_last_n [of nb ?V] S(2) True unfolding V by force
    moreover have "window fv nb ?k a incl ?R = last_n nb ?V" using True by (simp add: window_def below)
    ultimately show ?thesis
      using True a lt limited [unfolded W] unfolding rows post_process_limited_query_def Let_def trans [OF vis W]
      by (simp add: below last_n_last_n n(1))
  next
    case False
    then have r: "a < LARGER_THAN_MAX_MESSAGE_ID" "?k = na" by simp_all
    have hid: "a = 0 \<Longrightarrow> \<forall>x\<in>set ?S. fv \<le> row_id x" using hidden by simp
    note parts = raw_rows_parts [OF S(1,2) n hid r(1), of incl, folded V]
    let ?E = "if incl \<or> (nb > 0) = (na > 0) then filter (\<lambda>r. row_id r = a) ?V else []"
    have asc: "ascending ?V" unfolding V by (rule ascending_filter [OF S(1)])
    have E: "length ?E = 1 \<longleftrightarrow> (\<exists>x\<in>set ?E. row_id x = a)" using one [OF asc] by auto
    have other: "\<forall>x\<in>set (last_n nb (rows_below fv a ?R)). row_id x \<noteq> a" "\<forall>x\<in>set (take (nat na) (rows_above fv a ?R)). row_id x \<noteq> a"
      using set_last_n [of nb "rows_below fv a ?R"] by (auto simp: rows_below_def rows_above_def dest: in_set_takeD)
    let ?B = "last_n nb (rows_below fv a ?R)" and ?A = "take (nat na) (rows_above fv a ?R)"
      and ?W' = "filter (\<lambda>r. fv \<le> row_id r) (raw_rows fv nb na a incl ?S)"
    have m: "?m = \<lparr>lm_rows = ?B @ ?E @ ?A, found_anchor = (length ?E = 1), found_newest = int (length ?A) < na,
        found_oldest = a = 0 \<or> int (length ?B) < nb,
        history_limited = length ?W' \<noteq> length ?W \<and> (a = 0 \<or> int (length ?B) < nb)\<rparr>"
      using post_process_parts [OF vis [unfolded r(2)] parts] False r(2) by (simp only: rows_below_def rows_above_def if_False)
    have "(\<exists>x\<in>set (?B @ ?E @ ?A). row_id x = a) \<longleftrightarrow> (\<exists>x\<in>set ?E. row_id x = a)" using other by auto
    with E have "length ?E = 1 \<longleftrightarrow> (\<exists>x\<in>set (?B @ ?E @ ?A). row_id x = a)" by blast
    then show ?thesis
      unfolding m using False limited [unfolded r(2)] lt by (simp add: window_def)
  qed
  with exec show ?thesis unfolding Let_def by blast
qed

end
