(* ===== verification/NarrowMeaning.thy ===== *)
theory NarrowMeaning
  imports NarrowWindow
begin

text \<open>
  What negation means, where it is ignored, and what the \<open>with\<close> operator finds.
\<close>

section \<open>Negation\<close>

text \<open>A step that adds one condition, the same with and without negation but for a \<open>NOT\<close>.\<close>

definition negatable :: "narrow_query \<Rightarrow> (bool \<Rightarrow> step) \<Rightarrow> bool" where
  "negatable q f \<longleftrightarrow> (\<exists>m. \<forall>n. f n = ebind m (\<lambda>(b, c). Inr (b, add_where q (maybe_negate n c))))"

lemma negatable_Inl [simp]: "negatable q (\<lambda>n. Inl e)" "negatable q (\<lambda>n. bad_narrow s)"
  unfolding negatable_def bad_narrow_def by (metis ebind.simps(1))+

lemma negatable_Inr: "negatable q (\<lambda>n. Inr (b, add_where q (maybe_negate n c)))"
  unfolding negatable_def by (rule exI [of _ "Inr (b, c)"]) simp

lemma negatable_bind:
  assumes "\<And>x. negatable q (f x)"
  shows "negatable q (\<lambda>n. ebind m (\<lambda>x. f x n))"
proof (cases m)
  case (Inr x)
  with assms [of x] show ?thesis by simp
qed simp

lemma negatable_if: "(c \<Longrightarrow> negatable q f) \<Longrightarrow> (\<not> c \<Longrightarrow> negatable q g) \<Longrightarrow> negatable q (\<lambda>n. if c then f n else g n)"
  by (cases c) simp_all

lemma negatable_option: "negatable q f \<Longrightarrow> (\<And>x. negatable q (g x)) \<Longrightarrow> negatable q (\<lambda>n. case m of None \<Rightarrow> f n | Some x \<Rightarrow> g x n)"
  by (cases m) simp_all

lemma negatable_sum: "(\<And>e. negatable q (f e)) \<Longrightarrow> (\<And>x. negatable q (g x)) \<Longrightarrow>
    negatable q (\<lambda>n. case m of Inl e \<Rightarrow> f e n | Inr x \<Rightarrow> g x n)"
  by (cases m) simp_all

lemmas negatable_intros = negatable_bind negatable_if negatable_option negatable_sum negatable_Inr negatable_Inl

lemma by_negatable:
  "negatable q (by_has b q v)" "negatable q (by_is b q v)" "negatable q (by_channel db b q v)"
  "negatable q (by_channels db b q v)" "negatable q (by_topic b q v)" "negatable q (by_sender db b q v)"
  "negatable q (by_id b q v)" "negatable q (by_dm db b q v)" "negatable q (by_dm_including db b q v)"
  "negatable q (by_group_pm_with db b q v)"
  unfolding by_has_def [abs_def] by_is_def [abs_def] by_channel_def [abs_def] by_channels_def [abs_def] by_topic_def [abs_def]
    by_sender_def [abs_def] by_id_def [abs_def] by_dm_def [abs_def] by_dm_including_def [abs_def] by_group_pm_with_def [abs_def] Let_def
  by (intro negatable_intros)+

lemma add_term_negatable:
  assumes "np_operator t \<notin> {''in'', ''near'', ''search''}"
  shows "negatable q (\<lambda>n. add_term db b q (t\<lparr>np_negated := n\<rparr>))"
proof (cases t)
  case (fields op v n)
  show ?thesis
    unfolding add_term_def Let_def fields narrow_param.simps
    by (intro negatable_if by_negatable negatable_Inl) (use assms fields in simp_all)
qed


text \<open>But the negation of a search, and of \<open>in\<close>, is dropped.\<close>

theorem search_negation_ignored:
  "add_narrow_conditions db pg user c q (Some ts) web r =
   add_narrow_conditions db pg user c q
     (Some (map (\<lambda>t. if np_operator t \<in> {''search'', ''in''} then t\<lparr>np_negated := \<not> np_negated t\<rparr> else t) ts)) web r"
proof -
  let ?f = "\<lambda>t. if np_operator t \<in> {''search'', ''in''} then t\<lparr>np_negated := \<not> np_negated t\<rparr> else t"
  have step: "narrow_step db (?f t) s = narrow_step db t s" for t s
    by (cases s) (simp add: narrow_step_def add_term_def by_in_def)
  have "efold (narrow_step db) (map ?f ts) s = efold (narrow_step db) ts s" for s
  proof (induction ts arbitrary: s)
    case (Cons t ts)
    have "efold (narrow_step db) (map ?f ts) = efold (narrow_step db) ts" by (rule ext) (rule Cons.IH)
    then show ?case by (simp only: list.map efold.simps step)
  qed simp
  then show ?thesis by (simp add: add_narrow_conditions_def)
qed

section \<open>The \<open>with\<close> operator\<close>

lemma validate_conversation:
  "validate_terms \<lparr>np_operator = ''channel'', np_operand = PInt i, np_negated = n\<rparr> =
    Inr \<lparr>np_operator = ''channel'', np_operand = PInt i, np_negated = n\<rparr>"
  "validate_terms \<lparr>np_operator = ''topic'', np_operand = PStr s, np_negated = n\<rparr> =
    Inr \<lparr>np_operator = ''topic'', np_operand = PStr s, np_negated = n\<rparr>"
  by (simp_all add: validate_terms_def operand_validator_def operators_supporting_id_def channel_operators_def
      check_string_or_int_def check_string_def)

text \<open>
  C20. The \<open>with\<close> operator reveals nothing: a message the user may not read has the same effect on
  the narrow as one that does not exist, namely none but that the term is dropped.
\<close>

theorem with_hides_messages:
  assumes "wf_db db" "filter (\<lambda>t. np_operator t = ''with'') ts = [w]" "np_operand w = PInt i"
    and "\<And>m. m \<in> set (messages db) \<Longrightarrow> m_id m = i \<Longrightarrow> \<not> may_read db u m"
  shows "update_narrow_terms_containing_with_operator db server r (Some u) (Some ts) = Inr (Some (remove1 w ts))"
proof -
  have "access_message db u i False = Inl (JsonableError ''Invalid message(s)'')"
  proof (cases "find (\<lambda>m. m_id m = i) (messages db)")
    case (Some m)
    then have "m \<in> set (messages db)" "m_id m = i" by (auto simp: find_Some_iff)
    with access_message_eq [OF assms(1), of m u] assms(4) show ?thesis by auto
  qed (simp add: access_message_def)
  then show ?thesis
    by (simp add: update_narrow_terms_containing_with_operator_def assms(2,3) operand_int_def is_jsonable_def Let_def)
qed

lemma unique_channel:
  assumes "wf_db db" "c \<in> set (channels db)"
  shows "get_stream_by_id_in_realm db (ch_id c) (ch_realm_id c) = Inr c"
proof -
  have "distinct (map ch_id cs) \<Longrightarrow> c \<in> set cs \<Longrightarrow> find (\<lambda>d. ch_id d = ch_id c \<and> ch_realm_id d = ch_realm_id c) cs = Some c" for cs
    by (induction cs) (auto simp: image_iff)
  with assms have "find (\<lambda>d. ch_id d = ch_id c \<and> ch_realm_id d = ch_realm_id c) (channels db) = Some c"
    by (simp add: wf_db_def)
  then show ?thesis by (simp add: get_stream_by_id_in_realm_def get_or_missing_def)
qed

text \<open>One row per message, as the uniqueness of the pairs of user and message guarantees.\<close>

definition unique_rows :: "chat_db \<Rightarrow> int \<Rightarrow> bool" where
  "unique_rows db uid \<longleftrightarrow> distinct (map um_message (filter (\<lambda>um. um_user um = uid) (usermessages db)))"

lemma base_rows_distinct:
  assumes "wf_db db" "unique_rows db uid"
  shows "distinct (map row_id (base_rows db (From_message rid)))" "distinct (map row_id (base_rows db (From_join uid)))"
proof -
  show "distinct (map row_id (base_rows db (From_message rid)))"
    using assms(1) by (simp add: wf_db_def comp_def row_id_def distinct_map_filter)
  have one: "map row_id (map (\<lambda>m. \<lparr>row_message = Some m, row_um = Some um\<rparr>) (filter (\<lambda>m. m_id m = um_message um) ms)) =
      replicate (count_list (map m_id ms) (um_message um)) (um_message um)" for um ms
    by (induction ms) (simp_all add: row_id_def)
  have "count_list xs x \<le> 1" if "distinct xs" for xs :: "int list" and x
    using that by (induction xs) (auto simp: count_notin)
  then have "count_list (map m_id (messages db)) x \<le> 1" for x using assms(1) by (simp add: wf_db_def)
  then have cnt: "count_list (map m_id (messages db)) x = 0 \<or> count_list (map m_id (messages db)) x = Suc 0" for x
    by (simp add: le_Suc_eq)
  define rows where "rows = (\<lambda>um. map (\<lambda>m. \<lparr>row_message = Some m, row_um = Some um\<rparr>) (filter (\<lambda>m. m_id m = um_message um) (messages db)))"
  have rows: "distinct (map row_id (rows um))" "set (map row_id (rows um)) \<subseteq> {um_message um}" for um
    unfolding rows_def one using cnt [of "um_message um"] by auto
  have "distinct (map um_message ums) \<Longrightarrow> distinct (map row_id (concat (map rows ums))) \<and>
      set (map row_id (concat (map rows ums))) \<subseteq> um_message ` set ums" for ums
  proof (induction ums)
    case (Cons um ums)
    have "distinct ys \<Longrightarrow> set ys \<subseteq> {a} \<Longrightarrow> distinct xs \<Longrightarrow> set xs \<subseteq> A \<Longrightarrow> a \<notin> A \<Longrightarrow>
        distinct (ys @ xs) \<and> set (ys @ xs) \<subseteq> insert a A" for ys xs :: "int list" and a A by auto
    note step = this
    from Cons have "distinct (map row_id (concat (map rows ums)))" "set (map row_id (concat (map rows ums))) \<subseteq> um_message ` set ums"
      "um_message um \<notin> um_message ` set ums" by simp_all
    from step [OF rows [of um] this] show ?case by simp
  qed simp
  then have "distinct (map row_id (concat (map rows (filter (\<lambda>um. um_user um = uid) (usermessages db)))))"
    using assms(2) by (simp add: unique_rows_def)
  then show "distinct (map row_id (base_rows db (From_join uid)))" by (simp add: rows_def)
qed

lemma query_rows_distinct: "distinct (map row_id (base_rows db (q_base q))) \<Longrightarrow> distinct (map row_id (query_rows db fts q))"
  unfolding query_rows_def by (rule distinct_map_filter)

text \<open>The conversation of a channel message, and the query it makes.\<close>

definition conversation :: "message \<Rightarrow> narrow_param list" where
  "conversation m = [\<lparr>np_operator = ''channel'', np_operand = PInt (m_type_id m), np_negated = False\<rparr>,
     \<lparr>np_operator = ''topic'', np_operand = PStr (m_subject m), np_negated = False\<rparr>]"

lemma conversation_query:
  assumes "get_stream_by_id_in_realm db (m_type_id m) (realm_id r) = Inr c" "\<not> is_zephyr_mirror_realm r"
  shows "add_narrow_conditions db pg (Some u) k q (Some (conversation m)) False r =
    Inr (add_where (add_where q (CRecipient (ch_recipient_id c))) (CTopic (m_subject m)), False)"
proof -
  have "get_stream_by_narrow_operand_access_unchecked db (PInt (m_type_id m)) (realm_id r) = Inr c"
    using assms(1) by (simp add: get_stream_by_narrow_operand_access_unchecked_def operand_int_def)
  then show ?thesis
    using assms(2)
    by (simp add: conversation_def add_narrow_conditions_def narrow_step_def add_term_def by_channel_def by_topic_def
        builder_init_def check_not_both_channel_and_dm_narrow_def except_missing_def maybe_negate_def str_arg_def)
qed

lemma conversation_history:
  assumes "get_stream_by_id_in_realm db (m_type_id m) (acc_realm_id u) = Inr c"
  shows "ok_to_include_history db (Some (conversation m)) (Some u) False = can_access_stream_history db u c"
  using assms by (cases "can_access_stream_history db u c")
    (simp_all add: ok_to_include_history_def conversation_def history_step_def history_by_operand_def operand_int_def
      can_access_stream_history_by_id_def channel_operators_def channels_operators_def)

lemma history_or_received:
  assumes "wf_db db" "m \<in> set (messages db)" "c \<in> set (channels db)" "m_recipient_id m = ch_recipient_id c"
    and "may_read db u m" "ch_realm_id c = acc_realm_id u"
  shows "can_access_stream_history db u c = Inr True \<or> received db (acc_id u) (m_id m)"
proof -
  from channel_message [OF assms(1-4)] assms(5) have
    "is_public c \<and> can_access_public_streams (acc_realm u) (profile u) \<or>
     subscribed_recipient db (acc_id u) (ch_recipient_id c) \<and> (history_public_to_subscribers c \<or> received db (acc_id u) (m_id m))"
    by blast
  moreover have "active_subscription db True (acc_id u) (ch_recipient_id c) \<noteq> None"
    if "subscribed_recipient db (acc_id u) (ch_recipient_id c)"
    using that by (auto simp: active_subscription_def subscribed_recipient_def list_ex_iff find_None_iff)
  ultimately show ?thesis
    using assms(6) by (auto simp: can_access_stream_history_def can_access_public_streams_def access_stream_common_def
        check_basic_stream_access_def)
qed

text \<open>
  C19. A permanent link works: for a channel message the user may read, \<open>with\<close> rewrites the narrow to
  the conversation the message is in now, whatever channel, topic or recipients the narrow named,
  and fetching that narrow around the message finds it, from the user's own messages or from the
  channel's history, however few messages before and after are asked for.
\<close>

theorem with_finds_channel_message:
  assumes wf: "wf_db db" "unique_rows db (acc_id u)" and r: "acc_realm u = r" "\<not> is_zephyr_mirror_realm r"
    and m: "m \<in> set (messages db)" "m_recipient_type m = STREAM" "may_read db u m"
    and ids: "\<forall>x\<in>set (messages db). 0 < m_id x \<and> m_id x < LARGER_THAN_MAX_MESSAGE_ID"
    and n: "0 \<le> nb" "0 \<le> na" "fv \<le> m_id m"
    and ts: "filter (\<lambda>t. np_operator t = ''with'') ts = [w]" "np_operand w = PInt (m_id m)"
      "\<forall>t\<in>set ts. np_operator t \<in> {''with'', ''stream'', ''channel'', ''topic'', ''dm'', ''pm-with''}"
  shows "update_narrow_terms_containing_with_operator db server r (Some u) (Some ts) = Inr (Some (conversation m)) \<and>
    (\<exists>f. fetch_messages db fts pg fv (Some (conversation m)) (Some u) r False (Some (m_id m)) True nb na = Inr f \<and>
       found_anchor (fm_limited f))"
proof
  have access: "access_message db u (m_id m) False = Inr m" using access_message_eq [OF wf(1) m(1), of u] m(3) by simp
  have "\<forall>t\<in>set (remove1 w ts). np_operator t \<in> {''stream'', ''channel'', ''topic'', ''dm'', ''pm-with''}"
  proof
    fix t assume t: "t \<in> set (remove1 w ts)"
    have "filter (\<lambda>t. np_operator t = ''with'') (remove1 w ts) = remove1 w [w]"
      using ts(1) by (metis filter_remove1)
    then have "np_operator t \<noteq> ''with''" using t by (auto simp: filter_empty_conv)
    with t ts(3) show "np_operator t \<in> {''stream'', ''channel'', ''topic'', ''dm'', ''pm-with''}"
      by (meson insertE notin_set_remove1)
  qed
  then have "filter (\<lambda>t. np_operator t \<notin> {''stream'', ''channel'', ''topic'', ''dm'', ''pm-with''}) (remove1 w ts) = []"
    by (simp add: filter_empty_conv)
  then show "update_narrow_terms_containing_with_operator db server r (Some u) (Some ts) = Inr (Some (conversation m))"
    unfolding update_narrow_terms_containing_with_operator_def
    by (simp add: ts(1,2) operand_int_def access m(2) validate_conversation conversation_def Let_def)
next
  from wf_channel [OF wf(1) m(1,2)] obtain c where c: "c \<in> set (channels db)" "ch_recipient_id c = m_recipient_id m"
    "ch_id c = m_type_id m" "m_realm_id m = ch_realm_id c"
    "\<And>c'. c' \<in> set (channels db) \<Longrightarrow> ch_recipient_id c' = m_recipient_id m \<Longrightarrow> c' = c" by metis
  have realm: "ch_realm_id c = realm_id r" using m(2,3) c(5) r(1) by (auto simp: may_read_def)
  with unique_channel [OF wf(1) c(1)] c(3) have look: "get_stream_by_id_in_realm db (m_type_id m) (realm_id r) = Inr c" by simp
  obtain h where h: "can_access_stream_history db u c = Inr h" using history_total realm r(1) by metis
  define B where "B = (if h then From_message (realm_id r) else From_join (acc_id u))"
  define k where "k = (if h then Zerver_message_id else Message_id)"
  let ?init = "\<lparr>q_base = B, q_where = [], q_extra = []\<rparr>"
  let ?q = "add_where (add_where ?init (CRecipient (ch_recipient_id c))) (CTopic (m_subject m))"
  have hist: "ok_to_include_history db (Some (conversation m)) (Some u) False = Inr h"
    using conversation_history look h r(1) by simp
  have base: "get_base_query_for_search (realm_id r) (Some u) True (\<not> h) = Inr (?init, k)"
    by (simp add: get_base_query_for_search_def B_def k_def)
  have add: "add_narrow_conditions db pg (Some u) k ?init (Some (conversation m)) False r = Inr (?q, False)"
    by (rule conversation_query [OF look r(2)])
  have init: "query_columns \<lparr>q_base = b, q_where = [], q_extra = []\<rparr> = []" for b by (simp add: query_columns_def)
  have cols: "set (query_columns ?q) \<union> {id_name k} \<subseteq> set (base_columns (q_base ?q))"
    by (simp add: init message_columns_def usermessage_columns_def B_def k_def)
  have d: "distinct (map row_id (query_rows db fts ?q))"
    by (rule query_rows_distinct) (use base_rows_distinct [OF wf] in \<open>simp add: B_def\<close>)
  have "set (query_rows db fts ?q) \<subseteq> set (base_rows db B)" by (auto simp: query_rows_def)
  moreover have "\<forall>x\<in>set (base_rows db B). \<exists>y\<in>set (messages db). row_id x = m_id y"
    by (cases h) (auto simp: row_id_def B_def, metis)
  ultimately have range: "\<forall>x\<in>set (query_rows db fts ?q). 0 < row_id x \<and> row_id x < LARGER_THAN_MAX_MESSAGE_ID"
    using ids by (metis subsetD)
  obtain x where x: "x \<in> set (query_rows db fts ?q)" "row_id x = m_id m"
  proof (cases h)
    case True
    let ?x = "\<lparr>row_message = Some m, row_um = None\<rparr>"
    have "?x \<in> set (query_rows db fts ?q)"
      using True m(1) c(2,4) realm by (simp add: query_rows_where) (auto simp: query_rows_def B_def)
    then show thesis by (rule that) (simp add: row_id_def)
  next
    case False
    with history_or_received [OF wf(1) m(1) c(1) c(2) [symmetric] m(3)] h realm r(1)
    have "received db (acc_id u) (m_id m)" by simp
    then obtain um where um: "um \<in> set (usermessages db)" "um_user um = acc_id u" "um_message um = m_id m"
      by (auto simp: received_def list_ex_iff)
    let ?x = "\<lparr>row_message = Some m, row_um = Some um\<rparr>"
    have "?x \<in> set (query_rows db fts ?q)"
      using False m(1) c(2) um by (simp add: query_rows_where) (auto simp: query_rows_def B_def)
    then show thesis by (rule that) (simp add: row_id_def um)
  qed
  have a: "0 < m_id m" "m_id m < LARGER_THAN_MAX_MESSAGE_ID" using ids m(1) by auto
  have a0: "0 \<le> m_id m" "m_id m = 0 \<Longrightarrow> \<forall>x\<in>set (query_rows db fts ?q). fv \<le> row_id x" using a by simp_all
  from a have no: "(m_id m \<ge> LARGER_THAN_MAX_MESSAGE_ID) = False" "(m_id m = 0) = False" by simp_all
  from window_exact [OF cols d range n(1,2) a0, of True, unfolded Let_def no if_False] obtain rows where
    rows: "execute_union db fts (limit_query_to_range ?q nb na (m_id m) True False False k fv) = Inr rows"
    and win: "lm_rows (post_process_limited_query rows nb na (m_id m) False False fv) = window fv nb na (m_id m) True (query_rows db fts ?q)"
    and anchor: "found_anchor (post_process_limited_query rows nb na (m_id m) False False fv) =
      (\<exists>x\<in>set (lm_rows (post_process_limited_query rows nb na (m_id m) False False fv)). row_id x = m_id m)"
    by blast
  have "x \<in> set (window fv nb na (m_id m) True (query_rows db fts ?q))"
    using x n(3) by (simp add: window_def visible_rows_def)
  with anchor win x(2) have found: "found_anchor (post_process_limited_query rows nb na (m_id m) False False fv)" by auto
  show "\<exists>f. fetch_messages db fts pg fv (Some (conversation m)) (Some u) r False (Some (m_id m)) True nb na = Inr f \<and>
       found_anchor (fm_limited f)"
    using a rows found by (simp add: fetch_messages_def hist base add Let_def)
qed


section \<open>Where the code falls short\<close>

text \<open>
  For a direct message somebody else sent to the user, \<open>with\<close> narrows to the messages the user sent
  to themself: the recipient of the message is the user, not the other side of the conversation.
\<close>

theorem with_misses_direct_message:
  assumes wf: "wf_db db" and r: "acc_realm u = r" and u: "u \<in> set (accounts db)" "\<not> realm_deactivated u"
    and m: "m \<in> set (messages db)" "m_recipient_type m = PERSONAL" "m_type_id m = acc_id u" "received db (acc_id u) (m_id m)"
    and t: "t = \<lparr>np_operator = ''dm'', np_operand = PList [PInt (acc_id u)], np_negated = False\<rparr>"
  shows "update_narrow_terms_containing_with_operator db server r (Some u)
      (Some [\<lparr>np_operator = ''with'', np_operand = PInt (m_id m), np_negated = False\<rparr>]) = Inr (Some [t]) \<and>
    (\<exists>q'. add_narrow_conditions db pg (Some u) k q (Some [t]) False r = Inr (q', False) \<and>
       (\<forall>x\<in>set (query_rows db fts q'). \<exists>m'. row_message x = Some m' \<and> m_sender_id m' = acc_id u))"
proof
  have "may_read db u m" using m(2,4) by (simp add: may_read_def)
  with access_message_eq [OF wf m(1), of u] have access: "access_message db u (m_id m) False = Inr m" by simp
  have "validate_terms t = Inr t"
    by (simp add: t validate_terms_def operand_validator_def operators_supporting_id_def channel_operators_def
        check_string_or_int_list_def check_list_def check_int_def)
  then show "update_narrow_terms_containing_with_operator db server r (Some u)
      (Some [\<lparr>np_operator = ''with'', np_operand = PInt (m_id m), np_negated = False\<rparr>]) = Inr (Some [t])"
    by (simp add: update_narrow_terms_containing_with_operator_def operand_int_def access m(2,3) t)
next
  have "find (\<lambda>a. acc_id a = acc_id u) (accounts db) = Some u"
    using find_key [of acc_id "accounts db" u] wf u(1) by (simp add: wf_db_def)
  then have "dm_user_profiles db (PList [PInt (acc_id u)]) (realm_id r) = Inr [u]"
    using r by (simp add: dm_user_profiles_def operand_ints_def operand_int_def get_user_profiles_by_ids_def except_missing_def
        get_user_by_id_in_realm_including_cross_realm_def get_user_profile_by_id_def get_or_missing_def)
  moreover have "recipient_for_user_profiles db [u] False None u True =
      Inr \<lparr>r_id = acc_recipient_id u, r_type = PERSONAL, r_type_id = acc_id u\<rparr>"
    using u(2) by (simp add: recipient_for_user_profiles_def validate_recipient_user_profiles_def
        get_recipient_from_user_profiles_def Let_def)
  ultimately have "add_narrow_conditions db pg (Some u) k q (Some [t]) False r =
      Inr (add_where q (CAnd [is_private_cond, CRealm (realm_id r), CSender (acc_id u), CRecipient (acc_recipient_id u)]), False)"
    by (simp add: add_narrow_conditions_def narrow_step_def add_term_def t by_dm_def the_user_def builder_init_def
        check_not_both_channel_and_dm_narrow_def maybe_negate_def Let_def)
  then show "\<exists>q'. add_narrow_conditions db pg (Some u) k q (Some [t]) False r = Inr (q', False) \<and>
       (\<forall>x\<in>set (query_rows db fts q'). \<exists>m'. row_message x = Some m' \<and> m_sender_id m' = acc_id u)"
    by (auto simp: query_rows_where split: option.splits)
qed

text \<open>An empty list of recipients, which the constructor accepts, ends in an assertion.\<close>

theorem empty_dm_asserts:
  "narrow_parameter as_bool (PDict [(''operator'', PStr ''dm''), (''operand'', PList [])]) =
      Inr \<lparr>np_operator = ''dm'', np_operand = PList [], np_negated = False\<rparr> \<and>
   fetch_messages db fts pg fv (Some [\<lparr>np_operator = ''dm'', np_operand = PList [], np_negated = False\<rparr>]) (Some u) r False
     anchor incl nb na = Inl AssertionError"
proof
  show "narrow_parameter as_bool (PDict [(''operator'', PStr ''dm''), (''operand'', PList [])]) =
      Inr \<lparr>np_operator = ''dm'', np_operand = PList [], np_negated = False\<rparr>"
    by (simp add: narrow_parameter_def convert_term_def validate_terms_def operand_validator_def operators_supporting_id_def
        channel_operators_def check_string_or_int_list_def check_list_def)
  let ?t = "\<lparr>np_operator = ''dm'', np_operand = PList [], np_negated = False\<rparr>"
  have "ok_to_include_history db (Some [?t]) (Some u) False = Inr False"
    by (simp add: ok_to_include_history_def history_step_def channel_operators_def channels_operators_def)
  moreover have "add_narrow_conditions db pg (Some u) c q (Some [?t]) False r = Inl AssertionError" for c q
    by (simp add: add_narrow_conditions_def narrow_step_def add_term_def by_dm_def the_user_def builder_init_def
        check_not_both_channel_and_dm_narrow_def Let_def dm_user_profiles_def operand_ints_def get_user_profiles_by_ids_def
        recipient_for_user_profiles_def validate_recipient_user_profiles_def get_recipient_from_user_profiles_def is_jsonable_def)
  ultimately show "fetch_messages db fts pg fv (Some [?t]) (Some u) r False anchor incl nb na = Inl AssertionError"
    by (simp add: fetch_messages_def get_base_query_for_search_def)
qed

text \<open>
  At the anchor zero the query for the oldest messages does not leave out the hidden ones, so that
  enough of them push every visible message out of the window; the result is empty and claims to
  reach the newest message.
\<close>

lemma ascending_split: "ascending S \<Longrightarrow> S = filter (\<lambda>r. row_id r < v) S @ filter (\<lambda>r. v \<le> row_id r) S"
proof (induction S)
  case (Cons x S)
  show ?case
  proof (cases "row_id x < v")
    case False
    with Cons.prems have "filter (\<lambda>r. row_id r < v) S = []" "filter (\<lambda>r. v \<le> row_id r) S = S"
      by (auto simp: filter_empty_conv filter_id_conv)
    with False show ?thesis by simp
  qed (use Cons in simp)
qed simp

theorem oldest_window_blocked:
  assumes cols: "set (query_columns q) \<union> {id_name c} \<subseteq> set (base_columns (q_base q))"
    and d: "distinct (map row_id (query_rows db fts q))" and n: "0 \<le> nb" "0 < na" "0 < fv"
    and hidden: "na + (if incl then 1 else 0) \<le> int (length (filter (\<lambda>x. row_id x < fv) (query_rows db fts q)))"
  shows "\<exists>rows. execute_union db fts (limit_query_to_range q nb na 0 incl True False c fv) = Inr rows \<and>
    (let m = post_process_limited_query rows nb na 0 True False fv
     in lm_rows m = [] \<and> found_newest m \<and> found_oldest m)"
proof -
  let ?S = "sort_key row_id (query_rows db fts q)" and ?n = "na + (if incl then 1 else 0)"
  have no: "(0 = (0::int)) = True" "(0 \<ge> LARGER_THAN_MAX_MESSAGE_ID) = False" by (simp_all add: LARGER_THAN_MAX_MESSAGE_ID_def)
  have exec: "execute_union db fts (limit_query_to_range q nb na 0 incl True False c fv) = Inr (raw_rows fv nb na 0 incl ?S)"
    using raw_rows_exec [OF cols d n(1), where a = 0 and na = na and incl = incl and fv = fv] unfolding no .
  have raw: "raw_rows fv nb na 0 incl ?S = take (nat ?n) ?S"
    using n by (simp add: raw_rows_def no)
  have "length (filter (\<lambda>x. row_id x < fv) ?S) = length (filter (\<lambda>x. row_id x < fv) (query_rows db fts q))"
    by (simp add: filter_sort)
  with hidden have "nat ?n \<le> length (filter (\<lambda>x. row_id x < fv) ?S)" by simp
  with ascending_split [OF ascending_sort [OF d], of fv] have "take (nat ?n) ?S = take (nat ?n) (filter (\<lambda>x. row_id x < fv) ?S)"
    by (metis append_Nil2 diff_is_0_eq' take0 take_append)
  then have "\<forall>x\<in>set (raw_rows fv nb na 0 incl ?S). \<not> fv \<le> row_id x" unfolding raw by (auto dest: in_set_takeD)
  then have vis: "(if fv > 0 then filter (\<lambda>r. fv \<le> row_id r) (raw_rows fv nb na 0 incl ?S) else raw_rows fv nb na 0 incl ?S) = []"
    using n(3) by (simp add: filter_empty_conv)
  have "post_process_limited_query (raw_rows fv nb na 0 incl ?S) nb na 0 True False fv =
    \<lparr>lm_rows = [] @ [] @ [], found_anchor = (length ([] :: row list) = 1), found_newest = int (length ([] :: row list)) < na,
     found_oldest = True \<or> int (length ([] :: row list)) < nb,
     history_limited = length ([] :: row list) \<noteq> length (raw_rows fv nb na 0 incl ?S) \<and> (True \<or> int (length ([] :: row list)) < nb)\<rparr>"
    by (rule post_process_parts [OF vis]) simp_all
  with exec n(2) show ?thesis by (auto simp: Let_def)
qed

end
