(* ===== verification/NarrowSamples.thy ===== *)
theory NarrowSamples
  imports NarrowMeaning
begin

text \<open>Witnesses of the theorems on narrows, over the small organization of \<open>ChatSamples\<close>.\<close>

definition no_search :: "bool \<Rightarrow> string \<Rightarrow> message \<Rightarrow> bool" where
  "no_search pgroonga s m \<longleftrightarrow> False"

lemma sample_zephyr: "zephyr_consistent sample_db sample_realm"
  by (simp add: zephyr_consistent_def sample_defs)

lemma sample_unique: "unique_rows sample_db (acc_id iago)"
  by (simp add: unique_rows_def sample_defs)

definition narrow_to :: "string \<Rightarrow> py \<Rightarrow> narrow_param" where
  "narrow_to op v = \<lparr>np_operator = op, np_operand = v, np_negated = False\<rparr>"

lemma view_sample:
  "case get_messages_backend sample_db no_search False 0 True sample_realm (Some iago) (Some ''newest'') True 5 0
      (Some [narrow_to ''channel'' (PStr ''verona'')]) False of
     Inl e \<Rightarrow> False | Inr (ms, f) \<Rightarrow> ms = [(1, [''read'', ''historical''])]"
  by code_simp


theorem messages_view_entitled_witness: "entitled sample_db sample_realm (Some iago) 1"
proof -
  obtain ms f where v: "get_messages_backend sample_db no_search False 0 True sample_realm (Some iago) (Some ''newest'') True 5 0
      (Some [narrow_to ''channel'' (PStr ''verona'')]) False = Inr (ms, f)" "(1, [''read'', ''historical'']) \<in> set ms"
    using view_sample by (auto split: sum.splits)
  have "acc_realm iago = sample_realm" by (simp add: sample_defs)
  with messages_view_entitled [OF v _ sample_zephyr] show ?thesis by simp
qed


definition sample_query :: narrow_query where
  "sample_query = \<lparr>q_base = From_join 12, q_where = [CRecipient 102], q_extra = []\<rparr>"

theorem window_exact_witness:
  "\<exists>rows. execute_union sample_db no_search (limit_query_to_range sample_query 1 1 5 True False False Message_id 0) = Inr rows \<and>
     lm_rows (post_process_limited_query rows 1 1 5 False False 0) = window 0 1 1 5 True (query_rows sample_db no_search sample_query)"
proof -
  have cols: "set (query_columns sample_query) \<union> {id_name Message_id} \<subseteq> set (base_columns (q_base sample_query))"
    by (simp add: sample_query_def query_columns_def message_columns_def usermessage_columns_def)
  have ids: "map row_id (query_rows sample_db no_search sample_query) = [2, 5]" by code_simp
  then have d: "distinct (map row_id (query_rows sample_db no_search sample_query))" by simp
  from ids have image: "row_id ` set (query_rows sample_db no_search sample_query) = {2, 5}" by (metis list.set(1,2) set_map)
  have range: "\<forall>x\<in>set (query_rows sample_db no_search sample_query). 0 < row_id x \<and> row_id x < LARGER_THAN_MAX_MESSAGE_ID"
  proof
    fix x assume "x \<in> set (query_rows sample_db no_search sample_query)"
    then have "row_id x \<in> row_id ` set (query_rows sample_db no_search sample_query)" by (rule imageI)
    then have "row_id x = 2 \<or> row_id x = 5" unfolding image by simp
    then show "0 < row_id x \<and> row_id x < LARGER_THAN_MAX_MESSAGE_ID" by (auto simp: LARGER_THAN_MAX_MESSAGE_ID_def)
  qed
  have no: "((5::int) \<ge> LARGER_THAN_MAX_MESSAGE_ID) = False" "((5::int) = 0) = False" by (simp_all add: LARGER_THAN_MAX_MESSAGE_ID_def)
  have five: "(0::int) \<le> 5" "\<forall>x\<in>set (query_rows sample_db no_search sample_query). 0 \<le> row_id x"
    using range by auto
  from window_exact [OF cols d range zero_le_one zero_le_one five, of True, unfolded Let_def no if_False] show ?thesis
    by (elim exE conjE) (intro exI conjI, assumption+)
qed


theorem with_hides_messages_witness:
  "\<not> may_read sample_db iago (a_message 2 102 STREAM 2 ''secret'') \<and>
   update_narrow_terms_containing_with_operator sample_db True sample_realm (Some iago)
     (Some [narrow_to ''dm'' (PList [PInt 12]), narrow_to ''with'' (PInt 2)]) = Inr (Some [narrow_to ''dm'' (PList [PInt 12])])"
proof -
  have hidden: "\<not> may_read sample_db iago (a_message 2 102 STREAM 2 ''secret'')" by code_simp
  have "\<not> may_read sample_db iago m" if "m \<in> set (messages sample_db)" "m_id m = 2" for m
  proof -
    from that have "m = a_message 2 102 STREAM 2 ''secret''" by (auto simp: sample_defs)
    with hidden show ?thesis by simp
  qed
  with hidden with_hides_messages [OF sample_db_wf, of "[narrow_to ''dm'' (PList [PInt 12]), narrow_to ''with'' (PInt 2)]" "narrow_to ''with'' (PInt 2)" 2 iago True sample_realm]
  show ?thesis by (simp add: narrow_to_def)
qed

theorem with_finds_channel_message_witness:
  "\<exists>f. fetch_messages sample_db no_search False 0 (Some (conversation (a_message 5 102 STREAM 2 ''secret''))) (Some iago)
     sample_realm False (Some 5) True 0 0 = Inr f \<and> found_anchor (fm_limited f)"
proof -
  let ?m = "a_message 5 102 STREAM 2 ''secret''"
  have m: "?m \<in> set (messages sample_db)" "m_recipient_type ?m = STREAM" by (simp_all add: sample_defs)
  have r: "acc_realm iago = sample_realm" "\<not> is_zephyr_mirror_realm sample_realm" by (simp_all add: sample_defs)
  have may: "may_read sample_db iago ?m" by code_simp
  have ids: "\<forall>x\<in>set (messages sample_db). 0 < m_id x \<and> m_id x < LARGER_THAN_MAX_MESSAGE_ID"
    by (simp add: sample_defs LARGER_THAN_MAX_MESSAGE_ID_def)
  have id: "m_id ?m = 5" by (simp add: a_message_def)
  have "update_narrow_terms_containing_with_operator sample_db True sample_realm (Some iago) (Some [narrow_to ''with'' (PInt 5)]) =
      Inr (Some (conversation ?m)) \<and>
    (\<exists>f. fetch_messages sample_db no_search False 0 (Some (conversation ?m)) (Some iago) sample_realm False (Some (m_id ?m)) True 0 0 = Inr f \<and>
       found_anchor (fm_limited f))"
    by (rule with_finds_channel_message [OF sample_db_wf sample_unique r m may ids, where w = "narrow_to ''with'' (PInt 5)"])
      (simp_all add: id narrow_to_def)
  then show ?thesis unfolding id by blast
qed

end
