(* ===== verification/NarrowTyping.thy ===== *)
theory NarrowTyping
  imports NarrowTerms
begin

text \<open>
  What the constructor of narrow terms promises to the rest of the server: an operand of the type the
  operator needs, and no errors but those that refuse the request.
\<close>

lemma as_int_like: "as_int v \<noteq> None \<longleftrightarrow> int_like v"
  by (cases v) (simp_all add: int_like_def)

lemma string_or_int_validator: "validator check_string_or_int"
  and accepts_string_or_int: "accepts check_string_or_int v \<longleftrightarrow> is_str v \<or> int_like v"
  by (auto simp: validator_def accepts_def check_string_or_int_def is_str_def int_like_def split: py.splits)

lemma int_list_validator: "validator (check_list check_int None)"
  by (rule check_list_validator [OF check_int_validator])

lemma accepts_int_list: "accepts (check_list check_int None) (PList xs) \<longleftrightarrow> list_all int_like xs"
  unfolding accepts_list [OF check_int_validator] accepts_int as_int_like by (simp add: list_all_iff)

lemma string_or_int_list_validator: "validator check_string_or_int_list"
  and accepts_string_or_int_list: "accepts check_string_or_int_list v \<longleftrightarrow>
    (case v of PStr _ \<Rightarrow> True | PList xs \<Rightarrow> list_all int_like xs | _ \<Rightarrow> False)"
proof -
  have run: "check_string_or_int_list n (PList xs) = check_list check_int None n (PList xs)" for n xs
    by (simp add: check_string_or_int_list_def)
  have acc: "accepts check_string_or_int_list (PList xs) \<longleftrightarrow> accepts (check_list check_int None) (PList xs)" for xs
    by (simp add: accepts_def run)
  show accepts: "accepts check_string_or_int_list v \<longleftrightarrow>
      (case v of PStr _ \<Rightarrow> True | PList xs \<Rightarrow> list_all int_like xs | _ \<Rightarrow> False)" for v
    by (cases v) (simp_all add: acc accepts_int_list, simp_all add: accepts_def check_string_or_int_list_def)
  show "validator check_string_or_int_list"
  proof
    fix n x
    show "check_string_or_int_list n x = Inr x" if "accepts check_string_or_int_list x"
      using that validator.accept [OF int_list_validator] by (cases x) (simp_all add: accepts accepts_int_list run, simp_all add: check_string_or_int_list_def)
    show "\<exists>m. check_string_or_int_list n x = Inl (ValidationError m)" if "\<not> accepts check_string_or_int_list x"
      using that validator.refuse [OF int_list_validator] by (cases x) (simp_all add: accepts accepts_int_list run, simp_all add: check_string_or_int_list_def)
  qed
qed

lemma operand_validator_ok:
  "validator (operand_validator op)"
  "accepts (operand_validator op) v \<longleftrightarrow> valid_term \<lparr>np_operator = op, np_operand = v, np_negated = b\<rparr>"
proof -
  have blank: "accepts check_required_string v \<longleftrightarrow> (case v of PStr s \<Rightarrow> strip s \<noteq> [] | _ \<Rightarrow> False)"
    by (cases v) (simp_all add: accepts_required_string strip_empty_iff)
  have str: "accepts check_string v \<longleftrightarrow> is_str v" by (cases v) (simp_all add: accepts_string is_str_def)
  show "validator (operand_validator op)"
    by (simp only: operand_validator_def string_or_int_validator string_or_int_list_validator check_required_string_validator
        check_string_validator split: if_split) simp
  show "accepts (operand_validator op) v \<longleftrightarrow> valid_term \<lparr>np_operator = op, np_operand = v, np_negated = b\<rparr>"
    by (simp only: operand_validator_def valid_term_def narrow_param.simps if_distrib [of "\<lambda>f. accepts f v"] singleton_iff
        accepts_string_or_int accepts_string_or_int_list blank str)
qed

lemma convert_term_error: "convert_term elem = Inl e \<Longrightarrow> \<exists>m. e = ValueError m"
  by (cases elem) (auto simp: convert_term_def simp del: insert_iff split: list.splits py.splits if_splits)

lemma validate_terms_exact:
  "validate_terms t = Inr t' \<longleftrightarrow> t' = t \<and> valid_term t"
  "validate_terms t = Inl e \<Longrightarrow> \<exists>m. e = JsonableError m"
proof -
  let ?op = "operand_validator (np_operator t)"
  have eq: "\<lparr>np_operator = np_operator t, np_operand = np_operand t, np_negated = np_negated t\<rparr> = t" by simp
  have acc: "accepts ?op (np_operand t) \<longleftrightarrow> valid_term t"
    using operand_validator_ok(2) [of "np_operator t" "np_operand t" "np_negated t"] unfolding eq .
  have ok: "valid_term t \<Longrightarrow> ?op ''operand'' (np_operand t) = Inr (np_operand t)"
    and bad: "\<not> valid_term t \<Longrightarrow> \<exists>m. ?op ''operand'' (np_operand t) = Inl (ValidationError m)"
    using validator.accept [OF operand_validator_ok(1)] validator.refuse [OF operand_validator_ok(1)] acc by blast+
  show "validate_terms t = Inr t' \<longleftrightarrow> t' = t \<and> valid_term t"
    using ok bad by (cases "valid_term t") (auto simp: validate_terms_def)
  show "\<exists>m. e = JsonableError m" if "validate_terms t = Inl e"
    using ok bad that by (cases "valid_term t") (auto simp: validate_terms_def)
qed

text \<open>
  C25. Terms are what they are typed to be.  Whatever JSON value a client sends as a term of a narrow,
  the constructor returns a term whose operand has the type its operator needs, or refuses the value
  with an error of the request; and it accepts exactly such terms, unchanged.
\<close>

theorem narrow_parameter_typed:
  "(case narrow_parameter as_bool elem of Inr t \<Rightarrow> valid_term t | Inl e \<Rightarrow> \<exists>m. e = JsonableError m \<or> e = ValueError m) \<and>
   (narrow_parameter as_bool (PDict [(''operator'', PStr (np_operator t)), (''operand'', np_operand t)]) =
      Inr (t\<lparr>np_negated := False\<rparr>) \<longleftrightarrow> valid_term t)"
proof
  have "case validate_terms t of Inr t \<Rightarrow> valid_term t | Inl e \<Rightarrow> \<exists>m. e = JsonableError m \<or> e = ValueError m" for t
    by (auto simp: validate_terms_exact(1) dest: validate_terms_exact(2) split: sum.split)
  then show "case narrow_parameter as_bool elem of Inr t \<Rightarrow> valid_term t | Inl e \<Rightarrow> \<exists>m. e = JsonableError m \<or> e = ValueError m"
    using convert_term_error [of elem] unfolding narrow_parameter_def
    by (cases "convert_term elem") (simp_all split: option.split py.split, blast)
  have none: "valid_term t \<Longrightarrow> np_operand t \<noteq> PNone"
    by (auto simp: valid_term_def is_str_def int_like_def split: if_splits)
  have neg: "valid_term (t\<lparr>np_negated := b\<rparr>) = valid_term t" for b by (simp add: valid_term_def)
  then have "valid_term \<lparr>np_operator = np_operator t, np_operand = np_operand t, np_negated = False\<rparr> = valid_term t"
    by (metis narrow_param.surjective narrow_param.update_convs(3) old.unit.exhaust)
  then show "narrow_parameter as_bool (PDict [(''operator'', PStr (np_operator t)), (''operand'', np_operand t)]) =
      Inr (t\<lparr>np_negated := False\<rparr>) \<longleftrightarrow> valid_term t"
    using none by (auto simp: narrow_parameter_def convert_term_def validate_terms_exact)
qed

end
