(* ===== verification/Recipients.thy ===== *)
theory Recipients
  imports MessageFetch NotificationData
begin

unbundle bit_operations_syntax

text \<open>
  Who a message is for (\<^verbatim>\<open>zerver/actions/message_send.py\<close>): \<open>get_recipient_info\<close> with the query for
  the subscriptions it processes, the events for service bots, the parts of
  \<open>build_message_send_dict\<close> that adjust the sets of users after rendering, and the rows of
  \<^verbatim>\<open>UserMessage\<close> that \<open>create_user_messages\<close> makes.

  What the Markdown processor found in the message is the argument \<open>rr\<close>, what a regular expression
  found before is \<open>md\<close>.  The order in which Python iterates over a set of users is the parameter
  \<open>elems\<close>.
\<close>

section \<open>Tables\<close>

record sending_user =
  su_id :: int
  su_is_active :: bool
  su_online_push :: bool
  su_offline_email :: bool
  su_offline_push :: bool
  su_long_term_idle :: bool
  su_is_bot :: bool
  su_bot_type :: "int option"
  su_stream_email :: bool
  su_stream_push :: bool
  su_wildcard :: bool
  su_followed_email :: bool
  su_followed_push :: bool
  su_followed_wildcard :: bool

record channel_subscription =
  cs_user :: int
  cs_stream_id :: int
  cs_active :: bool
  cs_user_active :: bool
  cs_muted :: bool
  cs_email :: "bool option"
  cs_push :: "bool option"
  cs_wildcard :: "bool option"

record topic_row =
  tr_user :: int
  tr_stream_id :: int
  tr_topic :: string
  tr_policy :: visibility_policy

text \<open>Alert words by realm and user; mutes by user and muted user; reactions by message and user.\<close>

record send_db =
  chat :: chat_db
  send_users :: "sending_user list"
  send_subs :: "channel_subscription list"
  topic_rows :: "topic_row list"
  alert_words :: "(int \<times> int) list"
  muted_users :: "(int \<times> int) list"
  message_reactions :: "(int \<times> int) list"

record mention_data =
  md_user_ids :: "int set"
  md_topic_wildcards :: bool
  md_stream_wildcards :: bool
  md_group_members :: "int \<Rightarrow> int list"

record rendering_result =
  mentions_user_ids :: "int set"
  mentions_user_group_ids :: "int list"
  mentions_topic_wildcard :: bool
  mentions_stream_wildcard :: bool
  user_ids_with_alert_words :: "int set"

section \<open>Queries\<close>

definition iexact :: "string \<Rightarrow> string \<Rightarrow> bool" where
  "iexact s t \<longleftrightarrow> upper s = upper t"

definition get_muting_users :: "send_db \<Rightarrow> int \<Rightarrow> int set" where
  "get_muting_users db muted = set (map fst (filter (\<lambda>(u, m). m = muted) (muted_users db)))"

definition participants_for_topic :: "send_db \<Rightarrow> int \<Rightarrow> int \<Rightarrow> string \<Rightarrow> int set" where
  "participants_for_topic db rid recipient_id topic_name =
     (let ms = filter (\<lambda>m. m_realm_id m = rid \<and> m_recipient_id m = recipient_id \<and> iexact (m_subject m) topic_name)
                 (messages (chat db));
          ids = map m_sender_id ms @ map snd (filter (\<lambda>(mid, u). mid \<in> set (map m_id ms)) (message_reactions db))
      in set (filter (\<lambda>u. u \<in> set ids) (map su_id (send_users db))))"

text \<open>\<open>get_active_subscriptions_for_stream_id\<close>, without deactivated users, joined with the user.\<close>

definition get_active_subscriptions_for_stream_id ::
    "send_db \<Rightarrow> int \<Rightarrow> (channel_subscription \<times> sending_user) list" where
  "get_active_subscriptions_for_stream_id db stream_id =
     concat (map (\<lambda>s. map (Pair s) (filter (\<lambda>u. su_id u = cs_user s) (send_users db)))
       (filter (\<lambda>s. cs_stream_id s = stream_id \<and> cs_active s \<and> cs_user_active s) (send_subs db)))"

definition topic_followers :: "send_db \<Rightarrow> int \<Rightarrow> string \<Rightarrow> int set" where
  "topic_followers db stream_id topic_name =
     set (map tr_user (filter (\<lambda>t. tr_stream_id t = stream_id \<and> iexact (tr_topic t) topic_name \<and> tr_policy t = FOLLOWED)
       (topic_rows db)))"

definition get_subscriptions_for_send_message ::
    "send_db \<Rightarrow> int \<Rightarrow> int \<Rightarrow> string \<Rightarrow> bool \<Rightarrow> int set \<Rightarrow> int set \<Rightarrow> (channel_subscription \<times> sending_user) list" where
  "get_subscriptions_for_send_message db rid stream_id topic_name possible_stream_wildcard participants possibly_mentioned =
     (let query = get_active_subscriptions_for_stream_id db stream_id
      in if possible_stream_wildcard then query
         else filter (\<lambda>(s, u).
             \<not> su_long_term_idle u
           \<or> cs_push s = Some True
           \<or> (cs_push s = None \<and> su_stream_push u)
           \<or> cs_email s = Some True
           \<or> (cs_email s = None \<and> su_stream_email u)
           \<or> cs_user s \<in> possibly_mentioned
           \<or> cs_user s \<in> participants
           \<or> cs_user s \<in> set (map snd (filter (\<lambda>(r, u). r = rid) (alert_words db)))
           \<or> cs_user s \<in> topic_followers db stream_id topic_name) query)"

definition user_id_to_visibility_policy :: "send_db \<Rightarrow> int \<Rightarrow> string \<Rightarrow> int \<Rightarrow> visibility_policy" where
  "user_id_to_visibility_policy db stream_id topic_name uid =
     (case map_of (rev (map (\<lambda>t. (tr_user t, tr_policy t))
             (filter (\<lambda>t. tr_stream_id t = stream_id \<and> iexact (tr_topic t) topic_name) (topic_rows db)))) uid of
        None \<Rightarrow> INHERIT | Some p \<Rightarrow> p)"

section \<open>Recipients\<close>

record topic_info =
  ri_stream_email :: "int set"
  ri_stream_push :: "int set"
  ri_topic_wildcard :: "int set"
  ri_stream_wildcard :: "int set"
  ri_followed_email :: "int set"
  ri_followed_push :: "int set"
  ri_topic_wildcard_followed :: "int set"
  ri_stream_wildcard_followed :: "int set"
  ri_participants :: "int set"
  ri_sender_muted_stream :: "bool option"

record recipient_info = topic_info +
  ri_active :: "int set"
  ri_online_push :: "int set"
  ri_email_disabled :: "int set"
  ri_push_disabled :: "int set"
  ri_muted_sender :: "int set"
  ri_um_eligible :: "int set"
  ri_long_term_idle :: "int set"
  ri_default_bots :: "int set"
  ri_service_bots :: "(int \<times> int) list"
  ri_all_bots :: "int set"

definition no_topic_info :: topic_info where
  "no_topic_info = \<lparr>ri_stream_email = {}, ri_stream_push = {}, ri_topic_wildcard = {}, ri_stream_wildcard = {},
     ri_followed_email = {}, ri_followed_push = {}, ri_topic_wildcard_followed = {}, ri_stream_wildcard_followed = {},
     ri_participants = {}, ri_sender_muted_stream = None\<rparr>"

definition notification_recipients ::
    "(channel_subscription \<times> sending_user) list \<Rightarrow> (int \<Rightarrow> visibility_policy) \<Rightarrow>
     (channel_subscription \<Rightarrow> bool option) \<Rightarrow> (sending_user \<Rightarrow> bool) \<Rightarrow> int set" where
  "notification_recipients rows policy sub_setting user_setting =
     set (map (cs_user \<circ> fst) (filter (\<lambda>(s, u).
       user_allows_notifications_in_StreamTopic (cs_muted s) (policy (cs_user s)) (sub_setting s) (user_setting u)) rows))"

definition followed_topic_notification_recipients ::
    "(channel_subscription \<times> sending_user) list \<Rightarrow> (int \<Rightarrow> visibility_policy) \<Rightarrow> (sending_user \<Rightarrow> bool) \<Rightarrow> int set" where
  "followed_topic_notification_recipients rows policy user_setting =
     set (map (cs_user \<circ> fst) (filter (\<lambda>(s, u). policy (cs_user s) = FOLLOWED \<and> user_setting u) rows))"

definition topic_participants :: "send_db \<Rightarrow> int \<Rightarrow> int \<Rightarrow> int \<Rightarrow> string \<Rightarrow> bool \<Rightarrow> int set" where
  "topic_participants db rid recipient_id sender_id topic_name possible_topic_wildcard =
     (if possible_topic_wildcard then insert sender_id (participants_for_topic db rid recipient_id topic_name) else {})"

text \<open>The branch for channel messages, on the rows of the query.\<close>

definition channel_recipients ::
    "(channel_subscription \<times> sending_user) list \<Rightarrow> (int \<Rightarrow> visibility_policy) \<Rightarrow> int \<Rightarrow> int set \<Rightarrow> bool \<Rightarrow> bool \<Rightarrow> int set \<times> topic_info" where
  "channel_recipients query policy sender_id participants possible_topic_wildcard possible_stream_wildcard =
     (let rows = sort_key (cs_user \<circ> fst) query;
          wildcard = notification_recipients rows policy cs_wildcard su_wildcard;
          wildcard_followed = followed_topic_notification_recipients rows policy su_followed_wildcard
      in (set (map (cs_user \<circ> fst) rows),
          \<lparr>ri_stream_email = notification_recipients rows policy cs_email su_stream_email,
           ri_stream_push = notification_recipients rows policy cs_push su_stream_push,
           ri_topic_wildcard = (if possible_topic_wildcard then participants \<inter> wildcard else {}),
           ri_stream_wildcard = (if possible_stream_wildcard then wildcard else {}),
           ri_followed_email = followed_topic_notification_recipients rows policy su_followed_email,
           ri_followed_push = followed_topic_notification_recipients rows policy su_followed_push,
           ri_topic_wildcard_followed = (if possible_topic_wildcard then participants \<inter> wildcard_followed else {}),
           ri_stream_wildcard_followed = (if possible_stream_wildcard then wildcard_followed else {}),
           ri_participants = participants,
           ri_sender_muted_stream =
             fold (\<lambda>(s, u) muted. if cs_user s = sender_id then Some (cs_muted s) else muted) rows None\<rparr>))"

definition SERVICE_BOT_TYPES :: "int list" where
  "SERVICE_BOT_TYPES = [OUTGOING_WEBHOOK_BOT, EMBEDDED_BOT]"

definition is_service_bot :: "sending_user \<Rightarrow> bool" where
  "is_service_bot u \<longleftrightarrow> su_is_bot u \<and> (case su_bot_type u of None \<Rightarrow> False | Some t \<Rightarrow> t \<in> set SERVICE_BOT_TYPES)"

definition is_default_bot :: "sending_user \<Rightarrow> bool" where
  "is_default_bot u \<longleftrightarrow> su_is_bot u \<and> su_bot_type u = Some DEFAULT_BOT"

text \<open>The part common to all recipients, from the users on the message's line and those it may mention.\<close>

definition finish_recipient_info :: "send_db \<Rightarrow> int \<Rightarrow> int set \<Rightarrow> int set \<Rightarrow> topic_info \<Rightarrow> recipient_info" where
  "finish_recipient_info db sender_id message_to possibly_mentioned t =
     (let rows = filter (\<lambda>u. su_is_active u \<and> su_id u \<in> message_to \<union> possibly_mentioned) (send_users db);
          get_ids_for = (\<lambda>f. set (map su_id (filter f rows)) \<inter> message_to)
      in \<lparr>ri_stream_email = ri_stream_email t, ri_stream_push = ri_stream_push t,
          ri_topic_wildcard = ri_topic_wildcard t, ri_stream_wildcard = ri_stream_wildcard t,
          ri_followed_email = ri_followed_email t, ri_followed_push = ri_followed_push t,
          ri_topic_wildcard_followed = ri_topic_wildcard_followed t,
          ri_stream_wildcard_followed = ri_stream_wildcard_followed t,
          ri_participants = ri_participants t, ri_sender_muted_stream = ri_sender_muted_stream t,
          ri_active = get_ids_for (\<lambda>_. True),
          ri_online_push = get_ids_for su_online_push,
          ri_email_disabled = get_ids_for (\<lambda>u. \<not> su_offline_email u),
          ri_push_disabled = get_ids_for (\<lambda>u. \<not> su_offline_push u),
          ri_muted_sender = get_muting_users db sender_id,
          ri_um_eligible = get_ids_for (\<lambda>u. \<not> is_service_bot u),
          ri_long_term_idle = get_ids_for su_long_term_idle,
          ri_default_bots = set (map su_id (filter is_default_bot rows)),
          ri_service_bots = map (\<lambda>u. (su_id u, the (su_bot_type u))) (filter is_service_bot rows),
          ri_all_bots = set (map su_id (filter su_is_bot rows))\<rparr>)"

definition get_recipient_info ::
    "send_db \<Rightarrow> int \<Rightarrow> recipient \<Rightarrow> int \<Rightarrow> (int \<times> string) option \<Rightarrow> int set \<Rightarrow> bool \<Rightarrow> bool \<Rightarrow> recipient_info res" where
  "get_recipient_info db rid r sender_id stream_topic possibly_mentioned possible_topic_wildcard possible_stream_wildcard =
     ebind (case r_type r of
         PERSONAL \<Rightarrow> Inr ({r_type_id r, sender_id}, no_topic_info)
       | STREAM \<Rightarrow>
           (case stream_topic of
              None \<Rightarrow> Inl AssertionError
            | Some (stream_id, topic_name) \<Rightarrow>
                let participants = topic_participants db rid (r_id r) sender_id topic_name possible_topic_wildcard;
                    query = get_subscriptions_for_send_message db rid stream_id topic_name possible_stream_wildcard
                      participants possibly_mentioned
                in Inr (channel_recipients query (user_id_to_visibility_policy db stream_id topic_name) sender_id
                     participants possible_topic_wildcard possible_stream_wildcard))
       | DIRECT_MESSAGE_GROUP \<Rightarrow> Inr (set (get_direct_message_group_user_ids (chat db) (r_id r)), no_topic_info))
     (\<lambda>(message_to, t). Inr (finish_recipient_info db sender_id message_to possibly_mentioned t))"

section \<open>After rendering\<close>

text \<open>
  The sets of users as \<open>build_message_send_dict\<close> passes them on: members of mentioned groups count
  as mentioned, wildcard sets are kept only for wildcards that were rendered, and mentioned normal
  bots become eligible for a row.
\<close>

definition add_group_mentions :: "mention_data \<Rightarrow> rendering_result \<Rightarrow> rendering_result" where
  "add_group_mentions md rr =
     rr\<lparr>mentions_user_ids := fold (\<lambda>g ids. ids \<union> set (md_group_members md g)) (mentions_user_group_ids rr) (mentions_user_ids rr)\<rparr>"

definition adjust_recipient_info :: "rendering_result \<Rightarrow> recipient_info \<Rightarrow> recipient_info" where
  "adjust_recipient_info rr info =
     (let info = (if mentions_stream_wildcard rr then info
                  else info\<lparr>ri_stream_wildcard := {}, ri_stream_wildcard_followed := {}\<rparr>);
          info = (if mentions_topic_wildcard rr then info
                  else info\<lparr>ri_topic_wildcard := {}, ri_topic_wildcard_followed := {}, ri_participants := {}\<rparr>)
      in info\<lparr>ri_um_eligible := ri_um_eligible info \<union> (ri_default_bots info \<inter> mentions_user_ids rr)\<rparr>)"

record send_request =
  sr_message :: message
  sr_rendering :: rendering_result
  sr_stream :: "channel option"
  sr_local_id :: "string option"
  sr_sender_queue_id :: "string option"
  sr_mentioned_groups :: "int \<rightharpoonup> int"
  sr_info :: recipient_info
  sr_limit_unread :: "int set option"
  sr_disable_external :: bool

definition is_stream_message :: "message \<Rightarrow> bool" where
  "is_stream_message m \<longleftrightarrow> m_recipient_type m = STREAM"

definition message_recipient :: "message \<Rightarrow> recipient" where
  "message_recipient m = \<lparr>r_id = m_recipient_id m, r_type = m_recipient_type m, r_type_id = m_type_id m\<rparr>"

definition build_message_send_dict ::
    "send_db \<Rightarrow> mention_data \<Rightarrow> rendering_result res \<Rightarrow> message \<Rightarrow> channel option \<Rightarrow> string option \<Rightarrow> string option \<Rightarrow>
     int set option \<Rightarrow> bool \<Rightarrow> send_request res" where
  "build_message_send_dict db md rendered m stream local_id sender_queue_id limit_unread disable_external =
     ebind (get_recipient_info db (m_realm_id m) (message_recipient m) (m_sender_id m)
         (if is_stream_message m then Some (m_type_id m, m_subject m) else None)
         (md_user_ids md) (md_topic_wildcards md) (md_stream_wildcards md)) (\<lambda>info.
     ebind rendered (\<lambda>rr.
     let groups = get_user_group_mentions_data (mentions_user_ids rr) (mentions_user_group_ids rr) (md_group_members md);
         rr = add_group_mentions md rr
     in Inr \<lparr>sr_message = m, sr_rendering = rr, sr_stream = stream, sr_local_id = local_id,
          sr_sender_queue_id = sender_queue_id, sr_mentioned_groups = groups,
          sr_info = adjust_recipient_info rr info, sr_limit_unread = limit_unread,
          sr_disable_external = disable_external\<rparr>))"

section \<open>Rows of messages\<close>

definition base_flags :: "message \<Rightarrow> rendering_result \<Rightarrow> int" where
  "base_flags m rr =
     (if mentions_stream_wildcard rr then flag_mask ''stream_wildcard_mentioned'' else 0) OR
     (if m_recipient_type m \<in> {DIRECT_MESSAGE_GROUP, PERSONAL} then flag_mask ''is_private'' else 0)"

definition set_flag :: "bool \<Rightarrow> string \<Rightarrow> int \<Rightarrow> int" where
  "set_flag b f flags = (if b then flags OR flag_mask f else flags)"

definition user_message_flags ::
    "message \<Rightarrow> rendering_result \<Rightarrow> int set \<Rightarrow> int set option \<Rightarrow> int set \<Rightarrow> int \<Rightarrow> int" where
  "user_message_flags m rr mark_as_read limit_unread participants uid =
     set_flag (mentions_topic_wildcard rr \<and> uid \<in> participants) ''topic_wildcard_mentioned''
       (set_flag (uid \<in> user_ids_with_alert_words rr) ''has_alert_word''
         (set_flag (uid \<in> mentions_user_ids rr) ''mentioned''
           (set_flag (uid \<in> mark_as_read \<or> (case limit_unread of None \<Rightarrow> False | Some ids \<Rightarrow> uid \<notin> ids)) ''read''
             (base_flags m rr))))"

text \<open>The rows that soft deactivation lets the server leave out.\<close>

definition skip_user_message :: "message \<Rightarrow> recipient_info \<Rightarrow> int \<Rightarrow> int \<Rightarrow> bool" where
  "skip_user_message m info uid flags \<longleftrightarrow>
     uid \<in> ri_long_term_idle info \<and> uid \<notin> ri_stream_push info \<and> uid \<notin> ri_stream_email info \<and>
     uid \<notin> ri_followed_push info \<and> uid \<notin> ri_followed_email info \<and> is_stream_message m \<and> flags = 0"

definition create_user_messages ::
    "(int set \<Rightarrow> int list) \<Rightarrow> message \<Rightarrow> rendering_result \<Rightarrow> recipient_info \<Rightarrow> int set \<Rightarrow> int set option \<Rightarrow> usermessage list" where
  "create_user_messages elems m rr info mark_as_read limit_unread =
     map (\<lambda>(uid, flags). \<lparr>um_user = uid, um_message = m_id m, um_flags = flags\<rparr>)
       (filter (\<lambda>(uid, flags). \<not> skip_user_message m info uid flags)
         (map (\<lambda>uid. (uid, user_message_flags m rr mark_as_read limit_unread (ri_participants info) uid))
           (elems (ri_um_eligible info))))"

section \<open>Service bots\<close>

text \<open>The trigger of the event for a bot, with its queue; other types of bots are only logged.\<close>

definition service_bot_event ::
    "int set \<Rightarrow> int set \<Rightarrow> bool \<Rightarrow> int \<times> int \<Rightarrow> (string \<times> string \<times> int) option" where
  "service_bot_event mentioned active is_stream b =
     (case b of (uid, bot_type) \<Rightarrow>
       (case (if bot_type = OUTGOING_WEBHOOK_BOT then Some ''outgoing_webhooks''
              else if bot_type = EMBEDDED_BOT then Some ''embedded_bots'' else None) of
          None \<Rightarrow> None
        | Some queue_name \<Rightarrow>
            if uid \<notin> mentioned \<and> uid \<notin> active then None
            else if is_stream \<and> uid \<in> mentioned then Some (queue_name, ''mention'', uid)
            else if \<not> is_stream \<and> uid \<in> active then Some (queue_name, trigger_name DIRECT_MESSAGE, uid)
            else None))"

definition get_service_bot_events ::
    "bool \<Rightarrow> (int \<times> int) list \<Rightarrow> int set \<Rightarrow> int set \<Rightarrow> recipient_type \<Rightarrow> (string \<times> (string \<times> int) list) list" where
  "get_service_bot_events sender_is_bot service_bots mentioned active rtype =
     (if sender_is_bot then []
      else fold (\<lambda>b events. case service_bot_event mentioned active (rtype = STREAM) b of
             None \<Rightarrow> events
           | Some (queue_name, trig, uid) \<Rightarrow> AList.update queue_name (get_or events queue_name [] @ [(trig, uid)]) events)
         service_bots [])"

end
