(* ===== verification/MessageRows.thy ===== *)
theory MessageRows
  imports Recipients
begin

unbundle bit_operations_syntax

text \<open>
  Which rows of \<^verbatim>\<open>UserMessage\<close> a sent message gets, with which flags, and that leaving most idle
  subscribers out of the query changes none of them.
\<close>

section \<open>Flags as bits\<close>

definition has_flag :: "string \<Rightarrow> int \<Rightarrow> bool" where
  "has_flag f flags \<longleftrightarrow> (flags AND flag_mask f) \<noteq> 0"

definition flag_index :: "string \<Rightarrow> nat" where
  "flag_index f = length (takeWhile (\<lambda>g. g \<noteq> f) ALL_FLAGS)"

lemma has_flag_bit: "has_flag f flags \<longleftrightarrow> bit flags (flag_index f)"
  by (simp add: has_flag_def flag_mask_def flag_index_def and_exp_eq_0_iff_not_bit)

lemma bit_flag_mask: "bit (flag_mask f) n \<longleftrightarrow> n = flag_index f"
  by (auto simp: flag_mask_def flag_index_def bit_exp_iff)

lemma bit_set_flag: "bit (set_flag b f flags) n \<longleftrightarrow> bit flags n \<or> b \<and> n = flag_index f"
  by (auto simp: set_flag_def bit_or_iff bit_flag_mask)

lemma flags_zero: "(flags::int) = 0 \<longleftrightarrow> (\<forall>n. \<not> bit flags n)"
  by (auto intro: bit_eqI)

definition due_flag ::
    "message \<Rightarrow> rendering_result \<Rightarrow> int set \<Rightarrow> int set option \<Rightarrow> int set \<Rightarrow> int \<Rightarrow> string \<Rightarrow> bool" where
  "due_flag m rr mark_as_read limit_unread participants uid f \<longleftrightarrow>
     f = ''read'' \<and> (uid \<in> mark_as_read \<or> (\<exists>ids. limit_unread = Some ids \<and> uid \<notin> ids)) \<or>
     f = ''mentioned'' \<and> uid \<in> mentions_user_ids rr \<or>
     f = ''stream_wildcard_mentioned'' \<and> mentions_stream_wildcard rr \<or>
     f = ''topic_wildcard_mentioned'' \<and> mentions_topic_wildcard rr \<and> uid \<in> participants \<or>
     f = ''has_alert_word'' \<and> uid \<in> user_ids_with_alert_words rr \<or>
     f = ''is_private'' \<and> \<not> is_stream_message m"

lemma bit_base_flags:
  "bit (base_flags m rr) n \<longleftrightarrow> mentions_stream_wildcard rr \<and> n = flag_index ''stream_wildcard_mentioned'' \<or>
     \<not> is_stream_message m \<and> n = flag_index ''is_private''"
  by (cases "m_recipient_type m") (auto simp: base_flags_def bit_or_iff bit_flag_mask is_stream_message_def)

lemma bit_user_message_flags:
  "bit (user_message_flags m rr mark lu parts uid) n \<longleftrightarrow> (\<exists>f. due_flag m rr mark lu parts uid f \<and> n = flag_index f)"
proof -
  have late: "(case lu of None \<Rightarrow> False | Some ids \<Rightarrow> uid \<notin> ids) \<longleftrightarrow> (\<exists>ids. lu = Some ids \<and> uid \<notin> ids)"
    by (cases lu) simp_all
  have one: "(\<exists>f. (f = c \<and> P) \<and> n = flag_index f) \<longleftrightarrow> P \<and> n = flag_index c" for c P by blast
  show ?thesis
    unfolding user_message_flags_def bit_set_flag bit_base_flags due_flag_def late conj_disj_distribR ex_disj_distrib one
    by (simp only: disj_ac conj_ac)
qed

lemma flag_index_inj: "f \<in> set ALL_FLAGS \<Longrightarrow> g \<in> set ALL_FLAGS \<Longrightarrow> flag_index f = flag_index g \<longleftrightarrow> f = g"
proof -
  have at: "length (takeWhile (\<lambda>g. g \<noteq> h) xs) < length xs \<and> xs ! length (takeWhile (\<lambda>g. g \<noteq> h) xs) = h"
    if "h \<in> set xs" for h :: string and xs
    using that by (induction xs) auto
  assume "f \<in> set ALL_FLAGS" "g \<in> set ALL_FLAGS"
  then show ?thesis using at [of f ALL_FLAGS] at [of g ALL_FLAGS] unfolding flag_index_def by metis
qed

lemma due_flag_known: "due_flag m rr mark lu parts uid f \<Longrightarrow> f \<in> set ALL_FLAGS"
  by (auto simp: due_flag_def ALL_FLAGS_def)

lemma user_message_flag:
  assumes "f \<in> set ALL_FLAGS"
  shows "bit (user_message_flags m rr mark lu parts uid) (flag_index f) \<longleftrightarrow> due_flag m rr mark lu parts uid f"
  unfolding bit_user_message_flags using assms flag_index_inj due_flag_known by metis

lemma user_message_flags_zero:
  "user_message_flags m rr mark lu parts uid = 0 \<longleftrightarrow> (\<forall>f. \<not> due_flag m rr mark lu parts uid f)"
  unfolding flags_zero bit_user_message_flags by auto

lemma flags_list_bits:
  "flags_list_for_flags v = filter (\<lambda>f. bit v (flag_index f) \<and> f \<notin> set NON_API_FLAGS) ALL_FLAGS"
proof -
  have "distinct xs \<Longrightarrow> map snd (filter (\<lambda>(n, f). P n f) (enumerate k xs)) =
      filter (\<lambda>f. P (k + length (takeWhile (\<lambda>g. g \<noteq> f) xs)) f) xs" for P k and xs :: "string list"
  proof (induction xs arbitrary: k)
    case (Cons x xs)
    then have "filter (\<lambda>f. P (k + length (takeWhile (\<lambda>g. g \<noteq> f) (x # xs))) f) xs =
        filter (\<lambda>f. P (Suc k + length (takeWhile (\<lambda>g. g \<noteq> f) xs)) f) xs"
      by (intro filter_cong) auto
    with Cons show ?case by simp
  qed simp
  from this [of ALL_FLAGS "\<lambda>n f. (v AND 2 ^ n) \<noteq> 0 \<and> f \<notin> set NON_API_FLAGS" 0] show ?thesis
    unfolding flags_list_for_flags_def by (simp add: flag_index_def and_exp_eq_0_iff_not_bit) (simp add: ALL_FLAGS_def)
qed

section \<open>The rows\<close>

lemma create_user_messages_mem:
  assumes "set (elems (ri_um_eligible info)) = ri_um_eligible info"
  shows "um \<in> set (create_user_messages elems m rr info mark lu) \<longleftrightarrow>
    um_user um \<in> ri_um_eligible info \<and> um_message um = m_id m \<and>
    um_flags um = user_message_flags m rr mark lu (ri_participants info) (um_user um) \<and>
    \<not> skip_user_message m info (um_user um) (um_flags um)"
  using assms unfolding create_user_messages_def
  by (cases um) (auto simp: image_iff)

text \<open>
  C14. The rows of a message are exact.  Each eligible user gets at most one row, and gets one unless
  they are idle, the message is to a channel, no notification setting of theirs covers it and no flag
  is due; the flags a client sees are exactly those due: read for those the message is marked as read
  for, the mentions that were rendered, and alert words.
\<close>

theorem user_rows_exact:
  assumes "set (elems (ri_um_eligible info)) = ri_um_eligible info" "distinct (elems (ri_um_eligible info))"
  shows "let rows = create_user_messages elems m rr info mark lu; due = due_flag m rr mark lu (ri_participants info) in
    distinct (map um_user rows) \<and>
    (\<forall>u. u \<in> um_user ` set rows \<longleftrightarrow> u \<in> ri_um_eligible info \<and>
       (u \<in> ri_long_term_idle info \<and> is_stream_message m \<longrightarrow>
          u \<in> ri_stream_push info \<union> ri_stream_email info \<union> ri_followed_push info \<union> ri_followed_email info \<or> (\<exists>f. due u f))) \<and>
    (\<forall>um\<in>set rows. um_message um = m_id m \<and>
       flags_list_for_flags (um_flags um) = filter (\<lambda>f. due (um_user um) f \<and> f \<notin> set NON_API_FLAGS) ALL_FLAGS)"
proof -
  let ?rows = "create_user_messages elems m rr info mark lu"
  let ?flags = "user_message_flags m rr mark lu (ri_participants info)"
  note mem = create_user_messages_mem [where elems = elems and info = info, OF assms(1), where m = m and rr = rr and mark = mark and lu = lu]
  have users_eq: "map um_user ?rows = filter (\<lambda>u. \<not> skip_user_message m info u (?flags u)) (elems (ri_um_eligible info))"
    by (simp add: create_user_messages_def filter_map comp_def case_prod_unfold)
  with assms(2) have d: "distinct (map um_user ?rows)" by simp
  have "u \<in> um_user ` set ?rows \<longleftrightarrow> u \<in> ri_um_eligible info \<and> \<not> skip_user_message m info u (?flags u)" for u
    unfolding set_map [symmetric] users_eq using assms(1) by simp
  then have users: "u \<in> um_user ` set ?rows \<longleftrightarrow> u \<in> ri_um_eligible info \<and>
      (u \<in> ri_long_term_idle info \<and> is_stream_message m \<longrightarrow>
        u \<in> ri_stream_push info \<union> ri_stream_email info \<union> ri_followed_push info \<union> ri_followed_email info \<or>
        (\<exists>f. due_flag m rr mark lu (ri_participants info) u f))" for u
    by (auto simp: skip_user_message_def user_message_flags_zero)
  have flags: "flags_list_for_flags (um_flags um) =
      filter (\<lambda>f. due_flag m rr mark lu (ri_participants info) (um_user um) f \<and> f \<notin> set NON_API_FLAGS) ALL_FLAGS"
    if "um \<in> set ?rows" for um
    using that unfolding flags_list_bits by (auto simp: mem user_message_flag intro: filter_cong)
  have msg: "um_message um = m_id m" if "um \<in> set ?rows" for um using that by (simp add: mem)
  show ?thesis unfolding Let_def by (intro conjI allI ballI d users msg flags)
qed

section \<open>The optimised query\<close>

text \<open>What \<open>get_recipient_info\<close> would answer for a channel message if it processed every subscription.\<close>

definition all_subscribers_info ::
    "send_db \<Rightarrow> int \<Rightarrow> int \<Rightarrow> int \<Rightarrow> int \<Rightarrow> string \<Rightarrow> mention_data \<Rightarrow> recipient_info" where
  "all_subscribers_info db rid recipient_id sender_id stream_id topic_name md =
     (case channel_recipients (get_active_subscriptions_for_stream_id db stream_id)
         (user_id_to_visibility_policy db stream_id topic_name) sender_id
         (topic_participants db rid recipient_id sender_id topic_name (md_topic_wildcards md))
         (md_topic_wildcards md) (md_stream_wildcards md) of
        (message_to, t) \<Rightarrow> finish_recipient_info db sender_id message_to (md_user_ids md) t)"

text \<open>A subscription that only the optimised query leaves out.\<close>

definition left_out :: "send_db \<Rightarrow> int \<Rightarrow> int \<Rightarrow> string \<Rightarrow> int set \<Rightarrow> int set \<Rightarrow> channel_subscription \<times> sending_user \<Rightarrow> bool" where
  "left_out db rid stream_id topic_name participants possibly_mentioned r \<longleftrightarrow>
     (case r of (s, u) \<Rightarrow>
       su_long_term_idle u \<and> cs_push s \<noteq> Some True \<and> \<not> (cs_push s = None \<and> su_stream_push u) \<and>
       cs_email s \<noteq> Some True \<and> \<not> (cs_email s = None \<and> su_stream_email u) \<and>
       cs_user s \<notin> possibly_mentioned \<and> cs_user s \<notin> participants \<and> (rid, cs_user s) \<notin> set (alert_words db) \<and>
       cs_user s \<notin> topic_followers db stream_id topic_name)"

lemma optimised_query:
  "get_subscriptions_for_send_message db rid stream_id topic_name psw participants possibly_mentioned =
     filter (\<lambda>r. psw \<or> \<not> left_out db rid stream_id topic_name participants possibly_mentioned r)
       (get_active_subscriptions_for_stream_id db stream_id)"
  unfolding get_subscriptions_for_send_message_def Let_def left_out_def
  by (cases psw) (auto intro!: filter_cong simp: image_iff)

lemma policy_followed:
  assumes "user_id_to_visibility_policy db stream_id topic_name u = FOLLOWED"
  shows "u \<in> topic_followers db stream_id topic_name"
proof -
  let ?rows = "filter (\<lambda>t. tr_stream_id t = stream_id \<and> iexact (tr_topic t) topic_name) (topic_rows db)"
  from assms have "map_of (rev (map (\<lambda>t. (tr_user t, tr_policy t)) ?rows)) u = Some FOLLOWED"
    unfolding user_id_to_visibility_policy_def by (auto split: option.splits)
  then have "(u, FOLLOWED) \<in> set (rev (map (\<lambda>t. (tr_user t, tr_policy t)) ?rows))" by (rule map_of_SomeD)
  then show ?thesis unfolding topic_followers_def by force
qed

lemma notified_filter:
  assumes "\<And>s u. (s, u) \<in> set Q \<Longrightarrow> \<not> P (s, u) \<Longrightarrow>
      \<not> user_allows_notifications_in_StreamTopic (cs_muted s) (policy (cs_user s)) (sub_setting s) (user_setting u)"
  shows "notification_recipients (sort_key k (filter P Q)) policy sub_setting user_setting =
    notification_recipients (sort_key k Q) policy sub_setting user_setting"
  using assms unfolding notification_recipients_def by (auto simp: image_iff)

lemma followed_filter:
  assumes "\<And>s u. (s, u) \<in> set Q \<Longrightarrow> \<not> P (s, u) \<Longrightarrow> policy (cs_user s) \<noteq> FOLLOWED"
  shows "followed_topic_notification_recipients (sort_key k (filter P Q)) policy user_setting =
    followed_topic_notification_recipients (sort_key k Q) policy user_setting"
  using assms unfolding followed_topic_notification_recipients_def by (auto simp: image_iff)

lemma left_out_silent:
  assumes "left_out db rid stream_id topic_name participants possibly_mentioned (s, u)"
  shows "\<not> user_allows_notifications_in_StreamTopic mu p (cs_push s) (su_stream_push u)"
    "\<not> user_allows_notifications_in_StreamTopic mu p (cs_email s) (su_stream_email u)"
    "user_id_to_visibility_policy db stream_id topic_name (cs_user s) \<noteq> FOLLOWED"
  using assms policy_followed [of db stream_id topic_name "cs_user s"]
  by (auto simp: left_out_def user_allows_notifications_in_StreamTopic_def split: option.splits)

text \<open>The two runs of \<open>channel_recipients\<close> agree but on the users.\<close>

lemma channel_recipients_agree:
  fixes db rid stream_id topic_name participants possibly_mentioned ptw psw sender_id
  defines "Q \<equiv> get_active_subscriptions_for_stream_id db stream_id"
    and "P \<equiv> \<lambda>r. psw \<or> \<not> left_out db rid stream_id topic_name participants possibly_mentioned r"
    and "policy \<equiv> user_id_to_visibility_policy db stream_id topic_name"
  defines "a \<equiv> channel_recipients (filter P Q) policy sender_id participants ptw psw"
    and "b \<equiv> channel_recipients Q policy sender_id participants ptw psw"
  shows "ri_stream_email (snd a) = ri_stream_email (snd b)" "ri_stream_push (snd a) = ri_stream_push (snd b)"
    "ri_followed_email (snd a) = ri_followed_email (snd b)" "ri_followed_push (snd a) = ri_followed_push (snd b)"
    "ri_participants (snd a) = participants" "ri_participants (snd b) = participants"
    "fst a = cs_user ` fst ` set (filter P Q)" "fst b = cs_user ` fst ` set Q"
  unfolding a_def b_def channel_recipients_def Let_def
  by (simp_all add: image_comp del: filter_sort)
    (rule notified_filter followed_filter; use left_out_silent in \<open>auto simp: P_def policy_def\<close>)+

lemma finish_sets:
  "u \<in> ri_um_eligible (finish_recipient_info db sender_id ids pm t) \<longleftrightarrow>
     u \<in> ids \<and> (\<exists>x\<in>set (send_users db). su_id x = u \<and> su_is_active x \<and> \<not> is_service_bot x)"
  "u \<in> ri_long_term_idle (finish_recipient_info db sender_id ids pm t) \<longleftrightarrow>
     u \<in> ids \<and> (\<exists>x\<in>set (send_users db). su_id x = u \<and> su_is_active x \<and> su_long_term_idle x)"
  "u \<in> ri_active (finish_recipient_info db sender_id ids pm t) \<longleftrightarrow>
     u \<in> ids \<and> (\<exists>x\<in>set (send_users db). su_id x = u \<and> su_is_active x)"
  "u \<in> ri_default_bots (finish_recipient_info db sender_id ids pm t) \<longleftrightarrow>
     u \<in> ids \<union> pm \<and> (\<exists>x\<in>set (send_users db). su_id x = u \<and> su_is_active x \<and> is_default_bot x)"
  "u \<in> ri_all_bots (finish_recipient_info db sender_id ids pm t) \<longleftrightarrow>
     u \<in> ids \<union> pm \<and> (\<exists>x\<in>set (send_users db). su_id x = u \<and> su_is_active x \<and> su_is_bot x)"
  by (auto simp: finish_recipient_info_def Let_def image_iff)

lemma finish_topic_info:
  "topic_info.truncate (finish_recipient_info db sender_id ids pm t) = t"
  by (cases t) (simp add: finish_recipient_info_def Let_def topic_info.truncate_def)

lemma finish_fields [simp]:
  "ri_stream_email (finish_recipient_info db sender_id ids pm t) = ri_stream_email t"
  "ri_stream_push (finish_recipient_info db sender_id ids pm t) = ri_stream_push t"
  "ri_followed_email (finish_recipient_info db sender_id ids pm t) = ri_followed_email t"
  "ri_followed_push (finish_recipient_info db sender_id ids pm t) = ri_followed_push t"
  "ri_participants (finish_recipient_info db sender_id ids pm t) = ri_participants t"
  by (simp_all add: finish_recipient_info_def Let_def)

lemma adjust_fields [simp]:
  "ri_stream_email (adjust_recipient_info rr info) = ri_stream_email info"
  "ri_stream_push (adjust_recipient_info rr info) = ri_stream_push info"
  "ri_followed_email (adjust_recipient_info rr info) = ri_followed_email info"
  "ri_followed_push (adjust_recipient_info rr info) = ri_followed_push info"
  "ri_active (adjust_recipient_info rr info) = ri_active info"
  "ri_long_term_idle (adjust_recipient_info rr info) = ri_long_term_idle info"
  "ri_all_bots (adjust_recipient_info rr info) = ri_all_bots info"
  "ri_muted_sender (adjust_recipient_info rr info) = ri_muted_sender info"
  "ri_participants (adjust_recipient_info rr info) = (if mentions_topic_wildcard rr then ri_participants info else {})"
  "ri_um_eligible (adjust_recipient_info rr info) = ri_um_eligible info \<union> (ri_default_bots info \<inter> mentions_user_ids rr)"
  by (simp_all add: adjust_recipient_info_def Let_def)

lemma subscription_row:
  "(s, u) \<in> set (get_active_subscriptions_for_stream_id db stream_id) \<longleftrightarrow>
     s \<in> set (send_subs db) \<and> cs_stream_id s = stream_id \<and> cs_active s \<and> cs_user_active s \<and>
     u \<in> set (send_users db) \<and> su_id u = cs_user s"
  by (auto simp: get_active_subscriptions_for_stream_id_def)

text \<open>
  A subscriber whom only the optimised query leaves out gets no row from the unoptimised one either.
\<close>

lemma left_out_no_flags:
  assumes "left_out db rid stream_id topic_name participants pm (s, u)"
    and "mentions_user_ids rr \<subseteq> pm" "\<And>x. x \<in> user_ids_with_alert_words rr \<Longrightarrow> (rid, x) \<in> set (alert_words db)"
    and "is_stream_message m" "\<not> mentions_stream_wildcard rr" "cs_user s \<notin> mark"
    and "parts \<subseteq> participants"
  shows "user_message_flags m rr mark None parts (cs_user s) = 0"
  using assms unfolding user_message_flags_zero by (auto simp: left_out_def due_flag_def)

lemma channel_recipients_subset:
  "ri_stream_email (snd (channel_recipients Q policy sender parts ptw psw)) \<subseteq> fst (channel_recipients Q policy sender parts ptw psw)"
  "ri_stream_push (snd (channel_recipients Q policy sender parts ptw psw)) \<subseteq> fst (channel_recipients Q policy sender parts ptw psw)"
  "ri_followed_email (snd (channel_recipients Q policy sender parts ptw psw)) \<subseteq> fst (channel_recipients Q policy sender parts ptw psw)"
  "ri_followed_push (snd (channel_recipients Q policy sender parts ptw psw)) \<subseteq> fst (channel_recipients Q policy sender parts ptw psw)"
  by (auto simp: channel_recipients_def Let_def notification_recipients_def followed_topic_notification_recipients_def)

lemma build_channel_message:
  fixes db m md
  defines "participants \<equiv> topic_participants db (m_realm_id m) (m_recipient_id m) (m_sender_id m) (m_subject m) (md_topic_wildcards md)"
  defines "r \<equiv> channel_recipients
           (filter (\<lambda>r. md_stream_wildcards md \<or>
                \<not> left_out db (m_realm_id m) (m_type_id m) (m_subject m) participants (md_user_ids md) r)
              (get_active_subscriptions_for_stream_id db (m_type_id m)))
           (user_id_to_visibility_policy db (m_type_id m) (m_subject m)) (m_sender_id m) participants
           (md_topic_wildcards md) (md_stream_wildcards md)"
  assumes "build_message_send_dict db md (Inr rr) m stream local_id queue limit ext = Inr sr" "is_stream_message m"
  shows "sr_message sr = m" "sr_stream sr = stream" "sr_rendering sr = add_group_mentions md rr"
    and "sr_info sr = adjust_recipient_info (add_group_mentions md rr)
       (finish_recipient_info db (m_sender_id m) (fst r) (md_user_ids md) (snd r))"
proof -
  have "get_recipient_info db (m_realm_id m) (message_recipient m) (m_sender_id m) (Some (m_type_id m, m_subject m))
      (md_user_ids md) (md_topic_wildcards md) (md_stream_wildcards md) =
      Inr (finish_recipient_info db (m_sender_id m) (fst r) (md_user_ids md) (snd r))"
    using assms(4)
    unfolding get_recipient_info_def message_recipient_def is_stream_message_def Let_def optimised_query r_def participants_def
    by (simp only: recipient.simps recipient_type.case option.case prod.case case_prod_beta ebind.simps fst_conv snd_conv if_True)
  with assms(3,4) have "sr = \<lparr>sr_message = m, sr_rendering = add_group_mentions md rr, sr_stream = stream, sr_local_id = local_id,
      sr_sender_queue_id = queue,
      sr_mentioned_groups = get_user_group_mentions_data (mentions_user_ids rr) (mentions_user_group_ids rr) (md_group_members md),
      sr_info = adjust_recipient_info (add_group_mentions md rr)
        (finish_recipient_info db (m_sender_id m) (fst r) (md_user_ids md) (snd r)),
      sr_limit_unread = limit, sr_disable_external = ext\<rparr>"
    by (simp add: build_message_send_dict_def Let_def)
  then show "sr_message sr = m" "sr_stream sr = stream" "sr_rendering sr = add_group_mentions md rr"
    "sr_info sr = adjust_recipient_info (add_group_mentions md rr)
       (finish_recipient_info db (m_sender_id m) (fst r) (md_user_ids md) (snd r))"
    by simp_all
qed

lemma group_mention_fields [simp]:
  "mentions_stream_wildcard (add_group_mentions md rr) = mentions_stream_wildcard rr"
  "mentions_topic_wildcard (add_group_mentions md rr) = mentions_topic_wildcard rr"
  "user_ids_with_alert_words (add_group_mentions md rr) = user_ids_with_alert_words rr"
  by (simp_all add: add_group_mentions_def)

lemma rows_depend_on:
  assumes "set (elems (ri_um_eligible i)) = ri_um_eligible i" "set (elems (ri_um_eligible j)) = ri_um_eligible j"
    and "ri_participants i = ri_participants j"
    and "\<And>u. let f = user_message_flags m rr mark lu (ri_participants j) u in
      (u \<in> ri_um_eligible i \<and> \<not> skip_user_message m i u f) = (u \<in> ri_um_eligible j \<and> \<not> skip_user_message m j u f)"
  shows "set (create_user_messages elems m rr i mark lu) = set (create_user_messages elems m rr j mark lu)"
proof (rule set_eqI)
  fix um
  show "um \<in> set (create_user_messages elems m rr i mark lu) \<longleftrightarrow> um \<in> set (create_user_messages elems m rr j mark lu)"
    unfolding create_user_messages_mem [where elems = elems and info = i, OF assms(1), where m = m and rr = rr and mark = mark and lu = lu]
      create_user_messages_mem [where elems = elems and info = j, OF assms(2), where m = m and rr = rr and mark = mark and lu = lu] assms(3)
    using assms(4) [of "um_user um"] unfolding Let_def by auto
qed

text \<open>
  C6. The query that leaves out most idle subscribers changes no row.  If the mentions, alert words
  and wildcards that rendering found are among those looked for before, group members included, and
  the message is not marked as read for an idle user, then the rows are those that all subscribers of
  the channel would get.
\<close>

theorem optimised_rows_equal:
  assumes m: "is_stream_message m" and ids: "distinct (map su_id (send_users db))"
    and order: "\<And>S. finite S \<Longrightarrow> set (elems S) = S"
    and build: "build_message_send_dict db md (Inr rr) m stream local_id queue limit ext = Inr sr"
    and mentions: "mentions_user_ids (add_group_mentions md rr) \<subseteq> md_user_ids md"
    and words: "\<And>x. x \<in> user_ids_with_alert_words rr \<Longrightarrow> (m_realm_id m, x) \<in> set (alert_words db)"
    and wild: "mentions_stream_wildcard rr \<Longrightarrow> md_stream_wildcards md"
    and mark: "\<And>u. u \<in> set (send_users db) \<Longrightarrow> su_long_term_idle u \<Longrightarrow> su_id u \<notin> mark"
  shows "set (create_user_messages elems m (sr_rendering sr) (sr_info sr) mark None) =
    set (create_user_messages elems m (sr_rendering sr)
      (adjust_recipient_info (sr_rendering sr)
        (all_subscribers_info db (m_realm_id m) (m_recipient_id m) (m_sender_id m) (m_type_id m) (m_subject m) md))
      mark None)"
proof -
  let ?Q = "get_active_subscriptions_for_stream_id db (m_type_id m)" and ?rr = "add_group_mentions md rr"
  let ?policy = "user_id_to_visibility_policy db (m_type_id m) (m_subject m)"
  let ?parts = "topic_participants db (m_realm_id m) (m_recipient_id m) (m_sender_id m) (m_subject m) (md_topic_wildcards md)"
  let ?P = "\<lambda>r. md_stream_wildcards md \<or> \<not> left_out db (m_realm_id m) (m_type_id m) (m_subject m) ?parts (md_user_ids md) r"
  let ?a = "channel_recipients (filter ?P ?Q) ?policy (m_sender_id m) ?parts (md_topic_wildcards md) (md_stream_wildcards md)"
    and ?b = "channel_recipients ?Q ?policy (m_sender_id m) ?parts (md_topic_wildcards md) (md_stream_wildcards md)"
  let ?i = "adjust_recipient_info ?rr (finish_recipient_info db (m_sender_id m) (fst ?a) (md_user_ids md) (snd ?a))"
    and ?j = "adjust_recipient_info ?rr (finish_recipient_info db (m_sender_id m) (fst ?b) (md_user_ids md) (snd ?b))"
  note agree = channel_recipients_agree
  have fin: "finite (ri_um_eligible (finish_recipient_info db s X pm t))" "finite (ri_default_bots (finish_recipient_info db s X pm t))"
    for s X pm t by (simp_all add: finish_recipient_info_def Let_def)
  have same: "(u \<in> ri_um_eligible ?i \<and> \<not> skip_user_message m ?i u f) = (u \<in> ri_um_eligible ?j \<and> \<not> skip_user_message m ?j u f)"
    if f: "f = user_message_flags m ?rr mark None (ri_participants ?j) u" for u f
  proof (cases "u \<in> fst ?a \<longleftrightarrow> u \<in> fst ?b")
    case True
    then show ?thesis by (simp add: skip_user_message_def agree finish_sets)
  next
    case False
    have a: "fst ?a = cs_user ` fst ` set (filter ?P ?Q)" and b: "fst ?b = cs_user ` fst ` set ?Q" by (rule agree)+
    have "fst ?a \<subseteq> fst ?b" unfolding a b set_filter by blast
    with False have n: "u \<notin> fst ?a" "u \<in> fst ?b" by blast+
    from n(2) obtain s x where q: "(s, x) \<in> set ?Q" "cs_user s = u" unfolding b image_image image_iff by (auto simp only: split_paired_all fst_conv)
    have "\<not> ?P (s, x)"
    proof
      assume "?P (s, x)"
      with q have "u \<in> cs_user ` fst ` set (filter ?P ?Q)" by force
      with n(1) show False unfolding a ..
    qed
    with q n have r: "(s, x) \<in> set ?Q" "cs_user s = u" "\<not> ?P (s, x)" "u \<notin> fst ?a" "u \<in> fst ?b" by blast+
    then have out: "left_out db (m_realm_id m) (m_type_id m) (m_subject m) ?parts (md_user_ids md) (s, x)"
      and no_wild: "\<not> mentions_stream_wildcard rr" using wild by auto
    then have pm: "u \<notin> md_user_ids md" and idle: "su_long_term_idle x" using r(2) by (auto simp: left_out_def)
    have x: "x \<in> set (send_users db)" "su_id x = u" using r(1,2) by (auto simp: subscription_row)
    then have "u \<notin> mark" using mark idle by blast
    then have "f = 0"
      unfolding f r(2) [symmetric]
      by (intro left_out_no_flags [OF out mentions]) (use m no_wild words in \<open>auto simp: agree r(2)\<close>)
    moreover have "u \<in> ri_long_term_idle ?j" if "u \<in> ri_um_eligible ?j"
    proof -
      from that pm mentions obtain y where "y \<in> set (send_users db)" "su_id y = u" "su_is_active y"
        by (auto simp: finish_sets)
      with x ids have "su_is_active x" by (metis distinct_map inj_onD)
      with x idle r(5) show ?thesis by (auto simp: finish_sets)
    qed
    ultimately have "u \<in> ri_um_eligible ?j \<Longrightarrow> skip_user_message m ?j u f"
      using channel_recipients_subset [of "filter ?P ?Q" ?policy "m_sender_id m" ?parts "md_topic_wildcards md" "md_stream_wildcards md"]
        m r(4) by (auto simp: skip_user_message_def agree)
    moreover have "u \<notin> ri_um_eligible ?i" using r(4) pm mentions by (auto simp: finish_sets)
    ultimately show ?thesis by blast
  qed
  show ?thesis
    unfolding build_channel_message(3,4) [OF build m] all_subscribers_info_def case_prod_beta
    by (rule rows_depend_on) (use same in \<open>simp_all add: order fin Let_def agree\<close>)
qed

end
