(* ===== verification/MessageSend.thy ===== *)
theory MessageSend
  imports MessageRows Sharding
begin

text \<open>
  Sending messages (\<open>do_send_messages\<close> of \<^verbatim>\<open>zerver/actions/message_send.py\<close>): the messages and their
  rows are stored in one transaction, and for each an event with the sets of users the event server
  decides notifications on is published when the transaction commits.

  \<open>env\<close> holds what is read from elsewhere: who was recently active, the wide dictionary of a message,
  the host of the organization, and, where access to users is restricted, who can access a user.  Not
  modelled here are attachments, widgets, link previews, the topic policies (\<open>TopicPolicies\<close>), the
  events about users who become accessible, and the welcome bot.
\<close>

record send_env =
  se_presence_disabled :: bool
  se_recently_active :: "int set"
  se_wide_dict :: "message \<Rightarrow> dict"
  se_realm_host :: string
  se_can_access :: "int \<Rightarrow> int set option"

section \<open>Who is idle\<close>

definition filter_presence_idle_user_ids :: "send_env \<Rightarrow> int set \<Rightarrow> int list" where
  "filter_presence_idle_user_ids env ids = (if ids = {} then [] else sorted_list_of_set (ids - se_recently_active env))"

definition get_active_presence_idle_user_ids :: "send_env \<Rightarrow> int \<Rightarrow> notif list \<Rightarrow> int list" where
  "get_active_presence_idle_user_ids env sender_id notifs =
     (if se_presence_disabled env then []
      else filter_presence_idle_user_ids env
        (set (map user_id (filter (\<lambda>n. is_notifiable n sender_id True) notifs))))"

section \<open>The event of a message\<close>

definition request_sets :: "send_request \<Rightarrow> user_id_sets" where
  "request_sets sr = (let info = sr_info sr in
     \<lparr>online_push_user_ids = ri_online_push info,
      dm_mention_push_disabled_user_ids = ri_push_disabled info,
      dm_mention_email_disabled_user_ids = ri_email_disabled info,
      stream_push_user_ids = ri_stream_push info,
      stream_email_user_ids = ri_stream_email info,
      topic_wildcard_mention_user_ids = ri_topic_wildcard info,
      stream_wildcard_mention_user_ids = ri_stream_wildcard info,
      followed_topic_push_user_ids = ri_followed_push info,
      followed_topic_email_user_ids = ri_followed_email info,
      topic_wildcard_mention_in_followed_topic_user_ids = ri_topic_wildcard_followed info,
      stream_wildcard_mention_in_followed_topic_user_ids = ri_stream_wildcard_followed info,
      muted_sender_user_ids = ri_muted_sender info,
      all_bot_user_ids = ri_all_bots info\<rparr>)"

text \<open>The flags of a user's row; the loop over the users appends the legacy flag to the same list.\<close>

definition user_flags :: "usermessage list \<Rightarrow> int \<Rightarrow> string list" where
  "user_flags rows uid =
     (let flags = (case map_of (map (\<lambda>um. (um_user um, flags_list_for_flags (um_flags um))) rows) uid of
             None \<Rightarrow> [] | Some fs \<Rightarrow> fs)
      in if ''stream_wildcard_mentioned'' \<in> set flags \<or> ''topic_wildcard_mentioned'' \<in> set flags
         then flags @ [''wildcard_mentioned''] else flags)"

definition sender_first :: "(int set \<Rightarrow> int list) \<Rightarrow> int \<Rightarrow> int set \<Rightarrow> int list" where
  "sender_first elems sender_id ids = (if sender_id \<in> ids then sender_id # elems (ids - {sender_id}) else elems ids)"

definition user_data :: "send_request \<Rightarrow> usermessage list \<Rightarrow> int \<Rightarrow> dict" where
  "user_data sr rows uid =
     [(''id'', PInt uid), (''flags'', PList (map PStr (user_flags rows uid))),
      (''mentioned_user_group_id'', case sr_mentioned_groups sr uid of None \<Rightarrow> PNone | Some g \<Rightarrow> PInt g)]"

definition event_user_ids :: "send_request \<Rightarrow> usermessage list \<Rightarrow> int set" where
  "event_user_ids sr rows = ri_active (sr_info sr) \<union> set (map um_user rows)"

definition event_users :: "(int set \<Rightarrow> int list) \<Rightarrow> send_request \<Rightarrow> usermessage list \<Rightarrow> dict list" where
  "event_users elems sr rows =
     map (user_data sr rows) (sender_first elems (m_sender_id (sr_message sr)) (event_user_ids sr rows))"

definition request_notifs ::
    "(int set \<Rightarrow> int list) \<Rightarrow> send_request \<Rightarrow> usermessage list \<Rightarrow> bool \<Rightarrow> notif list res" where
  "request_notifs elems sr rows private_message =
     emap (\<lambda>uid. from_user_id_sets uid (user_flags rows uid) private_message (sr_disable_external sr) (request_sets sr))
       (elems (ri_active (sr_info sr)))"

definition id_list :: "(int set \<Rightarrow> int list) \<Rightarrow> int set \<Rightarrow> py" where
  "id_list elems ids = PList (map PInt (elems ids))"

definition sets_entries :: "(int set \<Rightarrow> int list) \<Rightarrow> user_id_sets \<Rightarrow> dict" where
  "sets_entries elems s =
     [(''online_push_user_ids'', id_list elems (online_push_user_ids s)),
      (''dm_mention_push_disabled_user_ids'', id_list elems (dm_mention_push_disabled_user_ids s)),
      (''dm_mention_email_disabled_user_ids'', id_list elems (dm_mention_email_disabled_user_ids s)),
      (''stream_push_user_ids'', id_list elems (stream_push_user_ids s)),
      (''stream_email_user_ids'', id_list elems (stream_email_user_ids s)),
      (''topic_wildcard_mention_user_ids'', id_list elems (topic_wildcard_mention_user_ids s)),
      (''stream_wildcard_mention_user_ids'', id_list elems (stream_wildcard_mention_user_ids s)),
      (''followed_topic_push_user_ids'', id_list elems (followed_topic_push_user_ids s)),
      (''followed_topic_email_user_ids'', id_list elems (followed_topic_email_user_ids s)),
      (''topic_wildcard_mention_in_followed_topic_user_ids'',
        id_list elems (topic_wildcard_mention_in_followed_topic_user_ids s)),
      (''stream_wildcard_mention_in_followed_topic_user_ids'',
        id_list elems (stream_wildcard_mention_in_followed_topic_user_ids s)),
      (''muted_sender_user_ids'', id_list elems (muted_sender_user_ids s)),
      (''all_bot_user_ids'', id_list elems (all_bot_user_ids s))]"

definition channel_entries :: "channel option \<Rightarrow> dict" where
  "channel_entries stream = (case stream of None \<Rightarrow> []
     | Some c \<Rightarrow>
         (if is_public c then [(''realm_id'', PInt (ch_realm_id c)), (''stream_name'', PStr (ch_name c))] else []) @
         (if invite_only c then [(''invite_only'', PBool True)] else []))"

definition optional_entry :: "string \<Rightarrow> string option \<Rightarrow> dict" where
  "optional_entry k v = (case v of None \<Rightarrow> [] | Some s \<Rightarrow> [(k, PStr s)])"

definition message_event_dict ::
    "(int set \<Rightarrow> int list) \<Rightarrow> send_env \<Rightarrow> send_request \<Rightarrow> dict \<Rightarrow> int list \<Rightarrow> channel option \<Rightarrow> dict" where
  "message_event_dict elems env sr wide presence_idle stream =
     [(''type'', PStr ''message''), (''message'', PInt (m_id (sr_message sr))), (''message_dict'', PDict wide),
      (''presence_idle_user_ids'', PList (map PInt presence_idle))] @
     sets_entries elems (request_sets sr) @
     [(''disable_external_notifications'', PBool (sr_disable_external sr)), (''realm_host'', PStr (se_realm_host env))] @
     channel_entries stream @ optional_entry ''local_id'' (sr_local_id sr) @
     optional_entry ''sender_queue_id'' (sr_sender_queue_id sr)"

text \<open>
  The entry \<open>user_ids_without_access_to_sender\<close>, where there is one, is a Python set, which the JSON
  library of the work queue does not serialize; it is kept apart from the event.
\<close>

definition without_access :: "send_db \<Rightarrow> send_env \<Rightarrow> int \<Rightarrow> channel option \<Rightarrow> int set \<Rightarrow> int set option" where
  "without_access db env sender_id stream ids =
     (case stream of None \<Rightarrow> None
      | Some c \<Rightarrow> (case se_can_access env sender_id of None \<Rightarrow> None
          | Some able \<Rightarrow> if subscribed_to_stream (chat db) sender_id (ch_id c) then None else Some (ids - able)))"

record message_notice =
  mn_event :: dict
  mn_without_access :: "int set option"
  mn_users :: "dict list"
  mn_bot_events :: "(string \<times> dict) list"

text \<open>The events for the queues of service bots, in order.\<close>

definition service_queue_events :: "send_db \<Rightarrow> send_request \<Rightarrow> dict \<Rightarrow> (string \<times> dict) list" where
  "service_queue_events db sr wide =
     concat (map (\<lambda>(queue_name, events). map (\<lambda>(trig, uid).
         (queue_name, [(''message'', PDict wide), (''trigger'', PStr trig), (''user_profile_id'', PInt uid)])) events)
       (get_service_bot_events (list_ex (\<lambda>u. su_id u = m_sender_id (sr_message sr) \<and> su_is_bot u) (send_users db))
         (ri_service_bots (sr_info sr)) (mentions_user_ids (sr_rendering sr)) (ri_active (sr_info sr))
         (m_recipient_type (sr_message sr))))"

definition request_stream :: "send_db \<Rightarrow> send_request \<Rightarrow> channel option res" where
  "request_stream db sr =
     (if is_stream_message (sr_message sr)
      then (case sr_stream sr of
              Some c \<Rightarrow> Inr (Some c)
            | None \<Rightarrow> ebind (get_or_missing (\<lambda>c. ch_id c = m_type_id (sr_message sr)) (channels (chat db))) (\<lambda>c. Inr (Some c)))
      else Inr None)"

definition make_notice ::
    "(int set \<Rightarrow> int list) \<Rightarrow> send_env \<Rightarrow> send_db \<Rightarrow> send_request \<times> usermessage list \<Rightarrow> message_notice res" where
  "make_notice elems env db = (\<lambda>(sr, rows).
     let m = sr_message sr; wide = se_wide_dict env m in
     ebind (request_stream db sr) (\<lambda>stream.
     ebind (getk wide ''type'') (\<lambda>ty.
     ebind (request_notifs elems sr rows (ty = PStr ''private'')) (\<lambda>notifs.
     Inr \<lparr>mn_event = message_event_dict elems env sr wide
            (get_active_presence_idle_user_ids env (m_sender_id m) notifs) stream,
          mn_without_access = without_access db env (m_sender_id m) stream (event_user_ids sr rows),
          mn_users = event_users elems sr rows,
          mn_bot_events = service_queue_events db sr wide\<rparr>))))"

section \<open>Storing and publishing\<close>

text \<open>
  The request's own set of users who muted the sender is extended in place, so that the users the
  message is marked as read for count as having muted the sender from then on.
\<close>

definition mark_request :: "int list \<Rightarrow> send_request \<Rightarrow> send_request" where
  "mark_request mark_as_read sr =
     sr\<lparr>sr_info := (sr_info sr)\<lparr>ri_muted_sender := ri_muted_sender (sr_info sr) \<union> set mark_as_read\<rparr>\<rparr>"

definition request_rows :: "(int set \<Rightarrow> int list) \<Rightarrow> send_request \<Rightarrow> usermessage list" where
  "request_rows elems sr =
     create_user_messages elems (sr_message sr) (sr_rendering sr) (sr_info sr) (ri_muted_sender (sr_info sr)) (sr_limit_unread sr)"

definition bulk_insert_ums :: "usermessage list \<Rightarrow> usermessage list \<Rightarrow> usermessage list" where
  "bulk_insert_ums new old =
     fold (\<lambda>um ums. if list_ex (\<lambda>x. um_user x = um_user um \<and> um_message x = um_message um) ums then ums else ums @ [um]) new old"

definition store_messages :: "send_request list \<Rightarrow> usermessage list \<Rightarrow> send_db \<Rightarrow> send_db" where
  "store_messages srs rows db =
     db\<lparr>chat := (chat db)\<lparr>messages := messages (chat db) @ map sr_message srs,
        usermessages := bulk_insert_ums rows (usermessages (chat db))\<rparr>\<rparr>"

definition do_send_messages ::
    "(int set \<Rightarrow> int list) \<Rightarrow> send_env \<Rightarrow> int list \<Rightarrow> send_request option list \<Rightarrow> send_db \<Rightarrow> (send_db \<times> message_notice list) res" where
  "do_send_messages elems env mark_as_read requests db =
     (let srs = map (mark_request mark_as_read) (List.map_filter id requests);
          rows = map (request_rows elems) srs;
          db = store_messages srs (concat rows) db
      in ebind (emap (make_notice elems env db) (zip srs rows)) (\<lambda>notices. Inr (db, notices)))"

text \<open>The hooks that run on commit, in order; one that raises stops the rest.\<close>

definition commit_notices :: "deployment \<Rightarrow> string \<Rightarrow> message_notice list \<Rightarrow> (world, unit) prog" where
  "commit_notices cfg host =
     for_each (\<lambda>n. case mn_without_access n of
         Some _ \<Rightarrow> raise TypeError
       | None \<Rightarrow> seq (send_event cfg host (mn_event n) (map PDict (mn_users n))) (for_each publish (mn_bot_events n)))"

end
