(* ===== verification/SendSamples.thy ===== *)
theory SendSamples
  imports MessageRows
begin

text \<open>
  A message to the private channel of the sample organization with a long-term idle subscriber, for
  the witnesses on sent messages, and what the optimised query of subscriptions loses.
\<close>

definition sample_user :: "int \<Rightarrow> bool \<Rightarrow> int option \<Rightarrow> sending_user" where
  "sample_user uid idle bot_type = \<lparr>su_id = uid, su_is_active = True, su_online_push = False, su_offline_email = True,
     su_offline_push = True, su_long_term_idle = idle, su_is_bot = (bot_type \<noteq> None), su_bot_type = bot_type,
     su_stream_email = False, su_stream_push = False, su_wildcard = True, su_followed_email = True,
     su_followed_push = True, su_followed_wildcard = True\<rparr>"

definition sample_sub :: "int \<Rightarrow> channel_subscription" where
  "sample_sub uid = \<lparr>cs_user = uid, cs_stream_id = 2, cs_active = True, cs_user_active = True, cs_muted = False,
     cs_email = None, cs_push = None, cs_wildcard = None\<rparr>"

text \<open>The users 10, the sender 12, a bot 13 and the idle user 14, who has muted the sender.\<close>

definition sample_send_db :: send_db where
  "sample_send_db = \<lparr>chat = sample_db, send_users = [sample_user 10 False None, sample_user 12 False None,
       sample_user 13 False (Some DEFAULT_BOT), sample_user 14 True None],
     send_subs = [sample_sub 10, sample_sub 12, sample_sub 14], topic_rows = [], alert_words = [],
     muted_users = [(14, 12)], message_reactions = []\<rparr>"

definition secret_message :: message where
  "secret_message = a_message 6 102 STREAM 2 ''secret''"

definition no_mentions :: rendering_result where
  "no_mentions = \<lparr>mentions_user_ids = {}, mentions_user_group_ids = [], mentions_topic_wildcard = False,
     mentions_stream_wildcard = False, user_ids_with_alert_words = {}\<rparr>"

definition group_mention :: mention_data where
  "group_mention = \<lparr>md_user_ids = {}, md_topic_wildcards = False, md_stream_wildcards = False,
     md_group_members = (\<lambda>g. if g = 7 then [14] else [])\<rparr>"

definition sample_rows :: "rendering_result \<Rightarrow> int set \<Rightarrow> recipient_info \<Rightarrow> (int \<times> int) list" where
  "sample_rows rr mark info =
     map (\<lambda>um. (um_user um, um_flags um)) (create_user_messages sorted_list_of_set secret_message rr info mark None)"

definition sample_request :: "rendering_result \<Rightarrow> send_request res" where
  "sample_request rr = build_message_send_dict sample_send_db group_mention (Inr rr) secret_message (Some core_team) None None None False"

definition sample_all :: "rendering_result \<Rightarrow> recipient_info" where
  "sample_all rr = adjust_recipient_info (add_group_mentions group_mention rr)
     (all_subscribers_info sample_send_db 1 102 12 2 ''secret'' group_mention)"

text \<open>
  The query looks for idle users who may be mentioned by name, but not for members of groups that
  may be mentioned: an idle subscriber mentioned through a group gets neither the row that marks the
  mention nor a notification.
\<close>

theorem idle_group_mention_lost:
  "case sample_request (no_mentions\<lparr>mentions_user_group_ids := [7]\<rparr>) of
     Inl _ \<Rightarrow> False
   | Inr sr \<Rightarrow> 14 \<in> mentions_user_ids (sr_rendering sr) \<and> 14 \<notin> ri_active (sr_info sr) \<and>
       map fst (sample_rows (sr_rendering sr) {} (sr_info sr)) = [10, 12] \<and>
       (14, 8) \<in> set (sample_rows (sr_rendering sr) {} (sample_all (no_mentions\<lparr>mentions_user_group_ids := [7]\<rparr>)))"
  by code_simp

text \<open>
  Nor does it look for idle users who have muted the sender: their row, which would mark the message
  as read, is not made, and the message will be unread when they return.
\<close>

theorem idle_muter_row_lost:
  "case sample_request no_mentions of
     Inl _ \<Rightarrow> False
   | Inr sr \<Rightarrow> 14 \<in> ri_muted_sender (sr_info sr) \<and>
       map fst (sample_rows (sr_rendering sr) (ri_muted_sender (sr_info sr)) (sr_info sr)) = [10, 12] \<and>
       (14, 1) \<in> set (sample_rows (sr_rendering sr) (ri_muted_sender (sr_info sr)) (sample_all no_mentions))"
  by code_simp

end
