(* ===== verification/SendSafety.thy ===== *)
theory SendSafety
  imports MessageSend TornadoServer SendSamples
begin

text \<open>
  Sending and delivering together: the event carries exactly the sets Django decided on, the short
  list of idle users is enough for the event server, the event is made without assertion failures,
  and it reaches only the clients of those the message is for.
\<close>

definition iterates :: "(int set \<Rightarrow> int list) \<Rightarrow> bool" where
  "iterates elems \<longleftrightarrow> (\<forall>S. finite S \<longrightarrow> set (elems S) = S \<and> distinct (elems S))"

lemma iteratesD: "iterates elems \<Longrightarrow> finite S \<Longrightarrow> set (elems S) = S" "iterates elems \<Longrightarrow> finite S \<Longrightarrow> distinct (elems S)"
  by (simp_all add: iterates_def)

section \<open>What a request holds\<close>

definition finite_sets :: "user_id_sets \<Rightarrow> bool" where
  "finite_sets s \<longleftrightarrow> list_all (\<lambda>f. finite (f s)) [online_push_user_ids, dm_mention_push_disabled_user_ids,
     dm_mention_email_disabled_user_ids, stream_push_user_ids, stream_email_user_ids, topic_wildcard_mention_user_ids,
     stream_wildcard_mention_user_ids, followed_topic_push_user_ids, followed_topic_email_user_ids,
     topic_wildcard_mention_in_followed_topic_user_ids, stream_wildcard_mention_in_followed_topic_user_ids,
     muted_sender_user_ids, all_bot_user_ids]"

text \<open>A request as \<open>build_message_send_dict\<close> makes it, from any tables and rendering.\<close>

definition built :: "send_request \<Rightarrow> bool" where
  "built sr \<longleftrightarrow> (\<exists>db md rr m stream local_id queue limit ext.
     build_message_send_dict db md (Inr rr) m stream local_id queue limit ext = Inr sr)"

definition topic_ok :: "int set \<Rightarrow> topic_info \<Rightarrow> bool" where
  "topic_ok ids t \<longleftrightarrow> finite ids \<and> list_all (\<lambda>f. f t \<subseteq> ids) [ri_stream_email, ri_stream_push, ri_topic_wildcard,
     ri_stream_wildcard, ri_followed_email, ri_followed_push, ri_topic_wildcard_followed, ri_stream_wildcard_followed]"

lemma topic_ok_channel: "channel_recipients rows policy sender parts ptw psw = (ids, t) \<Longrightarrow> topic_ok ids t"
proof -
  have n: "notification_recipients rs policy f g \<subseteq> set (map (cs_user \<circ> fst) rs)"
    "followed_topic_notification_recipients rs policy g \<subseteq> set (map (cs_user \<circ> fst) rs)" for rs f g
    by (auto simp: notification_recipients_def followed_topic_notification_recipients_def)
  assume "channel_recipients rows policy sender parts ptw psw = (ids, t)"
  then show ?thesis
    unfolding channel_recipients_def Let_def topic_ok_def
    by (auto simp only: prod.inject list.pred_inject topic_info.simps List.finite_set if_True if_False simp_thms split: if_splits
        dest: n [THEN subsetD])
qed

text \<open>The users a message to \<open>r\<close> is for.\<close>

definition message_line :: "send_db \<Rightarrow> recipient \<Rightarrow> int \<Rightarrow> int set" where
  "message_line db r sender_id = (case r_type r of
       PERSONAL \<Rightarrow> {r_type_id r, sender_id}
     | STREAM \<Rightarrow> set (map cs_user (filter (\<lambda>s. cs_stream_id s = r_type_id r \<and> cs_active s \<and> cs_user_active s) (send_subs db)))
     | DIRECT_MESSAGE_GROUP \<Rightarrow> set (get_direct_message_group_user_ids (chat db) (r_id r)))"

lemma channel_line:
  assumes "channel_recipients (get_subscriptions_for_send_message db rid stream_id topic psw parts pm) policy sender parts ptw psw' = (ids, t)"
  shows "ids \<subseteq> set (map cs_user (filter (\<lambda>s. cs_stream_id s = stream_id \<and> cs_active s \<and> cs_user_active s) (send_subs db)))"
  using assms unfolding channel_recipients_def Let_def optimised_query
  by (auto simp: subscription_row)

lemma recipient_info_parts:
  assumes "get_recipient_info db rid r sender_id (if r_type r = STREAM then Some (r_type_id r, topic) else None) pm ptw psw = Inr info"
  shows "\<exists>ids t. info = finish_recipient_info db sender_id ids pm t \<and> topic_ok ids t \<and> (r_type r \<noteq> STREAM \<longrightarrow> t = no_topic_info) \<and>
    ids \<subseteq> message_line db r sender_id"
proof (cases "r_type r = STREAM")
  case True
  let ?parts = "topic_participants db rid (r_id r) sender_id topic ptw"
  obtain ids t where c: "channel_recipients (get_subscriptions_for_send_message db rid (r_type_id r) topic psw ?parts pm)
      (user_id_to_visibility_policy db (r_type_id r) topic) sender_id ?parts ptw psw = (ids, t)" by force
  with assms True have "info = finish_recipient_info db sender_id ids pm t"
    by (simp add: get_recipient_info_def Let_def)
  with True topic_ok_channel [OF c] channel_line [OF c] show ?thesis unfolding message_line_def by auto
next
  case False
  with assms show ?thesis
    by (cases "r_type r") (auto simp: get_recipient_info_def message_line_def topic_ok_def no_topic_info_def)
qed

lemma built_parts:
  assumes "build_message_send_dict db md (Inr rr) m stream local_id queue limit ext = Inr sr"
  obtains ids t where "ids \<subseteq> message_line db (message_recipient m) (m_sender_id m)" "sr_info sr = adjust_recipient_info (sr_rendering sr) (finish_recipient_info db (m_sender_id m) ids (md_user_ids md) t)"
    "topic_ok ids t" "\<not> is_stream_message m \<Longrightarrow> t = no_topic_info" "sr_message sr = m" "sr_stream sr = stream"
    "sr_rendering sr = add_group_mentions md rr"
proof -
  from assms obtain info where i: "get_recipient_info db (m_realm_id m) (message_recipient m) (m_sender_id m)
      (if r_type (message_recipient m) = STREAM then Some (r_type_id (message_recipient m), m_subject m) else None)
      (md_user_ids md) (md_topic_wildcards md) (md_stream_wildcards md) = Inr info"
    and sr: "sr_info sr = adjust_recipient_info (sr_rendering sr) info" "sr_message sr = m" "sr_stream sr = stream"
      "sr_rendering sr = add_group_mentions md rr"
    by (auto simp: build_message_send_dict_def Let_def res_simps is_stream_message_def message_recipient_def cong: if_cong)
  from recipient_info_parts [OF i] obtain ids t where
    "info = finish_recipient_info db (m_sender_id m) ids (md_user_ids md) t" "topic_ok ids t"
    "\<not> is_stream_message m \<longrightarrow> t = no_topic_info" "ids \<subseteq> message_line db (message_recipient m) (m_sender_id m)"
    by (auto simp: message_recipient_def is_stream_message_def)
  with sr show thesis by (auto intro: that)
qed

lemma finish_finite:
  assumes "topic_ok ids t"
  shows "finite (ri_online_push (finish_recipient_info db sender_id ids pm t))"
    "finite (ri_push_disabled (finish_recipient_info db sender_id ids pm t))"
    "finite (ri_email_disabled (finish_recipient_info db sender_id ids pm t))"
    "finite (ri_muted_sender (finish_recipient_info db sender_id ids pm t))"
    "finite (ri_all_bots (finish_recipient_info db sender_id ids pm t))"
    "finite (ri_active (finish_recipient_info db sender_id ids pm t))"
    "finite (ri_um_eligible (finish_recipient_info db sender_id ids pm t))"
    "finite (ri_default_bots (finish_recipient_info db sender_id ids pm t))"
  using assms by (simp_all add: finish_recipient_info_def Let_def get_muting_users_def topic_ok_def)

lemma finish_wildcards [simp]:
  "ri_topic_wildcard (finish_recipient_info db sender_id ids pm t) = ri_topic_wildcard t"
  "ri_stream_wildcard (finish_recipient_info db sender_id ids pm t) = ri_stream_wildcard t"
  "ri_topic_wildcard_followed (finish_recipient_info db sender_id ids pm t) = ri_topic_wildcard_followed t"
  "ri_stream_wildcard_followed (finish_recipient_info db sender_id ids pm t) = ri_stream_wildcard_followed t"
  by (simp_all add: finish_recipient_info_def Let_def)

lemma adjust_others [simp]:
  "ri_online_push (adjust_recipient_info rr info) = ri_online_push info"
  "ri_push_disabled (adjust_recipient_info rr info) = ri_push_disabled info"
  "ri_email_disabled (adjust_recipient_info rr info) = ri_email_disabled info"
  "ri_default_bots (adjust_recipient_info rr info) = ri_default_bots info"
  "ri_topic_wildcard (adjust_recipient_info rr info) = (if mentions_topic_wildcard rr then ri_topic_wildcard info else {})"
  "ri_topic_wildcard_followed (adjust_recipient_info rr info) = (if mentions_topic_wildcard rr then ri_topic_wildcard_followed info else {})"
  "ri_stream_wildcard (adjust_recipient_info rr info) = (if mentions_stream_wildcard rr then ri_stream_wildcard info else {})"
  "ri_stream_wildcard_followed (adjust_recipient_info rr info) = (if mentions_stream_wildcard rr then ri_stream_wildcard_followed info else {})"
  by (simp_all add: adjust_recipient_info_def Let_def)

lemma mark_request_fields [simp]:
  "sr_message (mark_request mark sr) = sr_message sr" "sr_rendering (mark_request mark sr) = sr_rendering sr"
  "sr_stream (mark_request mark sr) = sr_stream sr" "sr_disable_external (mark_request mark sr) = sr_disable_external sr"
  "sr_info (mark_request mark sr) = (sr_info sr)\<lparr>ri_muted_sender := ri_muted_sender (sr_info sr) \<union> set mark\<rparr>"
  by (simp_all add: mark_request_def)

lemma request_stream_mark [simp]: "request_stream db (mark_request mark sr) = request_stream db sr"
  by (simp add: request_stream_def cong: if_cong option.case_cong)

lemma built_finite:
  assumes "built sr"
  shows "finite_sets (request_sets (mark_request mark sr))" "finite (ri_active (sr_info sr))" "finite (ri_um_eligible (sr_info sr))"
proof -
  from assms obtain db md rr m stream local_id queue limit ext where
    "build_message_send_dict db md (Inr rr) m stream local_id queue limit ext = Inr sr" by (auto simp: built_def)
  then obtain ids t where i: "sr_info sr = adjust_recipient_info (sr_rendering sr) (finish_recipient_info db (m_sender_id m) ids (md_user_ids md) t)"
    and t: "topic_ok ids t" by (rule built_parts)
  have f: "finite (ri_stream_email t)" "finite (ri_stream_push t)" "finite (ri_topic_wildcard t)" "finite (ri_stream_wildcard t)"
    "finite (ri_followed_email t)" "finite (ri_followed_push t)" "finite (ri_topic_wildcard_followed t)"
    "finite (ri_stream_wildcard_followed t)"
    using t by (auto simp: topic_ok_def intro: finite_subset)
  show "finite_sets (request_sets (mark_request mark sr))"
    by (simp add: finite_sets_def request_sets_def Let_def i finish_finite [OF t] f)
  show "finite (ri_active (sr_info sr))" "finite (ri_um_eligible (sr_info sr))"
    by (simp_all add: i finish_finite [OF t])
qed

section \<open>The event\<close>

lemma map_of_channel_entries:
  "map_of (channel_entries stream) k =
     (case stream of None \<Rightarrow> None | Some c \<Rightarrow>
       if k = ''realm_id'' \<and> is_public c then Some (PInt (ch_realm_id c))
       else if k = ''stream_name'' \<and> is_public c then Some (PStr (ch_name c))
       else if k = ''invite_only'' \<and> invite_only c then Some (PBool True) else None)"
  by (auto simp: channel_entries_def split: option.splits)

lemma map_of_optional_entry: "map_of (optional_entry k v) k' = (if k' = k then map_option PStr v else None)"
  by (cases v) (simp_all add: optional_entry_def)

lemma ids_of_ints [simp]: "ids_of (map PInt xs) = xs"
  by (induction xs) simp_all

lemma id_set_list: "map_of d k = Some (id_list elems S) \<Longrightarrow> set (elems S) = S \<Longrightarrow> id_set d k = Inr S"
  by (simp add: id_set_def get_or_def id_list_def)

lemma event_dict_lookup:
  "map_of (message_event_dict elems env sr wide idle stream) ''presence_idle_user_ids'' = Some (PList (map PInt idle))"
  "map_of (message_event_dict elems env sr wide idle stream) ''type'' = Some (PStr ''message'')"
  "map_of (message_event_dict elems env sr wide idle stream) ''message_dict'' = Some (PDict wide)"
  "map_of (message_event_dict elems env sr wide idle stream) ''disable_external_notifications'' = Some (PBool (sr_disable_external sr))"
  "map_of (message_event_dict elems env sr wide idle stream) ''stream_name'' = map_of (channel_entries stream) ''stream_name''"
  "map_of (message_event_dict elems env sr wide idle stream) ''realm_id'' = map_of (channel_entries stream) ''realm_id''"
  "map_of (message_event_dict elems env sr wide idle stream) ''invite_only'' = map_of (channel_entries stream) ''invite_only''"
  by (simp_all add: message_event_dict_def sets_entries_def map_of_optional_entry map_add_def split: option.split)

lemma event_dict_sets:
  assumes "k \<in> fst ` set (sets_entries elems (request_sets sr))"
  shows "map_of (message_event_dict elems env sr wide idle stream) k = map_of (sets_entries elems (request_sets sr)) k"
proof -
  from assms obtain v where "map_of (sets_entries elems (request_sets sr)) k = Some v"
    by (metis map_of_eq_None_iff not_None_eq)
  moreover have "k \<notin> {''type'', ''message'', ''message_dict'', ''presence_idle_user_ids''}"
    using assms by (auto simp: sets_entries_def)
  ultimately show ?thesis by (simp add: message_event_dict_def map_add_def)
qed

lemma event_sets:
  assumes "iterates elems" "finite_sets (request_sets sr)"
  shows "message_user_id_sets (message_event_dict elems env sr wide idle stream) = Inr (request_sets sr)"
proof -
  let ?e = "message_event_dict elems env sr wide idle stream" and ?s = "request_sets sr"
  have one: "id_set ?e k = Inr S" if "map_of (sets_entries elems ?s) k = Some (id_list elems S)" "finite S" for k S
  proof (rule id_set_list)
    show "map_of ?e k = Some (id_list elems S)"
      using that(1) event_dict_sets [of k elems sr env wide idle stream] by (metis map_of_eq_None_iff option.distinct(1))
    show "set (elems S) = S" by (rule iteratesD [OF assms(1) that(2)])
  qed
  have renamed: "renamed_id_set ?e k k' = id_set ?e k" if "map_of (sets_entries elems ?s) k = Some v" for k k' v
    using that event_dict_sets [of k elems sr env wide idle stream]
    by (metis has_key_def map_of_eq_None_iff option.distinct(1) renamed_id_set_def)
  have f: "finite (online_push_user_ids ?s)" "finite (dm_mention_push_disabled_user_ids ?s)"
    "finite (dm_mention_email_disabled_user_ids ?s)" "finite (stream_push_user_ids ?s)" "finite (stream_email_user_ids ?s)"
    "finite (topic_wildcard_mention_user_ids ?s)" "finite (stream_wildcard_mention_user_ids ?s)"
    "finite (followed_topic_push_user_ids ?s)" "finite (followed_topic_email_user_ids ?s)"
    "finite (topic_wildcard_mention_in_followed_topic_user_ids ?s)"
    "finite (stream_wildcard_mention_in_followed_topic_user_ids ?s)"
    "finite (muted_sender_user_ids ?s)" "finite (all_bot_user_ids ?s)"
    using assms(2) by (simp_all add: finite_sets_def)
  show ?thesis
    unfolding message_user_id_sets_def
    by (simp add: renamed one f sets_entries_def)
qed

text \<open>
  C12. The event server decides on the sets Django decided on: the lists of user ids in a message's
  event, read back under the names the server reads, are the sets of the request, the users for whom
  the message is marked as read included among those who muted the sender, and so are the list of
  idle users and whether the message is public.
\<close>

theorem event_sets_roundtrip:
  assumes "built sr" "iterates elems"
    and "make_notice elems env db (mark_request mark sr, rows) = Inr n"
  shows "message_user_id_sets (mn_event n) = Inr (request_sets (mark_request mark sr)) \<and>
    (\<exists>stream notifs private. request_stream db sr = Inr stream \<and>
       request_notifs elems (mark_request mark sr) rows private = Inr notifs \<and>
       id_set (mn_event n) ''presence_idle_user_ids'' =
         Inr (set (get_active_presence_idle_user_ids env (m_sender_id (sr_message sr)) notifs)) \<and>
       (is_public_message (mn_event n) \<longleftrightarrow> (\<exists>c. stream = Some c \<and> is_public c)))"
proof -
  from assms(3) obtain stream ty notifs where n: "request_stream db (mark_request mark sr) = Inr stream"
    "request_notifs elems (mark_request mark sr) rows (ty = PStr ''private'') = Inr notifs"
    "mn_event n = message_event_dict elems env (mark_request mark sr) (se_wide_dict env (sr_message sr))
       (get_active_presence_idle_user_ids env (m_sender_id (sr_message sr)) notifs) stream"
    by (auto simp: make_notice_def Let_def res_simps)
  have "request_stream db sr = Inr stream" using n(1) by simp
  moreover have "is_public_message (mn_event n) \<longleftrightarrow> (\<exists>c. stream = Some c \<and> is_public c)"
    by (cases stream) (simp_all add: n(3) is_public_message_def has_key_def get_or_def event_dict_lookup map_of_channel_entries is_public_def)
  moreover have "id_set (mn_event n) ''presence_idle_user_ids'' =
      Inr (set (get_active_presence_idle_user_ids env (m_sender_id (sr_message sr)) notifs))"
    by (simp add: n(3) id_set_def get_or_def event_dict_lookup)
  ultimately show ?thesis
    using n(2) event_sets [OF assms(2) built_finite(1) [OF assms(1)]] n(3) by metis
qed

section \<open>Presence\<close>

lemma emap_total: "(\<And>x. x \<in> set xs \<Longrightarrow> \<exists>y. f x = Inr y) \<Longrightarrow> \<exists>ys. emap f xs = Inr ys"
  by (induction xs) (force simp: res_simps)+

lemma emap_Inr_arg: "emap f xs = Inr ys \<Longrightarrow> x \<in> set xs \<Longrightarrow> \<exists>y\<in>set ys. f x = Inr y"
  by (induction xs arbitrary: ys) (auto simp: res_simps)

text \<open>The data of one user, from the sets of the request.\<close>

definition request_notif :: "send_request \<Rightarrow> usermessage list \<Rightarrow> bool \<Rightarrow> int \<Rightarrow> notif res" where
  "request_notif sr rows private uid =
     from_user_id_sets uid (user_flags rows uid) private (sr_disable_external sr) (request_sets sr)"

lemma request_notifs_iff:
  assumes "request_notifs elems sr rows private = Inr notifs"
  shows "d \<in> set notifs \<longleftrightarrow> (\<exists>uid\<in>set (elems (ri_active (sr_info sr))). request_notif sr rows private uid = Inr d)"
  using emap_Inr_arg [OF assms [unfolded request_notifs_def]] emap_Inr_mem [OF assms [unfolded request_notifs_def]]
  unfolding request_notif_def by fastforce

lemma request_notif_user: "request_notif sr rows private uid = Inr d \<Longrightarrow> user_id d = uid"
  using from_user_id_sets_outcomes [where uid = uid and flags = "user_flags rows uid" and s = "request_sets sr" and private_message = "private"
      and disable_external = "sr_disable_external sr"]
  by (simp add: request_notif_def)

lemma request_notif_bot:
  "request_notif sr rows private uid = Inr d \<Longrightarrow> uid \<in> ri_all_bots (sr_info sr) \<Longrightarrow> \<not> is_notifiable d acting idle"
  using from_user_id_sets_outcomes [where uid = uid and flags = "user_flags rows uid" and s = "request_sets sr" and private_message = "private"
      and disable_external = "sr_disable_external sr" and acting = acting and idle = idle]
  by (simp add: request_notif_def request_sets_def Let_def)

text \<open>The users of an event who are no recipients are bots.\<close>

lemma rows_eligible:
  assumes "built sr" "iterates elems"
  shows "um_user ` set (request_rows elems (mark_request mark sr)) \<subseteq> ri_um_eligible (sr_info sr)"
proof -
  have "set (elems (ri_um_eligible (sr_info sr))) = ri_um_eligible (sr_info sr)"
    by (rule iteratesD [OF assms(2) built_finite(3) [OF assms(1)]])
  then have e: "set (elems (ri_um_eligible (sr_info (mark_request mark sr)))) = ri_um_eligible (sr_info (mark_request mark sr))"
    by simp
  have "um_user ` set (request_rows elems (mark_request mark sr)) \<subseteq> ri_um_eligible (sr_info (mark_request mark sr))"
    unfolding request_rows_def using create_user_messages_mem [where elems = elems and info = "sr_info (mark_request mark sr)", OF e]
    by blast
  then show ?thesis by simp
qed

lemma event_user_cases:
  assumes "built sr" "iterates elems" "uid \<in> event_user_ids sr (request_rows elems (mark_request mark sr))"
  shows "uid \<in> ri_active (sr_info sr) \<or> uid \<in> ri_all_bots (sr_info sr)"
proof -
  from assms(1) obtain db md rr m stream local_id queue limit ext where
    "build_message_send_dict db md (Inr rr) m stream local_id queue limit ext = Inr sr" by (auto simp: built_def)
  then obtain ids t where i: "sr_info sr = adjust_recipient_info (sr_rendering sr) (finish_recipient_info db (m_sender_id m) ids (md_user_ids md) t)"
    by (rule built_parts)
  have "um_user ` set (request_rows elems (mark_request mark sr)) \<subseteq> ri_um_eligible (sr_info sr)"
    by (rule rows_eligible [OF assms(1,2)])
  with assms(3) have "uid \<in> ri_active (sr_info sr) \<or> uid \<in> ri_um_eligible (sr_info sr)"
    by (auto simp: event_user_ids_def)
  then show ?thesis
    unfolding i adjust_fields Un_iff Int_iff finish_sets is_default_bot_def by blast
qed

text \<open>
  C13. The list of idle users is short, but long enough.  Django sends only those idle users whom a
  message would notify if they were idle; for every user of the event the triggers the event server
  computes from that list are those it would compute from the presence of everybody.
\<close>

theorem presence_filter_exact:
  fixes sr :: send_request and mark elems
  defines "sr' \<equiv> mark_request mark sr"
  defines "rows \<equiv> request_rows elems sr'" and "sender \<equiv> m_sender_id (sr_message sr)"
  assumes "built sr" "iterates elems" "\<not> se_presence_disabled env"
    and "request_notifs elems sr' rows private = Inr notifs"
    and "uid \<in> event_user_ids sr rows" "request_notif sr' rows private uid = Inr d"
  shows "get_push_notification_trigger d sender (off \<or> uid \<in> set (get_active_presence_idle_user_ids env sender notifs)) =
      get_push_notification_trigger d sender (off \<or> uid \<notin> se_recently_active env) \<and>
    get_email_notification_trigger d sender (off \<or> uid \<in> set (get_active_presence_idle_user_ids env sender notifs)) =
      get_email_notification_trigger d sender (off \<or> uid \<notin> se_recently_active env)"
proof (cases "is_notifiable d sender True")
  case False
  then have "\<not> is_notifiable d sender b" for b using not_idle_not_notifiable by blast
  then have "get_push_notification_trigger d sender b = None" "get_email_notification_trigger d sender b = None" for b
    by (auto simp: is_notifiable_def is_push_notifiable_def is_email_notifiable_def)
  then show ?thesis by simp
next
  case True
  have "uid \<in> ri_active (sr_info sr)"
    using event_user_cases [OF assms(4,5)] assms(8) request_notif_bot [OF assms(9)] True unfolding rows_def sr'_def by auto
  then have "d \<in> set notifs"
    using iteratesD(1) [OF assms(5) built_finite(2) [OF assms(4)]] assms(9) request_notifs_iff [OF assms(7)]
    by (auto simp: sr'_def)
  then have mem: "uid \<in> user_id ` {n \<in> set notifs. is_notifiable n sender True}"
    using True request_notif_user [OF assms(9)] by force
  have "uid \<in> set (get_active_presence_idle_user_ids env sender notifs) \<longleftrightarrow> uid \<notin> se_recently_active env"
    using assms(6) mem by (auto simp: get_active_presence_idle_user_ids_def filter_presence_idle_user_ids_def)
  then show ?thesis by simp
qed

section \<open>The audience\<close>

text \<open>Whom a message may reach: those it is for, and the normal bots it mentions.\<close>

definition intended :: "send_db \<Rightarrow> send_request \<Rightarrow> int set" where
  "intended db sr = message_line db (message_recipient (sr_message sr)) (m_sender_id (sr_message sr)) \<union>
     set (map su_id (filter (\<lambda>x. su_is_active x \<and> is_default_bot x \<and> su_id x \<in> mentions_user_ids (sr_rendering sr)) (send_users db)))"

lemma event_users_intended:
  assumes build: "build_message_send_dict db md (Inr rr) m stream local_id queue limit ext = Inr sr" and e: "iterates elems"
  shows "event_user_ids sr (request_rows elems (mark_request mark sr)) \<subseteq> intended db sr"
proof -
  from build obtain ids t where i: "ids \<subseteq> message_line db (message_recipient m) (m_sender_id m)"
    "sr_info sr = adjust_recipient_info (sr_rendering sr) (finish_recipient_info db (m_sender_id m) ids (md_user_ids md) t)"
    "sr_message sr = m" by (rule built_parts)
  have "built sr" unfolding built_def using build by blast
  then have "um_user ` set (request_rows elems (mark_request mark sr)) \<subseteq> ri_um_eligible (sr_info sr)"
    by (rule rows_eligible [OF _ e])
  moreover have "ri_um_eligible (sr_info sr) \<union> ri_active (sr_info sr) \<subseteq> intended db sr"
    using i(1) unfolding i(2,3) intended_def adjust_fields by (auto simp: finish_sets)
  ultimately show ?thesis by (auto simp: event_user_ids_def)
qed

text \<open>The notice of a request on its own.\<close>

lemma send_one:
  assumes "do_send_messages elems env mark [Some sr] db = Inr (db', [n])"
  obtains db'' where
    "make_notice elems env db'' (mark_request mark sr, request_rows elems (mark_request mark sr)) = Inr n"
    "chat db'' = (chat db)\<lparr>messages := messages (chat db''), usermessages := usermessages (chat db'')\<rparr>" "db' = db''"
  using assms by (auto simp: do_send_messages_def Let_def map_filter_simps store_messages_def res_simps intro!: that)

lemma make_notice_event:
  assumes "make_notice elems env db (sr, rows) = Inr n"
  obtains stream idle where "request_stream db sr = Inr stream"
    "mn_event n = message_event_dict elems env sr (se_wide_dict env (sr_message sr)) idle stream"
    "mn_users n = event_users elems sr rows"
    "mn_without_access n = without_access db env (m_sender_id (sr_message sr)) stream (event_user_ids sr rows)"
  using assms by (auto simp: make_notice_def Let_def res_simps)

lemma event_user_ids_of:
  assumes "iterates elems" "finite (event_user_ids sr rows)" "d \<in> set (event_users elems sr rows)"
  shows "\<exists>uid\<in>event_user_ids sr rows. map_of d ''id'' = Some (PInt uid)"
  using assms iteratesD(1) [OF assms(1)]
  by (auto simp: event_users_def sender_first_def user_data_def split: if_splits)

lemma audience_public:
  "audience (Some (message_event_dict elems env sr wide idle stream)) ids w \<subseteq>
    {q. \<exists>d. heap w q = Some d \<and> (user_profile_id d \<in> ids \<or>
       (\<exists>c. stream = Some c \<and> is_public c \<and> all_streams_client d \<and> client_descriptor.realm_id d = ch_realm_id c))}"
  by (auto simp: audience_def is_public_message_def has_key_def get_or_def event_dict_lookup map_of_channel_entries
      split: option.splits if_splits)

text \<open>
  C5. A message reaches only its audience.  Whatever the event server does with the notice of a
  message and any part of its users, errors included: its tables stay consistent; only queues of
  users the message is for, of normal bots it mentions, and, for a public channel, of clients of the
  channel's organization that listen to all public channels change; and notices are published only
  about those users and bots.
\<close>

theorem message_reaches_audience:
  assumes build: "build_message_send_dict db md (Inr rr) m stream local_id queue limit ext = Inr sr" and e: "iterates elems"
    and send: "do_send_messages elems env mark [Some sr] db = Inr (db', [n])"
    and us: "set us \<subseteq> set (mn_users n)" and w: "wf_world w"
  shows "\<exists>c. request_stream db' sr = Inr c \<and>
    confined {q. \<exists>d. heap w q = Some d \<and> (user_profile_id d \<in> intended db sr \<or>
        (\<exists>ch. c = Some ch \<and> is_public ch \<and> all_streams_client d \<and> client_descriptor.realm_id d = ch_realm_id ch))}
      (intended db sr) w (snd (process_notification shards penv (tornado_notice (mn_event n) (map PDict us)) w))"
proof -
  let ?sr = "mark_request mark sr" and ?notice = "tornado_notice (mn_event n) (map PDict us)"
  let ?rows = "request_rows elems ?sr"
  have b: "built sr" unfolding built_def using build by blast
  from send obtain db'' where make: "make_notice elems env db'' (?sr, ?rows) = Inr n" and db: "db' = db''" by (rule send_one)
  from make obtain c idle where c: "request_stream db'' ?sr = Inr c"
    and ev: "mn_event n = message_event_dict elems env ?sr (se_wide_dict env (sr_message ?sr)) idle c"
    and users: "mn_users n = event_users elems ?sr ?rows" by (rule make_notice_event)
  have ids: "event_user_ids ?sr ?rows \<subseteq> intended db sr"
    using event_users_intended [OF build e, of mark] by (simp add: event_user_ids_def)
  have fin: "finite (event_user_ids ?sr ?rows)" using built_finite(2) [OF b] by (simp add: event_user_ids_def)
  have "entry_ids (map PDict us) \<subseteq> intended db sr"
    using us ids event_user_ids_of [OF e fin] unfolding users entry_ids_def by fastforce
  then have n: "notice_ids ?notice \<subseteq> intended db sr"
    by (simp add: notice_ids_def tornado_notice_def list_at_def getk_def)
  have "dict_at ?notice ''event'' = Inr (mn_event n)" by (simp add: tornado_notice_def dict_at_def getk_def)
  moreover have ty: "map_of (mn_event n) ''type'' = Some (PStr ''message'')" by (simp add: ev event_dict_lookup)
  ultimately have "confined (audience (Some (mn_event n)) (notice_ids ?notice) w) (notice_ids ?notice) w
      (snd (process_notification shards penv ?notice w))"
    using confined_notice [OF w, of ?notice "mn_event n" shards penv] by simp
  moreover have "audience (Some (mn_event n)) (notice_ids ?notice) w \<subseteq>
      {q. \<exists>d. heap w q = Some d \<and> (user_profile_id d \<in> intended db sr \<or>
        (\<exists>ch. c = Some ch \<and> is_public ch \<and> all_streams_client d \<and> client_descriptor.realm_id d = ch_realm_id ch))}"
    using audience_public [of elems env ?sr "se_wide_dict env (sr_message ?sr)" idle c "notice_ids ?notice" w] n
    unfolding ev by blast
  ultimately show ?thesis using c n unfolding db by (auto intro: confined_mono)
qed

section \<open>Sending succeeds\<close>

lemma direct_message_sets:
  assumes "built sr" "\<not> is_stream_message (sr_message sr)"
  shows "ri_stream_push (sr_info sr) = {}" "ri_stream_email (sr_info sr) = {}" "ri_followed_push (sr_info sr) = {}"
    "ri_followed_email (sr_info sr) = {}"
proof -
  from assms(1) obtain db md rr m stream local_id queue limit ext where
    "build_message_send_dict db md (Inr rr) m stream local_id queue limit ext = Inr sr" by (auto simp: built_def)
  then obtain ids t where i: "sr_info sr = adjust_recipient_info (sr_rendering sr) (finish_recipient_info db (m_sender_id m) ids (md_user_ids md) t)"
    and t: "\<not> is_stream_message m \<longrightarrow> t = no_topic_info" and m: "sr_message sr = m" by (rule built_parts) blast
  from t assms(2) m have "t = no_topic_info" by simp
  then show "ri_stream_push (sr_info sr) = {}" "ri_stream_email (sr_info sr) = {}" "ri_followed_push (sr_info sr) = {}"
    "ri_followed_email (sr_info sr) = {}"
    by (simp_all add: i no_topic_info_def)
qed

lemma request_notif_ok:
  assumes "built sr" "private \<Longrightarrow> \<not> is_stream_message (sr_message sr)"
  shows "\<exists>d. request_notif (mark_request mark sr) rows private uid = Inr d"
proof (cases "request_notif (mark_request mark sr) rows private uid")
  case (Inl e)
  with from_user_id_sets_outcomes [where uid = uid and flags = "user_flags rows uid" and s = "request_sets (mark_request mark sr)"
      and private_message = "private" and disable_external = "sr_disable_external sr"]
  have "private \<and> uid \<in> ri_stream_push (sr_info sr) \<union> ri_stream_email (sr_info sr) \<union> ri_followed_push (sr_info sr) \<union> ri_followed_email (sr_info sr)"
    by (simp add: request_notif_def request_sets_def Let_def)
  with assms direct_message_sets [OF assms(1)] show ?thesis by auto
qed simp

lemma make_notice_ok:
  assumes "built sr" "is_stream_message (sr_message sr) \<Longrightarrow> sr_stream sr \<noteq> None"
    and "getk (se_wide_dict env (sr_message sr)) ''type'' = Inr (PStr (if is_stream_message (sr_message sr) then ''stream'' else ''private''))"
  shows "\<exists>n. make_notice elems env db (mark_request mark sr, rows) = Inr n"
proof -
  let ?private = "PStr (if is_stream_message (sr_message sr) then ''stream'' else ''private'') = PStr ''private''"
  have "\<exists>ns. request_notifs elems (mark_request mark sr) rows ?private = Inr ns"
    unfolding request_notifs_def
    by (rule emap_total) (use request_notif_ok [OF assms(1), where mark = mark] in \<open>auto simp: request_notif_def\<close>)
  moreover have "\<exists>c. request_stream db sr = Inr c"
    using assms(2) by (cases "is_stream_message (sr_message sr)") (auto simp: request_stream_def)
  ultimately show ?thesis using assms(3) by (auto simp: make_notice_def Let_def)
qed


section \<open>Where the code falls short\<close>

text \<open>
  Where access to users is restricted and the sender is not subscribed to the channel, the event has
  an entry that cannot be serialized: the hook raises after the message is stored, and nobody learns
  of it, nor of the messages sent with it.
\<close>

theorem restricted_sender_unpublished:
  assumes "do_send_messages elems env mark (Some sr # srs) db = Inr (db', n # ns)"
    and "is_stream_message (sr_message sr)" "sr_stream sr = Some c"
    and "se_can_access env (m_sender_id (sr_message sr)) = Some able"
    and "\<not> subscribed_to_stream (chat db') (m_sender_id (sr_message sr)) (ch_id c)"
  shows "commit_notices cfg host (n # ns) w = (Inl TypeError, w) \<and> sr_message sr \<in> set (messages (chat db'))"
proof -
  let ?sr = "mark_request mark sr"
  from assms(1) have make: "make_notice elems env db' (?sr, request_rows elems ?sr) = Inr n"
    and m: "sr_message sr \<in> set (messages (chat db'))"
    by (auto simp: do_send_messages_def Let_def map_filter_simps res_simps store_messages_def)
  from make obtain stream where "request_stream db' ?sr = Inr stream"
    "mn_without_access n = without_access db' env (m_sender_id (sr_message sr)) stream (event_user_ids ?sr (request_rows elems ?sr))"
    by (rule make_notice_event) simp
  moreover from this(1) assms(2,3) have "stream = Some c" by (simp add: request_stream_def)
  ultimately have "mn_without_access n \<noteq> None" using assms(4,5) by (simp add: without_access_def)
  then show ?thesis
    using m by (auto simp: commit_notices_def bnd_def raise_def split: option.splits)
qed

end
