(* ===== verification/SendWitnesses.thy ===== *)
theory SendWitnesses
  imports SendSafety
begin

text \<open>
  The theorems on sent messages at the message of \<open>SendSamples\<close>: a message of the user 12 to a private
  channel with an idle subscriber.
\<close>

definition quiet_env :: send_env where
  "quiet_env = \<lparr>se_presence_disabled = False, se_recently_active = {12},
     se_wide_dict = (\<lambda>m. [(''type'', PStr (if is_stream_message m then ''stream'' else ''private''))]),
     se_realm_host = ''chat'', se_can_access = (\<lambda>_. None)\<rparr>"

lemma iterates_sorted: "iterates sorted_list_of_set"
  by (simp add: iterates_def)

lemma sample_request_ok:
  obtains sr where "build_message_send_dict sample_send_db group_mention (Inr no_mentions) secret_message (Some core_team) None None None False = Inr sr"
    "built sr" "sr_message sr = secret_message" "sr_stream sr = Some core_team"
proof -
  have "case sample_request no_mentions of Inl _ \<Rightarrow> False | Inr _ \<Rightarrow> True" by code_simp
  then obtain sr where sr: "build_message_send_dict sample_send_db group_mention (Inr no_mentions) secret_message (Some core_team) None None None False = Inr sr"
    by (auto simp: sample_request_def split: sum.splits)
  then have "built sr" unfolding built_def by blast
  with sr show thesis by (rule that) (rule built_parts [OF sr], assumption)+
qed

lemma secret_message_channel: "is_stream_message secret_message" "m_sender_id secret_message = 12"
  by code_simp+

lemma quiet_notice:
  assumes "built sr" "sr_stream sr = Some core_team"
  shows "\<exists>n. make_notice elems quiet_env db (mark_request mark sr, rows) = Inr n"
  by (rule make_notice_ok [OF assms(1)]) (simp_all add: assms(2) quiet_env_def getk_def)

lemma quiet_send:
  assumes "built sr" "sr_stream sr = Some core_team"
  shows "\<exists>db' n. do_send_messages elems quiet_env mark [Some sr] db = Inr (db', [n])"
proof -
  obtain n where "make_notice elems quiet_env (store_messages [mark_request mark sr] (request_rows elems (mark_request mark sr)) db)
      (mark_request mark sr, request_rows elems (mark_request mark sr)) = Inr n"
    using quiet_notice [OF assms] by blast
  then show ?thesis by (simp add: do_send_messages_def Let_def map_filter_simps)
qed

theorem user_rows_exact_witness:
  fixes info
  defines "info \<equiv> finish_recipient_info sample_send_db 12 {10, 12, 14} {} no_topic_info"
  shows "let rows = create_user_messages sorted_list_of_set secret_message no_mentions info {10} None;
      due = due_flag secret_message no_mentions {10} None {} in
    map um_user rows = [10, 12] \<and>
    (\<forall>u. u \<in> um_user ` set rows \<longleftrightarrow> u \<in> ri_um_eligible info \<and> (u = 14 \<longrightarrow> (\<exists>f. due u f)))"
proof -
  have f: "finite (ri_um_eligible info)" by (simp add: info_def finish_recipient_info_def Let_def)
  have i: "ri_long_term_idle info = {14}" "ri_stream_push info = {}" "ri_stream_email info = {}"
    "ri_followed_push info = {}" "ri_followed_email info = {}" "ri_participants info = {}" unfolding info_def by code_simp+
  have "map um_user (create_user_messages sorted_list_of_set secret_message no_mentions info {10} None) = [10, 12]"
    unfolding info_def by code_simp
  with user_rows_exact [of sorted_list_of_set info secret_message no_mentions "{10}" None] f show ?thesis
    by (simp add: Let_def i secret_message_channel)
qed

theorem optimised_rows_equal_witness:
  "\<exists>sr. sample_request no_mentions = Inr sr \<and>
     set (create_user_messages sorted_list_of_set secret_message (sr_rendering sr) (sr_info sr) {} None) =
     set (create_user_messages sorted_list_of_set secret_message (sr_rendering sr)
       (adjust_recipient_info (sr_rendering sr) (all_subscribers_info sample_send_db (m_realm_id secret_message)
          (m_recipient_id secret_message) 12 (m_type_id secret_message) (m_subject secret_message) group_mention)) {} None)"
proof -
  obtain sr where sr: "build_message_send_dict sample_send_db group_mention (Inr no_mentions) secret_message (Some core_team) None None None False = Inr sr"
    by (rule sample_request_ok)
  have d: "distinct (map su_id (send_users sample_send_db))" by code_simp
  have m: "mentions_user_ids (add_group_mentions group_mention no_mentions) \<subseteq> md_user_ids group_mention" by code_simp
  have "set (create_user_messages sorted_list_of_set secret_message (sr_rendering sr) (sr_info sr) {} None) =
     set (create_user_messages sorted_list_of_set secret_message (sr_rendering sr)
       (adjust_recipient_info (sr_rendering sr) (all_subscribers_info sample_send_db (m_realm_id secret_message)
          (m_recipient_id secret_message) (m_sender_id secret_message) (m_type_id secret_message) (m_subject secret_message) group_mention)) {} None)"
    by (rule optimised_rows_equal [OF secret_message_channel(1) d _ sr m]) (simp_all add: no_mentions_def)
  with sr show ?thesis unfolding sample_request_def secret_message_channel by blast
qed

theorem event_sets_roundtrip_witness:
  "\<exists>sr n. sample_request no_mentions = Inr sr \<and>
     make_notice sorted_list_of_set quiet_env sample_send_db (mark_request [10] sr, []) = Inr n \<and>
     message_user_id_sets (mn_event n) = Inr (request_sets (mark_request [10] sr)) \<and> \<not> is_public_message (mn_event n)"
proof -
  obtain sr where sr: "build_message_send_dict sample_send_db group_mention (Inr no_mentions) secret_message (Some core_team) None None None False = Inr sr"
    and b: "built sr" and m: "sr_message sr = secret_message" "sr_stream sr = Some core_team" by (rule sample_request_ok)
  obtain n where n: "make_notice sorted_list_of_set quiet_env sample_send_db (mark_request [10] sr, []) = Inr n"
    using quiet_notice [OF b] m by blast
  have "request_stream sample_send_db sr = Inr (Some core_team)" by (simp add: request_stream_def m secret_message_channel)
  moreover have "\<not> is_public core_team" by code_simp
  ultimately have "message_user_id_sets (mn_event n) = Inr (request_sets (mark_request [10] sr)) \<and> \<not> is_public_message (mn_event n)"
    using event_sets_roundtrip [OF b iterates_sorted n] by auto
  with sr n show ?thesis unfolding sample_request_def by blast
qed

theorem presence_filter_exact_witness:
  "\<exists>sr notifs d. sample_request no_mentions = Inr sr \<and>
     request_notifs sorted_list_of_set (mark_request [] sr) (request_rows sorted_list_of_set (mark_request [] sr)) False = Inr notifs \<and>
     request_notif (mark_request [] sr) (request_rows sorted_list_of_set (mark_request [] sr)) False 10 = Inr d \<and>
     get_email_notification_trigger d 12 (10 \<in> set (get_active_presence_idle_user_ids quiet_env 12 notifs)) =
       get_email_notification_trigger d 12 True"
proof -
  obtain sr where sr: "build_message_send_dict sample_send_db group_mention (Inr no_mentions) secret_message (Some core_team) None None None False = Inr sr"
    and b: "built sr" and m: "sr_message sr = secret_message" "sr_stream sr = Some core_team" by (rule sample_request_ok)
  let ?rows = "request_rows sorted_list_of_set (mark_request [] sr)"
  have ok: "\<exists>d. request_notif (mark_request [] sr) ?rows False uid = Inr d" for uid
    by (rule request_notif_ok [OF b]) simp
  obtain notifs where ns: "request_notifs sorted_list_of_set (mark_request [] sr) ?rows False = Inr notifs"
    using emap_total [of _ "request_notif (mark_request [] sr) ?rows False"] ok
    unfolding request_notifs_def request_notif_def by blast
  obtain d where d: "request_notif (mark_request [] sr) ?rows False 10 = Inr d" using ok by blast
  have "case sample_request no_mentions of Inl _ \<Rightarrow> False | Inr sr \<Rightarrow> 10 \<in> ri_active (sr_info sr)" by code_simp
  then have u: "10 \<in> event_user_ids sr ?rows" using sr by (simp add: sample_request_def event_user_ids_def)
  have "\<not> se_presence_disabled quiet_env" "10 \<notin> se_recently_active quiet_env" by (simp_all add: quiet_env_def)
  with presence_filter_exact [OF b iterates_sorted _ ns u d, of quiet_env False] sr ns d show ?thesis
    unfolding sample_request_def by (auto simp: m secret_message_channel)
qed

theorem message_reaches_audience_witness:
  "\<exists>sr db' n. sample_request no_mentions = Inr sr \<and>
     do_send_messages sorted_list_of_set quiet_env [] [Some sr] sample_send_db = Inr (db', [n]) \<and>
     confined {q. \<exists>d. heap one_client q = Some d \<and> user_profile_id d \<in> {10, 12, 14}} {10, 12, 14} one_client
       (snd (process_notification 1 sample_env (tornado_notice (mn_event n) (map PDict (mn_users n))) one_client))"
proof -
  obtain sr where sr: "build_message_send_dict sample_send_db group_mention (Inr no_mentions) secret_message (Some core_team) None None None False = Inr sr"
    and b: "built sr" and m: "sr_message sr = secret_message" "sr_stream sr = Some core_team" by (rule sample_request_ok)
  obtain db' n where n: "do_send_messages sorted_list_of_set quiet_env [] [Some sr] sample_send_db = Inr (db', [n])"
    using quiet_send [OF b m(2)] by blast
  have "case sample_request no_mentions of Inl _ \<Rightarrow> False | Inr sr \<Rightarrow> mentions_user_ids (sr_rendering sr) = {}" by code_simp
  then have "mentions_user_ids (sr_rendering sr) = {}" using sr by (simp add: sample_request_def)
  moreover have "message_line sample_send_db (message_recipient secret_message) 12 = {10, 12, 14}"
    by code_simp
  ultimately have i: "intended sample_send_db sr = {10, 12, 14}" by (simp add: intended_def m secret_message_channel)
  have c: "request_stream db' sr = Inr (Some core_team)" by (simp add: request_stream_def m secret_message_channel)
  have p: "\<not> is_public core_team" by code_simp
  from message_reaches_audience [OF sr iterates_sorted n subset_refl wf_one_client, of 1 sample_env] i c p
  have "confined {q. \<exists>d. heap one_client q = Some d \<and> user_profile_id d \<in> {10, 12, 14}} {10, 12, 14} one_client
       (snd (process_notification 1 sample_env (tornado_notice (mn_event n) (map PDict (mn_users n))) one_client))" by simp
  with sr n show ?thesis unfolding sample_request_def by blast
qed


end
