(* ===== verification/Spec2Isabelle.thy ===== *)
theory Spec2Isabelle
  imports RateLimiter RegisterChannels Register TopicPolicies NarrowSamples NarrowTyping SendWitnesses
begin

text \<open>
  A verification of the core of the chat server: how events reach clients, how clients register and
  catch up, who is notified, and who may read and write what.  The code is Python, under \<open>src/\<close>;
  every definition is a translation of the function of the same name unless its text says otherwise.

  \<^bold>\<open>The program.\<close>  Django processes serve requests against a database.  Changes are published as
  notices on a work queue; one Tornado process per shard consumes them (\<open>process_notification\<close>), turns
  them into events, and puts these on the event queues of connected clients, each a long poll or a
  buffer.  A client registers once (\<open>do_events_register\<close>: allocate a queue, fetch the state, apply the
  events that came in meanwhile) and then polls (\<open>fetch_events\<close>).  Queues that expire are collected,
  and messages they still held may lead to mobile and e-mail notices.  Messages are fetched by
  narrows, lists of terms that become a database query.

  \<^bold>\<open>The language.\<close>  \<open>Prelude\<close> holds exceptions as values of a sum (\<open>'a res\<close>), the JSON-like values
  (\<open>py\<close>) and the string and dictionary operations; \<open>Effects\<close> the statements that change shared state
  and may raise, where an exception undoes nothing, with weakest preconditions.  Integers are
  unbounded as in Python.  Times of the rate limiter are reals.

  \<^bold>\<open>The theories, by part of the program.\<close>
  \<^item> Requests: \<open>Validators\<close> (\<^verbatim>\<open>lib/validator.py\<close>; the locale \<open>validator\<close> is the contract of a
    checker, interpreted on each), \<open>RateLimiter\<close> (\<^verbatim>\<open>lib/rate_limiter.py\<close>; locale \<open>limiter_backend\<close>).
  \<^item> Event queues: \<open>EventQueue\<close> (the class \<open>EventQueue\<close>; locale \<open>event_log\<close> is the abstract log with
    acknowledgements that polling needs), \<open>ClientDescriptor\<close>, \<open>TornadoState\<close> (the tables of a process
    and every operation on them; locale \<open>gc_contract\<close> for hooks), \<open>LongPoll\<close> (what polling answers).
  \<^item> Events: \<open>NarrowPredicate\<close>, \<open>MessagePayload\<close>, \<open>NotificationData\<close> (locale
    \<open>notification_channel\<close>), \<open>MissedMessages\<close>, \<open>EventProcessing\<close> (the consumers), \<open>TornadoServer\<close>
    (all steps of a process and the invariant of the reachable states), \<open>Sharding\<close> (several processes).
  \<^item> Registration: \<open>Permissions\<close>, \<open>Unread\<close>, \<open>RegisterState\<close>, \<open>ApplyEvents\<close>, \<open>RegisterEvents\<close>,
    \<open>RegisterChannels\<close>, \<open>Register\<close> (\<^verbatim>\<open>lib/events.py\<close>, \<^verbatim>\<open>lib/message.py\<close>).
  \<^item> Topics: \<open>TopicPolicies\<close> (the automatic visibility policies).
  \<^item> Channels and messages: \<open>ChannelAccess\<close> (\<^verbatim>\<open>lib/streams.py\<close>), \<open>MessageAccess\<close>
    (\<^verbatim>\<open>lib/message.py\<close>), over \<open>chat_db\<close>, the tables of the database as lists of records; a query is a
    filter over them.
  \<^item> Narrows: \<open>NarrowTerms\<close>, \<open>NarrowQuery\<close>, \<open>MessageFetch\<close> (\<^verbatim>\<open>lib/narrow.py\<close>,
    \<^verbatim>\<open>views/message_fetch.py\<close>); properties in \<open>NarrowSafety\<close>, \<open>NarrowErrors\<close>, \<open>NarrowWindow\<close>,
    \<open>NarrowMeaning\<close>, \<open>NarrowTyping\<close>; \<open>ChatSamples\<close> and \<open>NarrowSamples\<close> hold the sample organization and
    witnesses.
  \<^item> Sending: \<open>Recipients\<close> (who a message is for, before and after rendering, and the rows it makes),
    \<open>MessageSend\<close> (the transaction, the event and the hooks that publish it), both of
    \<^verbatim>\<open>actions/message_send.py\<close>; properties in \<open>MessageRows\<close> and in \<open>SendSafety\<close>, which composes
    sending with the event server; \<open>SendSamples\<close> and \<open>SendWitnesses\<close> hold a sample message.  The order in which
    Python iterates over a set is the parameter \<open>elems\<close>.

  \<^bold>\<open>What is shown.\<close>
  \<^item> Delivery: a queue delivers each pushed fact exactly once and in order whatever answers are lost;
    \<open>contents\<close>, \<open>prune\<close> and \<open>push\<close> are exact; honest polls never fail, foreign polls always do;
    collection removes exactly the expired queues; in every reachable state of a process, failing
    notices included, its tables agree; notices affect only those they name.
  \<^item> Registration: it has no gap and no overlap; \<open>apply_events\<close> refines abstract maps of the unread
    messages and of the channels.
  \<^item> Sending: rows and their flags are exactly those due, and the query that leaves out idle
    subscribers loses none of them under its assumptions; the event server reads back the sets Django
    decided on, and its triggers are those the presence of everybody would give; sending does not
    fail half way; a message reaches only its audience.
  \<^item> Processes: each event is published once for each of its users on the right queue; a remote
    deletion has the effect of a local one.
  \<^item> Access: three implementations of message access agree with one specification; who may post is
    exact; the message view shows nobody a message they are not entitled to, for every narrow; its
    window is exact, its errors are those of the narrow, negation complements; links find messages
    and reveal nothing.
  \<^item> Limits and notifications: rate limits are bounds on every window; a message notifies at most
    once; automatic policies never make a topic less visible.

  \<^bold>\<open>Loops.\<close>  No definition uses fuel.  The search for tokens and the loops of the rate limiter are
  functions with a measure; the retry loop of the Redis transaction is bounded by the code itself.

  \<^bold>\<open>Not modelled.\<close>  Rendering (third-party Markdown), billing and authentication (their libraries are
  not part of the repository), import and export, the editing of messages, the workers
  that send e-mail and push notifications, integrations, analytics and development tools.  Within
  the modelled parts attachments, widgets, link previews and the welcome bot are left out, and the
  following are parameters: what full-text search finds, the rows fetched at
  registration, URL validation, the Tor exit nodes, avatar URLs, the answers of other processes.
  SHA-1 hashes of recipient groups stand for the sets of users they identify.
\<close>

end
